(* ===== verification/Prelude.thy ===== *)
theory Prelude
  imports Complex_Main
begin

text \<open>
  Shared vocabulary of the development.

  \<^item> Results: a TypeScript function that may throw is a function into \<open>'e + 'a\<close>, with \<open>Inl\<close>
    for the thrown error; \<open>res_bind\<close> sequences two such calls the way consecutive statements do.
  \<^item> Numbers: \<open>jsnum\<close> is the IEEE view of a JavaScript \<open>number\<close> that the sources rely on
    (finite values, the two infinities, NaN, and comparisons that are false on NaN). Finite values
    are exact rationals: rounding is not modelled. A \<open>bigint\<close> is an \<open>int\<close>, and its division
    truncates towards zero.
  \<^item> Strings: \<open>toLowerCase\<close> on ASCII text, decimal printing and parsing of integers, and the
    character classes the schemas' regular expressions use.
  \<^item> State machines: two interface locales for the transition tables of the program, with the
    facts about runs that every table shares.
\<close>

named_theorems guard_simps \<open>unfolding equations of the guard functions\<close>

section \<open>Results\<close>

definition res_bind :: "'e + 'a \<Rightarrow> ('a \<Rightarrow> 'e + 'b) \<Rightarrow> 'e + 'b" where
  "res_bind m f = (case m of Inl e \<Rightarrow> Inl e | Inr x \<Rightarrow> f x)"

lemma res_bind_simps [simp]:
  "res_bind (Inl e) f = Inl e"
  "res_bind (Inr x) f = f x"
  by (simp_all add: res_bind_def)

lemma res_bind_Inr_iff: "res_bind m f = Inr y \<longleftrightarrow> (\<exists>x. m = Inr x \<and> f x = Inr y)"
  by (cases m) auto

lemma res_bind_Inl_iff: "res_bind m f = Inl e \<longleftrightarrow> m = Inl e \<or> (\<exists>x. m = Inr x \<and> f x = Inl e)"
  by (cases m) auto

definition ensure :: "bool \<Rightarrow> 'e \<Rightarrow> 'e + unit" where
  "ensure b e = (if b then Inr () else Inl e)"

lemma ensure_iff [simp]:
  "ensure b e = Inr u \<longleftrightarrow> b"
  "ensure b e = Inl e' \<longleftrightarrow> \<not> b \<and> e' = e"
  by (auto simp: ensure_def)

definition succeeds :: "'e + 'a \<Rightarrow> bool" where
  "succeeds r = (case r of Inl _ \<Rightarrow> False | Inr _ \<Rightarrow> True)"

lemma succeeds_simps [simp]:
  "succeeds (Inr x)"
  "\<not> succeeds (Inl e)"
  by (simp_all add: succeeds_def)

lemma succeeds_iff: "succeeds r \<longleftrightarrow> (\<exists>x. r = Inr x)"
  by (cases r) auto

lemma succeedsE:
  assumes "succeeds r"
  obtains x where "r = Inr x"
  using assms by (cases r) auto

text \<open>A \<open>for\<close> loop whose body may throw: the first error stops it.\<close>

fun for_each :: "('a \<Rightarrow> 'e + unit) \<Rightarrow> 'a list \<Rightarrow> 'e + unit" where
  "for_each f [] = Inr ()"
| "for_each f (x # xs) = res_bind (f x) (\<lambda>_. for_each f xs)"

lemma for_each_iff: "for_each f xs = Inr () \<longleftrightarrow> (\<forall>x \<in> set xs. f x = Inr ())"
  by (induction xs) (auto simp: res_bind_Inr_iff)

text \<open>The first rule of an ordered rule list whose guard holds, with a default.\<close>

fun first_match :: "(bool \<times> 'a) list \<Rightarrow> 'a \<Rightarrow> 'a" where
  "first_match [] d = d"
| "first_match ((b, x) # rs) d = (if b then x else first_match rs d)"

lemma find_distinct: "distinct (map f xs) \<Longrightarrow> x \<in> set xs \<Longrightarrow> find (\<lambda>y. f y = f x) xs = Some x"
  by (induction xs) (auto simp: image_iff)

lemma list_ex_key: "list_ex (\<lambda>a. f a = x) as \<longleftrightarrow> x \<in> f ` set as"
  by (induction as) auto

lemma list_ex_map_filter [simp]: "list_ex P (map f (filter Q xs)) \<longleftrightarrow> (\<exists>x \<in> set xs. Q x \<and> P (f x))"
  by (induction xs) auto

lemma list_ex_concat_map [simp]: "list_ex P (concat (map f xs)) \<longleftrightarrow> (\<exists>x \<in> set xs. list_ex P (f x))"
  by (induction xs) auto

lemma first_match_none: "\<forall>(b, x) \<in> set rs. \<not> b \<Longrightarrow> first_match rs d = d"
  by (induction rs) auto

lemma first_match_in: "first_match rs d = d \<or> (True, first_match rs d) \<in> set rs"
  by (induction rs d rule: first_match.induct) auto

section \<open>JavaScript numbers\<close>

datatype jsnum = NaN | PosInf | NegInf | Fin rat

definition isFinite :: "jsnum \<Rightarrow> bool" where
  "isFinite x = (case x of Fin _ \<Rightarrow> True | _ \<Rightarrow> False)"

lemma isFinite_simps [simp]:
  "isFinite (Fin q)" "\<not> isFinite NaN" "\<not> isFinite PosInf" "\<not> isFinite NegInf"
  by (simp_all add: isFinite_def)

lemma isFiniteE:
  assumes "isFinite x"
  obtains q where "x = Fin q"
  using assms by (cases x) auto

fun js_less :: "jsnum \<Rightarrow> jsnum \<Rightarrow> bool" where
  "js_less NaN y = False"
| "js_less x NaN = False"
| "js_less PosInf y = False"
| "js_less x NegInf = False"
| "js_less NegInf y = True"
| "js_less (Fin a) PosInf = True"
| "js_less (Fin a) (Fin b) = (a < b)"

text \<open>Strict equality of numbers: NaN differs from itself.\<close>

fun js_eq :: "jsnum \<Rightarrow> jsnum \<Rightarrow> bool" where
  "js_eq NaN y = False"
| "js_eq (Fin a) (Fin b) = (a = b)"
| "js_eq PosInf PosInf = True"
| "js_eq NegInf NegInf = True"
| "js_eq x y = False"

fun js_add :: "jsnum \<Rightarrow> jsnum \<Rightarrow> jsnum" where
  "js_add (Fin a) (Fin b) = Fin (a + b)"
| "js_add NaN y = NaN"
| "js_add x NaN = NaN"
| "js_add PosInf NegInf = NaN"
| "js_add NegInf PosInf = NaN"
| "js_add PosInf y = PosInf"
| "js_add NegInf y = NegInf"
| "js_add (Fin a) y = y"

fun js_neg :: "jsnum \<Rightarrow> jsnum" where
  "js_neg NaN = NaN"
| "js_neg PosInf = NegInf"
| "js_neg NegInf = PosInf"
| "js_neg (Fin a) = Fin (- a)"

definition js_sub :: "jsnum \<Rightarrow> jsnum \<Rightarrow> jsnum" where
  "js_sub x y = js_add x (js_neg y)"

lemma js_sub_Fin [simp]: "js_sub (Fin a) (Fin b) = Fin (a - b)"
  by (simp add: js_sub_def)

text \<open>Multiplication by, and division by, a positive finite constant: the only uses in the program.\<close>

fun js_scale :: "rat \<Rightarrow> jsnum \<Rightarrow> jsnum" where
  "js_scale c (Fin a) = Fin (c * a)"
| "js_scale c x = x"

fun js_floor :: "jsnum \<Rightarrow> jsnum" where
  "js_floor (Fin a) = Fin (of_int \<lfloor>a\<rfloor>)"
| "js_floor x = x"

lemma js_less_irrefl [simp]: "\<not> js_less x x"
  by (cases x) auto

lemma js_less_trans: "js_less x y \<Longrightarrow> js_less y z \<Longrightarrow> js_less x z"
  by (cases x; cases y; cases z) auto

text \<open>Division of two bigints, truncating towards zero; the divisor is never zero in the program.\<close>

definition bigint_div :: "int \<Rightarrow> int \<Rightarrow> int" where
  "bigint_div a b = sgn a * sgn b * (\<bar>a\<bar> div \<bar>b\<bar>)"

lemma bigint_div_nonneg [simp]: "0 \<le> a \<Longrightarrow> 0 < b \<Longrightarrow> bigint_div a b = a div b"
  by (cases "a = 0") (simp_all add: bigint_div_def)

lemma bigint_div_one [simp]: "bigint_div a 1 = a"
  by (simp add: bigint_div_def sgn_mult_abs)

lemma bigint_div_mono:
  assumes "a \<le> b" and "0 < c"
  shows "bigint_div a c \<le> bigint_div b c"
proof -
  consider "0 \<le> a" | "a < 0" "0 \<le> b" | "b < 0" "a < 0"
    using assms by linarith
  then show ?thesis
  proof cases
    case 1
    with assms show ?thesis by (simp add: zdiv_mono1)
  next
    case 2
    have "bigint_div a c \<le> 0"
      using 2 assms by (simp add: bigint_div_def pos_imp_zdiv_nonneg_iff)
    moreover have "0 \<le> bigint_div b c"
      using 2 assms by (simp add: pos_imp_zdiv_nonneg_iff)
    ultimately show ?thesis by linarith
  next
    case 3
    then have "(- b) div c \<le> (- a) div c"
      using assms by (intro zdiv_mono1) auto
    with 3 assms show ?thesis by (simp add: bigint_div_def)
  qed
qed

section \<open>Strings\<close>

definition lower_char :: "char \<Rightarrow> char" where
  "lower_char c = (let n = of_char c :: nat in if 65 \<le> n \<and> n \<le> 90 then char_of (n + 32) else c)"

definition toLowerCase :: "string \<Rightarrow> string" where
  "toLowerCase s = map lower_char s"

lemma lower_char_idem [simp]: "lower_char (lower_char c) = lower_char c"
  by (simp add: lower_char_def Let_def of_char_of)

lemma toLowerCase_idem [simp]: "toLowerCase (toLowerCase s) = toLowerCase s"
  by (simp add: toLowerCase_def)

lemma length_toLowerCase [simp]: "length (toLowerCase s) = length s"
  by (simp add: toLowerCase_def)

text \<open>Character classes.\<close>

definition in_range :: "nat \<Rightarrow> nat \<Rightarrow> char \<Rightarrow> bool" where
  "in_range lo hi c = (lo \<le> (of_char c :: nat) \<and> (of_char c :: nat) \<le> hi)"

definition is_digit :: "char \<Rightarrow> bool" where
  "is_digit c = in_range 48 57 c"

definition is_lower :: "char \<Rightarrow> bool" where
  "is_lower c = in_range 97 122 c"

definition is_lower_hex :: "char \<Rightarrow> bool" where
  "is_lower_hex c = (is_digit c \<or> in_range 97 102 c)"

definition is_hex :: "char \<Rightarrow> bool" where
  "is_hex c = (is_lower_hex c \<or> in_range 65 70 c)"

lemmas char_class_defs = in_range_def is_digit_def is_lower_def is_lower_hex_def is_hex_def

definition all_digits :: "string \<Rightarrow> bool" where
  "all_digits s = (s \<noteq> [] \<and> list_all is_digit s)"

definition startsWith :: "string \<Rightarrow> string \<Rightarrow> bool" where
  "startsWith s p = (take (length p) s = p)"

definition endsWith :: "string \<Rightarrow> string \<Rightarrow> bool" where
  "endsWith s p = (length p \<le> length s \<and> drop (length s - length p) s = p)"

text \<open>\<open>includes\<close> on strings.\<close>

definition contains :: "string \<Rightarrow> string \<Rightarrow> bool" where
  "contains s p = list_ex (\<lambda>i. startsWith (drop i s) p) [0..<Suc (length s)]"

lemma startsWith_length: "startsWith s p \<Longrightarrow> length p \<le> length s"
  by (metis startsWith_def length_take min.cobounded1)

text \<open>\<open>split\<close> on a character.\<close>

fun split_on :: "char \<Rightarrow> string \<Rightarrow> string list" where
  "split_on c [] = [[]]"
| "split_on c (x # xs) = (if x = c then [] # split_on c xs
     else case split_on c xs of [] \<Rightarrow> [[x]] | y # ys \<Rightarrow> (x # y) # ys)"

lemma split_on_none: "c \<notin> set s \<Longrightarrow> split_on c s = [s]"
  by (induction s) auto

lemma split_on_append: "c \<notin> set s \<Longrightarrow> split_on c (s @ c # t) = s # split_on c t"
  by (induction s) auto

lemma startsWith_set: "startsWith s p \<Longrightarrow> set p \<subseteq> set s"
  by (metis startsWith_def set_take_subset)

text \<open>\<open>join\<close> of an array of strings.\<close>

fun join :: "string \<Rightarrow> string list \<Rightarrow> string" where
  "join sep [] = []"
| "join sep [x] = x"
| "join sep (x # y # xs) = x @ sep @ join sep (y # xs)"

text \<open>Decimal text of an integer, and its inverse on digit strings (\<open>BigInt(s)\<close>, \<open>n.toString()\<close>).\<close>

fun show_nat :: "nat \<Rightarrow> string" where
  "show_nat n = (if n < 10 then [char_of (48 + n)] else show_nat (n div 10) @ [char_of (48 + n mod 10)])"

declare show_nat.simps [simp del]

definition show_int :: "int \<Rightarrow> string" where
  "show_int i = (if i < 0 then CHR ''-'' # show_nat (nat (- i)) else show_nat (nat i))"

definition digit_value :: "char \<Rightarrow> nat" where
  "digit_value c = of_char c - 48"

definition parse_nat :: "string \<Rightarrow> nat" where
  "parse_nat s = foldl (\<lambda>acc c. acc * 10 + digit_value c) 0 s"

lemma of_char_digit: "d < 10 \<Longrightarrow> (of_char (char_of (48 + d) :: char) :: nat) = 48 + d"
  by (simp add: of_char_of)

lemma is_digit_char_of [simp]: "d < 10 \<Longrightarrow> is_digit (char_of (48 + d :: nat))"
  by (simp add: is_digit_def in_range_def of_char_digit)

lemma digit_value_char_of [simp]: "d < 10 \<Longrightarrow> digit_value (char_of (48 + d :: nat)) = d"
  by (simp add: digit_value_def of_char_digit)

lemma parse_nat_snoc: "parse_nat (s @ [c]) = parse_nat s * 10 + digit_value c"
  by (simp add: parse_nat_def)

lemma all_digits_show_nat: "all_digits (show_nat n)"
proof (induction n rule: show_nat.induct)
  case (1 n)
  then show ?case
    by (cases "n < 10") (simp_all add: show_nat.simps [of n] all_digits_def)
qed

lemma parse_show_nat [simp]: "parse_nat (show_nat n) = n"
proof (induction n rule: show_nat.induct)
  case (1 n)
  show ?case
  proof (cases "n < 10")
    case True
    then show ?thesis by (simp add: show_nat.simps [of n] parse_nat_def)
  next
    case False
    then have "parse_nat (show_nat n) = parse_nat (show_nat (n div 10)) * 10 + n mod 10"
      by (simp add: show_nat.simps [of n] parse_nat_snoc)
    also have "\<dots> = n"
      using "1.IH" False by simp
    finally show ?thesis .
  qed
qed

lemma show_nat_inject [simp]: "show_nat m = show_nat n \<longleftrightarrow> m = n"
  by (metis parse_show_nat)

lemma show_nat_nonempty [simp]: "show_nat n \<noteq> []"
  using all_digits_show_nat [of n] by (simp add: all_digits_def)

lemma hd_show_nat_not_minus: "hd (show_nat n) \<noteq> CHR ''-''"
proof -
  have "is_digit (hd (show_nat n))"
    using all_digits_show_nat [of n] by (cases "show_nat n") (auto simp: all_digits_def)
  then show ?thesis
    by (auto simp: char_class_defs)
qed

lemma show_int_inject [simp]: "show_int i = show_int j \<longleftrightarrow> i = j"
proof
  assume eq: "show_int i = show_int j"
  have neg: "x < 0 \<longleftrightarrow> hd (show_int x) = CHR ''-''" for x
    by (simp add: show_int_def hd_show_nat_not_minus)
  from eq have "i < 0 \<longleftrightarrow> j < 0"
    by (simp add: neg)
  with eq show "i = j"
    by (auto simp: show_int_def split: if_splits)
qed simp

text \<open>\<open>trim\<close>, and \<open>padStart(n, "0")\<close>.\<close>

definition is_space :: "char \<Rightarrow> bool" where
  "is_space c = ((of_char c :: nat) \<in> {9, 10, 11, 12, 13, 32, 160})"

definition trim :: "string \<Rightarrow> string" where
  "trim s = rev (dropWhile is_space (rev (dropWhile is_space s)))"

lemma trim_solid: "\<forall>c \<in> set s. \<not> is_space c \<Longrightarrow> trim s = s"
proof -
  assume "\<forall>c \<in> set s. \<not> is_space c"
  then have "dropWhile is_space u = u" if "set u = set s" for u
    using that by (cases u) auto
  then show ?thesis by (simp add: trim_def)
qed

definition padStart :: "nat \<Rightarrow> string \<Rightarrow> string" where
  "padStart n s = replicate (n - length s) (CHR ''0'') @ s"

lemma parse_nat_zeros: "parse_nat (replicate k (CHR ''0'') @ s) = parse_nat s"
  by (induction k) (simp_all add: parse_nat_def digit_value_def)

lemma padStart_inject: "padStart n (show_nat a) = padStart n (show_nat b) \<longleftrightarrow> a = b"
  by (metis padStart_def parse_nat_zeros parse_show_nat)

section \<open>Maps\<close>

text \<open>A \<open>Map\<close> in insertion order: an update keeps its place, a new key goes to the end.\<close>

fun map_set :: "'k \<Rightarrow> 'v \<Rightarrow> ('k \<times> 'v) list \<Rightarrow> ('k \<times> 'v) list" where
  "map_set k v [] = [(k, v)]"
| "map_set k v ((k', v') # m) = (if k = k' then (k, v) # m else (k', v') # map_set k v m)"

lemma map_of_map_set: "map_of (map_set k v m) = (map_of m)(k \<mapsto> v)"
  by (induction m) auto

lemma map_set_keys: "set (map fst (map_set k v m)) = insert k (set (map fst m))"
proof (induction m)
  case (Cons a m)
  then show ?case by (cases a) (simp add: insert_commute)
qed simp

lemma map_set_distinct: "distinct (map fst m) \<Longrightarrow> distinct (map fst (map_set k v m))"
proof (induction m)
  case (Cons a m)
  then show ?case using map_set_keys [of k v m] by (cases a) auto
qed simp

lemma map_set_new: "k \<notin> set (map fst m) \<Longrightarrow> map_set k v m = m @ [(k, v)]"
  by (induction m) auto

text \<open>\<open>delete\<close>.\<close>

definition map_delete :: "'k \<Rightarrow> ('k \<times> 'v) list \<Rightarrow> ('k \<times> 'v) list" where
  "map_delete k m = filter (\<lambda>e. fst e \<noteq> k) m"

lemma map_of_map_delete: "map_of (map_delete k m) = (map_of m)(k := None)"
  by (induction m) (auto simp: map_delete_def fun_eq_iff)

lemma map_delete_distinct: "distinct (map fst m) \<Longrightarrow> distinct (map fst (map_delete k m))"
  by (simp add: map_delete_def distinct_map_filter)

section \<open>JSON\<close>

datatype json =
    JNull
  | JBool bool
  | JNum jsnum
  | JStr string
  | JArr "json list"
  | JObj "(string \<times> json) list"

text \<open>\<open>JSON.stringify\<close> of a string, and of an object whose values are strings.\<close>

definition hex_digit :: "nat \<Rightarrow> char" where
  "hex_digit n = (if n < 10 then char_of (48 + n) else char_of (87 + n))"

definition json_escape :: "char \<Rightarrow> string" where
  "json_escape c =
    (let n = of_char c :: nat in
     if n = 34 then [char_of (92::nat), c]
     else if n = 92 then [c, c]
     else if n = 8 then [char_of (92::nat), CHR ''b'']
     else if n = 9 then [char_of (92::nat), CHR ''t'']
     else if n = 10 then [char_of (92::nat), CHR ''n'']
     else if n = 12 then [char_of (92::nat), CHR ''f'']
     else if n = 13 then [char_of (92::nat), CHR ''r'']
     else if n < 32 then [char_of (92::nat), CHR ''u'', CHR ''0'', CHR ''0'', hex_digit (n div 16), hex_digit (n mod 16)]
     else [c])"

definition json_quote :: "string \<Rightarrow> string" where
  "json_quote s = CHR 0x22 # concat (map json_escape s) @ [CHR 0x22]"

definition stringify_strings :: "(string \<times> string) list \<Rightarrow> string" where
  "stringify_strings kvs = ''{'' @ join '','' (map (\<lambda>(k, x). json_quote k @ '':'' @ json_quote x) kvs) @ ''}''"

section \<open>Transition tables\<close>

text \<open>
  Interface of a transition table: which moves are permitted, and which states are terminal. The
  law is the one every table of the program states in a comment or a predicate: a terminal state
  is one without a successor.
\<close>

locale transition_table =
  fixes can :: "'s \<Rightarrow> 's \<Rightarrow> bool"
    and terminal :: "'s \<Rightarrow> bool"
  assumes terminal_iff: "terminal s \<longleftrightarrow> (\<forall>t. \<not> can s t)"
begin

lemma terminal_run:
  assumes "can\<^sup>*\<^sup>* s t" and "terminal s"
  shows "t = s"
  using assms by (induction rule: converse_rtranclp_induct) (auto simp: terminal_iff)

text \<open>
  A gate: when every move into \<open>b\<close> starts in \<open>a\<close>, a run that ends in \<open>b\<close> without starting there
  has been in \<open>a\<close>.
\<close>

lemma gate:
  assumes run: "can\<^sup>*\<^sup>* s b" and ne: "s \<noteq> b"
    and into: "\<And>x. can x b \<Longrightarrow> x = a"
  shows "can\<^sup>*\<^sup>* s a \<and> can a b"
proof -
  from run ne obtain x where "can\<^sup>*\<^sup>* s x" and "can x b"
    by (auto elim: rtranclp.cases)
  with into [of x] show ?thesis by simp
qed

text \<open>A set of states no move leaves is never left.\<close>

lemma closed_run:
  assumes "can\<^sup>*\<^sup>* s t" and "s \<in> S" and "\<And>x y. x \<in> S \<Longrightarrow> can x y \<Longrightarrow> y \<in> S"
  shows "t \<in> S"
  using assms by (induction rule: rtranclp_induct) auto

end

text \<open>Tables whose moves strictly decrease a rank: every run is finite and no state recurs.\<close>

locale ranked_table = transition_table +
  fixes rank :: "'a \<Rightarrow> nat"
  assumes rank_decreases: "can s t \<Longrightarrow> rank t < rank s"
begin

lemma rank_run:
  assumes "can\<^sup>+\<^sup>+ s t"
  shows "rank t < rank s"
  using assms by (induction rule: tranclp_induct) (auto dest: rank_decreases)

lemma no_cycle: "\<not> can\<^sup>+\<^sup>+ s s"
  using rank_run by blast

text \<open>A run given as the list of states it visits after \<open>s\<close> is at most \<open>rank s\<close> long.\<close>

lemma run_bound:
  assumes "successively can (s # ts)"
  shows "length ts \<le> rank s"
  using assms
proof (induction ts arbitrary: s)
  case Nil
  then show ?case by simp
next
  case (Cons t ts)
  then have "length ts \<le> rank t" and "rank t < rank s"
    by (auto dest: rank_decreases)
  then show ?case by simp
qed

lemma reaches_terminal: "\<exists>t. can\<^sup>*\<^sup>* s t \<and> terminal t"
proof (induction "rank s" arbitrary: s rule: less_induct)
  case less
  show ?case
  proof (cases "terminal s")
    case True
    then show ?thesis by blast
  next
    case False
    then obtain t where "can s t" by (auto simp: terminal_iff)
    with less [OF rank_decreases] show ?thesis
      by (meson converse_rtranclp_into_rtranclp)
  qed
qed

end

section \<open>Single use\<close>

text \<open>The calls of a sequence that begin something, where a call may also be refused or answered from memory.\<close>

fun begun :: "('q \<Rightarrow> 's \<Rightarrow> bool) \<Rightarrow> ('q \<Rightarrow> 's \<Rightarrow> 's) \<Rightarrow> 'q list \<Rightarrow> 's \<Rightarrow> 'q list" where
  "begun begins step [] s = []"
| "begun begins step (q # qs) s = (if begins q s then q # begun begins step qs (step q s) else begun begins step qs (step q s))"

text \<open>The contract of a store of keys that are used up: a call begins only with a key that is not known,
  which then is, and no key is ever forgotten.\<close>

locale single_use =
  fixes begins :: "'q \<Rightarrow> 's \<Rightarrow> bool"
    and step :: "'q \<Rightarrow> 's \<Rightarrow> 's"
    and key :: "'q \<Rightarrow> 'k"
    and known :: "'s \<Rightarrow> 'k set"
  assumes fresh: "begins q s \<Longrightarrow> key q \<notin> known s"
    and used: "begins q s \<Longrightarrow> key q \<in> known (step q s)"
    and kept: "known s \<subseteq> known (step q s)"
begin

lemma known_mono: "known s \<subseteq> known (fold step qs s)"
  by (induction qs arbitrary: s) (auto dest: subsetD [OF kept])

lemma begun_fresh: "key ` set (begun begins step qs s) \<inter> known s = {}"
proof (induction qs arbitrary: s)
  case (Cons q qs)
  then show ?case using fresh [of q s] kept [of s q] Cons [of "step q s"] by auto
qed simp

lemma begun_once: "distinct (map key (begun begins step qs s))"
proof (induction qs arbitrary: s)
  case (Cons q qs)
  then show ?case using begun_fresh [of qs "step q s"] used [of q s] by auto
qed simp

lemma begun_known: "key ` set (begun begins step qs s) \<subseteq> known (fold step qs s)"
proof (induction qs arbitrary: s)
  case (Cons q qs)
  then show ?case using used [of q s] known_mono [of "step q s" qs] by auto
qed simp

lemma no_second_use: "q \<in> set (begun begins step qs s) \<Longrightarrow> key q' = key q \<Longrightarrow> \<not> begins q' (fold step qs s)"
  using begun_known [of qs s] fresh [of q' "fold step qs s"] by auto

end

end
