(* ===== verification/Canonical.thy ===== *)
theory Canonical
  imports Prelude "HOL-Library.List_Lexorder" "HOL-Library.Char_ord"
begin

text \<open>
  Deterministic serialization, as \<open>canonicalize\<close> of \<open>packages/studio-plan/src/hash.ts\<close> has it: keys
  sorted at every level, then \<open>JSON.stringify\<close>. The decimal text of a number is the language's and a
  parameter here. The main result is that the serialization loses nothing but the order of keys, so
  that a hash of it can bind a value. An object is the list of its own properties; keys that spell
  array indices, which the language enumerates first, are not singled out.
\<close>

section \<open>JSON.stringify\<close>

definition print_num :: "(jsnum \<Rightarrow> string) \<Rightarrow> jsnum \<Rightarrow> string" where
  "print_num num n = (if isFinite n then num n else ''null'')"

fun stringify :: "(jsnum \<Rightarrow> string) \<Rightarrow> json \<Rightarrow> string" where
  "stringify num JNull = ''null''"
| "stringify num (JBool b) = (if b then ''true'' else ''false'')"
| "stringify num (JNum n) = print_num num n"
| "stringify num (JStr s) = json_quote s"
| "stringify num (JArr xs) = ''['' @ join '','' (map (stringify num) xs) @ '']''"
| "stringify num (JObj kvs) =
     ''{'' @ join '','' (map (\<lambda>(k, x). json_quote k @ '':'' @ stringify num x) kvs) @ ''}''"

text \<open>\<open>walk\<close>: own keys in code-unit order, at every level.\<close>

fun walk :: "json \<Rightarrow> json" where
  "walk (JArr xs) = JArr (map walk xs)"
| "walk (JObj kvs) = JObj (sort_key fst (map (\<lambda>(k, x). (k, walk x)) kvs))"
| "walk v = v"

definition canonicalize :: "(jsnum \<Rightarrow> string) \<Rightarrow> json \<Rightarrow> string" where
  "canonicalize num v = stringify num (walk v)"

section \<open>What the language documents of number texts\<close>

definition number_text :: "(jsnum \<Rightarrow> string) \<Rightarrow> bool" where
  "number_text num \<longleftrightarrow>
     (\<forall>n. isFinite n \<longrightarrow> num n \<noteq> [] \<and> set (num n) \<subseteq> set ''0123456789-+.e'' \<and> hd (num n) \<in> set ''0123456789-'') \<and>
     (\<forall>m n. isFinite m \<longrightarrow> isFinite n \<longrightarrow> num m = num n \<longrightarrow> m = n)"

text \<open>Values that survive JSON: only finite numbers.\<close>

fun json_finite :: "json \<Rightarrow> bool" where
  "json_finite (JNum n) = isFinite n"
| "json_finite (JArr xs) = (\<forall>x \<in> set xs. json_finite x)"
| "json_finite (JObj kvs) = (\<forall>p \<in> set kvs. json_finite (snd p))"
| "json_finite v = True"

section \<open>Strings are a prefix code\<close>

definition hex_value :: "char \<Rightarrow> nat" where
  "hex_value c = (if of_char c < (58::nat) then of_char c - 48 else of_char c - 87)"

lemma hex_value_digit: "n < 16 \<Longrightarrow> hex_value (hex_digit n) = n"
  by (simp add: hex_value_def hex_digit_def)

fun unescape :: "string \<Rightarrow> char \<times> string" where
  "unescape (c # x) =
    (if of_char c \<noteq> (92::nat) then (c, x)
     else case x of
       [] \<Rightarrow> (c, x)
     | d # y \<Rightarrow>
         if d = CHR ''b'' then (char_of (8::nat), y) else if d = CHR ''t'' then (char_of (9::nat), y)
         else if d = CHR ''n'' then (char_of (10::nat), y) else if d = CHR ''f'' then (char_of (12::nat), y)
         else if d = CHR ''r'' then (char_of (13::nat), y)
         else if d = CHR ''u'' then (char_of (16 * hex_value (y ! 2) + hex_value (y ! 3)), drop 4 y)
         else (d, y))"
| "unescape [] = (CHR 0x00, [])"

lemma char_codes [simp]: "char_of (34::nat) = CHR 0x22" "char_of (92::nat) = CHR 0x5C"
  by code_simp+

lemma unescape_escape: "unescape (json_escape c @ x) = (c, x)"
proof -
  define n where "n = (of_char c :: nat)"
  have c: "c = char_of n" by (simp add: n_def)
  have small: "char_of (16 * hex_value (hex_digit (n div 16)) + hex_value (hex_digit (n mod 16))) = c" if "n < 32"
    using that by (simp add: hex_value_digit c)
  consider "n = 34" | "n = 92" | "n \<in> {8, 9, 10, 12, 13}" | "n < 32" "n \<notin> {8, 9, 10, 12, 13}"
    | "32 \<le> n" "n \<noteq> 34" "n \<noteq> 92" by fastforce
  then show ?thesis
  proof cases
    case 1
    then show ?thesis unfolding json_escape_def by (simp add: c)
  next
    case 2
    then show ?thesis unfolding json_escape_def by (simp add: c)
  next
    case 3
    then show ?thesis unfolding json_escape_def by (auto simp: c)
  next
    case 4
    then show ?thesis using small [OF 4(1)] unfolding json_escape_def by (auto simp: n_def Let_def)
  next
    case 5
    then show ?thesis unfolding json_escape_def by (simp add: n_def)
  qed
qed

lemma escape_prefix: "json_escape c @ x = json_escape d @ y \<Longrightarrow> c = d \<and> x = y"
  by (metis unescape_escape Pair_inject)

lemma escape_start: "\<exists>e r. json_escape c = e # r \<and> e \<noteq> CHR 0x22"
  by (auto simp: json_escape_def Let_def)

lemma escapes_prefix:
  "concat (map json_escape s) @ CHR 0x22 # r = concat (map json_escape t) @ CHR 0x22 # q \<Longrightarrow> s = t \<and> r = q"
proof (induction s arbitrary: t)
  case Nil
  then show ?case using escape_start [of "hd t"] by (cases t) auto
next
  case (Cons c s)
  show ?case
  proof (cases t)
    case Nil
    with Cons.prems escape_start [of c] show ?thesis by auto
  next
    case (Cons d u)
    from Cons.prems have "json_escape c @ (concat (map json_escape s) @ CHR 0x22 # r) =
        json_escape d @ (concat (map json_escape u) @ CHR 0x22 # q)"
      by (simp add: Cons)
    from escape_prefix [OF this] Cons.IH [of u] show ?thesis by (simp add: Cons)
  qed
qed

lemma quote_prefix: "json_quote s @ r = json_quote t @ q \<Longrightarrow> s = t \<and> r = q"
  using escapes_prefix [of s r t q] by (simp add: json_quote_def)

lemma json_quote_start: "json_quote s = CHR 0x22 # concat (map json_escape s) @ [CHR 0x22]"
  by (simp add: json_quote_def)

section \<open>The serialization is injective\<close>

text \<open>What may follow a value inside a serialization, or nothing at its end.\<close>

definition delimited :: "string \<Rightarrow> bool" where
  "delimited r \<longleftrightarrow> r = [] \<or> hd r \<in> set '',]}''"

lemma delimited_simps [simp]: "delimited []" "delimited (CHR '','' # r)" "delimited (CHR '']'' # r)" "delimited (CHR ''}'' # r)"
  by (simp_all add: delimited_def)

text \<open>An element encoder that can be cut off its continuation, and does not start like an end.\<close>

definition cuts :: "('a \<Rightarrow> string) \<Rightarrow> ('a \<Rightarrow> bool) \<Rightarrow> 'a \<Rightarrow> bool" where
  "cuts f ok x \<longleftrightarrow> (\<forall>y r q. ok y \<longrightarrow> delimited r \<longrightarrow> delimited q \<longrightarrow> f x @ r = f y @ q \<longrightarrow> x = y \<and> r = q)"

lemma cutsD: "cuts f ok x \<Longrightarrow> f x @ r = f y @ q \<Longrightarrow> ok y \<Longrightarrow> delimited r \<Longrightarrow> delimited q \<Longrightarrow> x = y \<and> r = q"
  by (auto simp: cuts_def)

lemma join_Cons: "join sep (x # xs) = x @ (if xs = [] then [] else sep @ join sep xs)"
  by (cases xs) auto

lemma join_prefix:
  assumes "\<forall>x \<in> set xs. cuts f ok x" and "\<forall>y \<in> set ys. ok y"
    and closes: "c \<in> set '']}''"
    and "\<And>x. x \<in> set xs \<or> x \<in> set ys \<Longrightarrow> f x \<noteq> [] \<and> hd (f x) \<noteq> c"
    and "join '','' (map f xs) @ c # r = join '','' (map f ys) @ c # q"
  shows "xs = ys \<and> r = q"
  using assms(1,2,4,5)
proof (induction xs arbitrary: ys)
  case Nil
  then show ?case by (cases ys) (auto simp: join_Cons, (metis hd_append2 list.sel(1))+)
next
  case (Cons x xs)
  show ?case
  proof (cases ys)
    case Nil
    with Cons.prems show ?thesis by (auto simp: join_Cons, (metis hd_append2 list.sel(1))+)
  next
    case ys: (Cons y zs)
    let ?rest = "\<lambda>us. (if us = [] then [] else '','' @ join '','' (map f us))"
    have eq: "f x @ (?rest xs @ c # r) = f y @ (?rest zs @ c # q)"
      using Cons.prems(4) by (simp add: ys join_Cons)
    have del: "delimited (?rest us @ c # t)" for us t using closes by auto
    have "cuts f ok x" "ok y" using Cons.prems(1,2) ys by auto
    from cutsD [OF this(1) eq this(2) del del]
    have xy: "x = y" and rest: "?rest xs @ c # r = ?rest zs @ c # q" by auto
    have "c \<noteq> CHR '',''" using closes by auto
    with rest have "(xs = [] \<longleftrightarrow> zs = []) \<and> join '','' (map f xs) @ c # r = join '','' (map f zs) @ c # q"
      by (auto split: if_splits)
    with Cons.IH [of zs] Cons.prems(1-3) ys have "xs = zs \<and> r = q" by auto
    with xy ys show ?thesis by simp
  qed
qed

text \<open>The first character tells the constructor.\<close>

definition first_char :: "json \<Rightarrow> char set" where
  "first_char x = (case x of JNull \<Rightarrow> {CHR ''n''} | JBool b \<Rightarrow> {if b then CHR ''t'' else CHR ''f''}
     | JNum n \<Rightarrow> set ''0123456789-'' | JStr s \<Rightarrow> {CHR 0x22} | JArr xs \<Rightarrow> {CHR ''[''} | JObj kvs \<Rightarrow> {CHR ''{''})"

lemma stringify_start:
  assumes "number_text num" "json_finite x"
  shows "stringify num x \<noteq> [] \<and> hd (stringify num x) \<in> first_char x"
  using assms by (cases x) (auto simp: first_char_def print_num_def number_text_def json_quote_start)

lemma same_start:
  assumes "number_text num" "json_finite x" "json_finite y" "stringify num x @ r = stringify num y @ q"
  shows "first_char x \<inter> first_char y \<noteq> {}"
proof -
  have "hd (stringify num x) = hd (stringify num y)"
    using assms stringify_start by (metis hd_append2)
  then show ?thesis using stringify_start [OF assms(1,2)] stringify_start [OF assms(1,3)] by auto
qed

lemma number_cut:
  assumes num: "number_text num" and fin: "isFinite m" "isFinite n"
    and "delimited r" "delimited q" and eq: "num m @ r = num n @ q"
  shows "m = n \<and> r = q"
proof -
  have digits: "set (num k) \<inter> set '',]}'' = {}" if "isFinite k" for k
    using num that by (fastforce simp: number_text_def)
  have split: "takeWhile (\<lambda>c. c \<notin> set '',]}'') (num k @ t) = num k" if "isFinite k" "delimited t" for k t
  proof -
    have "takeWhile (\<lambda>c. c \<notin> set '',]}'') t = []"
      using that(2) by (cases t) (auto simp: delimited_def)
    moreover have "\<forall>c \<in> set (num k). c \<notin> set '',]}''" using digits [OF that(1)] by blast
    ultimately show ?thesis by (simp add: takeWhile_append2)
  qed
  have "num m = num n" using split [OF fin(1) assms(4)] split [OF fin(2) assms(5)] eq by simp
  with num fin eq show ?thesis by (auto simp: number_text_def)
qed

lemma stringify_cuts:
  assumes num: "number_text num"
  shows "json_finite x \<Longrightarrow> cuts (stringify num) json_finite x"
proof (induction x)
  case (JArr xs)
  show ?case
    unfolding cuts_def
  proof (intro allI impI)
    fix y r q assume y: "json_finite y" and eq: "stringify num (JArr xs) @ r = stringify num y @ q"
    from same_start [OF num JArr.prems y eq] obtain ys where ys: "y = JArr ys"
      by (cases y) (auto simp: first_char_def split: if_splits)
    have "xs = ys \<and> r = q"
    proof (rule join_prefix [of xs "stringify num" json_finite ys "CHR '']''"])
      show "\<forall>x \<in> set xs. cuts (stringify num) json_finite x" using JArr by auto
      show "\<forall>y \<in> set ys. json_finite y" using y ys by simp
      show "stringify num x \<noteq> [] \<and> hd (stringify num x) \<noteq> CHR '']''" if "x \<in> set xs \<or> x \<in> set ys" for x
      proof -
        have "json_finite x" using that JArr.prems y ys by auto
        from stringify_start [OF num this] show ?thesis
          by (cases x) (auto simp: first_char_def split: if_splits)
      qed
      show "join '','' (map (stringify num) xs) @ CHR '']'' # r = join '','' (map (stringify num) ys) @ CHR '']'' # q"
        using eq ys by simp
    qed simp
    then show "JArr xs = y \<and> r = q" by (simp add: ys)
  qed
next
  case (JObj kvs)
  let ?f = "\<lambda>(k, x). json_quote k @ '':'' @ stringify num x"
  show ?case
    unfolding cuts_def
  proof (intro allI impI)
    fix y r q assume y: "json_finite y" and eq: "stringify num (JObj kvs) @ r = stringify num y @ q"
    from same_start [OF num JObj.prems y eq] obtain lvs where ys: "y = JObj lvs"
      by (cases y) (auto simp: first_char_def split: if_splits)
    have "kvs = lvs \<and> r = q"
    proof (rule join_prefix [of kvs ?f "\<lambda>p. json_finite (snd p)" lvs "CHR ''}''"])
      show "\<forall>p \<in> set kvs. cuts ?f (\<lambda>p. json_finite (snd p)) p"
      proof
        fix p assume p: "p \<in> set kvs"
        have cut: "cuts (stringify num) json_finite (snd p)" using JObj p by (cases p) fastforce
        show "cuts ?f (\<lambda>p. json_finite (snd p)) p"
          unfolding cuts_def
        proof (intro allI impI)
          fix p' r q assume fin: "json_finite (snd p')" and del: "delimited r" "delimited q" and "?f p @ r = ?f p' @ q"
          then have "json_quote (fst p) @ ('':'' @ stringify num (snd p) @ r) =
              json_quote (fst p') @ ('':'' @ stringify num (snd p') @ q)"
            by (simp add: split_beta)
          from quote_prefix [OF this] have "fst p = fst p'" and "stringify num (snd p) @ r = stringify num (snd p') @ q"
            by auto
          with cutsD [OF cut this(2) fin del] show "p = p' \<and> r = q" by (simp add: prod_eq_iff)
        qed
      qed
      show "\<forall>p \<in> set lvs. json_finite (snd p)" using y ys by simp
      show "?f p \<noteq> [] \<and> hd (?f p) \<noteq> CHR ''}''" for p by (simp add: split_beta json_quote_start)
      show "join '','' (map ?f kvs) @ CHR ''}'' # r = join '','' (map ?f lvs) @ CHR ''}'' # q"
        using eq ys by simp
    qed simp
    then show "JObj kvs = y \<and> r = q" by (simp add: ys)
  qed
next
  case (JStr s)
  show ?case
    unfolding cuts_def
  proof (intro allI impI)
    fix y r q assume y: "json_finite y" and eq: "stringify num (JStr s) @ r = stringify num y @ q"
    from same_start [OF num JStr.prems y eq] obtain t where "y = JStr t"
      by (cases y) (auto simp: first_char_def split: if_splits)
    with eq quote_prefix [of s r t q] show "JStr s = y \<and> r = q" by simp
  qed
next
  case (JNum n)
  show ?case
    unfolding cuts_def
  proof (intro allI impI)
    fix y r q assume y: "json_finite y" and del: "delimited r" "delimited q"
      and eq: "stringify num (JNum n) @ r = stringify num y @ q"
    from same_start [OF num JNum.prems y eq] obtain m where m: "y = JNum m"
      by (cases y) (auto simp: first_char_def split: if_splits)
    with eq y JNum.prems have "num n @ r = num m @ q" and fin: "isFinite n" "isFinite m"
      by (simp_all add: print_num_def)
    from number_cut [OF num fin del this(1)] show "JNum n = y \<and> r = q" by (simp add: m)
  qed
next
  case (JBool b)
  show ?case
    unfolding cuts_def
  proof (intro allI impI)
    fix y r q assume y: "json_finite y" and eq: "stringify num (JBool b) @ r = stringify num y @ q"
    from same_start [OF num JBool.prems y eq] have "y = JBool b"
      by (cases y) (auto simp: first_char_def split: if_splits)
    with eq show "JBool b = y \<and> r = q" by simp
  qed
next
  case JNull
  show ?case
    unfolding cuts_def
  proof (intro allI impI)
    fix y r q assume y: "json_finite y" and eq: "stringify num JNull @ r = stringify num y @ q"
    from same_start [OF num JNull y eq] have "y = JNull"
      by (cases y) (auto simp: first_char_def split: if_splits)
    with eq show "JNull = y \<and> r = q" by simp
  qed
qed

lemma stringify_injective:
  assumes "number_text num" "json_finite x" "json_finite y" "stringify num x = stringify num y"
  shows "x = y"
  using cutsD [OF stringify_cuts [OF assms(1,2)], of "[]" y "[]"] assms by simp

lemma walk_finite: "json_finite x \<Longrightarrow> json_finite (walk x)"
proof (induction x)
  case (JObj kvs)
  then show ?case by (fastforce simp: split_beta)
qed auto

lemma canonicalize_injective:
  assumes "number_text num" "json_finite x" "json_finite y" "canonicalize num x = canonicalize num y"
  shows "walk x = walk y"
  using stringify_injective [OF assms(1) walk_finite walk_finite] assms by (simp add: canonicalize_def)

text \<open>Sorting the keys of an object changes no lookup.\<close>

lemma map_of_sort_key:
  fixes kvs :: "(string \<times> 'v) list"
  assumes "distinct (map fst kvs)"
  shows "map_of (sort_key fst kvs) = map_of kvs"
proof (rule map_of_eqI)
  show "set (map fst (sort_key fst kvs)) = set (map fst kvs)" by simp
  show "\<forall>k \<in> set (map fst (sort_key fst kvs)). map_of (sort_key fst kvs) k = map_of kvs k"
  proof
    fix k assume "k \<in> set (map fst (sort_key fst kvs))"
    then obtain x where x: "(k, x) \<in> set kvs" by auto
    have "distinct (map fst (sort_key fst kvs))"
      using assms by (metis distinct_map distinct_sort set_sort)
    with x assms show "map_of (sort_key fst kvs) k = map_of kvs k" by (simp add: map_of_is_SomeI)
  qed
qed

lemma walk_object_fields:
  assumes "walk (JObj kvs) = walk (JObj lvs)" "distinct (map fst kvs)" "distinct (map fst lvs)"
  shows "map_option walk (map_of kvs k) = map_option walk (map_of lvs k)"
proof -
  have walked: "map_of (sort_key fst (map (\<lambda>(k, x). (k, walk x)) us)) k = map_option walk (map_of us k)"
    if "distinct (map fst us)" for us
  proof -
    have "map fst (map (\<lambda>(k, x). (k, walk x)) us) = map fst us" by (simp add: comp_def split_beta)
    then have "map_of (sort_key fst (map (\<lambda>(k, x). (k, walk x)) us)) = map_of (map (\<lambda>(k, x). (k, walk x)) us)"
      using that by (intro map_of_sort_key) (simp add: comp_def split_beta)
    then show ?thesis by (simp add: map_of_map)
  qed
  have "sort_key fst (map (\<lambda>(k, x). (k, walk x)) kvs) = sort_key fst (map (\<lambda>(k, x). (k, walk x)) lvs)"
    using assms(1) by simp
  with walked [OF assms(2)] walked [OF assms(3)] show ?thesis by simp
qed

section \<open>Encoding records\<close>

text \<open>The values the program serializes: integers, nullable and optional fields, and records with a fixed list of keys.\<close>

definition j_int :: "int \<Rightarrow> json" where
  "j_int i = JNum (Fin (of_int i))"

definition j_opt :: "string \<Rightarrow> ('a \<Rightarrow> json) \<Rightarrow> 'a option \<Rightarrow> (string \<times> json) list" where
  "j_opt k f x = (case x of None \<Rightarrow> [] | Some y \<Rightarrow> [(k, f y)])"

definition j_nullable :: "('a \<Rightarrow> json) \<Rightarrow> 'a option \<Rightarrow> json" where
  "j_nullable f x = (case x of None \<Rightarrow> JNull | Some y \<Rightarrow> f y)"

definition j_record :: "string list \<Rightarrow> json list \<Rightarrow> json" where
  "j_record ks vs = JObj (zip ks vs)"

lemma j_int_simps [simp]: "j_int a = j_int b \<longleftrightarrow> a = b" "walk (j_int a) = j_int a" "json_finite (j_int a)"
  by (simp_all add: j_int_def)

lemma j_nullable_simps [simp]:
  "walk (j_nullable j_int x) = j_nullable j_int x" "walk (j_nullable JStr y) = j_nullable JStr y"
  "j_nullable j_int x = j_nullable j_int x' \<longleftrightarrow> x = x'" "j_nullable JStr y = j_nullable JStr y' \<longleftrightarrow> y = y'"
  "json_finite (j_nullable j_int x)" "json_finite (j_nullable JStr y)"
  by (auto simp: j_nullable_def j_int_def split: option.splits)

lemma walk_strings [simp]: "map (walk \<circ> JStr) xs = map JStr xs"
  by simp

lemma JStr_list_inject [simp]: "map JStr xs = map JStr ys \<longleftrightarrow> xs = ys"
  by (simp add: inj_map_eq_map inj_def)

text \<open>Reading one field of two objects whose sorted forms agree.\<close>

lemma field_eq:
  assumes "walk (JObj kvs) = walk (JObj lvs)" "distinct (map fst kvs)" "distinct (map fst lvs)"
    "map_of kvs k = Some x" "map_of lvs k = Some y"
  shows "walk x = walk y"
  using walk_object_fields [OF assms(1-3), of k] assms(4,5) by simp

lemma j_opt_keys: "set (map fst (j_opt k f x)) \<subseteq> {k}" "distinct (map fst (j_opt k f x))"
  by (auto simp: j_opt_def split: option.splits)

lemma map_of_j_opt [simp]: "map_of (j_opt k f x) k' = (if k' = k then map_option f x else None)"
  by (auto simp: j_opt_def split: option.splits)

lemma map_option_walk_inject:
  assumes "\<And>a b. walk (f a) = walk (f b) \<Longrightarrow> a = b" "map_option walk (map_option f x) = map_option walk (map_option f y)"
  shows "x = y"
  using assms by (cases x; cases y) auto

lemma walked_list_inject:
  assumes "\<And>a b. walk (f a) = walk (f b) \<Longrightarrow> a = b" "map (walk \<circ> f) xs = map (walk \<circ> f) ys"
  shows "xs = ys"
  using assms(2) by (metis (no_types, lifting) assms(1) comp_apply inj_def inj_map_eq_map)

text \<open>Two encoded records with the same keys agree, sorted, exactly when they agree field by field.\<close>

lemma walk_record_iff:
  assumes "distinct ks" "length vs = length ks" "length ws = length ks"
  shows "walk (j_record ks vs) = walk (j_record ks ws) \<longleftrightarrow> map walk vs = map walk ws"
proof
  assume eq: "walk (j_record ks vs) = walk (j_record ks ws)"
  have d: "distinct (map fst (zip ks us))" for us :: "json list"
    using assms(1) by (simp add: map_fst_zip_take)
  show "map walk vs = map walk ws"
  proof (rule nth_equalityI)
    show "length (map walk vs) = length (map walk ws)" using assms by simp
    fix i assume i: "i < length (map walk vs)"
    have at: "map_of (zip ks us) (ks ! i) = Some (us ! i)" if "length us = length ks" for us :: "json list"
      using that assms(1,2) i by (intro map_of_is_SomeI) (auto simp: d set_zip)
    from walk_object_fields [OF eq [unfolded j_record_def] d d, of "ks ! i"] at [OF assms(2)] at [OF assms(3)]
    show "map walk vs ! i = map walk ws ! i" using i assms by simp
  qed
next
  assume "map walk vs = map walk ws"
  moreover have "map (\<lambda>(k, x). (k, walk x)) (zip ks us) = zip ks (map walk us)" for us :: "json list"
    by (simp add: zip_map2)
  ultimately show "walk (j_record ks vs) = walk (j_record ks ws)" by (simp add: j_record_def)
qed

lemma json_finite_record [simp]:
  "json_finite (j_record [] vs)" "json_finite (j_record ks [])"
  "json_finite (j_record (k # ks) (v # vs)) \<longleftrightarrow> json_finite v \<and> json_finite (j_record ks vs)"
  by (simp_all add: j_record_def)

lemma walk_nullable_inject:
  assumes "\<And>a b. walk (f a) = walk (f b) \<Longrightarrow> a = b" "\<And>a. walk (f a) \<noteq> JNull"
  shows "walk (j_nullable f x) = walk (j_nullable f y) \<longleftrightarrow> x = y"
  using assms by (auto simp: j_nullable_def split: option.splits) (metis walk.simps(3))+

lemma walk_record_not_null [simp]: "walk (j_record ks vs) \<noteq> JNull" "JNull \<noteq> walk (j_record ks vs)"
  by (simp_all add: j_record_def)

lemma walk_array_inject:
  assumes "\<And>a b. walk (f a) = walk (f b) \<Longrightarrow> a = b"
  shows "walk (JArr (map f xs)) = walk (JArr (map f ys)) \<longleftrightarrow> xs = ys"
  using walked_list_inject [of f xs ys] assms by (auto simp: comp_def)

section \<open>Properties\<close>

text \<open>A number text for witnesses: numerator and denominator in lowest terms.\<close>

definition sample_num :: "jsnum \<Rightarrow> string" where
  "sample_num n = (case n of Fin q \<Rightarrow> show_int (fst (quotient_of q)) @ ''e'' @ show_int (snd (quotient_of q)) | _ \<Rightarrow> ''0'')"

lemma digit_chars: "all_digits s \<Longrightarrow> set s \<subseteq> set ''0123456789''"
proof
  fix c assume "all_digits s" "c \<in> set s"
  then have "is_digit c" by (simp add: all_digits_def list_all_iff)
  then have "(48::nat) \<le> of_char c \<and> of_char c < (58::nat)" by (auto simp: char_class_defs)
  then have "of_char c \<in> set [48..<58::nat]" unfolding set_upt atLeastLessThan_iff .
  then have "char_of (of_char c :: nat) \<in> set (map char_of [48..<58::nat])" unfolding set_map by (rule imageI)
  moreover have "set (map char_of [48..<58::nat]) = set ''0123456789''" by code_simp
  ultimately show "c \<in> set ''0123456789''" by (metis char_of_char)
qed

lemma show_int_chars: "set (show_int i) \<subseteq> set ''0123456789-''" "show_int i \<noteq> []"
proof -
  show "show_int i \<noteq> []" by (simp add: show_int_def)
  have sub: "set (show_nat k) \<subseteq> set ''0123456789-''" for k
    by (rule order_trans [OF digit_chars [OF all_digits_show_nat]]) simp
  have minus: "CHR ''-'' \<in> set ''0123456789-''" by simp
  show "set (show_int i) \<subseteq> set ''0123456789-''"
  proof (cases "i < 0")
    case True
    then have "set (show_int i) = insert (CHR ''-'') (set (show_nat (nat (- i))))" by (simp add: show_int_def)
    with sub minus show ?thesis by (metis insert_subset)
  next
    case False
    show ?thesis unfolding show_int_def if_not_P [OF False] by (rule sub)
  qed
qed

lemma show_int_split:
  assumes "show_int a @ ''e'' @ s = show_int b @ ''e'' @ t"
  shows "a = b \<and> s = t"
proof -
  have "takeWhile (\<lambda>c. c \<noteq> CHR ''e'') (show_int k @ ''e'' @ u) = show_int k" for k u
    using show_int_chars(1) [of k] by (subst takeWhile_append2) auto
  then have "show_int a = show_int b" using assms by metis
  then show ?thesis using assms by simp
qed

lemma sample_number_text: "number_text sample_num"
  unfolding number_text_def
proof (intro conjI allI impI)
  fix n assume n: "isFinite n"
  then obtain q where q: "n = Fin q" by (rule isFiniteE)
  let ?a = "show_int (fst (quotient_of q))"
  show "sample_num n \<noteq> []" by (simp add: sample_num_def q)
  show "set (sample_num n) \<subseteq> set ''0123456789-+.e''"
    using show_int_chars(1) by (fastforce simp: sample_num_def q)
  have "hd (sample_num n) = hd ?a" using show_int_chars(2) by (simp add: sample_num_def q)
  then show "hd (sample_num n) \<in> set ''0123456789-''"
    using show_int_chars [of "fst (quotient_of q)"] by (metis hd_in_set subsetD)
next
  fix m n assume "isFinite m" "isFinite n" and eq: "sample_num m = sample_num n"
  then obtain p q where "m = Fin p" "n = Fin q" by (meson isFiniteE)
  with eq have "show_int (fst (quotient_of p)) @ ''e'' @ show_int (snd (quotient_of p)) =
      show_int (fst (quotient_of q)) @ ''e'' @ show_int (snd (quotient_of q))"
    by (simp add: sample_num_def)
  from show_int_split [OF this] have "quotient_of p = quotient_of q" by (simp add: prod_eq_iff)
  with \<open>m = Fin p\<close> \<open>n = Fin q\<close> show "m = n" by (simp add: quotient_of_inject)
qed

text \<open>
  Canonical serialization identifies exactly the values that differ only in the order of object
  keys: two values have the same text if and only if they are equal once keys are sorted at every
  level. Nothing else (a value moved between fields, a quote or separator inside a string, a string
  for a number) can produce the same text.
\<close>

theorem canonicalize_binds:
  assumes "number_text num" "json_finite x" "json_finite y"
  shows "canonicalize num x = canonicalize num y \<longleftrightarrow> walk x = walk y"
  using canonicalize_injective [OF assms] by (auto simp: canonicalize_def)

theorem canonicalize_binds_witness:
  "canonicalize sample_num (JObj [(''b'', JNull), (''a'', JStr ''x'')]) = canonicalize sample_num (JObj [(''a'', JStr ''x''), (''b'', JNull)]) \<and>
   canonicalize sample_num (JArr [JStr ''a,b'']) \<noteq> canonicalize sample_num (JArr [JStr ''a'', JStr ''b''])"
proof -
  have "walk (JObj [(''b'', JNull), (''a'', JStr ''x'')]) = walk (JObj [(''a'', JStr ''x''), (''b'', JNull)])"
    by (simp add: less_eq_char_def less_char_def)
  with canonicalize_binds [OF sample_number_text, of "JObj [(''b'', JNull), (''a'', JStr ''x'')]" "JObj [(''a'', JStr ''x''), (''b'', JNull)]"]
    canonicalize_binds [OF sample_number_text, of "JArr [JStr ''a,b'']" "JArr [JStr ''a'', JStr ''b'']"]
  show ?thesis by simp
qed

end
