(* ===== verification/Runtime_Token.thy ===== *)
theory Runtime_Token
  imports Canonical
begin

text \<open>
  The scoped credential of a runtime, \<open>packages/studio-runtime/src/identity.ts\<close>: the claims with their
  schema, the issuer with its keys, and the verifier of a gateway. Base64, \<open>JSON.parse\<close> and Ed25519 are the
  platform's and parameters. The theorems show that a token is accepted only if the control
  plane issued exactly these claims, that an issued token is accepted in its own context until it expires,
  and that a request under a nonce is verified once.
\<close>

section \<open>Claims\<close>

definition RUNTIME_TOKEN_VERSION :: string where
  "RUNTIME_TOKEN_VERSION = ''contextlock.runtime-token/v1''"

datatype audience = MODEL | ADAPTER | CONTEXTLOCK | TELEMETRY

fun audience_text :: "audience \<Rightarrow> string" where
  "audience_text MODEL = ''MODEL''"
| "audience_text ADAPTER = ''ADAPTER''"
| "audience_text CONTEXTLOCK = ''CONTEXTLOCK''"
| "audience_text TELEMETRY = ''TELEMETRY''"

record tokenClaims =
  tc_deploymentId :: string
  tc_agentId :: string
  tc_organizationId :: "string option"
  tc_blueprintHash :: string
  tc_imageDigest :: string
  tc_audiences :: "audience list"
  tc_issuedAtMs :: int
  tc_expiresAtMs :: int
  tc_sessionId :: string
  tc_nonce :: string
  tc_kid :: string

definition claims_json :: "tokenClaims \<Rightarrow> json" where
  "claims_json c = j_record
    [''v'', ''deploymentId'', ''agentId'', ''organizationId'', ''blueprintHash'', ''imageDigest'', ''audiences'', ''issuedAtMs'',
     ''expiresAtMs'', ''sessionId'', ''nonce'', ''kid'']
    [JStr RUNTIME_TOKEN_VERSION, JStr (tc_deploymentId c), JStr (tc_agentId c), j_nullable JStr (tc_organizationId c),
     JStr (tc_blueprintHash c), JStr (tc_imageDigest c), JArr (map (\<lambda>a. JStr (audience_text a)) (tc_audiences c)), j_int (tc_issuedAtMs c),
     j_int (tc_expiresAtMs c), JStr (tc_sessionId c), JStr (tc_nonce c), JStr (tc_kid c)]"

text \<open>The schema. Keys that are not in it are dropped.\<close>

definition sha256_text :: "string \<Rightarrow> bool" where
  "sha256_text s = (startsWith s ''sha256:'' \<and> length s = 71 \<and> list_all is_lower_hex (drop 7 s))"

fun str_of :: "nat \<Rightarrow> json option \<Rightarrow> string option" where
  "str_of n (Some (JStr s)) = (if n \<le> length s then Some s else None)"
| "str_of n _ = None"

fun digest_of :: "json option \<Rightarrow> string option" where
  "digest_of (Some (JStr s)) = (if sha256_text s then Some s else None)"
| "digest_of _ = None"

fun time_of :: "json option \<Rightarrow> int option" where
  "time_of (Some (JNum (Fin r))) = (if of_int \<lfloor>r\<rfloor> = r \<and> 0 < r then Some \<lfloor>r\<rfloor> else None)"
| "time_of _ = None"

fun nullable_str_of :: "json option \<Rightarrow> string option option" where
  "nullable_str_of (Some JNull) = Some None"
| "nullable_str_of (Some (JStr s)) = Some (Some s)"
| "nullable_str_of _ = None"

fun audience_of :: "json \<Rightarrow> audience option" where
  "audience_of (JStr s) = List.find (\<lambda>a. audience_text a = s) [MODEL, ADAPTER, CONTEXTLOCK, TELEMETRY]"
| "audience_of _ = None"

fun audiences_of :: "json option \<Rightarrow> audience list option" where
  "audiences_of (Some (JArr xs)) =
    (if xs \<noteq> [] \<and> list_all (\<lambda>x. audience_of x \<noteq> None) xs then Some (map (\<lambda>x. the (audience_of x)) xs) else None)"
| "audiences_of _ = None"

definition claims_of :: "(string \<Rightarrow> json option) \<Rightarrow> tokenClaims option" where
  "claims_of get =
    (if get ''v'' \<noteq> Some (JStr RUNTIME_TOKEN_VERSION) then None
     else Option.bind (str_of 1 (get ''deploymentId'')) (\<lambda>deploymentId.
       Option.bind (str_of 1 (get ''agentId'')) (\<lambda>agentId.
       Option.bind (nullable_str_of (get ''organizationId'')) (\<lambda>organizationId.
       Option.bind (digest_of (get ''blueprintHash'')) (\<lambda>blueprintHash.
       Option.bind (digest_of (get ''imageDigest'')) (\<lambda>imageDigest.
       Option.bind (audiences_of (get ''audiences'')) (\<lambda>audiences.
       Option.bind (time_of (get ''issuedAtMs'')) (\<lambda>issuedAtMs.
       Option.bind (time_of (get ''expiresAtMs'')) (\<lambda>expiresAtMs.
       Option.bind (str_of 8 (get ''sessionId'')) (\<lambda>sessionId.
       Option.bind (str_of 16 (get ''nonce'')) (\<lambda>nonce.
       Option.bind (str_of 1 (get ''kid'')) (\<lambda>kid.
       Some \<lparr>tc_deploymentId = deploymentId, tc_agentId = agentId, tc_organizationId = organizationId, tc_blueprintHash = blueprintHash,
             tc_imageDigest = imageDigest, tc_audiences = audiences, tc_issuedAtMs = issuedAtMs, tc_expiresAtMs = expiresAtMs,
             tc_sessionId = sessionId, tc_nonce = nonce, tc_kid = kid\<rparr>))))))))))))"

fun parse_claims :: "json \<Rightarrow> tokenClaims option" where
  "parse_claims (JObj kvs) = claims_of (map_of kvs)"
| "parse_claims _ = None"

section \<open>The issuer\<close>

datatype tokenReason =
    MALFORMED | BAD_SIGNATURE | EXPIRED | NOT_YET_VALID | WRONG_AGENT | WRONG_DEPLOYMENT | WRONG_IMAGE | WRONG_AUDIENCE
  | REVOKED | REPLAYED | UNKNOWN_KEY | FORBIDDEN_CLAIM

definition FORBIDDEN_TOKEN_CLAIMS :: "string list" where
  "FORBIDDEN_TOKEN_CLAIMS = [''capability'', ''capabilityScope'', ''signature'', ''signingKey'', ''privateKey'', ''walletAddress'', ''issuerKey'',
     ''spendLimit'', ''maxValueUsdCents'', ''policyOverride'', ''adminRole'', ''canSign'']"

text \<open>\<open>Buffer\<close>, \<open>JSON.parse\<close>, \<open>edSign\<close> with a private key and \<open>edVerify\<close> with a public one.\<close>

record crypto =
  cy_b64u :: "string \<Rightarrow> string"
  cy_unb64u :: "string \<Rightarrow> string"
  cy_json :: "string \<Rightarrow> json option"
  cy_num :: "jsnum \<Rightarrow> string"
  cy_edSign :: "string \<Rightarrow> string \<Rightarrow> string"
  cy_edVerify :: "string \<Rightarrow> string \<Rightarrow> string \<Rightarrow> bool"

record signingKey =
  sk_kid :: string
  sk_privateKeyPem :: string
  sk_publicKeyPem :: string
  sk_createdAtMs :: int

record tokenIssuer =
  ti_keys :: "(string \<times> signingKey) list"
  ti_active :: "string option"

definition new_issuer :: tokenIssuer where
  "new_issuer = \<lparr>ti_keys = [], ti_active = None\<rparr>"

definition addKey :: "signingKey \<Rightarrow> bool \<Rightarrow> tokenIssuer \<Rightarrow> tokenIssuer" where
  "addKey key makeActive is' =
    is'\<lparr>ti_keys := map_set (sk_kid key) key (ti_keys is'),
        ti_active := (if makeActive \<or> ti_active is' = None then Some (sk_kid key) else ti_active is')\<rparr>"

definition publicKeys :: "tokenIssuer \<Rightarrow> (string \<times> string) list" where
  "publicKeys is' = map (\<lambda>(kid, k). (kid, sk_publicKeyPem k)) (ti_keys is')"

text \<open>The arguments of \<open>issue\<close>; \<open>ia_others\<close> are the names of any further properties of the argument object, and the
  identifiers are the two random ones.\<close>

record issueArgs =
  ia_deploymentId :: string
  ia_agentId :: string
  ia_organizationId :: "string option"
  ia_blueprintHash :: string
  ia_imageDigest :: string
  ia_audiences :: "audience list"
  ia_nowMs :: int
  ia_ttlMs :: int
  ia_others :: "string list"
  ia_uuid1 :: string
  ia_uuid2 :: string

definition issued_claims :: "string \<Rightarrow> issueArgs \<Rightarrow> tokenClaims" where
  "issued_claims kid a =
    \<lparr>tc_deploymentId = ia_deploymentId a, tc_agentId = ia_agentId a, tc_organizationId = ia_organizationId a,
     tc_blueprintHash = ia_blueprintHash a, tc_imageDigest = ia_imageDigest a, tc_audiences = ia_audiences a,
     tc_issuedAtMs = ia_nowMs a, tc_expiresAtMs = ia_nowMs a + ia_ttlMs a, tc_sessionId = ia_uuid1 a,
     tc_nonce = filter (\<lambda>c. c \<noteq> CHR ''-'') (ia_uuid2 a), tc_kid = kid\<rparr>"

definition token_of :: "crypto \<Rightarrow> signingKey \<Rightarrow> tokenClaims \<Rightarrow> string" where
  "token_of cy key c =
    (let payload = canonicalize (cy_num cy) (claims_json c)
     in cy_b64u cy payload @ ''.'' @ cy_b64u cy (cy_edSign cy (sk_privateKeyPem key) payload))"

definition issue :: "crypto \<Rightarrow> issueArgs \<Rightarrow> tokenIssuer \<Rightarrow> tokenReason + string" where
  "issue cy a is' =
    (case ti_active is' of
       None \<Rightarrow> Inl UNKNOWN_KEY
     | Some kid \<Rightarrow>
         if kid = [] then Inl UNKNOWN_KEY
         else case map_of (ti_keys is') kid of
             None \<Rightarrow> Inl UNKNOWN_KEY
           | Some key \<Rightarrow>
               if list_ex (\<lambda>f. f \<in> set (ia_others a)) FORBIDDEN_TOKEN_CLAIMS then Inl FORBIDDEN_CLAIM
               else Inr (token_of cy key (issued_claims (sk_kid key) a)))"

section \<open>The verifier\<close>

record verificationContext =
  vc_expectedAgentId :: string
  vc_expectedDeploymentId :: string
  vc_expectedImageDigest :: string
  vc_audience :: audience
  vc_nowMs :: int

record tokenVerifier =
  tv_publicKeys :: "(string \<times> string) list"
  tv_revokedSessions :: "string list"
  tv_seenNonces :: "(string \<times> int) list"

definition new_verifier :: "(string \<times> string) list \<Rightarrow> tokenVerifier" where
  "new_verifier keys = \<lparr>tv_publicKeys = keys, tv_revokedSessions = [], tv_seenNonces = []\<rparr>"

definition revokeSession :: "string \<Rightarrow> tokenVerifier \<Rightarrow> tokenVerifier" where
  "revokeSession sessionId v = v\<lparr>tv_revokedSessions := sessionId # tv_revokedSessions v\<rparr>"

definition read_token :: "crypto \<Rightarrow> string \<Rightarrow> (tokenClaims \<times> string) option" where
  "read_token cy token =
    (case split_on (CHR ''.'') token of
       [p, s] \<Rightarrow> map_option (\<lambda>c. (c, cy_unb64u cy s)) (Option.bind (cy_json cy (cy_unb64u cy p)) parse_claims)
     | _ \<Rightarrow> None)"

definition check_context :: "tokenVerifier \<Rightarrow> verificationContext \<Rightarrow> tokenClaims \<Rightarrow> tokenReason + unit" where
  "check_context v ctx c =
    res_bind (ensure (vc_nowMs ctx < tc_expiresAtMs c) EXPIRED) (\<lambda>_.
    res_bind (ensure (tc_issuedAtMs c \<le> vc_nowMs ctx + 30000) NOT_YET_VALID) (\<lambda>_.
    res_bind (ensure (tc_sessionId c \<notin> set (tv_revokedSessions v)) REVOKED) (\<lambda>_.
    res_bind (ensure (tc_agentId c = vc_expectedAgentId ctx) WRONG_AGENT) (\<lambda>_.
    res_bind (ensure (tc_deploymentId c = vc_expectedDeploymentId ctx) WRONG_DEPLOYMENT) (\<lambda>_.
    res_bind (ensure (tc_imageDigest c = vc_expectedImageDigest ctx) WRONG_IMAGE) (\<lambda>_.
    ensure (vc_audience ctx \<in> set (tc_audiences c)) WRONG_AUDIENCE))))))"

definition verify_token :: "crypto \<Rightarrow> tokenVerifier \<Rightarrow> string \<Rightarrow> verificationContext \<Rightarrow> tokenReason + tokenClaims" where
  "verify_token cy v token ctx =
    (case read_token cy token of
       None \<Rightarrow> Inl MALFORMED
     | Some (c, sig) \<Rightarrow>
         (case map_of (tv_publicKeys v) (tc_kid c) of
            None \<Rightarrow> Inl UNKNOWN_KEY
          | Some pem \<Rightarrow>
              if pem = [] then Inl UNKNOWN_KEY
              else if \<not> cy_edVerify cy pem (canonicalize (cy_num cy) (claims_json c)) sig then Inl BAD_SIGNATURE
              else res_bind (check_context v ctx c) (\<lambda>_. Inr c)))"

definition nonce_key :: "tokenClaims \<Rightarrow> string \<Rightarrow> string" where
  "nonce_key c requestNonce = tc_sessionId c @ '':'' @ requestNonce"

definition verifyOnce ::
    "crypto \<Rightarrow> string \<Rightarrow> verificationContext \<Rightarrow> string \<Rightarrow> tokenVerifier \<Rightarrow> tokenVerifier \<times> (tokenReason + tokenClaims)" where
  "verifyOnce cy token ctx requestNonce v =
    (case verify_token cy v token ctx of
       Inl r \<Rightarrow> (v, Inl r)
     | Inr c \<Rightarrow>
         if map_of (tv_seenNonces v) (nonce_key c requestNonce) \<noteq> None then (v, Inl REPLAYED)
         else (v\<lparr>tv_seenNonces := map_set (nonce_key c requestNonce) (vc_nowMs ctx) (tv_seenNonces v)\<rparr>, Inr c))"


section \<open>What a token binds\<close>

definition claims_ok :: "tokenClaims \<Rightarrow> bool" where
  "claims_ok c =
    (1 \<le> length (tc_deploymentId c) \<and> 1 \<le> length (tc_agentId c) \<and> sha256_text (tc_blueprintHash c) \<and> sha256_text (tc_imageDigest c) \<and>
     tc_audiences c \<noteq> [] \<and> 0 < tc_issuedAtMs c \<and> 0 < tc_expiresAtMs c \<and> 8 \<le> length (tc_sessionId c) \<and> 16 \<le> length (tc_nonce c) \<and>
     1 \<le> length (tc_kid c))"

lemma audience_text_inject: "audience_text a = audience_text b \<longleftrightarrow> a = b"
  by (cases a; cases b) simp_all

lemma audience_of_text: "audience_of (JStr (audience_text a)) = Some a"
  by (cases a) simp_all

lemma claims_json_inject: "walk (claims_json c) = walk (claims_json d) \<longleftrightarrow> c = d"
proof
  assume "walk (claims_json c) = walk (claims_json d)"
  then have "map walk (map (\<lambda>a. JStr (audience_text a)) (tc_audiences c)) = map walk (map (\<lambda>a. JStr (audience_text a)) (tc_audiences d)) \<and>
      c\<lparr>tc_audiences := []\<rparr> = d\<lparr>tc_audiences := []\<rparr>"
    unfolding claims_json_def by (subst (asm) walk_record_iff) (cases c; cases d; simp)+
  moreover from this have "tc_audiences c = tc_audiences d"
    using walked_list_inject [of "\<lambda>a. JStr (audience_text a)"] by (simp add: audience_text_inject comp_def)
  ultimately show "c = d" by (cases c; cases d; simp)
qed simp

lemma claims_finite: "json_finite (claims_json c)"
  by (simp add: claims_json_def list_all_iff)

lemma claims_text_inject:
  assumes "number_text num" and "canonicalize num (claims_json c) = canonicalize num (claims_json d)"
  shows "c = d"
  using canonicalize_injective [OF assms(1) claims_finite claims_finite assms(2)] by (simp add: claims_json_inject)

text \<open>The schema reads back what was serialized.\<close>

lemma parse_walk:
  assumes "claims_ok c"
  shows "parse_claims (walk (claims_json c)) = Some c"
proof -
  let ?kvs = "map (\<lambda>(k, x). (k, walk x)) (case claims_json c of JObj kvs \<Rightarrow> kvs)"
  have w: "walk (claims_json c) = JObj (sort_key fst ?kvs)" by (simp add: claims_json_def j_record_def)
  have d: "distinct (map fst ?kvs)" by (simp add: claims_json_def j_record_def)
  have t: "time_of (Some (j_int i)) = Some i" if "0 < i" for i using that by (simp add: j_int_def)
  have n: "nullable_str_of (Some (j_nullable JStr x)) = Some x" for x by (cases x) (simp_all add: j_nullable_def)
  have a: "audiences_of (Some (JArr (map (\<lambda>a. JStr (audience_text a)) as))) = Some as" if "as \<noteq> []" for as
    using that by (simp add: list_all_iff audience_of_text comp_def del: audience_of.simps)
  have "parse_claims (walk (claims_json c)) = claims_of (map_of ?kvs)" by (simp add: w map_of_sort_key [OF d])
  also have "\<dots> = Some c"
    using assms unfolding claims_ok_def claims_of_def
    by (simp add: claims_json_def j_record_def t n a comp_def del: audiences_of.simps time_of.simps nullable_str_of.simps)
  finally show ?thesis .
qed


section \<open>The control plane and its tokens\<close>

datatype issuer_op = AddKey signingKey bool | Issue issueArgs

text \<open>The issuer after a sequence of operations, with the claims it signed and the public key they verify under.\<close>

fun issuer_step :: "crypto \<Rightarrow> issuer_op \<Rightarrow> tokenIssuer \<times> (string \<times> tokenClaims) list \<Rightarrow> tokenIssuer \<times> (string \<times> tokenClaims) list" where
  "issuer_step cy (AddKey k makeActive) (is', minted) = (addKey k makeActive is', minted)"
| "issuer_step cy (Issue a) (is', minted) =
    (is', case issue cy a is' of
       Inl _ \<Rightarrow> minted
     | Inr _ \<Rightarrow> (let key = the (map_of (ti_keys is') (the (ti_active is'))) in (sk_publicKeyPem key, issued_claims (sk_kid key) a) # minted))"

definition issuer_run :: "crypto \<Rightarrow> issuer_op list \<Rightarrow> tokenIssuer \<times> (string \<times> tokenClaims) list" where
  "issuer_run cy ops = fold (issuer_step cy) ops (new_issuer, [])"

text \<open>Signatures cannot be forged: what verifies under a key of the issuer is the text of claims signed with it.\<close>

definition unforgeable :: "crypto \<Rightarrow> tokenIssuer \<Rightarrow> (string \<times> tokenClaims) list \<Rightarrow> bool" where
  "unforgeable cy is' minted \<longleftrightarrow>
    (\<forall>pem \<in> snd ` set (publicKeys is'). \<forall>m s. cy_edVerify cy pem m s \<longrightarrow>
       (\<exists>c. (pem, c) \<in> set minted \<and> m = canonicalize (cy_num cy) (claims_json c)))"

lemma issue_iff:
  "issue cy a is' = Inr token \<longleftrightarrow>
    (\<exists>kid key. ti_active is' = Some kid \<and> kid \<noteq> [] \<and> map_of (ti_keys is') kid = Some key \<and>
      list_all (\<lambda>f. f \<notin> set (ia_others a)) FORBIDDEN_TOKEN_CLAIMS \<and> token = token_of cy key (issued_claims (sk_kid key) a))"
  by (auto simp: issue_def list_ex_iff list_all_iff split: option.splits)

lemma issuer_keys:
  assumes "map_of (ti_keys (fst (issuer_run cy ops))) kid = Some key"
  shows "sk_kid key = kid"
  using assms unfolding issuer_run_def
proof (induction ops arbitrary: kid key rule: rev_induct)
  case (snoc op ops)
  show ?case
  proof (cases op)
    case (AddKey k b)
    with snoc show ?thesis
      by (cases "fold (issuer_step cy) ops (new_issuer, [])") (auto simp: addKey_def map_of_map_set split: if_splits)
  next
    case (Issue a)
    with snoc show ?thesis by (cases "fold (issuer_step cy) ops (new_issuer, [])") auto
  qed
qed (simp add: new_issuer_def)

lemma minted_was_asked:
  assumes "(pem, c) \<in> set (snd (issuer_run cy ops))"
  shows "\<exists>a. Issue a \<in> set ops \<and> c = issued_claims (tc_kid c) a \<and> list_all (\<lambda>f. f \<notin> set (ia_others a)) FORBIDDEN_TOKEN_CLAIMS"
  using assms unfolding issuer_run_def
proof (induction ops rule: rev_induct)
  case (snoc op ops)
  obtain is' minted where s: "fold (issuer_step cy) ops (new_issuer, []) = (is', minted)" by (cases "fold (issuer_step cy) ops (new_issuer, [])")
  show ?case
  proof (cases "(pem, c) \<in> set minted")
    case True
    with snoc.IH s show ?thesis by auto
  next
    case False
    with snoc.prems s obtain a token where "op = Issue a" "issue cy a is' = Inr token" "c = issued_claims (tc_kid c) a"
      by (cases op) (auto simp: issued_claims_def Let_def split: sum.splits)
    then show ?thesis by (auto simp: issue_iff)
  qed
qed simp

lemma verify_iff:
  "verify_token cy v token ctx = Inr c \<longleftrightarrow>
    (\<exists>sig pem. read_token cy token = Some (c, sig) \<and> map_of (tv_publicKeys v) (tc_kid c) = Some pem \<and> pem \<noteq> [] \<and>
       cy_edVerify cy pem (canonicalize (cy_num cy) (claims_json c)) sig) \<and>
    vc_nowMs ctx < tc_expiresAtMs c \<and> tc_issuedAtMs c \<le> vc_nowMs ctx + 30000 \<and> tc_sessionId c \<notin> set (tv_revokedSessions v) \<and>
    tc_agentId c = vc_expectedAgentId ctx \<and> tc_deploymentId c = vc_expectedDeploymentId ctx \<and>
    tc_imageDigest c = vc_expectedImageDigest ctx \<and> vc_audience ctx \<in> set (tc_audiences c)"
  by (auto simp: verify_token_def check_context_def res_bind_Inr_iff ensure_iff split: option.splits if_splits)

lemma accepted_claims_issued:
  assumes "verify_token cy v token ctx = Inr c"
    and "tv_publicKeys v = publicKeys (fst (issuer_run cy ops))" and "unforgeable cy (fst (issuer_run cy ops)) (snd (issuer_run cy ops))" and "number_text (cy_num cy)"
  shows "\<exists>a. Issue a \<in> set ops \<and> c = issued_claims (tc_kid c) a \<and> list_all (\<lambda>f. f \<notin> set (ia_others a)) FORBIDDEN_TOKEN_CLAIMS \<and>
    vc_nowMs ctx < ia_nowMs a + ia_ttlMs a \<and> ia_nowMs a \<le> vc_nowMs ctx + 30000 \<and> ia_uuid1 a \<notin> set (tv_revokedSessions v) \<and>
    ia_agentId a = vc_expectedAgentId ctx \<and> ia_deploymentId a = vc_expectedDeploymentId ctx \<and>
    ia_imageDigest a = vc_expectedImageDigest ctx \<and> vc_audience ctx \<in> set (ia_audiences a)"
proof -
  from assms(1) obtain sig pem where v: "map_of (tv_publicKeys v) (tc_kid c) = Some pem"
      "cy_edVerify cy pem (canonicalize (cy_num cy) (claims_json c)) sig" by (auto simp: verify_iff)
  from v(1) assms(2) have "pem \<in> snd ` set (publicKeys (fst (issuer_run cy ops)))" by (metis map_of_SomeD image_eqI snd_conv)
  with v(2) assms(3) obtain d where d: "(pem, d) \<in> set (snd (issuer_run cy ops))"
      "canonicalize (cy_num cy) (claims_json c) = canonicalize (cy_num cy) (claims_json d)"
    by (auto simp: unforgeable_def split_beta)
  then have "(pem, c) \<in> set (snd (issuer_run cy ops))" using claims_text_inject [OF assms(4) d(2)] by simp
  from minted_was_asked [OF this] obtain a where a: "Issue a \<in> set ops" "c = issued_claims (tc_kid c) a"
      "list_all (\<lambda>f. f \<notin> set (ia_others a)) FORBIDDEN_TOKEN_CLAIMS" by blast
  have "tc_expiresAtMs c = ia_nowMs a + ia_ttlMs a" "tc_issuedAtMs c = ia_nowMs a" "tc_sessionId c = ia_uuid1 a" "tc_agentId c = ia_agentId a"
    "tc_deploymentId c = ia_deploymentId a" "tc_imageDigest c = ia_imageDigest a" "tc_audiences c = ia_audiences a"
    by (subst a(2), simp add: issued_claims_def)+
  with a assms(1) show ?thesis by (intro exI [of _ a]) (simp add: verify_iff)
qed


text \<open>
  C16: Only the control plane mints runtime identities. A token that a gateway accepts carries exactly the claims of a
  token that the issuer was asked for, with none of the forbidden claims in the request, and it is
  used within its time, in a session that is not revoked, by the agent, in the deployment, from the image and
  at a gateway it was issued for. Signatures are assumed not to be forged.
\<close>

theorem accepted_token_was_issued:
  assumes "verify_token cy v token ctx = Inr c"
    and "tv_publicKeys v = publicKeys (fst (issuer_run cy ops))" and "unforgeable cy (fst (issuer_run cy ops)) (snd (issuer_run cy ops))" and "number_text (cy_num cy)"
  shows "\<exists>a. Issue a \<in> set ops \<and> c = issued_claims (tc_kid c) a \<and> list_all (\<lambda>f. f \<notin> set (ia_others a)) FORBIDDEN_TOKEN_CLAIMS \<and>
    vc_nowMs ctx < ia_nowMs a + ia_ttlMs a \<and> ia_nowMs a \<le> vc_nowMs ctx + 30000 \<and> ia_uuid1 a \<notin> set (tv_revokedSessions v) \<and>
    ia_agentId a = vc_expectedAgentId ctx \<and> ia_deploymentId a = vc_expectedDeploymentId ctx \<and>
    ia_imageDigest a = vc_expectedImageDigest ctx \<and> vc_audience ctx \<in> set (ia_audiences a)"
  by (rule accepted_claims_issued [OF assms])

text \<open>What the platform documents: base64 can be read back and has no dot, \<open>JSON.parse\<close> reads what \<open>JSON.stringify\<close> wrote,
  and a signature verifies with the other half of its key.\<close>

definition reads_back :: "crypto \<Rightarrow> tokenClaims \<Rightarrow> bool" where
  "reads_back cy c \<longleftrightarrow>
    (\<forall>x. cy_unb64u cy (cy_b64u cy x) = x \<and> CHR ''.'' \<notin> set (cy_b64u cy x)) \<and>
    cy_json cy (canonicalize (cy_num cy) (claims_json c)) = Some (walk (claims_json c))"

definition key_pair :: "crypto \<Rightarrow> signingKey \<Rightarrow> bool" where
  "key_pair cy k \<longleftrightarrow> sk_publicKeyPem k \<noteq> [] \<and> (\<forall>m. cy_edVerify cy (sk_publicKeyPem k) m (cy_edSign cy (sk_privateKeyPem k) m))"

lemma read_token_of:
  assumes "reads_back cy c" and "claims_ok c"
  shows "read_token cy (token_of cy key c) =
    Some (c, cy_edSign cy (sk_privateKeyPem key) (canonicalize (cy_num cy) (claims_json c)))"
proof -
  let ?m = "canonicalize (cy_num cy) (claims_json c)"
  let ?p = "cy_b64u cy ?m" and ?s = "cy_b64u cy (cy_edSign cy (sk_privateKeyPem key) ?m)"
  have dots: "CHR ''.'' \<notin> set ?p" "CHR ''.'' \<notin> set ?s" and un: "cy_unb64u cy ?p = ?m" "cy_unb64u cy ?s = cy_edSign cy (sk_privateKeyPem key) ?m"
    and j: "cy_json cy ?m = Some (walk (claims_json c))"
    using assms(1) by (auto simp: reads_back_def)
  have "split_on (CHR ''.'') (token_of cy key c) = [?p, ?s]"
    using split_on_append [OF dots(1), of ?s] split_on_none [OF dots(2)] by (simp add: token_of_def Let_def)
  then show ?thesis using un j parse_walk [OF assms(2)] by (simp add: read_token_def)
qed

text \<open>
  C17: An issued token is accepted exactly where it was issued for. Whatever operations the issuer went through, a token
  that it issues now verifies, and gives back the claims it was issued with, if and only if the time is
  before its expiry and not more than half a minute before its issue, the session is not revoked, and
  agent, deployment, image and gateway are those of the request.
\<close>

theorem issued_token_is_accepted:
  assumes "issue cy a (fst (issuer_run cy ops)) = Inr token" and "c = issued_claims (the (ti_active (fst (issuer_run cy ops)))) a"
    and "claims_ok c" and "reads_back cy c" and "\<And>kid key. (kid, key) \<in> set (ti_keys (fst (issuer_run cy ops))) \<Longrightarrow> key_pair cy key"
    and "tv_publicKeys v = publicKeys (fst (issuer_run cy ops))"
  shows "verify_token cy v token ctx = Inr c \<longleftrightarrow>
    vc_nowMs ctx < ia_nowMs a + ia_ttlMs a \<and> ia_nowMs a \<le> vc_nowMs ctx + 30000 \<and> ia_uuid1 a \<notin> set (tv_revokedSessions v) \<and>
    ia_agentId a = vc_expectedAgentId ctx \<and> ia_deploymentId a = vc_expectedDeploymentId ctx \<and>
    ia_imageDigest a = vc_expectedImageDigest ctx \<and> vc_audience ctx \<in> set (ia_audiences a)"
proof -
  from assms(1) obtain kid key where k: "ti_active (fst (issuer_run cy ops)) = Some kid" "map_of (ti_keys (fst (issuer_run cy ops))) kid = Some key"
      "token = token_of cy key (issued_claims (sk_kid key) a)" by (auto simp: issue_iff)
  have kid: "sk_kid key = kid" by (rule issuer_keys [OF k(2)])
  have r: "read_token cy token = Some (c, cy_edSign cy (sk_privateKeyPem key) (canonicalize (cy_num cy) (claims_json c)))"
    using read_token_of [OF assms(4,3)] k kid assms(2) by simp
  have "key_pair cy key" using assms(5) map_of_SomeD [OF k(2)] by blast
  moreover have "map_of (tv_publicKeys v) (tc_kid c) = Some (sk_publicKeyPem key)"
    using k(1,2) assms(2) by (simp add: assms(6) publicKeys_def map_of_map issued_claims_def)
  ultimately show ?thesis using r assms(2) by (simp add: verify_iff key_pair_def issued_claims_def)
qed

section \<open>Requests that must not be repeated\<close>

type_synonym once_call = "string \<times> verificationContext \<times> string"

definition once_step :: "crypto \<Rightarrow> once_call \<Rightarrow> tokenVerifier \<Rightarrow> tokenVerifier \<times> (tokenReason + tokenClaims)" where
  "once_step cy q v = (case q of (token, ctx, nonce) \<Rightarrow> verifyOnce cy token ctx nonce v)"

lemma verify_reads: "verify_token cy v token ctx = Inr c \<Longrightarrow> fst (the (read_token cy token)) = c"
  by (auto simp: verify_iff)

text \<open>The session a token names, whoever signed it, and the nonce of the request.\<close>

definition once_key :: "crypto \<Rightarrow> once_call \<Rightarrow> string" where
  "once_key cy q = (case q of (token, ctx, nonce) \<Rightarrow> nonce_key (fst (the (read_token cy token))) nonce)"

interpretation once: single_use "\<lambda>q v. succeeds (snd (once_step cy q v))" "\<lambda>q v. fst (once_step cy q v)" "once_key cy"
    "\<lambda>v. {k. map_of (tv_seenNonces v) k \<noteq> None}"
proof
  fix q :: once_call and v
  obtain token ctx nonce where q: "q = (token, ctx, nonce)" by (cases q)
  show "succeeds (snd (once_step cy q v)) \<Longrightarrow> once_key cy q \<notin> {k. map_of (tv_seenNonces v) k \<noteq> None}"
    by (auto simp: q once_step_def once_key_def verifyOnce_def verify_reads split: sum.splits if_splits)
  show "succeeds (snd (once_step cy q v)) \<Longrightarrow> once_key cy q \<in> {k. map_of (tv_seenNonces (fst (once_step cy q v))) k \<noteq> None}"
    by (auto simp: q once_step_def once_key_def verifyOnce_def verify_reads map_of_map_set split: sum.splits if_splits)
  show "{k. map_of (tv_seenNonces v) k \<noteq> None} \<subseteq> {k. map_of (tv_seenNonces (fst (once_step cy q v))) k \<noteq> None}"
    by (auto simp: q once_step_def verifyOnce_def map_of_map_set split: sum.splits if_splits)
qed

text \<open>
  A request is verified once: of any sequence of single-use verifications, with any tokens, no two that succeed have
  the same session and nonce.
\<close>

theorem request_is_verified_once:
  "distinct (map (once_key cy) (begun (\<lambda>q v. succeeds (snd (once_step cy q v))) (\<lambda>q v. fst (once_step cy q v)) calls v))"
  by (rule once.begun_once)


section \<open>A token of a control plane\<close>

definition sample_args :: issueArgs where
  "sample_args =
    \<lparr>ia_deploymentId = ''deployment'', ia_agentId = ''guardian'', ia_organizationId = None, ia_blueprintHash = ''sha256:'' @ replicate 64 (CHR ''b''),
     ia_imageDigest = ''sha256:'' @ replicate 64 (CHR ''d''), ia_audiences = [MODEL, TELEMETRY], ia_nowMs = 1000, ia_ttlMs = 900000,
     ia_others = [], ia_uuid1 = ''session-1'', ia_uuid2 = ''0123456789abcdef''\<rparr>"

definition sample_claims :: tokenClaims where
  "sample_claims = issued_claims ''k1'' sample_args"

definition sample_key :: signingKey where
  "sample_key = \<lparr>sk_kid = ''k1'', sk_privateKeyPem = ''private'', sk_publicKeyPem = ''public'', sk_createdAtMs = 1\<rparr>"

text \<open>A code of two letters for each character.\<close>

definition pair_up :: "string \<Rightarrow> string" where
  "pair_up s = concat (map (\<lambda>c. let n = of_char c :: nat in [char_of (65 + n div 16), char_of (65 + n mod 16)]) s)"

fun unpair :: "string \<Rightarrow> string" where
  "unpair (a # b # r) = char_of (16 * (of_char a - 65) + (of_char b - 65) :: nat) # unpair r"
| "unpair _ = []"

lemma pair_up_code: "unpair (pair_up s) = s" "CHR ''.'' \<notin> set (pair_up s)"
proof -
  have n: "of_char c div 16 < (16 :: nat)" for c :: char
    using nat_of_char_less_256 [of c] by (intro less_mult_imp_div_less) simp
  have letter: "of_char (char_of (65 + k) :: char) = 65 + k" if "k < 16" for k :: nat using that by (simp add: of_char_of)
  show "unpair (pair_up s) = s"
  proof (induction s)
    case (Cons c s)
    have "(65 + of_char c div 16) mod 256 = (65 + of_char c div 16 :: nat)" using n [of c] by (intro mod_less) linarith
    then show ?case using Cons by (simp add: pair_up_def Let_def)
  qed (simp add: pair_up_def)
  have dot: "CHR ''.'' \<noteq> char_of (65 + k)" if "k < 16" for k :: nat
  proof
    assume "CHR ''.'' = char_of (65 + k)"
    then have "char_of (65 + k) = CHR ''.''" by simp
    then have "of_char (char_of (65 + k) :: char) = (46 :: nat)" by simp
    then show False using letter [OF that] by simp
  qed
  show "CHR ''.'' \<notin> set (pair_up s)"
    by (induction s) (simp_all add: pair_up_def Let_def dot n)
qed

definition sample_crypto :: crypto where
  "sample_crypto =
    \<lparr>cy_b64u = pair_up, cy_unb64u = unpair, cy_json = (\<lambda>_. Some (walk (claims_json sample_claims))), cy_num = sample_num,
     cy_edSign = (\<lambda>k m. k @ m),
     cy_edVerify = (\<lambda>pem m s. pem = ''public'' \<and> s = ''private'' @ m)\<rparr>"

text \<open>The same with signatures of the one text only.\<close>

definition strict_crypto :: crypto where
  "strict_crypto = sample_crypto\<lparr>cy_edVerify := (\<lambda>pem m s. pem = ''public'' \<and> s = ''private'' @ m \<and> m = canonicalize sample_num (claims_json sample_claims))\<rparr>"

definition sample_ops :: "issuer_op list" where
  "sample_ops = [AddKey sample_key True, Issue sample_args]"

definition sample_ctx :: verificationContext where
  "sample_ctx = \<lparr>vc_expectedAgentId = ''guardian'', vc_expectedDeploymentId = ''deployment'',
    vc_expectedImageDigest = ''sha256:'' @ replicate 64 (CHR ''d''), vc_audience = MODEL, vc_nowMs = 2000\<rparr>"

lemma sample_claims_ok: "claims_ok sample_claims"
proof -
  have "sha256_text (''sha256:'' @ replicate 64 c)" if "is_lower_hex c" for c
    using that by (simp add: sha256_text_def startsWith_def eval_nat_numeral list_all_iff)
  moreover have "is_lower_hex (CHR ''b'')" "is_lower_hex (CHR ''d'')" by (simp_all add: char_class_defs)
  ultimately show ?thesis by (simp add: claims_ok_def sample_claims_def issued_claims_def sample_args_def)
qed

lemma sample_issuer:
  "fst (issuer_run cy sample_ops) = \<lparr>ti_keys = [(''k1'', sample_key)], ti_active = Some ''k1''\<rparr>"
  "snd (issuer_run cy sample_ops) = [(''public'', sample_claims)]"
  by (simp_all add: issuer_run_def sample_ops_def new_issuer_def addKey_def sample_key_def issue_def Let_def sample_claims_def sample_args_def list_ex_iff)

lemma sample_issue: "issue cy sample_args (fst (issuer_run cy sample_ops)) = Inr (token_of cy sample_key sample_claims)"
  by (simp add: sample_issuer issue_iff sample_key_def sample_claims_def, simp add: sample_args_def list_all_iff)

lemma sample_reads: "reads_back sample_crypto sample_claims" "reads_back strict_crypto sample_claims"
  by (simp_all add: reads_back_def sample_crypto_def strict_crypto_def pair_up_code)

theorem issued_token_is_accepted_witness:
  "verify_token sample_crypto (new_verifier [(''k1'', ''public'')]) (token_of sample_crypto sample_key sample_claims) sample_ctx = Inr sample_claims"
  by (subst issued_token_is_accepted [OF sample_issue, where c = sample_claims])
    (simp_all add: sample_claims_ok sample_reads sample_issuer publicKeys_def new_verifier_def key_pair_def, simp_all add: sample_key_def sample_crypto_def
      sample_claims_def sample_ctx_def sample_args_def)

lemma strict_accepts:
  "verify_token strict_crypto (new_verifier [(''k1'', ''public'')]) (token_of strict_crypto sample_key sample_claims) sample_ctx = Inr sample_claims"
  using read_token_of [OF sample_reads(2) sample_claims_ok]
  by (auto simp: verify_iff new_verifier_def strict_crypto_def sample_crypto_def sample_key_def,
      simp_all add: sample_claims_def issued_claims_def sample_args_def sample_ctx_def)

theorem accepted_token_was_issued_witness:
  "\<exists>a. Issue a \<in> set sample_ops \<and> sample_claims = issued_claims ''k1'' a \<and> ia_agentId a = ''guardian'' \<and> MODEL \<in> set (ia_audiences a)"
proof -
  have keys: "tv_publicKeys (new_verifier [(''k1'', ''public'')]) = publicKeys (fst (issuer_run strict_crypto sample_ops))"
    by (simp add: new_verifier_def publicKeys_def sample_issuer sample_key_def)
  have un: "unforgeable strict_crypto (fst (issuer_run strict_crypto sample_ops)) (snd (issuer_run strict_crypto sample_ops))"
    by (auto simp: unforgeable_def sample_issuer strict_crypto_def sample_crypto_def)
  have "number_text (cy_num strict_crypto)" by (simp add: strict_crypto_def sample_crypto_def sample_number_text)
  from accepted_token_was_issued [OF strict_accepts keys un this] show ?thesis
    by (auto simp: sample_ctx_def sample_claims_def issued_claims_def)
qed

end
