(* ===== verification/Network.thy ===== *)
theory Network
  imports Prelude
begin

text \<open>
  The network role model, the named write fences, the CRE broadcast modes and the CRE execution
  modes (\<open>packages/studio-network/src\<close>: \<open>roles.ts\<close>, \<open>fences.ts\<close>, \<open>broadcast.ts\<close>,
  \<open>cre-modes.ts\<close>). Chain identifiers are integers; an error carries its reason, the context that
  raised it and the chain; the prose of the messages is not modelled.
\<close>

section \<open>Roles and the approved registry (roles.ts)\<close>

datatype network_role = READ_ONLY_SOURCE | TESTNET_EXECUTION | LOCAL_FORK

definition NETWORK_ROLES :: "network_role list" where
  "NETWORK_ROLES = [READ_ONLY_SOURCE, TESTNET_EXECUTION, LOCAL_FORK]"

definition WRITE_CAPABLE_ROLES :: "network_role list" where
  "WRITE_CAPABLE_ROLES = [TESTNET_EXECUTION, LOCAL_FORK]"

definition PUBLIC_WRITE_ROLES :: "network_role list" where
  "PUBLIC_WRITE_ROLES = [TESTNET_EXECUTION]"

record network_ref =
  nr_chainId :: int
  nr_role :: network_role
  nr_forkedFrom :: "int option"
  nr_forkBlock :: "string option"

definition networkRefSchema :: "network_ref \<Rightarrow> bool" where
  "networkRefSchema r =
     (0 < nr_chainId r \<and>
      (case nr_forkedFrom r of None \<Rightarrow> True | Some c \<Rightarrow> 0 < c) \<and>
      (case nr_forkBlock r of None \<Rightarrow> True | Some b \<Rightarrow> all_digits b))"

datatype approved_network_reason =
    PRODUCTION_WRITE
  | NOT_APPROVED
  | ROLE_MISMATCH
  | READ_ONLY_WRITE
  | FORK_PUBLIC_WRITE
  | UNKNOWN_NETWORK

datatype network_guard_error =
  NetworkGuardError (nge_reason: approved_network_reason) (nge_context: string) (nge_chainId: "int option")

datatype rpc_capability = READ_ONLY | READ_WRITE

datatype network_environment = PRODUCTION | TESTNET | LOCAL

record approved_network =
  an_chainId :: int
  an_name :: string
  an_canonicalName :: string
  an_role :: network_role
  an_environment :: network_environment
  an_rpcCapability :: rpc_capability
  an_chainSelector :: "string option"
  an_nativeSymbol :: string
  an_explorer :: "string option"

definition APPROVED :: "approved_network list" where
  "APPROVED =
    [\<lparr>an_chainId = 11155111, an_name = ''Ethereum Sepolia'',
      an_canonicalName = ''ethereum-testnet-sepolia'', an_role = TESTNET_EXECUTION,
      an_environment = TESTNET, an_rpcCapability = READ_WRITE,
      an_chainSelector = Some ''16015286601757825753'', an_nativeSymbol = ''ETH'',
      an_explorer = Some ''https://sepolia.etherscan.io''\<rparr>,
     \<lparr>an_chainId = 84532, an_name = ''Base Sepolia'',
      an_canonicalName = ''ethereum-testnet-sepolia-base-1'', an_role = TESTNET_EXECUTION,
      an_environment = TESTNET, an_rpcCapability = READ_WRITE,
      an_chainSelector = Some ''10344971235874465080'', an_nativeSymbol = ''ETH'',
      an_explorer = Some ''https://sepolia.basescan.org''\<rparr>,
     \<lparr>an_chainId = 31337, an_name = ''Local Anvil fork'',
      an_canonicalName = ''local-anvil-fork'', an_role = LOCAL_FORK,
      an_environment = LOCAL, an_rpcCapability = READ_WRITE,
      an_chainSelector = None, an_nativeSymbol = ''ETH'', an_explorer = None\<rparr>,
     \<lparr>an_chainId = 1, an_name = ''Ethereum Mainnet'',
      an_canonicalName = ''ethereum-mainnet'', an_role = READ_ONLY_SOURCE,
      an_environment = PRODUCTION, an_rpcCapability = READ_ONLY,
      an_chainSelector = Some ''5009297550715157269'', an_nativeSymbol = ''ETH'',
      an_explorer = Some ''https://etherscan.io''\<rparr>]"

text \<open>\<open>new Map(APPROVED.map(...))\<close>: a later entry for the same chain would win.\<close>

definition BY_CHAIN_ID :: "int \<rightharpoonup> approved_network" where
  "BY_CHAIN_ID = map_of (rev (map (\<lambda>n. (an_chainId n, n)) APPROVED))"

definition executionNetworks :: "approved_network list" where
  "executionNetworks = filter (\<lambda>n. an_role n \<in> set WRITE_CAPABLE_ROLES) APPROVED"

definition readOnlySources :: "approved_network list" where
  "readOnlySources = filter (\<lambda>n. an_role n = READ_ONLY_SOURCE) APPROVED"

definition PRODUCTION_CHAIN_IDS :: "int list" where
  "PRODUCTION_CHAIN_IDS =
    [1, 10, 56, 100, 130, 137, 146, 250, 252, 324, 480, 1101, 1329, 5000, 8453, 34443, 42161,
     42220, 43114, 59144, 81457, 534352]"

definition isProductionChain :: "int \<Rightarrow> bool" where
  "isProductionChain c = (c \<in> set PRODUCTION_CHAIN_IDS)"

definition lookupNetwork :: "int \<Rightarrow> approved_network option" where
  "lookupNetwork c = BY_CHAIN_ID c"

datatype write_intent = PUBLIC_WRITE | LOCAL_WRITE

definition assertExecutionAllowed ::
  "network_ref \<Rightarrow> write_intent \<Rightarrow> string \<Rightarrow> network_guard_error + approved_network" where
  "assertExecutionAllowed ref intent ctx =
    (if isProductionChain (nr_chainId ref) \<and> nr_role ref \<noteq> LOCAL_FORK
     then Inl (NetworkGuardError PRODUCTION_WRITE ctx (Some (nr_chainId ref)))
     else if nr_role ref = READ_ONLY_SOURCE
     then Inl (NetworkGuardError READ_ONLY_WRITE ctx (Some (nr_chainId ref)))
     else case BY_CHAIN_ID (nr_chainId ref) of
       None \<Rightarrow> Inl (NetworkGuardError NOT_APPROVED ctx (Some (nr_chainId ref)))
     | Some network \<Rightarrow>
         if an_role network \<noteq> nr_role ref
         then Inl (NetworkGuardError ROLE_MISMATCH ctx (Some (nr_chainId ref)))
         else if intent = PUBLIC_WRITE \<and> an_role network \<notin> set PUBLIC_WRITE_ROLES
         then Inl (NetworkGuardError FORK_PUBLIC_WRITE ctx (Some (nr_chainId ref)))
         else if an_role network \<notin> set WRITE_CAPABLE_ROLES
         then Inl (NetworkGuardError NOT_APPROVED ctx (Some (nr_chainId ref)))
         else Inr network)"

definition assertReadAllowed :: "network_ref \<Rightarrow> string \<Rightarrow> network_guard_error + unit" where
  "assertReadAllowed ref ctx = Inr ()"

definition assertWalletNetworkSafe ::
  "int \<Rightarrow> network_ref \<Rightarrow> string \<Rightarrow> network_guard_error + unit" where
  "assertWalletNetworkSafe walletChainId target ctx =
    (if isProductionChain walletChainId
     then Inl (NetworkGuardError PRODUCTION_WRITE ctx (Some walletChainId))
     else if walletChainId \<noteq> nr_chainId target
     then Inl (NetworkGuardError ROLE_MISMATCH ctx (Some walletChainId))
     else Inr ())"

text \<open>The dash of the source's labels is written as \<open>-\<close>.\<close>

definition networkLabel :: "network_ref \<Rightarrow> string" where
  "networkLabel ref =
    (case nr_role ref of
       READ_ONLY_SOURCE \<Rightarrow> ''MAINNET DATA - READ ONLY''
     | TESTNET_EXECUTION \<Rightarrow> ''TESTNET''
     | LOCAL_FORK \<Rightarrow> ''LOCAL MAINNET FORK - NO PUBLIC TRANSACTIONS'')"

definition FORBIDDEN_LABELS :: "string list" where
  "FORBIDDEN_LABELS =
    [''Live Mainnet Agent'', ''Mainnet Agent'', ''Production Agent'', ''Live Trading'',
     ''Real Money'', ''Mainnet Execution'']"

section \<open>Write fences (fences.ts)\<close>

datatype write_fence =
    BLUEPRINT_VALIDATOR
  | STRATEGY_COMPILER
  | EXECUTION_PLAN_VALIDATOR
  | ADAPTER_RESOLVER
  | DEPLOYMENT_PREFLIGHT
  | CONTEXTLOCK_BROKER
  | SIGNER
  | RELAYER
  | AGENT_RUNTIME
  | CRE_BROADCAST

definition WRITE_FENCES :: "write_fence list" where
  "WRITE_FENCES =
    [BLUEPRINT_VALIDATOR, STRATEGY_COMPILER, EXECUTION_PLAN_VALIDATOR, ADAPTER_RESOLVER,
     DEPLOYMENT_PREFLIGHT, CONTEXTLOCK_BROKER, SIGNER, RELAYER, AGENT_RUNTIME, CRE_BROADCAST]"

fun fence_name :: "write_fence \<Rightarrow> string" where
  "fence_name BLUEPRINT_VALIDATOR = ''BLUEPRINT_VALIDATOR''"
| "fence_name STRATEGY_COMPILER = ''STRATEGY_COMPILER''"
| "fence_name EXECUTION_PLAN_VALIDATOR = ''EXECUTION_PLAN_VALIDATOR''"
| "fence_name ADAPTER_RESOLVER = ''ADAPTER_RESOLVER''"
| "fence_name DEPLOYMENT_PREFLIGHT = ''DEPLOYMENT_PREFLIGHT''"
| "fence_name CONTEXTLOCK_BROKER = ''CONTEXTLOCK_BROKER''"
| "fence_name SIGNER = ''SIGNER''"
| "fence_name RELAYER = ''RELAYER''"
| "fence_name AGENT_RUNTIME = ''AGENT_RUNTIME''"
| "fence_name CRE_BROADCAST = ''CRE_BROADCAST''"

definition fenceWrite ::
  "write_fence \<Rightarrow> network_ref \<Rightarrow> write_intent \<Rightarrow> network_guard_error + unit" where
  "fenceWrite fence ref intent =
    res_bind (assertExecutionAllowed ref intent (fence_name fence)) (\<lambda>_. Inr ())"

definition fenceWriteByChain ::
  "write_fence \<Rightarrow> int \<Rightarrow> int option \<Rightarrow> string option \<Rightarrow> network_guard_error + unit" where
  "fenceWriteByChain fence chainId forkedFrom forkBlock =
    (let role = (case lookupNetwork chainId of None \<Rightarrow> TESTNET_EXECUTION | Some n \<Rightarrow> an_role n);
         intent = (if role = LOCAL_FORK then LOCAL_WRITE else PUBLIC_WRITE)
     in res_bind
          (assertExecutionAllowed
             \<lparr>nr_chainId = chainId, nr_role = role, nr_forkedFrom = forkedFrom,
              nr_forkBlock = forkBlock\<rparr>
             intent (fence_name fence))
          (\<lambda>_. Inr ()))"

text \<open>One entry of a plan: its id, network and optional intent.\<close>

record fence_item =
  fi_id :: string
  fi_network :: network_ref
  fi_intent :: "write_intent option"

fun fencePlan :: "write_fence \<Rightarrow> fence_item list \<Rightarrow> (string \<times> network_guard_error) list" where
  "fencePlan fence [] = []"
| "fencePlan fence (r # rs) =
     (case fenceWrite fence (fi_network r)
             (case fi_intent r of None \<Rightarrow> PUBLIC_WRITE | Some i \<Rightarrow> i) of
        Inr _ \<Rightarrow> fencePlan fence rs
      | Inl err \<Rightarrow> (fi_id r, err) # fencePlan fence rs)"

definition assertDataCannotGrantExecution ::
  "network_ref list \<Rightarrow> network_ref \<Rightarrow> write_fence \<Rightarrow> network_guard_error + unit" where
  "assertDataCannotGrantExecution readSources executionTarget fence =
    fenceWrite fence executionTarget PUBLIC_WRITE"

section \<open>CRE broadcast modes (broadcast.ts)\<close>

definition BROADCAST_MODES :: "string list" where
  "BROADCAST_MODES = [''DRY_RUN'', ''TESTNET_BROADCAST'']"

datatype broadcast_reason =
    DRY_RUN_CANNOT_BROADCAST
  | BROADCAST_NETWORK_NOT_APPROVED
  | UNKNOWN_MODE
  | BURNER_REQUIRED
  | USER_WALLET_REFUSED

text \<open>What a broadcast operation can throw: its own error, or the network guard's.\<close>

datatype broadcast_error = BroadcastError broadcast_reason | BroadcastGuard network_guard_error

definition guarded :: "network_guard_error + 'a \<Rightarrow> broadcast_error + 'a" where
  "guarded r = (case r of Inl e \<Rightarrow> Inl (BroadcastGuard e) | Inr x \<Rightarrow> Inr x)"

definition BROADCAST_SIGNERS :: "string list" where
  "BROADCAST_SIGNERS = [''EPHEMERAL_TESTNET_BURNER'', ''LOCAL_BRIDGE_TESTNET'']"

text \<open>The mode is kept as text, because the code checks it at run time.\<close>

record broadcast_request =
  br_mode :: string
  br_network :: network_ref
  br_signer :: string
  br_context :: string

record broadcast_flags =
  bf_flags :: "string list"
  bf_broadcasting :: bool
  bf_network :: string

definition broadcastFlags :: "broadcast_request \<Rightarrow> broadcast_error + broadcast_flags" where
  "broadcastFlags req =
    (if br_mode req \<notin> set BROADCAST_MODES then Inl (BroadcastError UNKNOWN_MODE)
     else if br_mode req = ''DRY_RUN''
     then Inr \<lparr>bf_flags = [], bf_broadcasting = False,
               bf_network = show_int (nr_chainId (br_network req)) @ '' (no transaction will be sent)''\<rparr>
     else res_bind (guarded (fenceWrite CRE_BROADCAST (br_network req) PUBLIC_WRITE)) (\<lambda>_.
          res_bind (guarded (assertExecutionAllowed (br_network req) PUBLIC_WRITE
                      (''CRE broadcast ('' @ br_context req @ '')''))) (\<lambda>approved.
          Inr \<lparr>bf_flags = [''--broadcast''], bf_broadcasting = True,
               bf_network = an_name approved @ '' ('' @ show_int (an_chainId approved) @ '')''\<rparr>)))"

record ephemeral_burner =
  eb_deploymentId :: string
  eb_address :: string
  eb_chainId :: int
  eb_createdAtMs :: int
  eb_expiresAtMs :: int
  eb_keyRef :: string

definition ephemeralBurnerSchema :: "ephemeral_burner \<Rightarrow> bool" where
  "ephemeralBurnerSchema b =
    (eb_deploymentId b \<noteq> [] \<and>
     startsWith (eb_address b) ''0x'' \<and> length (eb_address b) = 42 \<and>
     list_all is_hex (drop 2 (eb_address b)) \<and>
     0 < eb_chainId b \<and> 0 < eb_createdAtMs b \<and> 0 < eb_expiresAtMs b \<and>
     startsWith (eb_keyRef b) ''burner_'' \<and> 23 \<le> length (eb_keyRef b) \<and>
     list_all is_lower_hex (drop 7 (eb_keyRef b)))"

definition assertBurnerUsable ::
  "ephemeral_burner \<Rightarrow> network_ref \<Rightarrow> int \<Rightarrow> broadcast_error + unit" where
  "assertBurnerUsable burner network nowMs =
    (if eb_chainId burner \<noteq> nr_chainId network
     then Inl (BroadcastError BROADCAST_NETWORK_NOT_APPROVED)
     else if eb_expiresAtMs burner < nowMs then Inl (BroadcastError BURNER_REQUIRED)
     else res_bind (guarded (assertExecutionAllowed network PUBLIC_WRITE (''burner '' @ eb_address burner)))
            (\<lambda>_. Inr ()))"

definition assertNotUserWallet :: "string \<Rightarrow> string option \<Rightarrow> broadcast_error + unit" where
  "assertNotUserWallet signer userWalletAddress =
    (if signer \<notin> set BROADCAST_SIGNERS then Inl (BroadcastError USER_WALLET_REFUSED) else Inr ())"

datatype limits_mode = PRODUCTION_DEFAULT | PRODUCTION_FILE | LIMITS_NONE

datatype limits_error = LIMITS_FILE_REQUIRED | NO_LIMITS_CANNOT_GATE

definition limitsFlags :: "limits_mode \<Rightarrow> string option \<Rightarrow> limits_error + string list" where
  "limitsFlags mode limitsFile =
    (case mode of
       PRODUCTION_DEFAULT \<Rightarrow> Inr [''--limits'', ''default'']
     | PRODUCTION_FILE \<Rightarrow>
         (case limitsFile of
            None \<Rightarrow> Inl LIMITS_FILE_REQUIRED
          | Some f \<Rightarrow> if f = [] then Inl LIMITS_FILE_REQUIRED else Inr [''--limits'', f])
     | LIMITS_NONE \<Rightarrow> Inr [''--limits'', ''none''])"

definition assertLimitsSatisfyGate :: "limits_mode \<Rightarrow> string \<Rightarrow> limits_error + unit" where
  "assertLimitsSatisfyGate mode gate =
    (if mode = LIMITS_NONE then Inl NO_LIMITS_CANNOT_GATE else Inr ())"

section \<open>CRE execution modes (cre-modes.ts)\<close>

datatype cre_execution_mode = SIMULATED_PLATFORM | SIMULATED_USER | DEPLOYED_USER

definition SIMULATED_MODES :: "cre_execution_mode list" where
  "SIMULATED_MODES = [SIMULATED_PLATFORM, SIMULATED_USER]"

definition isSimulated :: "cre_execution_mode \<Rightarrow> bool" where
  "isSimulated m = (m \<in> set SIMULATED_MODES)"

definition PLATFORM_SIMULATION_AVAILABILITY :: string where
  "PLATFORM_SIMULATION_AVAILABILITY = ''INTERNAL_ONLY''"

datatype cre_mode_reason =
    SIMULATION_IS_NOT_DEPLOYMENT
  | PLATFORM_NOT_PUBLIC
  | DEPLOY_ACCESS_REQUIRED
  | WRONG_MODE_OPERATION
  | FALSE_DON_CLAIM
  | FALSE_TEE_CLAIM

definition assertPlatformSimulationAllowed :: "bool \<Rightarrow> cre_mode_reason + unit" where
  "assertPlatformSimulationAllowed internalUse =
    (if PLATFORM_SIMULATION_AVAILABILITY = ''INTERNAL_ONLY'' \<and> \<not> internalUse
     then Inl PLATFORM_NOT_PUBLIC else Inr ())"

definition is_project_char :: "char \<Rightarrow> bool" where
  "is_project_char c = (is_lower c \<or> is_digit c \<or> c = CHR ''_'' \<or> c = CHR ''-'')"

text \<open>\<open>[0-9a-f]{8}-[0-9a-f]{4}-[0-9a-f]{4}-[0-9a-f]{4}-[0-9a-f]{12}\<close>, the whole text.\<close>

definition is_lower_uuid :: "string \<Rightarrow> bool" where
  "is_lower_uuid s =
    (length s = 36 \<and>
     list_all (\<lambda>i. if i \<in> {8, 13, 18, 23} then s ! i = CHR ''-'' else is_lower_hex (s ! i)) [0..<36])"

text \<open>
  \<open>^cre-sim://[a-z0-9][a-z0-9_-]*/session/<uuid>$\<close>. The project part cannot contain a slash, so it
  is exactly the longest run of project characters.
\<close>

definition isSimulationId :: "string \<Rightarrow> bool" where
  "isSimulationId s =
    (startsWith s ''cre-sim://'' \<and>
     (let rest = drop 10 s;
          project = takeWhile is_project_char rest;
          tail = dropWhile is_project_char rest
      in project \<noteq> [] \<and> (is_lower (hd project) \<or> is_digit (hd project)) \<and>
         startsWith tail ''/session/'' \<and> is_lower_uuid (drop 9 tail)))"

definition isWorkflowId :: "string \<Rightarrow> bool" where
  "isWorkflowId s = (length s = 64 \<and> list_all is_lower_hex s)"

definition assertRealWorkflowId :: "string \<Rightarrow> string \<Rightarrow> cre_mode_reason + string" where
  "assertRealWorkflowId i ctx =
    (if isSimulationId i then Inl SIMULATION_IS_NOT_DEPLOYMENT
     else if \<not> isWorkflowId i then Inl SIMULATION_IS_NOT_DEPLOYMENT
     else Inr i)"

record privacy_evidence =
  pe_agentCannotReadSecret :: bool
  pe_privatePolicyNotShownToAgent :: bool
  pe_officialCreSimulation :: bool
  pe_realDonConsensus :: bool
  pe_realTeeExecution :: bool
  pe_teeAttestation :: bool

definition privacyEvidenceFor :: "cre_execution_mode \<Rightarrow> bool \<Rightarrow> privacy_evidence" where
  "privacyEvidenceFor mode officialSimulationRan =
    \<lparr>pe_agentCannotReadSecret = True, pe_privatePolicyNotShownToAgent = True,
     pe_officialCreSimulation = (isSimulated mode \<and> officialSimulationRan),
     pe_realDonConsensus = (mode = DEPLOYED_USER),
     pe_realTeeExecution = False, pe_teeAttestation = False\<rparr>"

definition assertPrivacyEvidenceHonest ::
  "cre_execution_mode \<Rightarrow> privacy_evidence \<Rightarrow> cre_mode_reason + unit" where
  "assertPrivacyEvidenceHonest mode e =
    (if isSimulated mode \<and> pe_realDonConsensus e then Inl FALSE_DON_CLAIM
     else if pe_realTeeExecution e \<and> \<not> pe_teeAttestation e then Inl FALSE_TEE_CLAIM
     else if isSimulated mode \<and> pe_realTeeExecution e then Inl FALSE_TEE_CLAIM
     else Inr ())"

record cre_mode_label =
  cml_headline :: string
  cml_don :: string
  cml_tee :: string
  cml_provider :: string

definition creModeLabel :: "cre_execution_mode \<Rightarrow> cre_mode_label" where
  "creModeLabel mode =
    (case mode of
       SIMULATED_PLATFORM \<Rightarrow>
         \<lparr>cml_headline = ''SIMULATED (ContextLock simulator)'', cml_don = ''NOT DEPLOYED'',
          cml_tee = ''NOT ACTIVE'', cml_provider = ''Official Chainlink CRE CLI''\<rparr>
     | SIMULATED_USER \<Rightarrow>
         \<lparr>cml_headline = ''SIMULATED (your CRE CLI)'', cml_don = ''NOT DEPLOYED'',
          cml_tee = ''NOT ACTIVE'', cml_provider = ''Official Chainlink CRE CLI, via your Local Bridge''\<rparr>
     | DEPLOYED_USER \<Rightarrow>
         \<lparr>cml_headline = ''DEPLOYED'', cml_don = ''DEPLOYED'', cml_tee = ''NOT ESTABLISHED'',
          cml_provider = ''Chainlink DON''\<rparr>)"

section \<open>Facts about the registry\<close>

lemmas role_set_defs = WRITE_CAPABLE_ROLES_def PUBLIC_WRITE_ROLES_def

lemma BY_CHAIN_ID_Some:
  "BY_CHAIN_ID c = Some n \<Longrightarrow> n \<in> set APPROVED \<and> an_chainId n = c"
  by (auto simp: BY_CHAIN_ID_def dest!: map_of_SomeD)

lemma BY_CHAIN_ID_dom: "BY_CHAIN_ID c \<noteq> None \<longleftrightarrow> c \<in> {11155111, 84532, 31337, 1}"
  by (auto simp: BY_CHAIN_ID_def APPROVED_def)

lemma BY_CHAIN_ID_role:
  "BY_CHAIN_ID c = Some n \<Longrightarrow>
     an_role n = (if c = 1 then READ_ONLY_SOURCE else if c = 31337 then LOCAL_FORK else TESTNET_EXECUTION)"
  by (auto simp: BY_CHAIN_ID_def APPROVED_def split: if_splits)

lemma production_registered: "isProductionChain c \<Longrightarrow> BY_CHAIN_ID c = Some n \<Longrightarrow> an_role n = READ_ONLY_SOURCE"
  using BY_CHAIN_ID_dom [of c] BY_CHAIN_ID_role [of c n]
  by (auto simp: isProductionChain_def PRODUCTION_CHAIN_IDS_def)

lemma role_sets [simp]:
  "r \<in> set WRITE_CAPABLE_ROLES \<longleftrightarrow> r \<noteq> READ_ONLY_SOURCE"
  "r \<in> set PUBLIC_WRITE_ROLES \<longleftrightarrow> r = TESTNET_EXECUTION"
  by (cases r; simp add: role_set_defs)+

section \<open>The write guard\<close>

text \<open>
  The write guard returns a network exactly when the chain is registered under the role the
  caller claims, that role may write, and a public write targets a public testnet. The production
  check adds nothing that this condition does not already exclude.
\<close>

theorem execution_allowed_iff:
  "assertExecutionAllowed ref intent ctx = Inr n \<longleftrightarrow>
     BY_CHAIN_ID (nr_chainId ref) = Some n \<and> an_role n = nr_role ref \<and>
     nr_role ref \<noteq> READ_ONLY_SOURCE \<and> (intent = PUBLIC_WRITE \<longrightarrow> nr_role ref = TESTNET_EXECUTION)"
  using production_registered [of "nr_chainId ref" n]
  by (auto simp: assertExecutionAllowed_def split: option.splits)

theorem execution_allowed_iff_witness:
  "assertExecutionAllowed
     \<lparr>nr_chainId = 31337, nr_role = LOCAL_FORK, nr_forkedFrom = Some 1, nr_forkBlock = None\<rparr>
     LOCAL_WRITE ''test'' = Inr (APPROVED ! 2)"
  by (subst execution_allowed_iff) (simp add: BY_CHAIN_ID_def APPROVED_def)

text \<open>Helper forms of the guard for the other components.\<close>

lemma allowed_not_production:
  "assertExecutionAllowed ref intent ctx = Inr n \<Longrightarrow> \<not> isProductionChain (nr_chainId ref)"
  using production_registered [of "nr_chainId ref" n]
  by (auto simp: assertExecutionAllowed_def split: option.splits if_splits)

lemma allowed_registered:
  assumes "assertExecutionAllowed ref intent ctx = Inr n"
  shows "BY_CHAIN_ID (nr_chainId ref) = Some n" and "nr_role ref \<noteq> READ_ONLY_SOURCE"
    and "intent = PUBLIC_WRITE \<Longrightarrow> nr_role ref = TESTNET_EXECUTION" and "an_role n = nr_role ref"
  using assms by (auto simp: assertExecutionAllowed_def split: option.splits if_splits)

lemma allowed_error_context:
  "assertExecutionAllowed ref intent ctx = Inl e \<Longrightarrow>
     nge_context e = ctx \<and> nge_chainId e = Some (nr_chainId ref)"
  by (auto simp: assertExecutionAllowed_def split: option.splits if_splits)

lemma fenceWrite_iff:
  "fenceWrite f ref intent = Inr u \<longleftrightarrow> (\<exists>n. assertExecutionAllowed ref intent (fence_name f) = Inr n)"
  by (cases "assertExecutionAllowed ref intent (fence_name f)") (auto simp: fenceWrite_def)

text \<open>
  C38: No role a caller claims, no intent and no fence lets a write through on a production chain:
  the guard throws, and the error names the calling context and the chain.
\<close>

theorem production_never_allowed:
  assumes "isProductionChain (nr_chainId ref)"
  shows "\<exists>reason. assertExecutionAllowed ref intent ctx =
           Inl (NetworkGuardError reason ctx (Some (nr_chainId ref)))"
proof (cases "assertExecutionAllowed ref intent ctx")
  case (Inl e)
  with allowed_error_context [OF Inl] show ?thesis by (cases e) auto
next
  case (Inr n)
  with assms show ?thesis using allowed_not_production by blast
qed

theorem production_never_allowed_witness:
  "isProductionChain 8453 \<and>
   (\<exists>reason. assertExecutionAllowed
      \<lparr>nr_chainId = 8453, nr_role = LOCAL_FORK, nr_forkedFrom = None, nr_forkBlock = None\<rparr>
      LOCAL_WRITE ''SIGNER'' = Inl (NetworkGuardError reason ''SIGNER'' (Some 8453)))"
  using production_never_allowed
    [of "\<lparr>nr_chainId = 8453, nr_role = LOCAL_FORK, nr_forkedFrom = None, nr_forkBlock = None\<rparr>"
        LOCAL_WRITE "''SIGNER''"]
  by (simp add: isProductionChain_def PRODUCTION_CHAIN_IDS_def)

lemma fence_by_chain_passes:
  "fenceWriteByChain f c ff fb = Inr () \<longleftrightarrow> c \<in> {11155111, 84532, 31337}"
proof (cases "BY_CHAIN_ID c")
  case None
  then have "c \<notin> {11155111, 84532, 31337, 1}"
    using BY_CHAIN_ID_dom [of c] by blast
  with None show ?thesis
    by (simp add: fenceWriteByChain_def lookupNetwork_def assertExecutionAllowed_def)
next
  case (Some n)
  then have dom: "c \<in> {11155111, 84532, 31337, 1}"
    using BY_CHAIN_ID_dom [of c] by blast
  from BY_CHAIN_ID_role [OF Some] dom Some show ?thesis
    by (auto simp: fenceWriteByChain_def lookupNetwork_def assertExecutionAllowed_def
        isProductionChain_def PRODUCTION_CHAIN_IDS_def)
qed

lemma fence_by_chain_error:
  "fenceWriteByChain f c ff fb = Inl e \<Longrightarrow> nge_context e = fence_name f \<and> nge_chainId e = Some c"
  by (auto simp: fenceWriteByChain_def Let_def res_bind_Inl_iff dest!: allowed_error_context)

lemma fence_by_chain_not_production:
  assumes "fenceWriteByChain f c ff fb = Inr u"
  shows "\<not> isProductionChain c"
proof -
  have "c \<in> {11155111, 84532, 31337}"
    using assms by (cases u) (auto simp: fence_by_chain_passes)
  then show ?thesis by (auto simp: isProductionChain_def PRODUCTION_CHAIN_IDS_def)
qed

lemma fence_by_chain_cases:
  obtains "fenceWriteByChain f c ff fb = Inr ()" | e where "fenceWriteByChain f c ff fb = Inl e"
  by (cases "fenceWriteByChain f c ff fb") auto

text \<open>
  A fence that is given only a chain id passes on exactly the three execution networks of the
  registry, whatever the fork metadata says, and a refusal names the fence and the chain.
\<close>

theorem fence_by_chain_iff:
  "(fenceWriteByChain f c ff fb = Inr () \<longleftrightarrow> c \<in> {11155111, 84532, 31337}) \<and>
   (c \<notin> {11155111, 84532, 31337} \<longrightarrow>
     (\<exists>reason. fenceWriteByChain f c ff fb = Inl (NetworkGuardError reason (fence_name f) (Some c))))"
proof (cases "fenceWriteByChain f c ff fb")
  case (Inl e)
  with fence_by_chain_error [OF Inl] fence_by_chain_passes [of f c ff fb] show ?thesis
    by (cases e) auto
next
  case (Inr u)
  with fence_by_chain_passes [of f c ff fb] show ?thesis by auto
qed

theorem fence_by_chain_iff_witness:
  "fenceWriteByChain RELAYER 84532 None None = Inr () \<and>
   (\<exists>reason. fenceWriteByChain RELAYER 137 None None = Inl (NetworkGuardError reason ''RELAYER'' (Some 137)))"
  using fence_by_chain_iff [of RELAYER 84532 None None] fence_by_chain_iff [of RELAYER 137 None None]
  by simp

text \<open>
  The contract every fenced subsystem relies on: an operation that returns has passed a named fence
  on the chain it acts on. Its clients are the components that call \<open>fenceWriteByChain\<close>.
\<close>

locale fenced_operation =
  fixes oper :: "'a \<Rightarrow> 'e + 'b"
    and chain_of :: "'a \<Rightarrow> int"
    and fence :: write_fence
  assumes passes_fence: "oper x = Inr y \<Longrightarrow> fenceWriteByChain fence (chain_of x) None None = Inr ()"
begin

lemma only_approved: "oper x = Inr y \<Longrightarrow> chain_of x \<in> {11155111, 84532, 31337}"
  using passes_fence fence_by_chain_passes by blast

lemma never_production: "isProductionChain (chain_of x) \<Longrightarrow> \<not> succeeds (oper x)"
  using passes_fence fence_by_chain_not_production by (metis succeeds_iff)

end

text \<open>
  Fencing a whole plan reports exactly the entries the fence refuses on their own network, in
  order, each with the error that refused it; it does not stop at the first.
\<close>

theorem fencePlan_complete:
  "fencePlan f rs =
     map (\<lambda>r. (fi_id r, projl (fenceWrite f (fi_network r) (case fi_intent r of None \<Rightarrow> PUBLIC_WRITE | Some i \<Rightarrow> i))))
       (filter (\<lambda>r. \<not> succeeds (fenceWrite f (fi_network r) (case fi_intent r of None \<Rightarrow> PUBLIC_WRITE | Some i \<Rightarrow> i))) rs)"
  by (induction rs) (auto split: sum.splits)

section \<open>Broadcasting\<close>

lemma guarded_Inr [simp]: "guarded r = Inr x \<longleftrightarrow> r = Inr x"
  by (cases r) (auto simp: guarded_def)

text \<open>
  The \<open>--broadcast\<close> flag is produced only in mode \<open>TESTNET_BROADCAST\<close> and only for a network the
  registry lists as a public testnet; a dry run never broadcasts and is never refused, on any chain.
\<close>

theorem broadcast_only_testnet:
  "(broadcastFlags req = Inr r \<and> bf_broadcasting r \<longrightarrow>
      br_mode req = ''TESTNET_BROADCAST'' \<and> bf_flags r = [''--broadcast''] \<and>
      nr_role (br_network req) = TESTNET_EXECUTION \<and> nr_chainId (br_network req) \<in> {11155111, 84532}) \<and>
   (br_mode req = ''DRY_RUN'' \<longrightarrow>
      (\<exists>r. broadcastFlags req = Inr r \<and> \<not> bf_broadcasting r \<and> bf_flags r = []))"
proof (intro conjI impI)
  assume r: "broadcastFlags req = Inr r \<and> bf_broadcasting r"
  then have mode: "br_mode req = ''TESTNET_BROADCAST''" and flags: "bf_flags r = [''--broadcast'']"
    by (auto simp: broadcastFlags_def BROADCAST_MODES_def res_bind_Inr_iff split: if_splits)
  from r obtain n ctx where ok: "assertExecutionAllowed (br_network req) PUBLIC_WRITE ctx = Inr n"
    by (auto simp: broadcastFlags_def res_bind_Inr_iff split: if_splits)
  have role: "nr_role (br_network req) = TESTNET_EXECUTION"
    using allowed_registered(3) [OF ok] by simp
  have "nr_chainId (br_network req) \<in> {11155111, 84532, 31337, 1}"
    using allowed_registered(1) [OF ok] BY_CHAIN_ID_dom [of "nr_chainId (br_network req)"] by blast
  with BY_CHAIN_ID_role [OF allowed_registered(1) [OF ok]] allowed_registered(4) [OF ok] role
  have "nr_chainId (br_network req) \<in> {11155111, 84532}" by (auto split: if_splits)
  with mode flags role show
    "br_mode req = ''TESTNET_BROADCAST''" "bf_flags r = [''--broadcast'']"
    "nr_role (br_network req) = TESTNET_EXECUTION" "nr_chainId (br_network req) \<in> {11155111, 84532}"
    by auto
qed (auto simp: broadcastFlags_def BROADCAST_MODES_def)

theorem broadcast_only_testnet_witness:
  "\<exists>r. broadcastFlags
      \<lparr>br_mode = ''DRY_RUN'',
       br_network = \<lparr>nr_chainId = 1, nr_role = READ_ONLY_SOURCE, nr_forkedFrom = None, nr_forkBlock = None\<rparr>,
       br_signer = ''EPHEMERAL_TESTNET_BURNER'', br_context = ''demo''\<rparr> = Inr r \<and>
     \<not> bf_broadcasting r \<and> bf_flags r = []"
  using broadcast_only_testnet
    [of "\<lparr>br_mode = ''DRY_RUN'',
       br_network = \<lparr>nr_chainId = 1, nr_role = READ_ONLY_SOURCE, nr_forkedFrom = None, nr_forkBlock = None\<rparr>,
       br_signer = ''EPHEMERAL_TESTNET_BURNER'', br_context = ''demo''\<rparr>"]
  by simp

lemma burner_usable_iff:
  "assertBurnerUsable b net now = Inr u \<longleftrightarrow>
     eb_chainId b = nr_chainId net \<and> now \<le> eb_expiresAtMs b \<and>
     (\<exists>n. assertExecutionAllowed net PUBLIC_WRITE (''burner '' @ eb_address b) = Inr n)"
  by (auto simp: assertBurnerUsable_def res_bind_Inr_iff)

section \<open>Honest labels\<close>

lemma simulation_id_not_workflow_id: "isSimulationId s \<Longrightarrow> \<not> isWorkflowId s"
proof
  assume sim: "isSimulationId s" and wf: "isWorkflowId s"
  from sim have "startsWith s ''cre-sim://''"
    by (simp add: isSimulationId_def)
  then have "CHR ''r'' \<in> set s"
    using startsWith_set by fastforce
  with wf have "is_lower_hex (CHR ''r'')"
    by (auto simp: isWorkflowId_def list_all_iff)
  then show False by (simp add: char_class_defs)
qed

text \<open>
  A simulation session id is never accepted where a workflow id is required: the two shapes
  are disjoint, and \<open>assertRealWorkflowId\<close> returns its argument exactly on workflow ids.
\<close>

theorem real_workflow_id_iff:
  "(isSimulationId s \<longrightarrow> \<not> isWorkflowId s) \<and>
   (assertRealWorkflowId s ctx = Inr s' \<longleftrightarrow> s' = s \<and> isWorkflowId s)"
  using simulation_id_not_workflow_id [of s] by (auto simp: assertRealWorkflowId_def)

theorem real_workflow_id_iff_witness:
  "isSimulationId ''cre-sim://agent-1/session/01234567-89ab-cdef-0123-456789abcdef'' \<and>
   \<not> isWorkflowId ''cre-sim://agent-1/session/01234567-89ab-cdef-0123-456789abcdef''"
proof -
  have "isSimulationId ''cre-sim://agent-1/session/01234567-89ab-cdef-0123-456789abcdef''"
    by code_simp
  with real_workflow_id_iff [of "''cre-sim://agent-1/session/01234567-89ab-cdef-0123-456789abcdef''" "[]" "[]"]
  show ?thesis by blast
qed

text \<open>
  The evidence the program generates for a mode always passes its own honesty check, and any
  evidence that passes in a simulated mode claims neither DON consensus nor TEE execution.
\<close>

theorem privacy_evidence_honest:
  "assertPrivacyEvidenceHonest mode (privacyEvidenceFor mode simRan) = Inr () \<and>
   (isSimulated mode \<and> assertPrivacyEvidenceHonest mode e = Inr () \<longrightarrow>
      \<not> pe_realDonConsensus e \<and> \<not> pe_realTeeExecution e)"
  by (auto simp: assertPrivacyEvidenceHonest_def privacyEvidenceFor_def isSimulated_def
      SIMULATED_MODES_def split: if_splits)

theorem privacy_evidence_honest_witness:
  "\<not> pe_realDonConsensus (privacyEvidenceFor SIMULATED_USER True)"
  using privacy_evidence_honest [of SIMULATED_USER True "privacyEvidenceFor SIMULATED_USER True"]
  by (simp add: isSimulated_def SIMULATED_MODES_def)

end
