(* ===== verification/Gateways.thy ===== *)
theory Gateways
  imports Runtime_Token Network
begin

text \<open>
  The trusted side of the four gateways, \<open>packages/studio-runtime/src/gateways.ts\<close>: the model gateway with its
  quotas, the adapter broker, the intent broker with its write fences, and the telemetry gateway.
  What a gateway calls (a model, an adapter, a policy decision) is an argument and may throw; the calls it
  makes are recorded. The theorems show that every such effect belongs to a token the control plane issued and is
  within what its agent is allowed, and they bound the use of the model. Two of them show limits: the daily
  quotas, and the key of a checkpoint.
\<close>

section \<open>The model gateway\<close>

datatype modelGatewayReason = MODEL_NOT_SELECTABLE | QUOTA_EXCEEDED | TURN_LIMIT | TOOL_NOT_ALLOWED | RATE_LIMITED

datatype adapterBrokerReason = ADAPTER_NOT_ALLOWED | ACTION_NOT_ALLOWED | HOST_NOT_ALLOWED | VERSION_MISMATCH | RAW_URL_REFUSED

datatype contextLockBrokerReason = RAW_SIGNING_REFUSED | CAPABILITY_NOT_REQUESTABLE | POLICY_DISABLED | NOT_AUTHORIZED

datatype gatewayError =
    TokenError tokenReason
  | ModelGatewayError modelGatewayReason
  | AdapterBrokerError adapterBrokerReason
  | ContextLockBrokerError contextLockBrokerReason
  | FenceError network_guard_error
  | SchemaError
  | CallThrew string

definition PINNED_MODEL :: string where
  "PINNED_MODEL = ''gpt-5.6-luna''"

record modelQuota =
  mq_requestsPerAgentPerDay :: int
  mq_inputTokensPerAgentPerDay :: int
  mq_outputTokensPerAgentPerDay :: int
  mq_maxTurnsPerRun :: int
  mq_maxOutputTokensPerRequest :: int
  mq_requestsPerMinute :: int

definition DEFAULT_MODEL_QUOTA :: modelQuota where
  "DEFAULT_MODEL_QUOTA = \<lparr>mq_requestsPerAgentPerDay = 500, mq_inputTokensPerAgentPerDay = 5000000, mq_outputTokensPerAgentPerDay = 500000,
     mq_maxTurnsPerRun = 24, mq_maxOutputTokensPerRequest = 8000, mq_requestsPerMinute = 20\<rparr>"

record modelUsage =
  mu_agentId :: string
  mu_deploymentId :: string
  mu_requests :: int
  mu_inputTokens :: int
  mu_outputTokens :: int

record modelGateway =
  mg_usage :: "(string \<times> modelUsage) list"
  mg_recentRequests :: "(string \<times> int list) list"

record modelRequest =
  mr_messages :: "(string \<times> string) list"
  mr_maxOutputTokens :: jsnum
  mr_toolNames :: "string list"
  mr_turn :: jsnum
  mr_correlationId :: string
  mr_namesModel :: bool

record modelCall =
  ml_model :: string
  ml_messages :: "(string \<times> string) list"
  ml_maxOutputTokens :: jsnum
  ml_tools :: "string list"

record adapterGrant =
  ag_adapterId :: string
  ag_version :: string
  ag_actions :: "string list"
  ag_hosts :: "string list"

record agentIntent =
  in_action :: string
  in_chainId :: int
  in_target :: string
  in_amount :: "string option"
  in_token :: "string option"
  in_rationale :: "string option"

text \<open>What the gateways do for an agent, with the time of the request, and whether the model answered.\<close>

datatype effect =
    ModelCalled string int modelCall bool
  | AdapterCalled string int adapterGrant string "(string \<times> json) list"
  | IntentDecided string int agentIntent
  | EventRecorded string int string
  | CheckpointSaved string int string json

definition usage_of :: "string \<Rightarrow> string \<Rightarrow> modelGateway \<Rightarrow> modelUsage" where
  "usage_of agentId deploymentId g =
    (case map_of (mg_usage g) agentId of
       Some u \<Rightarrow> u
     | None \<Rightarrow> \<lparr>mu_agentId = agentId, mu_deploymentId = deploymentId, mu_requests = 0, mu_inputTokens = 0, mu_outputTokens = 0\<rparr>)"

definition usageFor :: "string \<Rightarrow> modelGateway \<Rightarrow> modelUsage" where
  "usageFor agentId g = usage_of agentId [] g"

definition recent_of :: "string \<Rightarrow> modelGateway \<Rightarrow> int list" where
  "recent_of agentId g = (case map_of (mg_recentRequests g) agentId of Some w \<Rightarrow> w | None \<Rightarrow> [])"

definition check_request :: "modelQuota \<Rightarrow> (string \<Rightarrow> string list) \<Rightarrow> int \<Rightarrow> modelRequest \<Rightarrow> tokenClaims \<Rightarrow> modelGateway \<Rightarrow> modelGatewayReason + unit" where
  "check_request quota allowedTools nowMs request c g =
    res_bind (ensure (\<not> mr_namesModel request) MODEL_NOT_SELECTABLE) (\<lambda>_.
    res_bind (ensure (\<not> js_less (Fin (of_int (mq_maxTurnsPerRun quota))) (mr_turn request)) TURN_LIMIT) (\<lambda>_.
    res_bind (ensure (\<not> js_less (Fin (of_int (mq_maxOutputTokensPerRequest quota))) (mr_maxOutputTokens request)) QUOTA_EXCEEDED) (\<lambda>_.
    res_bind (ensure (filter (\<lambda>t. t \<notin> set (allowedTools (tc_agentId c))) (mr_toolNames request) = []) TOOL_NOT_ALLOWED) (\<lambda>_.
    res_bind (ensure (int (length (filter (\<lambda>t. nowMs - t < 60000) (recent_of (tc_agentId c) g))) < mq_requestsPerMinute quota) RATE_LIMITED) (\<lambda>_.
    ensure (mu_requests (usage_of (tc_agentId c) (tc_deploymentId c) g) + 1 \<le> mq_requestsPerAgentPerDay quota) QUOTA_EXCEEDED)))))"

definition complete ::
    "crypto \<Rightarrow> modelQuota \<Rightarrow> (string \<Rightarrow> string list) \<Rightarrow> tokenVerifier \<Rightarrow> string \<Rightarrow> verificationContext \<Rightarrow> modelRequest \<Rightarrow>
     (modelCall \<Rightarrow> string + int \<times> int \<times> string) \<Rightarrow> modelGateway \<Rightarrow>
     modelGateway \<times> (gatewayError + string \<times> string \<times> modelUsage \<times> string) \<times> effect list" where
  "complete cy quota allowedTools v token ctx request call g =
    (case verify_token cy v token (ctx\<lparr>vc_audience := MODEL\<rparr>) of
       Inl r \<Rightarrow> (g, Inl (TokenError r), [])
     | Inr c \<Rightarrow>
         (case check_request quota allowedTools (vc_nowMs ctx) request c g of
            Inl r \<Rightarrow> (g, Inl (ModelGatewayError r), [])
          | Inr _ \<Rightarrow>
              let agent = tc_agentId c; u = usage_of agent (tc_deploymentId c) g;
                  fresh = filter (\<lambda>t. vc_nowMs ctx - t < 60000) (recent_of agent g);
                  req = \<lparr>ml_model = PINNED_MODEL, ml_messages = mr_messages request, ml_maxOutputTokens = mr_maxOutputTokens request,
                         ml_tools = allowedTools agent\<rparr>;
                  called = (\<lambda>answered. [ModelCalled agent (vc_nowMs ctx) req answered]) in
              (case call req of
                 Inl message \<Rightarrow> (g, Inl (CallThrew message), called False)
               | Inr (inputTokens, outputTokens, content) \<Rightarrow>
                   let u' = u\<lparr>mu_requests := mu_requests u + 1, mu_inputTokens := mu_inputTokens u + inputTokens,
                              mu_outputTokens := mu_outputTokens u + outputTokens\<rparr> in
                   (\<lparr>mg_usage = map_set agent u' (mg_usage g), mg_recentRequests = map_set agent (fresh @ [vc_nowMs ctx]) (mg_recentRequests g)\<rparr>,
                    Inr (PINNED_MODEL, content, u', mr_correlationId request), called True))))"

section \<open>The adapter broker\<close>

definition REFUSED_ARGUMENTS :: "string list" where
  "REFUSED_ARGUMENTS = [''url'', ''endpoint'', ''host'', ''baseUrl'', ''credentialRef'', ''authorization'', ''headers'']"

record adapterRequest =
  ar_adapterId :: string
  ar_adapterVersion :: string
  ar_action :: string
  ar_args :: "(string \<times> json) list"
  ar_correlationId :: string

definition select_grant :: "adapterGrant list \<Rightarrow> adapterRequest \<Rightarrow> adapterBrokerReason + adapterGrant" where
  "select_grant grants request =
    (if list_ex (\<lambda>k. k \<in> set (map fst (ar_args request))) REFUSED_ARGUMENTS then Inl RAW_URL_REFUSED
     else case find (\<lambda>g. ag_adapterId g = ar_adapterId request) grants of
         None \<Rightarrow> Inl ADAPTER_NOT_ALLOWED
       | Some g \<Rightarrow>
           if ag_version g \<noteq> ar_adapterVersion request then Inl VERSION_MISMATCH
           else if ar_action request \<notin> set (ag_actions g) then Inl ACTION_NOT_ALLOWED
           else Inr g)"

definition invoke ::
    "crypto \<Rightarrow> (string \<Rightarrow> adapterGrant list) \<Rightarrow> tokenVerifier \<Rightarrow> string \<Rightarrow> verificationContext \<Rightarrow> adapterRequest \<Rightarrow>
     (adapterGrant \<Rightarrow> string \<Rightarrow> (string \<times> json) list \<Rightarrow> string + json) \<Rightarrow> (gatewayError + string \<times> string \<times> json \<times> string) \<times> effect list" where
  "invoke cy grants v token ctx request perform =
    (case verify_token cy v token (ctx\<lparr>vc_audience := ADAPTER\<rparr>) of
       Inl r \<Rightarrow> (Inl (TokenError r), [])
     | Inr c \<Rightarrow>
         (case select_grant (grants (tc_agentId c)) request of
            Inl r \<Rightarrow> (Inl (AdapterBrokerError r), [])
          | Inr g \<Rightarrow>
              (case perform g (ar_action request) (ar_args request) of
                 Inl message \<Rightarrow> Inl (CallThrew message)
               | Inr result \<Rightarrow> Inr (ar_adapterId request, ar_action request, result, ar_correlationId request),
               [AdapterCalled (tc_agentId c) (vc_nowMs ctx) g (ar_action request) (ar_args request)])))"

section \<open>The intent broker\<close>

definition AUTHORITY_KEYS :: "string list" where
  "AUTHORITY_KEYS = [''signature'', ''digest'', ''capability'', ''capabilityScope'', ''issuerSignature'', ''privateKey'']"

text \<open>\<open>IntentSchema\<close>: an optional key may be absent.\<close>

fun digits_of :: "json option \<Rightarrow> string option" where
  "digits_of (Some (JStr s)) = (if all_digits s then Some s else None)"
| "digits_of _ = None"

definition optional_of :: "(json option \<Rightarrow> 'a option) \<Rightarrow> json option \<Rightarrow> 'a option option" where
  "optional_of f j = (case j of None \<Rightarrow> Some None | Some _ \<Rightarrow> map_option Some (f j))"

definition intent_fields :: "(string \<Rightarrow> json option) \<Rightarrow> agentIntent option" where
  "intent_fields get =
    Option.bind (str_of 1 (get ''action'')) (\<lambda>action.
    Option.bind (time_of (get ''chainId'')) (\<lambda>chainId.
    Option.bind (str_of 1 (get ''target'')) (\<lambda>target.
    Option.bind (optional_of digits_of (get ''amount'')) (\<lambda>amount.
    Option.bind (optional_of (str_of 0) (get ''token'')) (\<lambda>token.
    Option.bind (optional_of (str_of 0) (get ''rationale'')) (\<lambda>rationale.
    Some \<lparr>in_action = action, in_chainId = chainId, in_target = target, in_amount = amount, in_token = token, in_rationale = rationale\<rparr>))))))"

fun intent_of :: "json option \<Rightarrow> agentIntent option" where
  "intent_of (Some (JObj kvs)) = intent_fields (map_of kvs)"
| "intent_of _ = None"

datatype disposition = ALLOW | DENY | ESCALATE

definition admit_intent :: "(string \<Rightarrow> bool) \<Rightarrow> (string \<times> json) list \<Rightarrow> string \<Rightarrow> gatewayError + agentIntent" where
  "admit_intent policyEnabled request agentId =
    (if list_ex (\<lambda>k. k \<in> set (map fst request)) AUTHORITY_KEYS then Inl (ContextLockBrokerError RAW_SIGNING_REFUSED)
     else case intent_of (map_of request ''intent'') of
         None \<Rightarrow> Inl SchemaError
       | Some i \<Rightarrow>
           (case fenceWriteByChain AGENT_RUNTIME (in_chainId i) None None of
              Inl e \<Rightarrow> Inl (FenceError e)
            | Inr _ \<Rightarrow>
                (case fenceWriteByChain CONTEXTLOCK_BROKER (in_chainId i) None None of
                   Inl e \<Rightarrow> Inl (FenceError e)
                 | Inr _ \<Rightarrow> if \<not> policyEnabled agentId then Inl (ContextLockBrokerError POLICY_DISABLED) else Inr i)))"

definition requestIntent ::
    "crypto \<Rightarrow> (string \<Rightarrow> bool) \<Rightarrow> (string \<Rightarrow> agentIntent \<Rightarrow> string + disposition \<times> string) \<Rightarrow> tokenVerifier \<Rightarrow> string \<Rightarrow> verificationContext \<Rightarrow>
     (string \<times> json) list \<Rightarrow> (gatewayError + disposition \<times> string \<times> bool) \<times> effect list" where
  "requestIntent cy policyEnabled decide v token ctx request =
    (case verify_token cy v token (ctx\<lparr>vc_audience := CONTEXTLOCK\<rparr>) of
       Inl r \<Rightarrow> (Inl (TokenError r), [])
     | Inr c \<Rightarrow>
         (case admit_intent policyEnabled request (tc_agentId c) of
            Inl e \<Rightarrow> (Inl e, [])
          | Inr i \<Rightarrow>
              (case decide (tc_agentId c) i of Inl message \<Rightarrow> Inl (CallThrew message) | Inr (d, reason) \<Rightarrow> Inr (d, reason, False),
               [IntentDecided (tc_agentId c) (vc_nowMs ctx) i])))"

section \<open>The telemetry gateway\<close>

record telemetryGateway =
  tg_checkpoints :: "(string \<times> json) list"
  tg_events :: "(string \<times> string \<times> int) list"

definition checkpoint_key :: "tokenClaims \<Rightarrow> string" where
  "checkpoint_key c = tc_deploymentId c @ '':'' @ tc_agentId c"

definition emit :: "crypto \<Rightarrow> tokenVerifier \<Rightarrow> string \<Rightarrow> verificationContext \<Rightarrow> string \<Rightarrow> telemetryGateway \<Rightarrow>
    telemetryGateway \<times> (gatewayError + unit) \<times> effect list" where
  "emit cy v token ctx type t =
    (case verify_token cy v token (ctx\<lparr>vc_audience := TELEMETRY\<rparr>) of
       Inl r \<Rightarrow> (t, Inl (TokenError r), [])
     | Inr c \<Rightarrow> (t\<lparr>tg_events := tg_events t @ [(tc_agentId c, type, vc_nowMs ctx)]\<rparr>, Inr (), [EventRecorded (tc_agentId c) (vc_nowMs ctx) type]))"

definition saveCheckpoint :: "crypto \<Rightarrow> tokenVerifier \<Rightarrow> string \<Rightarrow> verificationContext \<Rightarrow> json \<Rightarrow> telemetryGateway \<Rightarrow>
    telemetryGateway \<times> (gatewayError + unit) \<times> effect list" where
  "saveCheckpoint cy v token ctx cursor t =
    (case verify_token cy v token (ctx\<lparr>vc_audience := TELEMETRY\<rparr>) of
       Inl r \<Rightarrow> (t, Inl (TokenError r), [])
     | Inr c \<Rightarrow> (t\<lparr>tg_checkpoints := map_set (checkpoint_key c) cursor (tg_checkpoints t)\<rparr>, Inr (),
                 [CheckpointSaved (tc_agentId c) (vc_nowMs ctx) (tc_deploymentId c) cursor]))"

definition loadCheckpoint :: "crypto \<Rightarrow> tokenVerifier \<Rightarrow> string \<Rightarrow> verificationContext \<Rightarrow> telemetryGateway \<Rightarrow> gatewayError + json" where
  "loadCheckpoint cy v token ctx t =
    (case verify_token cy v token (ctx\<lparr>vc_audience := TELEMETRY\<rparr>) of
       Inl r \<Rightarrow> Inl (TokenError r)
     | Inr c \<Rightarrow> Inr (case map_of (tg_checkpoints t) (checkpoint_key c) of Some j \<Rightarrow> j | None \<Rightarrow> JNull))"

definition eventsFor :: "string \<Rightarrow> telemetryGateway \<Rightarrow> (string \<times> string \<times> int) list" where
  "eventsFor agentId t = filter (\<lambda>e. fst e = agentId) (tg_events t)"

section \<open>Requests in sequence\<close>

text \<open>The four gateways of a deployment with one verifier.\<close>

record gateways =
  gw_verifier :: tokenVerifier
  gw_model :: modelGateway
  gw_telemetry :: telemetryGateway

definition new_gateways :: "(string \<times> string) list \<Rightarrow> gateways" where
  "new_gateways keys = \<lparr>gw_verifier = new_verifier keys, gw_model = \<lparr>mg_usage = [], mg_recentRequests = []\<rparr>,
     gw_telemetry = \<lparr>tg_checkpoints = [], tg_events = []\<rparr>\<rparr>"

record gateway_env =
  ge_crypto :: crypto
  ge_quota :: modelQuota
  ge_allowedTools :: "string \<Rightarrow> string list"
  ge_grants :: "string \<Rightarrow> adapterGrant list"

datatype gateway_op =
    Complete string verificationContext modelRequest "modelCall \<Rightarrow> string + int \<times> int \<times> string"
  | Invoke string verificationContext adapterRequest "adapterGrant \<Rightarrow> string \<Rightarrow> (string \<times> json) list \<Rightarrow> string + json"
  | RequestIntent string verificationContext "(string \<times> json) list" "string \<Rightarrow> bool" "string \<Rightarrow> agentIntent \<Rightarrow> string + disposition \<times> string"
  | Emit string verificationContext string
  | SaveCheckpoint string verificationContext json
  | RevokeSession string

fun gateway_step :: "gateway_env \<Rightarrow> gateway_op \<Rightarrow> gateways \<Rightarrow> gateways \<times> effect list" where
  "gateway_step env (Complete token ctx request call) g =
    (case complete (ge_crypto env) (ge_quota env) (ge_allowedTools env) (gw_verifier g) token ctx request call (gw_model g) of
       (m, _, es) \<Rightarrow> (g\<lparr>gw_model := m\<rparr>, es))"
| "gateway_step env (Invoke token ctx request perform) g =
    (g, snd (invoke (ge_crypto env) (ge_grants env) (gw_verifier g) token ctx request perform))"
| "gateway_step env (RequestIntent token ctx request policyEnabled decide) g =
    (g, snd (requestIntent (ge_crypto env) policyEnabled decide (gw_verifier g) token ctx request))"
| "gateway_step env (Emit token ctx type) g =
    (case emit (ge_crypto env) (gw_verifier g) token ctx type (gw_telemetry g) of (t, _, es) \<Rightarrow> (g\<lparr>gw_telemetry := t\<rparr>, es))"
| "gateway_step env (SaveCheckpoint token ctx cursor) g =
    (case saveCheckpoint (ge_crypto env) (gw_verifier g) token ctx cursor (gw_telemetry g) of (t, _, es) \<Rightarrow> (g\<lparr>gw_telemetry := t\<rparr>, es))"
| "gateway_step env (RevokeSession s) g = (g\<lparr>gw_verifier := revokeSession s (gw_verifier g)\<rparr>, [])"

definition gateway_run :: "gateway_env \<Rightarrow> gateway_op list \<Rightarrow> gateways \<Rightarrow> gateways \<times> effect list" where
  "gateway_run env ops g = fold (\<lambda>op (g, es). case gateway_step env op g of (g', es') \<Rightarrow> (g', es @ es')) ops (g, [])"


section \<open>Every effect is authorized\<close>

fun effect_agent :: "effect \<Rightarrow> string" where
  "effect_agent (ModelCalled a t c b) = a"
| "effect_agent (AdapterCalled a t g act args) = a"
| "effect_agent (IntentDecided a t i) = a"
| "effect_agent (EventRecorded a t ty) = a"
| "effect_agent (CheckpointSaved a t d j) = a"

fun effect_time :: "effect \<Rightarrow> int" where
  "effect_time (ModelCalled a t c b) = t"
| "effect_time (AdapterCalled a t g act args) = t"
| "effect_time (IntentDecided a t i) = t"
| "effect_time (EventRecorded a t ty) = t"
| "effect_time (CheckpointSaved a t d j) = t"

text \<open>What the code allows of an effect, apart from the token.\<close>

fun allowed_effect :: "gateway_env \<Rightarrow> gateway_op \<Rightarrow> effect \<Rightarrow> bool" where
  "allowed_effect env op (ModelCalled a t call b) \<longleftrightarrow> ml_model call = PINNED_MODEL \<and> ml_tools call = ge_allowedTools env a \<and>
     \<not> js_less (Fin (of_int (mq_maxOutputTokensPerRequest (ge_quota env)))) (ml_maxOutputTokens call)"
| "allowed_effect env op (AdapterCalled a t g act args) \<longleftrightarrow> g \<in> set (ge_grants env a) \<and> act \<in> set (ag_actions g) \<and>
     set (map fst args) \<inter> set REFUSED_ARGUMENTS = {}"
| "allowed_effect env op (IntentDecided a t i) \<longleftrightarrow> in_chainId i \<in> {11155111, 84532, 31337} \<and> \<not> isProductionChain (in_chainId i) \<and>
     (\<exists>token ctx request policyEnabled decide. op = RequestIntent token ctx request policyEnabled decide \<and> policyEnabled a)"
| "allowed_effect env op (EventRecorded a t ty) \<longleftrightarrow> True"
| "allowed_effect env op (CheckpointSaved a t d j) \<longleftrightarrow> True"

text \<open>The contract of a gateway: what it does for a request is done for the agent of a token that verifies for this gateway.\<close>

locale gateway =
  fixes cy :: crypto and audience :: audience and effects :: "'r \<Rightarrow> tokenVerifier \<Rightarrow> string \<Rightarrow> verificationContext \<Rightarrow> effect set"
  assumes authenticated: "e \<in> effects r v token ctx \<Longrightarrow>
    \<exists>c. verify_token cy v token (ctx\<lparr>vc_audience := audience\<rparr>) = Inr c \<and> effect_agent e = tc_agentId c \<and> effect_time e = vc_nowMs ctx"
begin

lemma silent: "verify_token cy v token (ctx\<lparr>vc_audience := audience\<rparr>) = Inl x \<Longrightarrow> effects r v token ctx = {}"
  using authenticated by fastforce

lemma effect_claims:
  assumes "e \<in> effects r v token ctx"
  shows "\<exists>c sig pem. read_token cy token = Some (c, sig) \<and> map_of (tv_publicKeys v) (tc_kid c) = Some pem \<and>
    cy_edVerify cy pem (canonicalize (cy_num cy) (claims_json c)) sig \<and> effect_agent e = tc_agentId c \<and>
    audience \<in> set (tc_audiences c) \<and> effect_time e < tc_expiresAtMs c \<and> tc_issuedAtMs c \<le> effect_time e + 30000 \<and>
    tc_sessionId c \<notin> set (tv_revokedSessions v) \<and> tc_agentId c = vc_expectedAgentId ctx \<and>
    tc_deploymentId c = vc_expectedDeploymentId ctx \<and> tc_imageDigest c = vc_expectedImageDigest ctx"
  using authenticated [OF assms] by (auto simp: verify_iff)

end

interpretation model: gateway cy MODEL
    "\<lambda>(quota, tools, request, call, g) v token ctx. set (snd (snd (complete cy quota tools v token ctx request call g)))"
  by unfold_locales (auto simp: complete_def Let_def split: sum.splits prod.splits)

interpretation adapter: gateway cy ADAPTER "\<lambda>(grants, request, perform) v token ctx. set (snd (invoke cy grants v token ctx request perform))"
  by unfold_locales (auto simp: invoke_def split: sum.splits prod.splits)

interpretation intent: gateway cy CONTEXTLOCK
    "\<lambda>(policyEnabled, decide, request) v token ctx. set (snd (requestIntent cy policyEnabled decide v token ctx request))"
  by unfold_locales (auto simp: requestIntent_def split: sum.splits prod.splits)

interpretation telemetry: gateway cy TELEMETRY
    "\<lambda>(type, cursor, t) v token ctx. set (snd (snd (emit cy v token ctx type t))) \<union> set (snd (snd (saveCheckpoint cy v token ctx cursor t)))"
  by unfold_locales (auto simp: emit_def saveCheckpoint_def split: sum.splits prod.splits)


fun op_audience :: "gateway_op \<Rightarrow> audience" where
  "op_audience (Complete token ctx request call) = MODEL"
| "op_audience (Invoke token ctx request perform) = ADAPTER"
| "op_audience (RequestIntent token ctx request policyEnabled decide) = CONTEXTLOCK"
| "op_audience _ = TELEMETRY"

fun op_context :: "gateway_op \<Rightarrow> string \<times> verificationContext" where
  "op_context (Complete token ctx request call) = (token, ctx)"
| "op_context (Invoke token ctx request perform) = (token, ctx)"
| "op_context (RequestIntent token ctx request policyEnabled decide) = (token, ctx)"
| "op_context (Emit token ctx type) = (token, ctx)"
| "op_context (SaveCheckpoint token ctx cursor) = (token, ctx)"
| "op_context (RevokeSession s) = ([], undefined)"

lemma step_authenticated:
  assumes "e \<in> set (snd (gateway_step env op g))"
  shows "\<exists>c. verify_token (ge_crypto env) (gw_verifier g) (fst (op_context op)) ((snd (op_context op))\<lparr>vc_audience := op_audience op\<rparr>) = Inr c \<and>
    effect_agent e = tc_agentId c \<and> effect_time e = vc_nowMs (snd (op_context op))"
proof (cases op)
  case (Complete token ctx request call)
  then show ?thesis
    using assms model.authenticated [of e "ge_crypto env" "(ge_quota env, ge_allowedTools env, request, call, gw_model g)" "gw_verifier g" token ctx]
    by (auto split: prod.splits)
next
  case (Invoke token ctx request perform)
  then show ?thesis
    using assms adapter.authenticated [of e "ge_crypto env" "(ge_grants env, request, perform)" "gw_verifier g" token ctx] by simp
next
  case (RequestIntent token ctx request policyEnabled decide)
  then show ?thesis
    using assms intent.authenticated [of e "ge_crypto env" "(policyEnabled, decide, request)" "gw_verifier g" token ctx] by simp
next
  case (Emit token ctx type)
  then show ?thesis
    using assms telemetry.authenticated [of e "ge_crypto env" "(type, undefined, gw_telemetry g)" "gw_verifier g" token ctx]
    by (auto split: prod.splits)
next
  case (SaveCheckpoint token ctx cursor)
  then show ?thesis
    using assms telemetry.authenticated [of e "ge_crypto env" "(undefined, cursor, gw_telemetry g)" "gw_verifier g" token ctx]
    by (auto split: prod.splits)
next
  case (RevokeSession s)
  with assms show ?thesis by simp
qed

lemma check_request_iff:
  "check_request quota tools now request c g = Inr u \<longleftrightarrow>
    \<not> mr_namesModel request \<and> \<not> js_less (Fin (of_int (mq_maxTurnsPerRun quota))) (mr_turn request) \<and>
    \<not> js_less (Fin (of_int (mq_maxOutputTokensPerRequest quota))) (mr_maxOutputTokens request) \<and>
    set (mr_toolNames request) \<subseteq> set (tools (tc_agentId c)) \<and>
    int (length (filter (\<lambda>t. now - t < 60000) (recent_of (tc_agentId c) g))) < mq_requestsPerMinute quota \<and>
    mu_requests (usage_of (tc_agentId c) (tc_deploymentId c) g) + 1 \<le> mq_requestsPerAgentPerDay quota"
  by (auto simp: check_request_def res_bind_Inr_iff ensure_iff filter_empty_conv)

lemma select_grant_iff:
  "select_grant grants request = Inr g \<longleftrightarrow>
    set (map fst (ar_args request)) \<inter> set REFUSED_ARGUMENTS = {} \<and> find (\<lambda>g. ag_adapterId g = ar_adapterId request) grants = Some g \<and>
    ag_version g = ar_adapterVersion request \<and> ar_action request \<in> set (ag_actions g)"
  by (auto simp: select_grant_def list_ex_iff split: option.splits if_splits)

lemma admit_intent_iff:
  "admit_intent policyEnabled request agentId = Inr i \<longleftrightarrow>
    set (map fst request) \<inter> set AUTHORITY_KEYS = {} \<and> intent_of (map_of request ''intent'') = Some i \<and>
    in_chainId i \<in> {11155111, 84532, 31337} \<and> policyEnabled agentId"
proof (cases "intent_of (map_of request ''intent'')")
  case (Some j)
  have k: "list_ex (\<lambda>k. k \<in> fst ` set request) AUTHORITY_KEYS \<longleftrightarrow> fst ` set request \<inter> set AUTHORITY_KEYS \<noteq> {}"
    by (auto simp: list_ex_iff)
  show ?thesis
  proof (cases "in_chainId j \<in> {11155111, 84532, 31337}")
    case True
    then have "fenceWriteByChain f (in_chainId j) None None = Inr ()" for f by (simp only: fence_by_chain_passes)
    with True show ?thesis by (auto simp add: admit_intent_def k Some simp del: insert_iff)
  next
    case False
    then obtain e where "fenceWriteByChain AGENT_RUNTIME (in_chainId j) None None = Inl e"
      using fence_by_chain_cases fence_by_chain_passes by metis
    with False show ?thesis by (auto simp add: admit_intent_def k Some simp del: insert_iff)
  qed
qed (auto simp: admit_intent_def)

lemma execution_chain_not_production: "c \<in> {11155111, 84532, 31337} \<Longrightarrow> \<not> isProductionChain c"
  by (rule fence_by_chain_not_production [OF iffD2 [OF fence_by_chain_passes [of AGENT_RUNTIME c None None]]])

lemma step_allowed:
  assumes "e \<in> set (snd (gateway_step env op g))"
  shows "allowed_effect env op e"
proof (cases op)
  case (Complete token ctx request call)
  with assms show ?thesis by (auto simp: complete_def Let_def check_request_iff split: sum.splits prod.splits)
next
  case (Invoke token ctx request perform)
  with assms show ?thesis by (auto simp: invoke_def select_grant_iff find_Some_iff split: sum.splits prod.splits)
next
  case (RequestIntent token ctx request policyEnabled decide)
  with assms show ?thesis
    by (auto simp: requestIntent_def admit_intent_iff execution_chain_not_production split: sum.splits prod.splits)
next
  case (Emit token ctx type)
  with assms show ?thesis by (auto simp: emit_def split: sum.splits prod.splits)
next
  case (SaveCheckpoint token ctx cursor)
  with assms show ?thesis by (auto simp: saveCheckpoint_def split: sum.splits prod.splits)
qed (use assms in simp)


lemma gateway_run_Nil [simp]: "gateway_run env [] g = (g, [])"
  by (simp add: gateway_run_def)

lemma gateway_run_snoc [simp]:
  "gateway_run env (ops @ [op]) g =
    (fst (gateway_step env op (fst (gateway_run env ops g))), snd (gateway_run env ops g) @ snd (gateway_step env op (fst (gateway_run env ops g))))"
  by (simp add: gateway_run_def split_beta)

lemma step_verifier:
  "gw_verifier (fst (gateway_step env op g)) = (case op of RevokeSession s \<Rightarrow> revokeSession s (gw_verifier g) | _ \<Rightarrow> gw_verifier g)"
  by (cases op) (auto split: prod.splits)

lemma run_verifier:
  "tv_publicKeys (gw_verifier (fst (gateway_run env ops g))) = tv_publicKeys (gw_verifier g)"
  "set (tv_revokedSessions (gw_verifier (fst (gateway_run env ops g)))) = {s. RevokeSession s \<in> set ops} \<union> set (tv_revokedSessions (gw_verifier g))"
  by (induction ops rule: rev_induct) (auto simp: step_verifier revokeSession_def split: gateway_op.splits)

text \<open>
  C15: What the gateways do is authorized. Whatever requests came before, each call of a model, call of an adapter, decision
  on an intent, event and checkpoint is made for the agent of a token that the control plane issued for this
  gateway, deployment and image, at a time at which the token is valid, in a session that was not revoked
  before. The model is the pinned one, with the agent's own tools and a bounded output; the adapter, its version and its
  action are granted to the agent, and no argument names a host or a credential; and an intent is decided
  only on an execution network, never on a production chain, and only while the agent's policy is enabled.
\<close>

theorem gateway_effects_are_authorized:
  assumes "e \<in> set (snd (gateway_step env op (fst (gateway_run env ops (new_gateways keys)))))"
    and "keys = publicKeys (fst (issuer_run (ge_crypto env) issued))" and "number_text (cy_num (ge_crypto env))"
    and "unforgeable (ge_crypto env) (fst (issuer_run (ge_crypto env) issued)) (snd (issuer_run (ge_crypto env) issued))"
  shows "\<exists>a. Issue a \<in> set issued \<and> effect_agent e = ia_agentId a \<and> op_audience op \<in> set (ia_audiences a) \<and>
    effect_time e < ia_nowMs a + ia_ttlMs a \<and> ia_nowMs a \<le> effect_time e + 30000 \<and> RevokeSession (ia_uuid1 a) \<notin> set ops \<and>
    ia_deploymentId a = vc_expectedDeploymentId (snd (op_context op)) \<and> ia_imageDigest a = vc_expectedImageDigest (snd (op_context op)) \<and>
    allowed_effect env op e"
proof -
  let ?g = "fst (gateway_run env ops (new_gateways keys))"
  obtain c where c: "verify_token (ge_crypto env) (gw_verifier ?g) (fst (op_context op)) ((snd (op_context op))\<lparr>vc_audience := op_audience op\<rparr>) = Inr c"
      "effect_agent e = tc_agentId c" "effect_time e = vc_nowMs (snd (op_context op))" using step_authenticated [OF assms(1)] by blast
  have k: "tv_publicKeys (gw_verifier ?g) = publicKeys (fst (issuer_run (ge_crypto env) issued))"
    by (simp add: run_verifier new_gateways_def new_verifier_def assms(2))
  obtain a where a: "Issue a \<in> set issued" "c = issued_claims (tc_kid c) a" "vc_nowMs (snd (op_context op)) < ia_nowMs a + ia_ttlMs a"
      "ia_nowMs a \<le> vc_nowMs (snd (op_context op)) + 30000" "ia_uuid1 a \<notin> set (tv_revokedSessions (gw_verifier ?g))"
      "ia_deploymentId a = vc_expectedDeploymentId (snd (op_context op))" "ia_imageDigest a = vc_expectedImageDigest (snd (op_context op))"
      "op_audience op \<in> set (ia_audiences a)"
    using accepted_claims_issued [OF c(1) k assms(4,3)] by auto
  have "tc_agentId c = ia_agentId a" by (subst a(2)) (simp add: issued_claims_def)
  then show ?thesis using a c(2,3) step_allowed [OF assms(1)] by (intro exI [of _ a]) (simp add: run_verifier)
qed


section \<open>Use of the model\<close>

text \<open>The times of the model calls of an agent that were answered.\<close>

fun answered_at :: "string \<Rightarrow> effect \<Rightarrow> int list" where
  "answered_at agent (ModelCalled a t c b) = (if a = agent \<and> b then [t] else [])"
| "answered_at agent _ = []"

definition model_calls :: "string \<Rightarrow> effect list \<Rightarrow> int list" where
  "model_calls agent es = concat (map (answered_at agent) es)"

fun model_time :: "gateway_op \<Rightarrow> int list" where
  "model_time (Complete token ctx request call) = [vc_nowMs ctx]"
| "model_time _ = []"

definition rate_ok :: "int \<Rightarrow> int list \<Rightarrow> bool" where
  "rate_ok perMinute ts \<longleftrightarrow> list_all (\<lambda>i. int (length (filter (\<lambda>t. ts ! i - t < 60000) (take i ts))) < perMinute) [0..<length ts]"

lemma rate_ok_snoc: "rate_ok n (ts @ [t]) \<longleftrightarrow> rate_ok n ts \<and> int (length (filter (\<lambda>x. t - x < 60000) ts)) < n"
proof -
  have "list_all (\<lambda>i. int (length (filter (\<lambda>x. (ts @ [t]) ! i - x < 60000) (take i (ts @ [t])))) < n) [0..<length ts] \<longleftrightarrow> rate_ok n ts"
    unfolding rate_ok_def by (intro list.pred_cong) (auto simp: nth_append)
  then show ?thesis by (simp add: rate_ok_def)
qed

lemma model_calls_append [simp]: "model_calls agent (es @ es') = model_calls agent es @ model_calls agent es'"
  by (simp add: model_calls_def)

lemma requests_any: "mu_requests (usage_of agent d g) = mu_requests (usageFor agent g)"
  by (simp add: usage_of_def usageFor_def split: option.splits)

lemma step_model_cases:
  obtains (same) "model_calls agent (snd (gateway_step env op g)) = []"
      "mu_requests (usageFor agent (gw_model (fst (gateway_step env op g)))) = mu_requests (usageFor agent (gw_model g))"
      "recent_of agent (gw_model (fst (gateway_step env op g))) = recent_of agent (gw_model g)"
  | (answered) now where "model_time op = [now]" "model_calls agent (snd (gateway_step env op g)) = [now]"
      "mu_requests (usageFor agent (gw_model (fst (gateway_step env op g)))) = mu_requests (usageFor agent (gw_model g)) + 1"
      "recent_of agent (gw_model (fst (gateway_step env op g))) = filter (\<lambda>t. now - t < 60000) (recent_of agent (gw_model g)) @ [now]"
      "int (length (filter (\<lambda>t. now - t < 60000) (recent_of agent (gw_model g)))) < mq_requestsPerMinute (ge_quota env)"
      "mu_requests (usageFor agent (gw_model g)) + 1 \<le> mq_requestsPerAgentPerDay (ge_quota env)"
proof (cases op)
  case (Complete token ctx request call)
  let ?v = "verify_token (ge_crypto env) (gw_verifier g) token (ctx\<lparr>vc_audience := MODEL\<rparr>)"
  show ?thesis
  proof (cases "\<exists>c answer. ?v = Inr c \<and> check_request (ge_quota env) (ge_allowedTools env) (vc_nowMs ctx) request c (gw_model g) = Inr () \<and>
      tc_agentId c = agent \<and> call \<lparr>ml_model = PINNED_MODEL, ml_messages = mr_messages request, ml_maxOutputTokens = mr_maxOutputTokens request,
        ml_tools = ge_allowedTools env agent\<rparr> = Inr answer")
    case True
    then obtain c i out content where c: "?v = Inr c" "tc_agentId c = agent"
        and chk: "check_request (ge_quota env) (ge_allowedTools env) (vc_nowMs ctx) request c (gw_model g) = Inr ()"
        and call: "call \<lparr>ml_model = PINNED_MODEL, ml_messages = mr_messages request, ml_maxOutputTokens = mr_maxOutputTokens request,
          ml_tools = ge_allowedTools env agent\<rparr> = Inr (i, out, content)" by (metis prod_cases3)
    note step = Complete complete_def Let_def c chk call
    show ?thesis
    proof (rule answered)
      show "model_time op = [vc_nowMs ctx]" by (simp add: Complete)
      show "model_calls agent (snd (gateway_step env op g)) = [vc_nowMs ctx]" by (simp add: step model_calls_def)
      show "mu_requests (usageFor agent (gw_model (fst (gateway_step env op g)))) = mu_requests (usageFor agent (gw_model g)) + 1"
        by (simp add: step usageFor_def usage_of_def map_of_map_set split: option.splits)
      show "recent_of agent (gw_model (fst (gateway_step env op g))) =
          filter (\<lambda>t. vc_nowMs ctx - t < 60000) (recent_of agent (gw_model g)) @ [vc_nowMs ctx]"
        by (simp add: step recent_of_def map_of_map_set)
      show "int (length (filter (\<lambda>t. vc_nowMs ctx - t < 60000) (recent_of agent (gw_model g)))) < mq_requestsPerMinute (ge_quota env)"
        "mu_requests (usageFor agent (gw_model g)) + 1 \<le> mq_requestsPerAgentPerDay (ge_quota env)"
        using chk c(2) by (auto simp: check_request_iff requests_any)
    qed
  next
    case False
    then show ?thesis
      by (intro same) (auto simp: Complete complete_def Let_def model_calls_def usageFor_def usage_of_def recent_of_def map_of_map_set split: sum.splits)
  qed
qed (use same in \<open>auto simp: model_calls_def invoke_def requestIntent_def emit_def saveCheckpoint_def split: sum.splits prod.splits\<close>)


definition model_inv :: "gateway_env \<Rightarrow> string \<Rightarrow> gateways \<Rightarrow> int list \<Rightarrow> bool" where
  "model_inv env agent g ts \<longleftrightarrow>
    mu_requests (usageFor agent (gw_model g)) = int (length ts) \<and> recent_of agent (gw_model g) = filter (\<lambda>t. last ts - t < 60000) ts \<and>
    rate_ok (mq_requestsPerMinute (ge_quota env)) ts \<and> (ts = [] \<or> int (length ts) \<le> mq_requestsPerAgentPerDay (ge_quota env))"

lemma model_inv_run:
  assumes "sorted (concat (map model_time ops))"
  shows "model_inv env agent (fst (gateway_run env ops (new_gateways keys))) (model_calls agent (snd (gateway_run env ops (new_gateways keys)))) \<and>
    set (model_calls agent (snd (gateway_run env ops (new_gateways keys)))) \<subseteq> set (concat (map model_time ops))"
  using assms
proof (induction ops rule: rev_induct)
  case Nil
  show ?case by (simp add: model_inv_def new_gateways_def usageFor_def usage_of_def recent_of_def rate_ok_def model_calls_def)
next
  case (snoc op ops)
  let ?g = "fst (gateway_run env ops (new_gateways keys))" and ?ts = "model_calls agent (snd (gateway_run env ops (new_gateways keys)))"
  have inv: "model_inv env agent ?g ?ts" "set ?ts \<subseteq> set (concat (map model_time ops))" using snoc by (auto simp: sorted_append)
  show ?case
  proof (cases rule: step_model_cases [of agent env op ?g])
    case same
    with inv show ?thesis by (auto simp: model_inv_def)
  next
    case (answered now)
    have "last ?ts \<le> now" if "?ts \<noteq> []"
      using snoc.prems answered(1) inv(2) last_in_set [OF that] by (auto simp: sorted_append)
    then have "filter (\<lambda>t. now - t < 60000) (recent_of agent (gw_model ?g)) = filter (\<lambda>t. now - t < 60000) ?ts"
      using inv(1) by (cases "?ts = []") (auto simp: model_inv_def intro!: filter_cong)
    with answered inv show ?thesis by (auto simp: model_inv_def rate_ok_snoc)
  qed
qed

text \<open>
  C18: The model gateway bounds what an agent uses. If the clock does not go back, then after any requests the calls that the model
  answered for an agent are no more than its quota, each of them was preceded by fewer than the allowed number within one minute, and
  the recorded usage is their number. The calls are counted for the agent of the token, whatever the request says.
\<close>

theorem model_use_is_bounded:
  assumes "sorted (concat (map model_time ops))"
  shows "rate_ok (mq_requestsPerMinute (ge_quota env)) (model_calls agent (snd (gateway_run env ops (new_gateways keys)))) \<and>
    (model_calls agent (snd (gateway_run env ops (new_gateways keys))) = [] \<or>
      int (length (model_calls agent (snd (gateway_run env ops (new_gateways keys))))) \<le> mq_requestsPerAgentPerDay (ge_quota env)) \<and>
    mu_requests (usageFor agent (gw_model (fst (gateway_run env ops (new_gateways keys))))) =
      int (length (model_calls agent (snd (gateway_run env ops (new_gateways keys)))))"
  using model_inv_run [OF assms] by (auto simp: model_inv_def)

lemma exhausted_stays:
  assumes "mq_requestsPerAgentPerDay (ge_quota env) \<le> mu_requests (usageFor agent (gw_model g))"
  shows "model_calls agent (snd (gateway_run env ops g)) = [] \<and>
    mu_requests (usageFor agent (gw_model (fst (gateway_run env ops g)))) = mu_requests (usageFor agent (gw_model g))"
proof (induction ops rule: rev_induct)
  case Nil
  show ?case by (simp add: model_calls_def)
next
  case (snoc op ops)
  then show ?case
    by (cases rule: step_model_cases [of agent env op "fst (gateway_run env ops g)"]) (use assms in auto)
qed

text \<open>
  The daily quotas are not daily. Once an agent has used its requests, no request of that agent is answered again, however
  much later and on whatever day; and the quotas of input and output tokens have no effect at all: with any
  other values the gateway does the same.
\<close>

theorem daily_quota_never_resets:
  assumes "mq_requestsPerAgentPerDay (ge_quota env) \<le> mu_requests (usageFor agent (gw_model g))"
  shows "model_calls agent (snd (gateway_run env ops g)) = [] \<and>
    complete cy (quota\<lparr>mq_inputTokensPerAgentPerDay := i, mq_outputTokensPerAgentPerDay := out\<rparr>) tools v token ctx request call m =
      complete cy quota tools v token ctx request call m"
proof -
  have q: "check_request (quota\<lparr>mq_inputTokensPerAgentPerDay := i, mq_outputTokensPerAgentPerDay := out\<rparr>) = check_request quota"
    by (intro ext) (simp add: check_request_def)
  have "complete cy (quota\<lparr>mq_inputTokensPerAgentPerDay := i, mq_outputTokensPerAgentPerDay := out\<rparr>) tools v token ctx request call m =
      complete cy quota tools v token ctx request call m" unfolding complete_def q ..
  then show ?thesis using exhausted_stays [OF assms, of ops] by blast
qed

section \<open>Checkpoints\<close>

text \<open>
  Whose checkpoint is read. After a checkpoint is saved, it is read back by every accepted token whose deployment and agent,
  joined by a colon, spell the same text: by the same agent, and also by another agent of another
  deployment if their identifiers contain a colon.
\<close>

theorem checkpoint_is_shared_by_key:
  assumes "verify_token cy v token1 (ctx1\<lparr>vc_audience := TELEMETRY\<rparr>) = Inr c1"
    and "verify_token cy v token2 (ctx2\<lparr>vc_audience := TELEMETRY\<rparr>) = Inr c2"
    and "tc_deploymentId c1 @ '':'' @ tc_agentId c1 = tc_deploymentId c2 @ '':'' @ tc_agentId c2"
  shows "loadCheckpoint cy v token2 ctx2 (fst (saveCheckpoint cy v token1 ctx1 cursor t)) = Inr cursor"
proof -
  have "checkpoint_key c1 = checkpoint_key c2" using assms(3) by (simp add: checkpoint_key_def)
  then show ?thesis by (simp add: loadCheckpoint_def saveCheckpoint_def assms(1,2) map_of_map_set)
qed


section \<open>A runtime and its gateways\<close>

definition sample_env :: gateway_env where
  "sample_env = \<lparr>ge_crypto = strict_crypto, ge_quota = DEFAULT_MODEL_QUOTA\<lparr>mq_requestsPerAgentPerDay := 1\<rparr>, ge_allowedTools = (\<lambda>_. [''readBalance'']),
     ge_grants = (\<lambda>_. [])\<rparr>"

definition sample_call :: modelCall where
  "sample_call = \<lparr>ml_model = PINNED_MODEL, ml_messages = [], ml_maxOutputTokens = Fin 100, ml_tools = [''readBalance'']\<rparr>"

definition sample_complete :: gateway_op where
  "sample_complete = Complete (token_of strict_crypto sample_key sample_claims) sample_ctx
     \<lparr>mr_messages = [], mr_maxOutputTokens = Fin 100, mr_toolNames = [''readBalance''], mr_turn = Fin 1, mr_correlationId = ''c'', mr_namesModel = False\<rparr>
     (\<lambda>_. Inr (10, 20, ''text''))"

definition sample_gateways :: gateways where
  "sample_gateways = new_gateways [(''k1'', ''public'')]"

lemma sample_completes:
  "gateway_step sample_env sample_complete sample_gateways =
    (sample_gateways\<lparr>gw_model := \<lparr>mg_usage = [(''guardian'', \<lparr>mu_agentId = ''guardian'', mu_deploymentId = ''deployment'', mu_requests = 1,
        mu_inputTokens = 10, mu_outputTokens = 20\<rparr>)], mg_recentRequests = [(''guardian'', [2000])]\<rparr>\<rparr>,
     [ModelCalled ''guardian'' 2000 sample_call True])"
proof -
  have ctx: "sample_ctx\<lparr>vc_audience := MODEL\<rparr> = sample_ctx" "vc_nowMs sample_ctx = 2000" by (simp_all add: sample_ctx_def)
  have c: "tc_agentId sample_claims = ''guardian''" "tc_deploymentId sample_claims = ''deployment''"
    by (simp_all add: sample_claims_def issued_claims_def sample_args_def)
  show ?thesis using strict_accepts
    by (simp add: sample_complete_def sample_env_def sample_gateways_def new_gateways_def complete_def Let_def ctx check_request_def ensure_def
        DEFAULT_MODEL_QUOTA_def c recent_of_def usage_of_def sample_call_def)
qed

theorem gateway_effects_are_authorized_witness:
  "\<exists>a. Issue a \<in> set sample_ops \<and> ia_agentId a = ''guardian'' \<and> MODEL \<in> set (ia_audiences a) \<and> 2000 < ia_nowMs a + ia_ttlMs a"
proof -
  have e: "ModelCalled ''guardian'' 2000 sample_call True \<in>
      set (snd (gateway_step sample_env sample_complete (fst (gateway_run sample_env [] (new_gateways [(''k1'', ''public'')])))))"
    using sample_completes by (simp add: sample_gateways_def)
  have "[(''k1'', ''public'')] = publicKeys (fst (issuer_run (ge_crypto sample_env) sample_ops))"
    by (simp add: publicKeys_def sample_issuer sample_key_def)
  moreover have "number_text (cy_num (ge_crypto sample_env))"
    by (simp add: sample_env_def strict_crypto_def sample_crypto_def sample_number_text)
  moreover have "unforgeable (ge_crypto sample_env) (fst (issuer_run (ge_crypto sample_env) sample_ops)) (snd (issuer_run (ge_crypto sample_env) sample_ops))"
    by (auto simp: unforgeable_def sample_issuer sample_env_def strict_crypto_def sample_crypto_def)
  ultimately have "\<exists>a. Issue a \<in> set sample_ops \<and> effect_agent (ModelCalled ''guardian'' 2000 sample_call True) = ia_agentId a \<and>
      op_audience sample_complete \<in> set (ia_audiences a) \<and> effect_time (ModelCalled ''guardian'' 2000 sample_call True) < ia_nowMs a + ia_ttlMs a"
    using gateway_effects_are_authorized [OF e] by blast
  then show ?thesis by (auto simp: sample_complete_def)
qed

lemma sample_quota: "mq_requestsPerAgentPerDay (ge_quota sample_env) = 1" "mq_requestsPerMinute (ge_quota sample_env) = 20"
  by (simp_all add: sample_env_def DEFAULT_MODEL_QUOTA_def)

lemma sample_gateway_run: "gateway_run sample_env [sample_complete] sample_gateways = gateway_step sample_env sample_complete sample_gateways"
  by (simp add: gateway_run_def split_beta)

theorem model_use_is_bounded_witness:
  "model_calls ''guardian'' (snd (gateway_run sample_env [sample_complete] sample_gateways)) = [2000] \<and>
   rate_ok 20 (model_calls ''guardian'' (snd (gateway_run sample_env [sample_complete] sample_gateways)))"
proof -
  have "sorted (concat (map model_time [sample_complete]))" by (simp add: sample_complete_def)
  from model_use_is_bounded [OF this, of sample_env "''guardian''" "[(''k1'', ''public'')]"] show ?thesis
    using sample_gateway_run by (simp add: sample_gateways_def [symmetric] sample_completes model_calls_def sample_quota)
qed

theorem daily_quota_never_resets_witness:
  "model_calls ''guardian'' (snd (gateway_run sample_env [sample_complete, sample_complete] (fst (gateway_step sample_env sample_complete sample_gateways)))) = []"
proof -
  have "mq_requestsPerAgentPerDay (ge_quota sample_env) \<le>
      mu_requests (usageFor ''guardian'' (gw_model (fst (gateway_step sample_env sample_complete sample_gateways))))"
    by (simp add: sample_completes sample_quota usageFor_def usage_of_def)
  from daily_quota_never_resets [OF this] show ?thesis by blast
qed


text \<open>Two agents of two deployments whose identifiers, joined by a colon, are the same text.\<close>

definition colon_claims :: "string \<Rightarrow> string \<Rightarrow> tokenClaims" where
  "colon_claims d a = sample_claims\<lparr>tc_deploymentId := d, tc_agentId := a\<rparr>"

definition colon_crypto :: crypto where
  "colon_crypto = sample_crypto\<lparr>cy_json := (\<lambda>t. Some (walk (claims_json
     (if t = canonicalize sample_num (claims_json (colon_claims ''d:a'' ''x'')) then colon_claims ''d:a'' ''x'' else colon_claims ''d'' ''a:x''))))\<rparr>"

definition colon_ctx :: "string \<Rightarrow> string \<Rightarrow> verificationContext" where
  "colon_ctx d a = sample_ctx\<lparr>vc_expectedDeploymentId := d, vc_expectedAgentId := a, vc_audience := TELEMETRY\<rparr>"

lemma colon_accepts:
  assumes "(d, a) = (''d:a'', ''x'') \<or> (d, a) = (''d'', ''a:x'')"
  shows "verify_token colon_crypto (new_verifier [(''k1'', ''public'')]) (token_of colon_crypto sample_key (colon_claims d a)) (colon_ctx d a) =
    Inr (colon_claims d a)"
proof -
  have "tc_deploymentId (colon_claims ''d'' ''a:x'') \<noteq> tc_deploymentId (colon_claims ''d:a'' ''x'')" by (simp add: colon_claims_def)
  then have ne: "colon_claims ''d'' ''a:x'' \<noteq> colon_claims ''d:a'' ''x''" by metis
  have "canonicalize sample_num (claims_json (colon_claims ''d'' ''a:x'')) \<noteq> canonicalize sample_num (claims_json (colon_claims ''d:a'' ''x''))"
    using claims_text_inject [OF sample_number_text] ne by blast
  then have r: "reads_back colon_crypto (colon_claims d a)"
    using assms by (auto simp: reads_back_def colon_crypto_def sample_crypto_def pair_up_code)
  have ok: "claims_ok (colon_claims d a)" using assms sample_claims_ok by (auto simp: claims_ok_def colon_claims_def)
  show ?thesis using read_token_of [OF r ok, of sample_key]
    by (auto simp: verify_iff new_verifier_def colon_crypto_def sample_crypto_def sample_key_def,
        simp_all add: colon_claims_def sample_claims_def issued_claims_def sample_args_def colon_ctx_def sample_ctx_def)
qed

theorem checkpoint_is_shared_by_key_witness:
  "loadCheckpoint colon_crypto (new_verifier [(''k1'', ''public'')]) (token_of colon_crypto sample_key (colon_claims ''d'' ''a:x'')) (colon_ctx ''d'' ''a:x'')
     (fst (saveCheckpoint colon_crypto (new_verifier [(''k1'', ''public'')]) (token_of colon_crypto sample_key (colon_claims ''d:a'' ''x''))
       (colon_ctx ''d:a'' ''x'') (JStr ''cursor'') (gw_telemetry sample_gateways))) = Inr (JStr ''cursor'')"
proof -
  have ctx: "(colon_ctx d a)\<lparr>vc_audience := TELEMETRY\<rparr> = colon_ctx d a" for d a by (simp add: colon_ctx_def)
  show ?thesis
    by (rule checkpoint_is_shared_by_key [where ?c1.0 = "colon_claims ''d:a'' ''x''" and ?c2.0 = "colon_claims ''d'' ''a:x''"])
      (simp_all add: ctx colon_accepts, simp add: colon_claims_def)
qed

end
