(* ===== verification/Revisions.thy ===== *)
theory Revisions
  imports Prelude
begin

text \<open>
  Runtime revisions and the hardening of their containers, \<open>revision.ts\<close> and \<open>hardening.ts\<close> of
  \<open>packages/studio-runtime/src\<close>. The theorems show that a rollback goes to a revision that was added and seen healthy, and
  what every container is started with; two of them show that a rollback may return to a retired
  revision, and to the image it leaves, and that the user with number 0 is not refused.
\<close>

section \<open>The history of revisions\<close>

datatype runtimeReason =
    UNKNOWN_PROVIDER | PROVIDER_NOT_SELECTABLE | UNAVAILABLE | SECRET_IN_ENVIRONMENT | DIGEST_MISMATCH
  | NO_ROLLBACK_TARGET | MUTATION_ATTEMPTED | PAUSED

record revisionEntry =
  re_revisionId :: string
  re_imageDigest :: string
  re_blueprintRevision :: nat
  re_buildRevision :: nat
  re_createdAtMs :: int
  re_previousRevisionId :: "string option"
  re_everHealthy :: bool
  re_retiredAtMs :: "int option"
  re_retiredReason :: "string option"

record revisionHistory =
  rh_entries :: "revisionEntry list"
  rh_retain :: nat

definition new_history :: "nat \<Rightarrow> revisionHistory" where
  "new_history retain = \<lparr>rh_entries = [], rh_retain = retain\<rparr>"

definition last_of :: "'a list \<Rightarrow> 'a option" where
  "last_of xs = (if xs = [] then None else Some (last xs))"

definition current :: "revisionHistory \<Rightarrow> revisionEntry option" where
  "current h =
    (case last_of (filter (\<lambda>e. re_retiredAtMs e = None) (rh_entries h)) of Some e \<Rightarrow> Some e | None \<Rightarrow> last_of (rh_entries h))"

text \<open>The loop drops entries from the front while there are too many.\<close>

fun trim_front :: "nat \<Rightarrow> 'a list \<Rightarrow> 'a list" where
  "trim_front n [] = []"
| "trim_front n (x # xs) = (if n < length (x # xs) then trim_front n xs else x # xs)"

definition add_revision :: "revisionEntry \<Rightarrow> revisionHistory \<Rightarrow> runtimeReason + revisionHistory" where
  "add_revision entry h =
    (if (case current h of Some c \<Rightarrow> re_imageDigest c = re_imageDigest entry | None \<Rightarrow> False) then Inl MUTATION_ATTEMPTED
     else Inr (h\<lparr>rh_entries := trim_front (rh_retain h) (rh_entries h @ [entry])\<rparr>))"

fun update_first :: "string \<Rightarrow> (revisionEntry \<Rightarrow> revisionEntry) \<Rightarrow> revisionEntry list \<Rightarrow> revisionEntry list" where
  "update_first i f [] = []"
| "update_first i f (e # es) = (if re_revisionId e = i then f e # es else e # update_first i f es)"

definition markHealthy :: "string \<Rightarrow> revisionHistory \<Rightarrow> revisionHistory" where
  "markHealthy i h = h\<lparr>rh_entries := update_first i (\<lambda>e. e\<lparr>re_everHealthy := True\<rparr>) (rh_entries h)\<rparr>"

definition retire :: "string \<Rightarrow> string \<Rightarrow> int \<Rightarrow> revisionHistory \<Rightarrow> revisionHistory" where
  "retire i reason atMs h =
    h\<lparr>rh_entries := update_first i (\<lambda>e. e\<lparr>re_retiredAtMs := Some atMs, re_retiredReason := Some reason\<rparr>) (rh_entries h)\<rparr>"

definition rollbackTarget :: "revisionHistory \<Rightarrow> runtimeReason + revisionEntry" where
  "rollbackTarget h =
    (case last_of (filter (\<lambda>e. map_option re_revisionId (current h) \<noteq> Some (re_revisionId e) \<and> re_everHealthy e) (rh_entries h)) of
       None \<Rightarrow> Inl NO_ROLLBACK_TARGET
     | Some e \<Rightarrow> Inr e)"

definition assertIsNewRevision :: "string \<times> string \<Rightarrow> (string \<times> string) option \<Rightarrow> runtimeReason + unit" where
  "assertIsNewRevision next' cur =
    (case (next', cur) of
       (_, None) \<Rightarrow> Inr ()
     | ((revisionId, imageDigest), Some (currentId, currentDigest)) \<Rightarrow>
         if imageDigest = currentDigest \<or> revisionId = currentId then Inl MUTATION_ATTEMPTED else Inr ())"

section \<open>Hardening\<close>

datatype hardeningReason =
    PRIVILEGED | ROOT_USER | WRITABLE_ROOT | DOCKER_SOCKET | BIND_MOUNT | CAPABILITY_ADDED | HOST_NAMESPACE | NO_LIMITS

text \<open>A specification arrives untyped: a value for each key, or none.\<close>

type_synonym spec = "string \<Rightarrow> json option"

definition is_true :: "json option \<Rightarrow> bool" where
  "is_true j = (j = Some (JBool True))"

fun falsy :: "json option \<Rightarrow> bool" where
  "falsy (Some (JBool b)) = (\<not> b)"
| "falsy (Some (JNum n)) = (n = Fin 0 \<or> n = NaN)"
| "falsy (Some (JStr s)) = (s = [])"
| "falsy (Some (JArr xs)) = False"
| "falsy (Some (JObj kvs)) = False"
| "falsy _ = True"

fun array_of :: "json option \<Rightarrow> json list option" where
  "array_of (Some (JArr xs)) = Some xs"
| "array_of _ = None"

definition root_user :: "json option \<Rightarrow> bool" where
  "root_user j = (case j of Some (JStr u) \<Rightarrow> u = ''0:0'' \<or> u = ''root'' \<or> u = [] | _ \<Rightarrow> True)"

definition nonempty_array :: "json option \<Rightarrow> bool" where
  "nonempty_array j = (case array_of j of Some xs \<Rightarrow> 0 < length xs | None \<Rightarrow> False)"

definition assertHardened :: "spec \<Rightarrow> hardeningReason + unit" where
  "assertHardened s =
    res_bind (ensure (\<not> is_true (s ''privileged'')) PRIVILEGED) (\<lambda>_.
    res_bind (ensure (\<not> root_user (s ''user'')) ROOT_USER) (\<lambda>_.
    res_bind (ensure (is_true (s ''readOnlyRootFilesystem'')) WRITABLE_ROOT) (\<lambda>_.
    res_bind (ensure (\<not> is_true (s ''dockerSocket'')) DOCKER_SOCKET) (\<lambda>_.
    res_bind (ensure (\<not> nonempty_array (s ''bindMounts'')) BIND_MOUNT) (\<lambda>_.
    res_bind (ensure (\<not> nonempty_array (s ''capAdd'')) CAPABILITY_ADDED) (\<lambda>_.
    res_bind (ensure (case array_of (s ''capDrop'') of Some xs \<Rightarrow> JStr ''ALL'' \<in> set xs | None \<Rightarrow> False) CAPABILITY_ADDED) (\<lambda>_.
    res_bind (ensure (is_true (s ''noNewPrivileges'')) CAPABILITY_ADDED) (\<lambda>_.
    res_bind (ensure (\<not> (is_true (s ''hostNetwork'') \<or> is_true (s ''hostPid'') \<or> is_true (s ''hostIpc''))) HOST_NAMESPACE) (\<lambda>_.
    ensure (\<not> (falsy (s ''memoryMb'') \<or> falsy (s ''cpus'') \<or> falsy (s ''pidsLimit''))) NO_LIMITS)))))))))"

text \<open>The fields of a typed specification that vary; the schema fixes the others.\<close>

record hardeningSpec =
  hs_user :: string
  hs_capDrop :: "string list"
  hs_tmpfs :: "(string \<times> nat) list"
  hs_cpus :: string
  hs_memoryMb :: nat
  hs_pidsLimit :: nat
  hs_restartPolicy :: string

definition spec_of :: "hardeningSpec \<Rightarrow> spec" where
  "spec_of h = map_of
    [(''user'', JStr (hs_user h)), (''readOnlyRootFilesystem'', JBool True), (''noNewPrivileges'', JBool True),
     (''capDrop'', JArr (map JStr (hs_capDrop h))), (''capAdd'', JArr []), (''privileged'', JBool False),
     (''tmpfs'', JArr (map (\<lambda>(path, size). JObj [(''path'', JStr path), (''sizeMb'', JNum (Fin (of_nat size))), (''noexec'', JBool True), (''nosuid'', JBool True)])
        (hs_tmpfs h))),
     (''bindMounts'', JArr []), (''dockerSocket'', JBool False), (''cpus'', JStr (hs_cpus h)), (''memoryMb'', JNum (Fin (of_nat (hs_memoryMb h)))),
     (''pidsLimit'', JNum (Fin (of_nat (hs_pidsLimit h)))), (''healthcheck'', JBool True), (''restartPolicy'', JStr (hs_restartPolicy h)),
     (''hostNetwork'', JBool False), (''hostPid'', JBool False), (''hostIpc'', JBool False)]"

definition DEFAULT_HARDENING :: hardeningSpec where
  "DEFAULT_HARDENING = \<lparr>hs_user = ''10001:10001'', hs_capDrop = [''ALL''], hs_tmpfs = [(''/tmp/contextlock'', 64)], hs_cpus = ''0.5'', hs_memoryMb = 512,
     hs_pidsLimit = 128, hs_restartPolicy = ''on-failure:3''\<rparr>"

definition docker_words :: "hardeningSpec \<Rightarrow> string list" where
  "docker_words h =
    [''--user'', hs_user h, ''--read-only'', ''--security-opt'', ''no-new-privileges:true'', ''--cpus'', hs_cpus h,
     ''--memory'', show_nat (hs_memoryMb h) @ ''m'', ''--pids-limit'', show_nat (hs_pidsLimit h), ''--restart'', hs_restartPolicy h] @
    concat (map (\<lambda>c. [''--cap-drop'', c]) (hs_capDrop h)) @
    concat (map (\<lambda>(path, size). [''--tmpfs'', path @ '':rw,noexec,nosuid,mode=1777,size='' @ show_nat size @ ''m'']) (hs_tmpfs h))"

definition dockerArgs :: "hardeningSpec \<Rightarrow> hardeningReason + string list" where
  "dockerArgs h = res_bind (assertHardened (spec_of h)) (\<lambda>_. Inr (docker_words h))"

section \<open>The environment\<close>

definition ALLOWED_ENV_PREFIX :: string where
  "ALLOWED_ENV_PREFIX = ''CONTEXTLOCK_''"

definition DENIED_ENV_EXACT :: "string list" where
  "DENIED_ENV_EXACT = [''CONTEXTLOCK_ADMIN_KEY'', ''CONTEXTLOCK_ISSUER_KEY'', ''CONTEXTLOCK_CAPABILITY_ISSUER_PRIVATE_KEY'', ''CONTEXTLOCK_PRIVATE_KEY'',
     ''CONTEXTLOCK_WALLET_KEY'', ''CONTEXTLOCK_CRE_API_KEY'', ''CONTEXTLOCK_OPENAI_API_KEY'', ''CONTEXTLOCK_RUNTIME_TOKEN'']"

definition word32 :: "string \<Rightarrow> bool" where
  "word32 v = (startsWith v ''0x'' \<and> length v = 66 \<and> list_all is_hex (drop 2 v))"

fun contains :: "string \<Rightarrow> string \<Rightarrow> bool" where
  "contains [] p = (p = [])"
| "contains (c # s) p = (startsWith (c # s) p \<or> contains s p)"

definition hash_name :: "string \<Rightarrow> bool" where
  "hash_name k = (let l = toLowerCase k in contains l ''hash'' \<or> contains l ''digest'' \<or> endsWith l ''node'')"

definition url_safe :: "char \<Rightarrow> bool" where
  "url_safe c = (is_digit c \<or> in_range 65 90 c \<or> in_range 97 122 c \<or> c = CHR ''_'' \<or> c = CHR ''-'')"

definition key_shaped :: "string \<Rightarrow> bool" where
  "key_shaped v = (startsWith v ''sk-'' \<and> list_all url_safe (drop 3 v) \<and> 20 \<le> length (drop 3 v))"

definition token_shaped :: "string \<Rightarrow> bool" where
  "token_shaped v =
    (startsWith v ''eyJ'' \<and> 8 \<le> length (takeWhile url_safe (drop 3 v)) \<and> startsWith (dropWhile url_safe (drop 3 v)) ''.'')"

definition assertEnvironmentSafe :: "(string \<times> string) list \<Rightarrow> hardeningReason + unit" where
  "assertEnvironmentSafe env = for_each (\<lambda>(k, v).
    ensure (k \<notin> set DENIED_ENV_EXACT \<and> startsWith k ALLOWED_ENV_PREFIX \<and> \<not> (word32 v \<and> \<not> hash_name k) \<and>
      \<not> (key_shaped v \<or> token_shaped v)) NO_LIMITS) env"

section \<open>Rollback\<close>

datatype history_op = Add revisionEntry | MarkHealthy string | Retire string string int

fun history_step :: "history_op \<Rightarrow> revisionHistory \<Rightarrow> revisionHistory" where
  "history_step (Add e) h = (case add_revision e h of Inl _ \<Rightarrow> h | Inr h' \<Rightarrow> h')"
| "history_step (MarkHealthy i) h = markHealthy i h"
| "history_step (Retire i reason t) h = retire i reason t h"

definition history :: "nat \<Rightarrow> history_op list \<Rightarrow> revisionHistory" where
  "history retain ops = fold history_step ops (new_history retain)"


lemma trim_front_drop: "trim_front n xs = drop (length xs - n) xs"
  by (induction xs) (auto simp: Suc_diff_le not_less_eq_eq)

lemma update_first_origin:
  assumes "e \<in> set (update_first i f es)"
  shows "e \<in> set es \<or> (\<exists>e' \<in> set es. re_revisionId e' = i \<and> e = f e')"
  using assms by (induction es) (auto split: if_splits)

lemma length_update_first [simp]: "length (update_first i f es) = length es"
  by (induction es) auto

text \<open>Where an entry of the history comes from.\<close>

definition came_from :: "history_op list \<Rightarrow> revisionEntry \<Rightarrow> bool" where
  "came_from ops t \<longleftrightarrow>
    (\<exists>e. Add e \<in> set ops \<and> re_revisionId e = re_revisionId t \<and> re_imageDigest e = re_imageDigest t \<and>
       (re_everHealthy t \<longrightarrow> re_everHealthy e \<or> MarkHealthy (re_revisionId t) \<in> set ops) \<and>
       (re_retiredAtMs t = None \<or> re_retiredAtMs e = re_retiredAtMs t \<or> (\<exists>reason u. Retire (re_revisionId t) reason u \<in> set ops)))"

lemma came_from_more: "came_from ops t \<Longrightarrow> came_from (ops @ [op]) t"
  unfolding came_from_def by fastforce

lemma history_entries:
  "length (rh_entries (history retain ops)) \<le> retain \<and> rh_retain (history retain ops) = retain \<and>
    (\<forall>t \<in> set (rh_entries (history retain ops)). came_from ops t)"
proof (induction ops rule: rev_induct)
  case Nil
  show ?case by (simp add: history_def new_history_def)
next
  case (snoc op ops)
  let ?h = "history retain ops"
  have h: "history retain (ops @ [op]) = history_step op ?h" by (simp add: history_def)
  have old: "came_from (ops @ [op]) t" if "t \<in> set (rh_entries ?h)" for t using snoc that came_from_more by blast
  show ?case
  proof (cases op)
    case (Add e)
    have "came_from (ops @ [op]) e" by (auto simp: Add came_from_def)
    then show ?thesis using snoc old unfolding h
      by (auto simp: Add add_revision_def trim_front_drop dest!: in_set_dropD split: if_splits option.splits)
  next
    case (MarkHealthy i)
    have "came_from (ops @ [op]) (t\<lparr>re_everHealthy := True\<rparr>)" if "t \<in> set (rh_entries ?h)" "re_revisionId t = i" for t
      using old [OF that(1)] that(2) by (auto simp: MarkHealthy came_from_def)
    then show ?thesis using snoc old unfolding h by (auto simp: MarkHealthy markHealthy_def dest!: update_first_origin)
  next
    case (Retire i reason u)
    have "came_from (ops @ [op]) (t\<lparr>re_retiredAtMs := Some u, re_retiredReason := Some reason\<rparr>)"
      if "t \<in> set (rh_entries ?h)" "re_revisionId t = i" for t
      using old [OF that(1)] that(2) by (auto simp: Retire came_from_def)
    then show ?thesis using snoc old unfolding h by (auto simp: Retire retire_def dest!: update_first_origin)
  qed
qed

lemma last_of_filter: "last_of (filter P xs) = Some x \<Longrightarrow> x \<in> set xs \<and> P x"
  using last_in_set [of "filter P xs"] by (auto simp: last_of_def split: if_splits)

text \<open>
  C19: A rollback goes to a pinned revision that once worked. Whatever was added, marked healthy and retired before, the
  target is retained, was added with exactly this image, is not the current revision, and was healthy when it
  was added or marked healthy since; and no more revisions are retained than configured.
\<close>

theorem rollback_target_was_healthy:
  assumes "rollbackTarget (history retain ops) = Inr t"
  shows "(\<exists>e. Add e \<in> set ops \<and> re_revisionId e = re_revisionId t \<and> re_imageDigest e = re_imageDigest t \<and>
      (re_everHealthy e \<or> MarkHealthy (re_revisionId t) \<in> set ops)) \<and>
    map_option re_revisionId (current (history retain ops)) \<noteq> Some (re_revisionId t) \<and>
    t \<in> set (rh_entries (history retain ops)) \<and> length (rh_entries (history retain ops)) \<le> retain"
proof -
  have t: "t \<in> set (rh_entries (history retain ops))" "re_everHealthy t"
      "map_option re_revisionId (current (history retain ops)) \<noteq> Some (re_revisionId t)"
    using assms by (auto simp: rollbackTarget_def split: option.splits dest!: last_of_filter)
  with history_entries [of retain ops] have "came_from ops t" by blast
  with t history_entries [of retain ops] show ?thesis by (auto simp: came_from_def)
qed

text \<open>
  The target need not be older than the current revision. If the newest revision was healthy once and has since been
  retired, so that an older one is current, then the rollback target is the retired revision.
\<close>

theorem rollback_returns_to_retired:
  assumes "rh_entries h = es @ [e]" and "re_retiredAtMs e \<noteq> None" and "re_everHealthy e"
    and "filter (\<lambda>x. re_retiredAtMs x = None) es \<noteq> []" and "list_all (\<lambda>x. re_revisionId x \<noteq> re_revisionId e) es"
  shows "rollbackTarget h = Inr e"
proof -
  have "current h = Some (last (filter (\<lambda>x. re_retiredAtMs x = None) es))" using assms by (simp add: current_def last_of_def)
  moreover have "re_revisionId (last (filter (\<lambda>x. re_retiredAtMs x = None) es)) \<noteq> re_revisionId e"
    using last_in_set [OF assms(4)] assms(5) by (auto simp: list_all_iff)
  ultimately show ?thesis using assms(1,3) by (simp add: rollbackTarget_def last_of_def)
qed

definition sample_entry :: "string \<Rightarrow> revisionEntry" where
  "sample_entry i = \<lparr>re_revisionId = i, re_imageDigest = ''sha256:'' @ i, re_blueprintRevision = 0, re_buildRevision = 0, re_createdAtMs = 1,
     re_previousRevisionId = None, re_everHealthy = False, re_retiredAtMs = None, re_retiredReason = None\<rparr>"

definition sample_history :: "history_op list" where
  "sample_history = [Add (sample_entry ''r1''), MarkHealthy ''r1'', Add (sample_entry ''r2''), MarkHealthy ''r2'', Retire ''r2'' ''faulty'' 5]"

lemma sample_history_entries:
  "rh_entries (history 5 sample_history) = [(sample_entry ''r1'')\<lparr>re_everHealthy := True\<rparr>] @
    [(sample_entry ''r2'')\<lparr>re_everHealthy := True, re_retiredAtMs := Some 5, re_retiredReason := Some ''faulty''\<rparr>]"
  by (simp add: history_def sample_history_def new_history_def add_revision_def current_def last_of_def markHealthy_def retire_def sample_entry_def)

theorem rollback_returns_to_retired_witness:
  "rollbackTarget (history 5 sample_history) =
    Inr ((sample_entry ''r2'')\<lparr>re_everHealthy := True, re_retiredAtMs := Some 5, re_retiredReason := Some ''faulty''\<rparr>)"
  by (rule rollback_returns_to_retired [OF sample_history_entries]) (simp_all add: sample_entry_def)

theorem rollback_target_was_healthy_witness:
  "\<exists>e. Add e \<in> set sample_history \<and> re_revisionId e = ''r2'' \<and> (re_everHealthy e \<or> MarkHealthy ''r2'' \<in> set sample_history)"
proof -
  have "rollbackTarget (history 5 sample_history) =
      Inr ((sample_entry ''r2'')\<lparr>re_everHealthy := True, re_retiredAtMs := Some 5, re_retiredReason := Some ''faulty''\<rparr>)"
    by (simp add: rollbackTarget_def current_def last_of_def sample_history_entries sample_entry_def)
  from rollback_target_was_healthy [OF this] show ?thesis by (auto simp: sample_entry_def)
qed

section \<open>Containers\<close>

lemma spec_of_simps:
  "spec_of h ''privileged'' = Some (JBool False)" "spec_of h ''user'' = Some (JStr (hs_user h))" "spec_of h ''readOnlyRootFilesystem'' = Some (JBool True)"
  "spec_of h ''dockerSocket'' = Some (JBool False)" "spec_of h ''bindMounts'' = Some (JArr [])" "spec_of h ''capAdd'' = Some (JArr [])"
  "spec_of h ''capDrop'' = Some (JArr (map JStr (hs_capDrop h)))" "spec_of h ''noNewPrivileges'' = Some (JBool True)"
  "spec_of h ''hostNetwork'' = Some (JBool False)" "spec_of h ''hostPid'' = Some (JBool False)" "spec_of h ''hostIpc'' = Some (JBool False)"
  "spec_of h ''memoryMb'' = Some (JNum (Fin (of_nat (hs_memoryMb h))))" "spec_of h ''cpus'' = Some (JStr (hs_cpus h))"
  "spec_of h ''pidsLimit'' = Some (JNum (Fin (of_nat (hs_pidsLimit h))))"
  by (simp_all add: spec_of_def)

definition hardened :: "hardeningSpec \<Rightarrow> bool" where
  "hardened h \<longleftrightarrow>
    hs_user h \<noteq> ''0:0'' \<and> hs_user h \<noteq> ''root'' \<and> hs_user h \<noteq> [] \<and> ''ALL'' \<in> set (hs_capDrop h) \<and> hs_memoryMb h \<noteq> 0 \<and> hs_cpus h \<noteq> [] \<and> hs_pidsLimit h \<noteq> 0"

lemma hardened_iff: "assertHardened (spec_of h) = Inr u \<longleftrightarrow> hardened h"
proof -
  have "JStr ''ALL'' \<in> set (map JStr cs) \<longleftrightarrow> ''ALL'' \<in> set cs" for cs by auto
  then show ?thesis
    unfolding assertHardened_def spec_of_simps res_bind_Inr_iff ensure_iff is_true_def root_user_def nonempty_array_def hardened_def
    by (simp del: set_map)
qed

text \<open>
  What a container is started with. Arguments are produced exactly if all capabilities are dropped, processor, memory and processes are limited
  and the user is none of the refused texts; then the root file system is read-only and no new privileges can be
  gained. But only these texts are refused: the user with number 0 in any other group, which is root, is accepted.
\<close>

theorem container_is_hardened:
  "(dockerArgs h = Inr args \<longleftrightarrow> args = docker_words h \<and> hardened h \<and> (\<exists>us vs. args = us @ ''--cap-drop'' # ''ALL'' # vs) \<and>
     {''--read-only'', ''no-new-privileges:true'', ''--cpus'', ''--memory'', ''--pids-limit''} \<subseteq> set args) \<and>
   succeeds (dockerArgs (DEFAULT_HARDENING\<lparr>hs_user := ''0:'' @ show_nat (Suc n)\<rparr>))"
proof
  have drops: "\<exists>us vs. concat (map (\<lambda>c. [''--cap-drop'', c]) cs) = us @ ''--cap-drop'' # ''ALL'' # vs" if "''ALL'' \<in> set cs" for cs
    using split_list [OF that] by fastforce
  have "\<exists>us vs. docker_words h = us @ ''--cap-drop'' # ''ALL'' # vs" if "''ALL'' \<in> set (hs_capDrop h)"
  proof -
    from drops [OF that] obtain us vs where "concat (map (\<lambda>c. [''--cap-drop'', c]) (hs_capDrop h)) = us @ ''--cap-drop'' # ''ALL'' # vs" by blast
    then have "\<exists>pre post. docker_words h = pre @ (us @ ''--cap-drop'' # ''ALL'' # vs) @ post" unfolding docker_words_def by blast
    then show ?thesis by (metis append.assoc append_Cons)
  qed
  moreover have "{''--read-only'', ''no-new-privileges:true'', ''--cpus'', ''--memory'', ''--pids-limit''} \<subseteq> set (docker_words h)"
    by (simp add: docker_words_def)
  moreover have "dockerArgs h = Inr args \<longleftrightarrow> args = docker_words h \<and> hardened h"
    by (auto simp: dockerArgs_def res_bind_Inr_iff hardened_iff)
  ultimately show "dockerArgs h = Inr args \<longleftrightarrow> args = docker_words h \<and> hardened h \<and> (\<exists>us vs. args = us @ ''--cap-drop'' # ''ALL'' # vs) \<and>
     {''--read-only'', ''no-new-privileges:true'', ''--cpus'', ''--memory'', ''--pids-limit''} \<subseteq> set args"
    unfolding hardened_def by blast
  have z: "show_nat 0 = ''0''" by code_simp
  have "show_nat (Suc n) \<noteq> show_nat 0" by (simp add: show_nat_inject)
  then show "succeeds (dockerArgs (DEFAULT_HARDENING\<lparr>hs_user := ''0:'' @ show_nat (Suc n)\<rparr>))"
    by (simp add: succeeds_iff dockerArgs_def res_bind_Inr_iff hardened_iff hardened_def DEFAULT_HARDENING_def z)
qed

lemma environment_safe_iff:
  "assertEnvironmentSafe env = Inr u \<longleftrightarrow>
    (\<forall>(k, v) \<in> set env. k \<notin> set DENIED_ENV_EXACT \<and> startsWith k ALLOWED_ENV_PREFIX \<and> (word32 v \<longrightarrow> hash_name k) \<and> \<not> key_shaped v \<and> \<not> token_shaped v)"
  by (auto simp: assertEnvironmentSafe_def for_each_iff ensure_iff)

end
