(* ===== verification/Emergency.thy ===== *)
theory Emergency
  imports Prelude
begin

text \<open>
  The emergency lock (\<open>packages/studio-control-plane/src/emergency.ts\<close>). The actions are injected: what
  each of the five does in one run is an arbitrary function of the step, a result or a thrown message,
  and the clock is an arbitrary function of the number of readings so far. A run also returns the
  steps whose action it called, in order, and the states it reported to \<open>onStep\<close>.

  The lemmas characterize one run exactly and give the invariant of a record under any number of
  repeated runs.
\<close>

section \<open>Records\<close>

datatype emergencyStep = DISABLE_POLICY | DENY_NEW_CAPABILITIES | PAUSE_CRE | STOP_RUNTIME | REVOKE_IDENTITY

definition EMERGENCY_STEPS :: "emergencyStep list" where
  "EMERGENCY_STEPS = [DISABLE_POLICY, DENY_NEW_CAPABILITIES, PAUSE_CRE, STOP_RUNTIME, REVOKE_IDENTITY]"

definition CRITICAL_STEP :: emergencyStep where
  "CRITICAL_STEP = DISABLE_POLICY"

datatype stepOutcome = PENDING | SUCCEEDED | FAILED | SKIPPED | NOT_APPLICABLE

record emergencyStepState =
  es_step :: emergencyStep
  es_outcome :: stepOutcome
  es_attemptedAtMs :: "int option"
  es_completedAtMs :: "int option"
  es_detail :: "string option"
  es_verification :: "string option"
  es_attempts :: nat

datatype emergencyState = NOT_STARTED | IN_PROGRESS | COMPLETE | PARTIAL | LOCK_FAILED

record emergencyLockRecord =
  el_lockId :: string
  el_deploymentId :: string
  el_idempotencyKey :: string
  el_initiatedBy :: string
  el_initiatedAtMs :: int
  el_state :: emergencyState
  el_steps :: "emergencyStepState list"
  el_includeIdentityRevocation :: bool
  el_financialPolicyDisabled :: bool
  el_completedAtMs :: "int option"

record action_result =
  ac_ok :: bool
  ac_verification :: string
  ac_detail :: string

record emergencyApplicability =
  ea_creWorkflowExists :: bool
  ea_runtimeExists :: bool
  ea_identityExists :: bool

section \<open>A new lock\<close>

definition not_applicable :: "bool \<Rightarrow> emergencyApplicability \<Rightarrow> emergencyStep \<Rightarrow> bool" where
  "not_applicable includeIdentity app step =
    (step = PAUSE_CRE \<and> \<not> ea_creWorkflowExists app \<or> step = STOP_RUNTIME \<and> \<not> ea_runtimeExists app \<or>
     step = REVOKE_IDENTITY \<and> (\<not> includeIdentity \<or> \<not> ea_identityExists app))"

definition freshSteps :: "bool \<Rightarrow> emergencyApplicability \<Rightarrow> emergencyStepState list" where
  "freshSteps includeIdentity app = map (\<lambda>step.
     \<lparr>es_step = step, es_outcome = (if not_applicable includeIdentity app step then NOT_APPLICABLE else PENDING),
      es_attemptedAtMs = None, es_completedAtMs = None,
      es_detail = (if not_applicable includeIdentity app step
        then Some (if step = REVOKE_IDENTITY \<and> \<not> includeIdentity then ''not requested'' else ''no such component in this deployment'')
        else None),
      es_verification = None, es_attempts = 0\<rparr>) EMERGENCY_STEPS"

definition newEmergencyLock ::
    "string \<Rightarrow> string \<Rightarrow> string \<Rightarrow> string \<Rightarrow> int \<Rightarrow> bool \<Rightarrow> emergencyApplicability \<Rightarrow> emergencyLockRecord" where
  "newEmergencyLock lockId deploymentId idempotencyKey initiatedBy nowMs includeIdentityRevocation applicability =
    \<lparr>el_lockId = lockId, el_deploymentId = deploymentId, el_idempotencyKey = idempotencyKey, el_initiatedBy = initiatedBy,
     el_initiatedAtMs = nowMs, el_state = NOT_STARTED, el_steps = freshSteps includeIdentityRevocation applicability,
     el_includeIdentityRevocation = includeIdentityRevocation, el_financialPolicyDisabled = False, el_completedAtMs = None\<rparr>"

section \<open>Running a lock\<close>

text \<open>The record being run, the number of clock readings, the actions called, the reported states.\<close>

record lock_run =
  lr_record :: emergencyLockRecord
  lr_clock :: nat
  lr_calls :: "emergencyStep list"
  lr_reported :: "emergencyStepState list"

definition settled_outcome :: "stepOutcome \<Rightarrow> bool" where
  "settled_outcome out = (out = SUCCEEDED \<or> out = NOT_APPLICABLE \<or> out = SKIPPED)"

text \<open>\<open>s\<close> is the first state of the step, and it is mutated in place.\<close>

fun set_step :: "emergencyStep \<Rightarrow> emergencyStepState \<Rightarrow> emergencyStepState list \<Rightarrow> emergencyStepState list" where
  "set_step step s [] = []"
| "set_step step s (x # xs) = (if es_step x = step then s # xs else x # set_step step s xs)"

definition attempted :: "int \<Rightarrow> int \<Rightarrow> string + action_result \<Rightarrow> emergencyStepState \<Rightarrow> emergencyStepState" where
  "attempted before' after' out s =
    s\<lparr>es_attemptedAtMs := Some before', es_attempts := es_attempts s + 1, es_completedAtMs := Some after',
      es_outcome := (case out of Inl _ \<Rightarrow> FAILED | Inr o' \<Rightarrow> if ac_ok o' then SUCCEEDED else FAILED),
      es_detail := (case out of Inl message \<Rightarrow> Some message | Inr o' \<Rightarrow> Some (ac_detail o')),
      es_verification := (case out of Inl _ \<Rightarrow> es_verification s | Inr o' \<Rightarrow> Some (ac_verification o'))\<rparr>"

text \<open>One round of the loop. A record without the step makes the code read a property of
  \<open>undefined\<close>, which throws: \<open>None\<close>.\<close>

definition run_step ::
    "(nat \<Rightarrow> int) \<Rightarrow> (emergencyStep \<Rightarrow> string + action_result) \<Rightarrow> emergencyStep \<Rightarrow> lock_run \<Rightarrow> lock_run option" where
  "run_step nowMs runners step run =
    (let r = lr_record run in
     case find (\<lambda>x. es_step x = step) (el_steps r) of
       None \<Rightarrow> None
     | Some s \<Rightarrow>
         if settled_outcome (es_outcome s) then Some run
         else
           let out = runners step; k = lr_clock run;
               s' = attempted (nowMs k) (nowMs (k + 1)) out s;
               ok = (case out of Inl _ \<Rightarrow> False | Inr o' \<Rightarrow> ac_ok o') in
           Some \<lparr>lr_record = r\<lparr>el_steps := set_step step s' (el_steps r),
                               el_financialPolicyDisabled := (step = CRITICAL_STEP \<and> ok \<or> el_financialPolicyDisabled r)\<rparr>,
                 lr_clock = k + 2, lr_calls = lr_calls run @ [step], lr_reported = lr_reported run @ [s']\<rparr>)"

fun run_steps ::
    "(nat \<Rightarrow> int) \<Rightarrow> (emergencyStep \<Rightarrow> string + action_result) \<Rightarrow> emergencyStep list \<Rightarrow> lock_run \<Rightarrow> lock_run option" where
  "run_steps nowMs runners [] run = Some run"
| "run_steps nowMs runners (s # ss) run =
    (case run_step nowMs runners s run of None \<Rightarrow> None | Some run' \<Rightarrow> run_steps nowMs runners ss run')"

definition final_state :: "emergencyStepState list \<Rightarrow> emergencyStepState \<Rightarrow> emergencyState" where
  "final_state steps critical =
    (let relevant = filter (\<lambda>s. es_outcome s \<noteq> NOT_APPLICABLE) steps;
         failed = filter (\<lambda>s. es_outcome s = FAILED) relevant in
     if es_outcome critical = FAILED then LOCK_FAILED else if 0 < length failed then PARTIAL else COMPLETE)"

definition runEmergencyLock ::
    "(nat \<Rightarrow> int) \<Rightarrow> (emergencyStep \<Rightarrow> string + action_result) \<Rightarrow> emergencyLockRecord \<Rightarrow> lock_run option" where
  "runEmergencyLock nowMs runners r =
    (case run_steps nowMs runners EMERGENCY_STEPS
            \<lparr>lr_record = r\<lparr>el_state := IN_PROGRESS\<rparr>, lr_clock = 0, lr_calls = [], lr_reported = []\<rparr> of
       None \<Rightarrow> None
     | Some run \<Rightarrow>
         (case find (\<lambda>s. es_step s = CRITICAL_STEP) (el_steps (lr_record run)) of
            None \<Rightarrow> None
          | Some critical \<Rightarrow> Some (run\<lparr>lr_record := (lr_record run)
              \<lparr>el_state := final_state (el_steps (lr_record run)) critical,
               el_completedAtMs := Some (nowMs (lr_clock run))\<rparr>, lr_clock := lr_clock run + 1\<rparr>)))"

section \<open>The summary\<close>

text \<open>The lines for each step are text only and are left out.\<close>

definition headline :: "emergencyLockRecord \<Rightarrow> string" where
  "headline r =
    (if el_state r = COMPLETE then ''Emergency lock complete. Financial policy is disabled.''
     else if el_state r = PARTIAL then ''Emergency lock PARTIAL. The financial policy is disabled; one or more operational steps failed.''
     else ''Emergency lock FAILED to disable the financial policy. This agent may still be able to move value.'')"

definition financialPolicy :: "emergencyLockRecord \<Rightarrow> string" where
  "financialPolicy r = (if el_financialPolicyDisabled r then ''DISABLED'' else ''NOT CONFIRMED DISABLED'')"

section \<open>Lemmas\<close>

definition outcome_of :: "emergencyLockRecord \<Rightarrow> emergencyStep \<Rightarrow> stepOutcome option" where
  "outcome_of r step = map_option es_outcome (find (\<lambda>x. es_step x = step) (el_steps r))"

lemma outcome_of_update [simp]:
  "outcome_of (r\<lparr>el_state := x\<rparr>) t = outcome_of r t"
  "outcome_of (r\<lparr>el_completedAtMs := y\<rparr>) t = outcome_of r t"
  by (simp_all add: outcome_of_def)

text \<open>Records have one state for each step, in the frozen order.\<close>

definition wf_lock :: "emergencyLockRecord \<Rightarrow> bool" where
  "wf_lock r \<longleftrightarrow> map es_step (el_steps r) = EMERGENCY_STEPS"

lemma set_step_steps: "es_step s = step \<Longrightarrow> map es_step (set_step step s xs) = map es_step xs"
  by (induction xs) auto

lemma find_set_step:
  "es_step s = step \<Longrightarrow> find (\<lambda>x. es_step x = t) (set_step step s xs) =
    (if t = step then map_option (\<lambda>_. s) (find (\<lambda>x. es_step x = step) xs) else find (\<lambda>x. es_step x = t) xs)"
  by (induction xs) auto

lemma wf_find: "wf_lock r \<Longrightarrow> \<exists>s. find (\<lambda>x. es_step x = step) (el_steps r) = Some s \<and> es_step s = step"
proof -
  assume "wf_lock r"
  moreover have "step \<in> set EMERGENCY_STEPS" by (cases step) (simp_all add: EMERGENCY_STEPS_def)
  ultimately have "step \<in> es_step ` set (el_steps r)" by (metis list.set_map wf_lock_def)
  then have "find (\<lambda>x. es_step x = step) (el_steps r) \<noteq> None" by (auto simp: find_None_iff)
  then show ?thesis by (auto simp: find_Some_iff)
qed

text \<open>What the outcome of a step is after its action, if it was called.\<close>

definition new_outcome :: "(emergencyStep \<Rightarrow> string + action_result) \<Rightarrow> emergencyStep \<Rightarrow> stepOutcome \<Rightarrow> stepOutcome" where
  "new_outcome runners step old =
    (if settled_outcome old then old
     else case runners step of Inl _ \<Rightarrow> FAILED | Inr o' \<Rightarrow> if ac_ok o' then SUCCEEDED else FAILED)"

lemma run_step_Some:
  assumes "wf_lock (lr_record run)"
  obtains run' old where "run_step nowMs runners step run = Some run'" "wf_lock (lr_record run')"
    "outcome_of (lr_record run) step = Some old"
    "\<And>t. outcome_of (lr_record run') t = (if t = step then Some (new_outcome runners step old) else outcome_of (lr_record run) t)"
    "lr_calls run' = lr_calls run @ (if settled_outcome old then [] else [step])"
    "el_financialPolicyDisabled (lr_record run') \<longleftrightarrow> el_financialPolicyDisabled (lr_record run) \<or>
       step = CRITICAL_STEP \<and> \<not> settled_outcome old \<and> new_outcome runners step old = SUCCEEDED"
proof -
  obtain s where s: "find (\<lambda>x. es_step x = step) (el_steps (lr_record run)) = Some s" "es_step s = step"
    using wf_find [OF assms] by blast
  show ?thesis
  proof (cases "settled_outcome (es_outcome s)")
    case True
    then show ?thesis using assms s by (intro that [of run "es_outcome s"]) (auto simp: run_step_def Let_def new_outcome_def outcome_of_def)
  next
    case False
    define s' where "s' = attempted (nowMs (lr_clock run)) (nowMs (lr_clock run + 1)) (runners step) s"
    have s': "es_step s' = step" "es_outcome s' = new_outcome runners step (es_outcome s)"
      using s(2) False by (simp_all add: s'_def attempted_def new_outcome_def)
    define ok where "ok \<longleftrightarrow> new_outcome runners step (es_outcome s) = SUCCEEDED"
    have ok: "(case runners step of Inl _ \<Rightarrow> False | Inr o' \<Rightarrow> ac_ok o') = ok"
      using False by (auto simp: ok_def new_outcome_def split: sum.splits)
    define run' where "run' = \<lparr>lr_record = (lr_record run)\<lparr>el_steps := set_step step s' (el_steps (lr_record run)),
        el_financialPolicyDisabled := (step = CRITICAL_STEP \<and> ok \<or> el_financialPolicyDisabled (lr_record run))\<rparr>,
      lr_clock = lr_clock run + 2, lr_calls = lr_calls run @ [step], lr_reported = lr_reported run @ [s']\<rparr>"
    have "run_step nowMs runners step run = Some run'" using s(1) False ok by (simp add: run_step_def Let_def run'_def s'_def)
    moreover have "wf_lock (lr_record run')" using assms s' by (simp add: run'_def wf_lock_def set_step_steps)
    ultimately show ?thesis using s s' False
      by (intro that [of run' "es_outcome s"]) (auto simp: run'_def find_set_step ok_def outcome_of_def)
  qed
qed

lemma settled_new [simp]: "settled_outcome old \<Longrightarrow> new_outcome runners step old = old"
  by (simp add: new_outcome_def)

lemma run_steps_Some:
  assumes "wf_lock (lr_record run)" and "distinct ss"
  shows "\<exists>run'. run_steps nowMs runners ss run = Some run' \<and> wf_lock (lr_record run') \<and>
    (\<forall>t. outcome_of (lr_record run') t =
       (if t \<in> set ss then map_option (new_outcome runners t) (outcome_of (lr_record run) t) else outcome_of (lr_record run) t)) \<and>
    lr_calls run' = lr_calls run @ filter (\<lambda>t. \<exists>old. outcome_of (lr_record run) t = Some old \<and> \<not> settled_outcome old) ss \<and>
    (el_financialPolicyDisabled (lr_record run') \<longleftrightarrow> el_financialPolicyDisabled (lr_record run) \<or>
       CRITICAL_STEP \<in> set ss \<and> (\<exists>old. outcome_of (lr_record run) CRITICAL_STEP = Some old \<and> \<not> settled_outcome old \<and>
         new_outcome runners CRITICAL_STEP old = SUCCEEDED))"
  using assms
proof (induction ss arbitrary: run)
  case (Cons x xs)
  obtain m old where m: "run_step nowMs runners x run = Some m" "wf_lock (lr_record m)" "outcome_of (lr_record run) x = Some old"
    "\<And>t. outcome_of (lr_record m) t = (if t = x then Some (new_outcome runners x old) else outcome_of (lr_record run) t)"
    "lr_calls m = lr_calls run @ (if settled_outcome old then [] else [x])"
    "el_financialPolicyDisabled (lr_record m) \<longleftrightarrow> el_financialPolicyDisabled (lr_record run) \<or>
       x = CRITICAL_STEP \<and> \<not> settled_outcome old \<and> new_outcome runners x old = SUCCEEDED"
    by (rule run_step_Some [OF Cons.prems(1), where nowMs = nowMs and runners = runners and step = x]) (rule that, assumption+)
  have x: "x \<notin> set xs" "distinct xs" using Cons.prems(2) by auto
  from Cons.IH [OF m(2) x(2)] obtain run' where r: "run_steps nowMs runners xs m = Some run'" "wf_lock (lr_record run')"
    "\<forall>t. outcome_of (lr_record run') t =
       (if t \<in> set xs then map_option (new_outcome runners t) (outcome_of (lr_record m) t) else outcome_of (lr_record m) t)"
    "lr_calls run' = lr_calls m @ filter (\<lambda>t. \<exists>old. outcome_of (lr_record m) t = Some old \<and> \<not> settled_outcome old) xs"
    "el_financialPolicyDisabled (lr_record run') \<longleftrightarrow> el_financialPolicyDisabled (lr_record m) \<or>
       CRITICAL_STEP \<in> set xs \<and> (\<exists>old. outcome_of (lr_record m) CRITICAL_STEP = Some old \<and> \<not> settled_outcome old \<and>
         new_outcome runners CRITICAL_STEP old = SUCCEEDED)" by blast
  have same: "outcome_of (lr_record m) t = outcome_of (lr_record run) t" if "t \<in> set xs" for t using x(1) that m(4) by metis
  have calls: "filter (\<lambda>t. \<exists>old. outcome_of (lr_record m) t = Some old \<and> \<not> settled_outcome old) xs =
      filter (\<lambda>t. \<exists>old. outcome_of (lr_record run) t = Some old \<and> \<not> settled_outcome old) xs"
    by (rule filter_cong) (simp_all only: same)
  show ?case
  proof (intro exI conjI allI)
    show "run_steps nowMs runners (x # xs) run = Some run'" by (simp add: m(1) r(1))
    show "outcome_of (lr_record run') t = (if t \<in> set (x # xs) then map_option (new_outcome runners t) (outcome_of (lr_record run) t)
        else outcome_of (lr_record run) t)" for t
      using r(3) m(3,4) x(1) by auto
    show "lr_calls run' = lr_calls run @ filter (\<lambda>t. \<exists>old. outcome_of (lr_record run) t = Some old \<and> \<not> settled_outcome old) (x # xs)"
      unfolding r(4) calls m(5) using m(3) by simp
    show "el_financialPolicyDisabled (lr_record run') \<longleftrightarrow> el_financialPolicyDisabled (lr_record run) \<or>
       CRITICAL_STEP \<in> set (x # xs) \<and> (\<exists>old. outcome_of (lr_record run) CRITICAL_STEP = Some old \<and> \<not> settled_outcome old \<and>
         new_outcome runners CRITICAL_STEP old = SUCCEEDED)"
    proof (cases "x = CRITICAL_STEP")
      case True
      then have "CRITICAL_STEP \<notin> set xs" using x(1) by simp
      with True show ?thesis unfolding r(5) m(6) using m(3) by simp
    next
      case False
      then show ?thesis unfolding r(5) m(6) using same by auto
    qed
  qed (rule r(2))
qed simp

lemma final_state_iff:
  assumes "wf_lock r" and "find (\<lambda>s. es_step s = CRITICAL_STEP) (el_steps r) = Some c"
  shows "final_state (el_steps r) c =
    (if outcome_of r CRITICAL_STEP = Some FAILED then LOCK_FAILED
     else if \<exists>t. outcome_of r t = Some FAILED then PARTIAL else COMPLETE)"
proof -
  have "(\<exists>t. outcome_of r t = Some FAILED) \<longleftrightarrow> (\<exists>s \<in> set (el_steps r). es_outcome s = FAILED)"
  proof
    assume "\<exists>s \<in> set (el_steps r). es_outcome s = FAILED"
    then obtain s where s: "s \<in> set (el_steps r)" "es_outcome s = FAILED" by blast
    have "distinct (map es_step (el_steps r))" using assms(1) by (simp add: wf_lock_def EMERGENCY_STEPS_def)
    from find_distinct [OF this s(1)] s(2) show "\<exists>t. outcome_of r t = Some FAILED" by (intro exI [of _ "es_step s"]) (simp add: outcome_of_def)
  qed (auto simp: find_Some_iff outcome_of_def)
  then show ?thesis using assms(2) by (auto simp: outcome_of_def final_state_def Let_def filter_empty_conv)
qed

text \<open>One run, exactly.\<close>

lemma run_exact:
  assumes "wf_lock r"
  shows "\<exists>run. runEmergencyLock nowMs runners r = Some run \<and> wf_lock (lr_record run) \<and>
    (\<forall>t. outcome_of (lr_record run) t = map_option (new_outcome runners t) (outcome_of r t)) \<and>
    lr_calls run = filter (\<lambda>t. \<exists>old. outcome_of r t = Some old \<and> \<not> settled_outcome old) EMERGENCY_STEPS \<and>
    (el_financialPolicyDisabled (lr_record run) \<longleftrightarrow> el_financialPolicyDisabled r \<or>
       (\<exists>old. outcome_of r CRITICAL_STEP = Some old \<and> \<not> settled_outcome old \<and> new_outcome runners CRITICAL_STEP old = SUCCEEDED)) \<and>
    el_state (lr_record run) =
      (if outcome_of (lr_record run) CRITICAL_STEP = Some FAILED then LOCK_FAILED
       else if \<exists>t. outcome_of (lr_record run) t = Some FAILED then PARTIAL else COMPLETE)"
proof -
  let ?start = "\<lparr>lr_record = r\<lparr>el_state := IN_PROGRESS\<rparr>, lr_clock = 0, lr_calls = [], lr_reported = []\<rparr>"
  have wf: "wf_lock (lr_record ?start)" and d: "distinct EMERGENCY_STEPS" using assms by (simp_all add: wf_lock_def EMERGENCY_STEPS_def)
  have all: "t \<in> set EMERGENCY_STEPS" for t by (cases t) (simp_all add: EMERGENCY_STEPS_def)
  from run_steps_Some [OF wf d, of nowMs runners] obtain m where m: "run_steps nowMs runners EMERGENCY_STEPS ?start = Some m" "wf_lock (lr_record m)"
    "\<forall>t. outcome_of (lr_record m) t = map_option (new_outcome runners t) (outcome_of r t)"
    "lr_calls m = filter (\<lambda>t. \<exists>old. outcome_of r t = Some old \<and> \<not> settled_outcome old) EMERGENCY_STEPS"
    "el_financialPolicyDisabled (lr_record m) \<longleftrightarrow> el_financialPolicyDisabled r \<or>
       (\<exists>old. outcome_of r CRITICAL_STEP = Some old \<and> \<not> settled_outcome old \<and> new_outcome runners CRITICAL_STEP old = SUCCEEDED)"
    using all by auto
  obtain c where c: "find (\<lambda>s. es_step s = CRITICAL_STEP) (el_steps (lr_record m)) = Some c" using wf_find [OF m(2)] by blast
  show ?thesis
    using m c final_state_iff [OF m(2) c]
    by (auto simp: runEmergencyLock_def wf_lock_def)
qed

section \<open>Repeated runs\<close>

text \<open>The records a lock goes through when it is run any number of times, with every action called so
  far and whether it succeeded.\<close>

definition succeeded :: "(emergencyStep \<Rightarrow> string + action_result) \<Rightarrow> emergencyStep \<Rightarrow> bool" where
  "succeeded runners t = (case runners t of Inl _ \<Rightarrow> False | Inr o' \<Rightarrow> ac_ok o')"

inductive relocked :: "emergencyLockRecord \<Rightarrow> emergencyLockRecord \<Rightarrow> (emergencyStep \<times> bool) list \<Rightarrow> bool" for r0 where
  fresh: "relocked r0 r0 []"
| again: "relocked r0 r h \<Longrightarrow> runEmergencyLock nowMs runners r = Some run \<Longrightarrow>
    relocked r0 (lr_record run) (h @ map (\<lambda>t. (t, succeeded runners t)) (lr_calls run))"

definition lock_inv :: "bool \<Rightarrow> emergencyApplicability \<Rightarrow> emergencyLockRecord \<Rightarrow> (emergencyStep \<times> bool) list \<Rightarrow> bool" where
  "lock_inv inc app r h \<longleftrightarrow> wf_lock r \<and>
    (\<forall>t. outcome_of r t = Some (if not_applicable inc app t then NOT_APPLICABLE else if h = [] then PENDING
       else if (t, True) \<in> set h then SUCCEEDED else FAILED)) \<and>
    (\<forall>t b. (t, b) \<in> set h \<longrightarrow> \<not> not_applicable inc app t) \<and>
    (h \<noteq> [] \<longrightarrow> fst (hd h) = DISABLE_POLICY) \<and>
    (\<forall>us t vs. h = us @ (t, True) # vs \<longrightarrow> t \<notin> fst ` set vs) \<and>
    (el_financialPolicyDisabled r \<longleftrightarrow> (DISABLE_POLICY, True) \<in> set h) \<and>
    (h \<noteq> [] \<longrightarrow> el_state r = (if (DISABLE_POLICY, True) \<notin> set h then LOCK_FAILED
       else if \<exists>t. \<not> not_applicable inc app t \<and> (t, True) \<notin> set h then PARTIAL else COMPLETE))"

lemma fresh_outcome: "outcome_of (newEmergencyLock i d k who now inc app) t = Some (if not_applicable inc app t then NOT_APPLICABLE else PENDING)"
  by (cases t) (simp_all add: outcome_of_def newEmergencyLock_def freshSteps_def EMERGENCY_STEPS_def)

lemma fresh_inv: "lock_inv inc app (newEmergencyLock i d k who now inc app) []"
  unfolding lock_inv_def fresh_outcome
  by (simp add: newEmergencyLock_def freshSteps_def wf_lock_def comp_def)

lemma policy_applies [simp]: "\<not> not_applicable inc app DISABLE_POLICY"
  by (simp add: not_applicable_def)

lemma after_success:
  assumes h: "\<forall>us t vs. h = us @ (t, True) # vs \<longrightarrow> t \<notin> fst ` set vs"
    and calls: "distinct cs" "\<forall>t \<in> set cs. (t, True) \<notin> set h"
    and split: "h @ map (\<lambda>t. (t, f t)) cs = us @ (t, True) # vs"
  shows "t \<notin> fst ` set vs"
proof -
  from split consider ws where "h = us @ (t, True) # ws" "vs = ws @ map (\<lambda>t. (t, f t)) cs"
    | ws where "map (\<lambda>t. (t, f t)) cs = ws @ (t, True) # vs"
    by (auto simp: append_eq_append_conv2 Cons_eq_append_conv append_eq_Cons_conv)
  then show ?thesis
  proof cases
    case 1
    then have "t \<notin> fst ` set ws" using h by blast
    moreover have "t \<notin> set cs" using 1(1) calls(2) by auto
    ultimately show ?thesis using 1(2) by (auto simp: image_image)
  next
    case 2
    have "distinct (map fst (map (\<lambda>t. (t, f t)) cs))" using calls(1) by (simp add: comp_def)
    then show ?thesis unfolding 2 by simp
  qed
qed

lemma again_inv:
  assumes inv: "lock_inv inc app r h" and run: "runEmergencyLock nowMs runners r = Some run"
  shows "lock_inv inc app (lr_record run) (h @ map (\<lambda>t. (t, succeeded runners t)) (lr_calls run))"
proof -
  let ?h = "h @ map (\<lambda>t. (t, succeeded runners t)) (lr_calls run)" and ?r = "lr_record run"
  let ?open = "\<lambda>t. \<not> not_applicable inc app t \<and> (t, True) \<notin> set h"
  have wf: "wf_lock r" and out: "\<And>t. outcome_of r t = Some (if not_applicable inc app t then NOT_APPLICABLE else if h = [] then PENDING
       else if (t, True) \<in> set h then SUCCEEDED else FAILED)" using inv unfolding lock_inv_def by blast+
  from run_exact [OF wf, of nowMs runners] run have r: "wf_lock ?r"
    "\<And>t. outcome_of ?r t = map_option (new_outcome runners t) (outcome_of r t)"
    "lr_calls run = filter (\<lambda>t. \<exists>old. outcome_of r t = Some old \<and> \<not> settled_outcome old) EMERGENCY_STEPS"
    "el_financialPolicyDisabled ?r \<longleftrightarrow> el_financialPolicyDisabled r \<or>
       (\<exists>old. outcome_of r CRITICAL_STEP = Some old \<and> \<not> settled_outcome old \<and> new_outcome runners CRITICAL_STEP old = SUCCEEDED)"
    "el_state ?r = (if outcome_of ?r CRITICAL_STEP = Some FAILED then LOCK_FAILED
       else if \<exists>t. outcome_of ?r t = Some FAILED then PARTIAL else COMPLETE)" by auto
  have open_iff: "(\<exists>old. outcome_of r t = Some old \<and> \<not> settled_outcome old) \<longleftrightarrow> ?open t" for t
    unfolding out by (auto simp: settled_outcome_def)
  have calls: "lr_calls run = filter ?open EMERGENCY_STEPS" unfolding r(3) open_iff ..
  have all: "t \<in> set EMERGENCY_STEPS" for t by (cases t) (simp_all add: EMERGENCY_STEPS_def)
  have mem: "(t, b) \<in> set ?h \<longleftrightarrow> (t, b) \<in> set h \<or> ?open t \<and> b = succeeded runners t" for t b
    unfolding calls using all by auto
  have ne: "?h \<noteq> []" using mem [of DISABLE_POLICY True] mem [of DISABLE_POLICY False] by (cases "succeeded runners DISABLE_POLICY") auto
  have new: "outcome_of ?r t = Some (if not_applicable inc app t then NOT_APPLICABLE else if (t, True) \<in> set ?h then SUCCEEDED else FAILED)" for t
    unfolding r(2) out mem by (auto simp: new_outcome_def settled_outcome_def succeeded_def split: sum.splits)
  have d: "distinct (lr_calls run)" unfolding calls by (simp add: EMERGENCY_STEPS_def)
  have "fst (hd ?h) = DISABLE_POLICY"
  proof (cases "h = []")
    case True
    then show ?thesis unfolding calls by (simp add: EMERGENCY_STEPS_def)
  next
    case False
    then show ?thesis using inv by (simp add: lock_inv_def)
  qed
  moreover have "\<forall>us t vs. ?h = us @ (t, True) # vs \<longrightarrow> t \<notin> fst ` set vs"
  proof (intro allI impI)
    fix us t vs
    assume "?h = us @ (t, True) # vs"
    moreover have "\<forall>us t vs. h = us @ (t, True) # vs \<longrightarrow> t \<notin> fst ` set vs" using inv unfolding lock_inv_def by blast
    moreover have "\<forall>t \<in> set (lr_calls run). (t, True) \<notin> set h" unfolding calls by simp
    ultimately show "t \<notin> fst ` set vs" using after_success [OF _ d] by blast
  qed
  moreover have "\<forall>t b. (t, b) \<in> set ?h \<longrightarrow> \<not> not_applicable inc app t" unfolding mem using inv unfolding lock_inv_def by blast
  moreover have "el_financialPolicyDisabled ?r \<longleftrightarrow> (DISABLE_POLICY, True) \<in> set ?h" unfolding r(4) mem out CRITICAL_STEP_def
    using inv by (auto simp: lock_inv_def settled_outcome_def new_outcome_def succeeded_def split: sum.splits)
  moreover have "el_state ?r = (if (DISABLE_POLICY, True) \<notin> set ?h then LOCK_FAILED
      else if \<exists>t. \<not> not_applicable inc app t \<and> (t, True) \<notin> set ?h then PARTIAL else COMPLETE)"
    unfolding r(5) new CRITICAL_STEP_def by auto
  ultimately show ?thesis using r(1) new ne unfolding lock_inv_def by (simp only: if_False simp_thms)
qed

lemma relocked_inv:
  assumes "relocked r0 r h" and "r0 = newEmergencyLock i d k who now inc app"
  shows "lock_inv inc app r h"
  using assms
proof (induction rule: relocked.induct)
  case fresh
  then show ?case using fresh_inv by simp
next
  case (again r h nowMs runners run)
  then show ?case using again_inv by blast
qed

section \<open>The lock over any number of runs\<close>

text \<open>
  C21: A lock of a deployment, run any number of times with actions that do whatever they like: the first
  action ever called is the one that disables the financial policy; no action is called again once it
  has succeeded, and none that does not apply; the record says the policy is disabled exactly when that action
  has succeeded; and what the operator reads is the truth: complete only if every applicable action has
  succeeded, partial only if the policy is disabled and another action has not succeeded, and failed only
  if the policy was never disabled.
\<close>

theorem emergency_lock_sound:
  assumes "relocked (newEmergencyLock i d k who now inc app) r h" and "h \<noteq> []"
  shows "fst (hd h) = DISABLE_POLICY \<and>
    (\<forall>us t vs. h = us @ (t, True) # vs \<longrightarrow> t \<notin> fst ` set vs) \<and>
    (\<forall>(t, b) \<in> set h. \<not> not_applicable inc app t) \<and>
    (financialPolicy r = ''DISABLED'' \<longleftrightarrow> (DISABLE_POLICY, True) \<in> set h) \<and>
    headline r =
      (if (DISABLE_POLICY, True) \<notin> set h
       then ''Emergency lock FAILED to disable the financial policy. This agent may still be able to move value.''
       else if \<forall>t. not_applicable inc app t \<or> (t, True) \<in> set h
       then ''Emergency lock complete. Financial policy is disabled.''
       else ''Emergency lock PARTIAL. The financial policy is disabled; one or more operational steps failed.'')"
proof -
  from relocked_inv [OF assms(1) refl] have inv: "lock_inv inc app r h" .
  have "headline r =
      (if (DISABLE_POLICY, True) \<notin> set h
       then ''Emergency lock FAILED to disable the financial policy. This agent may still be able to move value.''
       else if \<forall>t. not_applicable inc app t \<or> (t, True) \<in> set h
       then ''Emergency lock complete. Financial policy is disabled.''
       else ''Emergency lock PARTIAL. The financial policy is disabled; one or more operational steps failed.'')"
    using inv assms(2) by (simp only: lock_inv_def headline_def) auto
  moreover have "fst (hd h) = DISABLE_POLICY" "financialPolicy r = ''DISABLED'' \<longleftrightarrow> (DISABLE_POLICY, True) \<in> set h"
    "\<forall>(t, b) \<in> set h. \<not> not_applicable inc app t" "\<forall>us t vs. h = us @ (t, True) # vs \<longrightarrow> t \<notin> fst ` set vs"
    using inv assms(2) by (auto simp: lock_inv_def financialPolicy_def)
  ultimately show ?thesis by blast
qed

text \<open>A deployment with no workflow: the runtime cannot be stopped in the first run, and is in the second.\<close>

definition sample_app :: emergencyApplicability where
  "sample_app = \<lparr>ea_creWorkflowExists = False, ea_runtimeExists = True, ea_identityExists = True\<rparr>"

definition sample_lock :: emergencyLockRecord where
  "sample_lock = newEmergencyLock ''lock'' ''dep'' ''key-0001'' ''operator'' 1000 True sample_app"

definition all_ok :: "emergencyStep \<Rightarrow> string + action_result" where
  "all_ok t = Inr \<lparr>ac_ok = True, ac_verification = ''read'', ac_detail = ''ok''\<rparr>"

definition stop_throws :: "emergencyStep \<Rightarrow> string + action_result" where
  "stop_throws t = (if t = STOP_RUNTIME then Inl ''timeout'' else all_ok t)"

definition sample_first :: lock_run where
  "sample_first = the (runEmergencyLock (\<lambda>k. 2000 + int k) stop_throws sample_lock)"

definition sample_second :: lock_run where
  "sample_second = the (runEmergencyLock (\<lambda>k. 3000 + int k) all_ok (lr_record sample_first))"

lemmas sample_lock_defs = sample_lock_def sample_app_def newEmergencyLock_def freshSteps_def EMERGENCY_STEPS_def
  not_applicable_def stop_throws_def all_ok_def runEmergencyLock_def run_step_def attempted_def settled_outcome_def
  final_state_def CRITICAL_STEP_def Let_def

lemma sample_first_run: "runEmergencyLock (\<lambda>k. 2000 + int k) stop_throws sample_lock = Some sample_first"
  "lr_calls sample_first = [DISABLE_POLICY, DENY_NEW_CAPABILITIES, STOP_RUNTIME, REVOKE_IDENTITY]"
  by (simp_all add: sample_first_def sample_lock_defs)

lemma sample_second_run: "runEmergencyLock (\<lambda>k. 3000 + int k) all_ok (lr_record sample_first) = Some sample_second"
  "lr_calls sample_second = [STOP_RUNTIME]"
  by (simp_all add: sample_second_def sample_first_def sample_lock_defs)

lemma sample_relocked: "relocked sample_lock (lr_record sample_second)
  [(DISABLE_POLICY, True), (DENY_NEW_CAPABILITIES, True), (STOP_RUNTIME, False), (REVOKE_IDENTITY, True), (STOP_RUNTIME, True)]"
  using relocked.again [OF relocked.again [OF relocked.fresh sample_first_run(1)] sample_second_run(1)]
  by (simp add: sample_first_run(2) sample_second_run(2) succeeded_def stop_throws_def all_ok_def)

theorem emergency_lock_sound_witness:
  "relocked sample_lock (lr_record sample_second)
     [(DISABLE_POLICY, True), (DENY_NEW_CAPABILITIES, True), (STOP_RUNTIME, False), (REVOKE_IDENTITY, True), (STOP_RUNTIME, True)] \<and>
   headline (lr_record sample_second) = ''Emergency lock complete. Financial policy is disabled.''"
proof -
  have "\<forall>t. not_applicable True sample_app t \<or> (t, True) \<in> {(DISABLE_POLICY, True), (DENY_NEW_CAPABILITIES, True), (STOP_RUNTIME, False),
      (REVOKE_IDENTITY, True), (STOP_RUNTIME, True)}"
  proof
    fix t
    show "not_applicable True sample_app t \<or> (t, True) \<in> {(DISABLE_POLICY, True), (DENY_NEW_CAPABILITIES, True), (STOP_RUNTIME, False),
      (REVOKE_IDENTITY, True), (STOP_RUNTIME, True)}" by (cases t) (simp_all add: not_applicable_def sample_app_def)
  qed
  then show ?thesis
    using sample_relocked emergency_lock_sound [OF sample_relocked [unfolded sample_lock_def]] by simp
qed

text \<open>
  A run works on a copy of the record it was given. Two operators who press the button on the same
  record both call every action that had not succeeded when the record was read, and both revoke the identity
  if that was asked for, whatever order their actions interleave in.
\<close>

theorem concurrent_runs_revoke_twice:
  assumes "lock_inv True app r h" and "ea_identityExists app" and "(REVOKE_IDENTITY, True) \<notin> set h"
  shows "\<exists>run1 run2. runEmergencyLock now1 runners1 r = Some run1 \<and> runEmergencyLock now2 runners2 r = Some run2 \<and>
    lr_calls run1 = lr_calls run2 \<and> REVOKE_IDENTITY \<in> set (lr_calls run1)"
proof -
  have wf: "wf_lock r" and out: "outcome_of r REVOKE_IDENTITY = Some (if h = [] then PENDING else FAILED)"
    using assms by (auto simp: lock_inv_def not_applicable_def)
  show ?thesis using run_exact [OF wf, of now1 runners1] run_exact [OF wf, of now2 runners2] out
    by (auto simp: EMERGENCY_STEPS_def settled_outcome_def)
qed

theorem concurrent_runs_revoke_twice_witness:
  "lock_inv True sample_app sample_lock [] \<and>
   (\<exists>run1 run2. runEmergencyLock (\<lambda>k. 2000 + int k) all_ok sample_lock = Some run1 \<and>
      runEmergencyLock (\<lambda>k. 2001 + int k) all_ok sample_lock = Some run2 \<and>
      lr_calls run1 = lr_calls run2 \<and> REVOKE_IDENTITY \<in> set (lr_calls run1))"
proof
  show inv: "lock_inv True sample_app sample_lock []" unfolding sample_lock_def by (rule fresh_inv)
  show "\<exists>run1 run2. runEmergencyLock (\<lambda>k. 2000 + int k) all_ok sample_lock = Some run1 \<and>
      runEmergencyLock (\<lambda>k. 2001 + int k) all_ok sample_lock = Some run2 \<and>
      lr_calls run1 = lr_calls run2 \<and> REVOKE_IDENTITY \<in> set (lr_calls run1)"
    by (rule concurrent_runs_revoke_twice [OF inv]) (simp_all add: sample_app_def)
qed

end
