(* ===== verification/Observations.thy ===== *)
theory Observations
  imports Prelude
begin

text \<open>
  Observations of external systems with their age (\<open>packages/studio-control-plane/src/freshness.ts\<close>), the
  chain observer (\<open>chain.ts\<close>, class \<open>ChainObserver\<close>) and the monitor of the CRE workflow (\<open>cre.ts\<close>).

  What a chain or a CRE provider answers is an argument: an answer, or the message of the error it
  throws. The text of a time (\<open>toISOString\<close>) is the argument \<open>isoTime\<close>. A dash in a message is written \<open>--\<close>.

  The theorems say what may be shown as current: only an answer of the system itself, and only within
  its freshness window. They also show the one place where the monitor does not do what its comment
  says, a failed synchronization that leaves the previous answer current.
\<close>

section \<open>Observations\<close>

datatype observationState = NOT_CONFIGURED | HEALTHY | STALE | DEGRADED | FAILED | BLOCKED | DRIFT

record 'a observation =
  ob_state :: observationState
  ob_value :: "'a option"
  ob_observedAtMs :: int
  ob_source :: string
  ob_ttlMs :: int
  ob_reason :: "string option"

definition observed ::
    "'a \<Rightarrow> int \<Rightarrow> string \<Rightarrow> int \<Rightarrow> observationState option \<Rightarrow> string option \<Rightarrow> 'a observation" where
  "observed v atMs source ttlMs state reason =
    \<lparr>ob_state = (case state of Some s \<Rightarrow> s | None \<Rightarrow> HEALTHY), ob_value = Some v, ob_observedAtMs = atMs,
     ob_source = source, ob_ttlMs = ttlMs, ob_reason = reason\<rparr>"

definition unavailable :: "observationState \<Rightarrow> int \<Rightarrow> string \<Rightarrow> int \<Rightarrow> string \<Rightarrow> 'a observation" where
  "unavailable state atMs source ttlMs reason =
    \<lparr>ob_state = state, ob_value = None, ob_observedAtMs = atMs, ob_source = source, ob_ttlMs = ttlMs, ob_reason = Some reason\<rparr>"

definition isExpired :: "('a, 'b) observation_scheme \<Rightarrow> int \<Rightarrow> bool" where
  "isExpired o' nowMs = (ob_ttlMs o' < nowMs - ob_observedAtMs o')"

record 'a presentation = "'a observation" +
  pr_ageMs :: int
  pr_isCurrent :: bool

text \<open>\<open>Math.round(ms / 1000)\<close>.\<close>

definition seconds :: "int \<Rightarrow> string" where
  "seconds ms = show_int ((ms + 500) div 1000)"

definition stale_reason :: "(int \<Rightarrow> string) \<Rightarrow> 'a observation \<Rightarrow> int \<Rightarrow> string" where
  "stale_reason isoTime o' ageMs =
    ''last confirmed '' @ isoTime (ob_observedAtMs o') @ '', '' @ seconds ageMs @ ''s ago; beyond the '' @
    seconds (ob_ttlMs o') @ ''s freshness window, so this is the last known value and not current status''"

definition presentable :: "(int \<Rightarrow> string) \<Rightarrow> 'a observation \<Rightarrow> int \<Rightarrow> 'a presentation" where
  "presentable isoTime o' nowMs =
    (let ageMs = nowMs - ob_observedAtMs o'; expired = isExpired o' nowMs in
     if expired \<and> (ob_state o' = HEALTHY \<or> ob_state o' = DEGRADED)
     then observation.extend (o'\<lparr>ob_state := STALE, ob_reason := Some (stale_reason isoTime o' ageMs)\<rparr>)
            (presentation.fields ageMs False)
     else observation.extend o' (presentation.fields ageMs (\<not> expired \<and> ob_state o' = HEALTHY)))"

definition allCurrent :: "(int \<Rightarrow> string) \<Rightarrow> 'a observation list \<Rightarrow> int \<Rightarrow> bool" where
  "allCurrent isoTime observations nowMs =
    (0 < length observations \<and> list_all (\<lambda>o'. pr_isCurrent (presentable isoTime o' nowMs)) observations)"

lemma presentable_simps [simp]:
  "ob_value (presentable isoTime o' nowMs) = ob_value o'"
  "ob_observedAtMs (presentable isoTime o' nowMs) = ob_observedAtMs o'"
  "pr_ageMs (presentable isoTime o' nowMs) = nowMs - ob_observedAtMs o'"
  "pr_isCurrent (presentable isoTime o' nowMs) \<longleftrightarrow> \<not> isExpired o' nowMs \<and> ob_state o' = HEALTHY"
  by (auto simp: presentable_def Let_def observation.defs presentation.defs)

lemma presentable_state:
  "ob_state (presentable isoTime o' nowMs) =
    (if isExpired o' nowMs \<and> (ob_state o' = HEALTHY \<or> ob_state o' = DEGRADED) then STALE else ob_state o')"
  by (auto simp: presentable_def Let_def observation.defs presentation.defs)

section \<open>The chain observer\<close>

definition DEFAULT_TTL_chain :: int where "DEFAULT_TTL_chain = 30000"
definition DEFAULT_TTL_policy :: int where "DEFAULT_TTL_policy = 30000"
definition DEFAULT_TTL_identity :: int where "DEFAULT_TTL_identity = 60000"
definition DEFAULT_TTL_cre :: int where "DEFAULT_TTL_cre = 120000"
definition DEFAULT_TTL_runtime :: int where "DEFAULT_TTL_runtime = 30000"
definition DEFAULT_TTL_adapter :: int where "DEFAULT_TTL_adapter = 120000"

record policyState =
  ps_registry :: string
  ps_agentIdentityHash :: string
  ps_policyHash :: string
  ps_enabled :: bool
  ps_maxValueHardCap :: string
  ps_bindingVersion :: string
  ps_policyAdmin :: string
  ps_blockNumber :: string

record identityState =
  is_name :: string
  is_node :: string
  is_resolver :: string
  is_boundAgent :: "string option"
  is_revoked :: bool
  is_blockNumber :: string

record contractState =
  cs_name :: string
  cs_address :: string
  cs_runtimeCodeHash :: string
  cs_hasCode :: bool
  cs_blockNumber :: string

record policy_answer =
  pa_enabled :: bool
  pa_cap :: int
  pa_bindingVersion :: int
  pa_admin :: string

record identity_answer =
  ia_boundAgent :: "string option"
  ia_revoked :: bool
  ia_resolver :: string

record chain_world =
  cw_chainId :: int
  cw_getBlockNumber :: "string + int"
  cw_getCode :: "string \<Rightarrow> string + string option"
  cw_readPolicy :: "string \<Rightarrow> string \<Rightarrow> string \<Rightarrow> string + policy_answer"
  cw_resolveIdentity :: "string \<Rightarrow> string + identity_answer"
  cw_readAdministrators :: "string \<Rightarrow> string + string list"

record observer_ttls =
  ot_policy :: "int option"
  ot_identity :: "int option"
  ot_chain :: "int option"

definition ttl_or :: "int option \<Rightarrow> int \<Rightarrow> int" where
  "ttl_or t d = (case t of Some x \<Rightarrow> x | None \<Rightarrow> d)"

definition chain_source :: "chain_world \<Rightarrow> string" where
  "chain_source w = ''chain:'' @ show_int (cw_chainId w)"

text \<open>A \<open>try\<close> whose \<open>catch\<close> builds an observation from the message.\<close>

definition try_read :: "string + 'a observation \<Rightarrow> (string \<Rightarrow> 'a observation) \<Rightarrow> 'a observation" where
  "try_read body handler = (case body of Inr o' \<Rightarrow> o' | Inl message \<Rightarrow> handler message)"

definition readPolicyState :: "chain_world \<Rightarrow> observer_ttls \<Rightarrow> int \<Rightarrow> string \<Rightarrow> string \<Rightarrow> string \<Rightarrow> policyState observation" where
  "readPolicyState w ttls nowMs registry agentIdentityHash policyHash =
    (let ttlMs = ttl_or (ot_policy ttls) DEFAULT_TTL_policy; source = chain_source w in
     try_read
       (res_bind (cw_getBlockNumber w) (\<lambda>block.
        res_bind (cw_readPolicy w registry agentIdentityHash policyHash) (\<lambda>p.
        Inr (observed \<lparr>ps_registry = registry, ps_agentIdentityHash = agentIdentityHash, ps_policyHash = policyHash,
               ps_enabled = pa_enabled p, ps_maxValueHardCap = show_int (pa_cap p), ps_bindingVersion = show_int (pa_bindingVersion p),
               ps_policyAdmin = pa_admin p, ps_blockNumber = show_int block\<rparr> nowMs source ttlMs None None))))
       (\<lambda>message. unavailable FAILED nowMs source ttlMs
          (''the policy could not be read from chain '' @ show_int (cw_chainId w) @ '': '' @ message @
           ''. Policy state is UNKNOWN -- it is not assumed disabled.'')))"

definition readIdentityState :: "chain_world \<Rightarrow> observer_ttls \<Rightarrow> int \<Rightarrow> string \<Rightarrow> string \<Rightarrow> identityState observation" where
  "readIdentityState w ttls nowMs name node =
    (let ttlMs = ttl_or (ot_identity ttls) DEFAULT_TTL_identity; source = chain_source w in
     try_read
       (res_bind (cw_getBlockNumber w) (\<lambda>block.
        res_bind (cw_resolveIdentity w node) (\<lambda>r.
        Inr (observed \<lparr>is_name = name, is_node = node, is_resolver = ia_resolver r, is_boundAgent = ia_boundAgent r,
               is_revoked = ia_revoked r, is_blockNumber = show_int block\<rparr> nowMs source ttlMs None None))))
       (\<lambda>message. unavailable FAILED nowMs source ttlMs (''identity could not be resolved: '' @ message)))"

text \<open>\<open>codeHash\<close> of the deployment package; \<open>keccak\<close> is viem's hash.\<close>

definition codeHash :: "(string \<Rightarrow> string) \<Rightarrow> string option \<Rightarrow> string" where
  "codeHash keccak code = keccak (case code of Some c \<Rightarrow> c | None \<Rightarrow> ''0x'')"

definition readContractState ::
    "(string \<Rightarrow> string) \<Rightarrow> chain_world \<Rightarrow> observer_ttls \<Rightarrow> int \<Rightarrow> string \<Rightarrow> string \<Rightarrow> contractState observation" where
  "readContractState keccak w ttls nowMs name address =
    (let ttlMs = ttl_or (ot_chain ttls) DEFAULT_TTL_chain; source = chain_source w in
     try_read
       (res_bind (cw_getBlockNumber w) (\<lambda>block.
        res_bind (cw_getCode w address) (\<lambda>code.
        let has = (case code of None \<Rightarrow> False | Some c \<Rightarrow> c \<noteq> [] \<and> c \<noteq> ''0x'') in
        Inr (observed \<lparr>cs_name = name, cs_address = address, cs_runtimeCodeHash = codeHash keccak code, cs_hasCode = has,
               cs_blockNumber = show_int block\<rparr> nowMs source ttlMs
               (if has then None else Some DEGRADED) (if has then None else Some (''no code at '' @ address))))))
       (\<lambda>message. unavailable FAILED nowMs source ttlMs (''code could not be read: '' @ message)))"

definition readAdministrators :: "chain_world \<Rightarrow> observer_ttls \<Rightarrow> int \<Rightarrow> string \<Rightarrow> string list observation" where
  "readAdministrators w ttls nowMs contract =
    (let ttlMs = ttl_or (ot_chain ttls) DEFAULT_TTL_chain in
     try_read
       (res_bind (cw_readAdministrators w contract) (\<lambda>admins.
        Inr (observed (map toLowerCase admins) nowMs (chain_source w) ttlMs None None)))
       (\<lambda>message. unavailable FAILED nowMs (chain_source w) ttlMs message))"

section \<open>The CRE monitor\<close>

record creConnection =
  cc_connected :: bool
  cc_organizationId :: "string option"
  cc_organizationName :: "string option"
  cc_accountLabel :: "string option"
  cc_deployAccess :: bool
  cc_availableRegistryIds :: "string list"
  cc_cliVersion :: "string option"

datatype provenance = LIVE | FIXTURE

record creWorkflow =
  wf_workflowId :: string
  wf_workflowName :: string
  wf_registry :: string
  wf_status :: string
  wf_binaryHash :: "string option"
  wf_lastExecutionAtMs :: "int option"
  wf_totalRuns :: "nat option"
  wf_successCount :: "nat option"
  wf_failureCount :: "nat option"
  wf_provenance :: provenance

type_synonym cre_reading = "creConnection \<times> creWorkflow option"

datatype creState =
    CRE_NOT_CONFIGURED | CRE_BLOCKED | CRE_NOT_DEPLOYED | CRE_PAUSED | CRE_ACTIVE | CRE_DEGRADED | CRE_FAILED | CRE_STALE

datatype creReason =
    NOT_CONNECTED | DEPLOY_ACCESS_REQUIRED | NO_WORKFLOW | TELEMETRY_STALE | BRIDGE_OFFLINE | FIXTURE_IN_LIVE
  | CONFIRMATION_MISMATCH | NOT_AVAILABLE

record cre_provider =
  cp_id :: string
  cp_getConnectionStatus :: "string + creConnection"
  cp_getWorkflow :: "string \<Rightarrow> string + creWorkflow option"

record creStatusView =
  cv_state :: creState
  cv_connection :: "creConnection option"
  cv_workflow :: "creWorkflow option"
  cv_headline :: string
  cv_detail :: string
  cv_blockedBy :: "creReason option"
  cv_unavailable :: "(string \<times> string) list"
  cv_lastSyncedAtMs :: "int option"
  cv_isCurrent :: bool

definition NOT_PROGRAMMATICALLY_AVAILABLE :: "string list" where
  "NOT_PROGRAMMATICALLY_AVAILABLE = [''credits'', ''spend'', ''billingBalance'', ''monthlyCost'']"

definition NOT_AVAILABLE_TEXT :: string where
  "NOT_AVAILABLE_TEXT = ''Not available through current integration''"

text \<open>The monitor keeps its last observation. \<open>sync\<close> returns the new last one and its result.\<close>

definition cre_sync ::
    "cre_provider option \<Rightarrow> int \<Rightarrow> int option \<Rightarrow> string option \<Rightarrow> cre_reading observation option \<Rightarrow>
     cre_reading observation option \<times> cre_reading observation" where
  "cre_sync provider nowMs ttl workflowName last' =
    (let ttlMs = ttl_or ttl DEFAULT_TTL_cre in
     case provider of
       None \<Rightarrow> let o' = unavailable NOT_CONFIGURED nowMs ''cre'' ttlMs ''no CRE provider is configured for this deployment''
               in (Some o', o')
     | Some p \<Rightarrow>
         (case res_bind (cp_getConnectionStatus p) (\<lambda>connection.
                 res_bind (case workflowName of None \<Rightarrow> Inr None | Some n \<Rightarrow> if n = [] then Inr None else cp_getWorkflow p n) (\<lambda>workflow.
                 Inr (connection, workflow))) of
            Inr reading \<Rightarrow> let o' = observed reading nowMs (''cre:'' @ cp_id p) ttlMs None None in (Some o', o')
          | Inl message \<Rightarrow>
              let failed = unavailable FAILED nowMs (''cre:'' @ cp_id p) ttlMs (''CRE could not be reached: '' @ message)
              in (case last' of None \<Rightarrow> Some failed | Some l \<Rightarrow> Some l, failed)))"

definition upper_char :: "char \<Rightarrow> char" where
  "upper_char c = (let n = of_char c :: nat in if 97 \<le> n \<and> n \<le> 122 then char_of (n - 32) else c)"

definition toUpperCase :: "string \<Rightarrow> string" where
  "toUpperCase s = map upper_char s"

definition or_empty :: "string option \<Rightarrow> string" where
  "or_empty r = (case r of Some s \<Rightarrow> s | None \<Rightarrow> [])"

definition cre_view_value :: "int \<Rightarrow> bool \<Rightarrow> creConnection \<Rightarrow> creWorkflow option \<Rightarrow> creStatusView" where
  "cre_view_value syncedAt current connection workflow =
    (let base = \<lparr>cv_state = CRE_NOT_CONFIGURED, cv_connection = Some connection, cv_workflow = None, cv_headline = [], cv_detail = [],
                 cv_blockedBy = None, cv_unavailable = map (\<lambda>k. (k, NOT_AVAILABLE_TEXT)) NOT_PROGRAMMATICALLY_AVAILABLE,
                 cv_lastSyncedAtMs = Some syncedAt, cv_isCurrent = current\<rparr> in
     if \<not> cc_connected connection
     then base\<lparr>cv_headline := ''Not connected'', cv_detail := ''No CRE session. Connect Chainlink CRE to continue.'',
               cv_blockedBy := Some NOT_CONNECTED\<rparr>
     else if \<not> cc_deployAccess connection
     then base\<lparr>cv_state := CRE_BLOCKED, cv_workflow := workflow, cv_headline := ''Waiting for deployment access'',
               cv_detail := ''Connected to '' @ (case cc_organizationName connection of Some n \<Rightarrow> n
                   | None \<Rightarrow> (case cc_organizationId connection of Some i \<Rightarrow> i | None \<Rightarrow> ''the organization'')) @
                 ''. Chainlink has not enabled workflow deployment for this organization, so no workflow can exist yet. This is not a fault in the integration.'',
               cv_blockedBy := Some DEPLOY_ACCESS_REQUIRED\<rparr>
     else (case workflow of
         None \<Rightarrow> base\<lparr>cv_state := CRE_NOT_DEPLOYED, cv_headline := ''Not deployed'',
           cv_detail := ''Deployment access is enabled and no workflow has been deployed for this agent.'', cv_blockedBy := Some NO_WORKFLOW\<rparr>
       | Some w \<Rightarrow>
           let s = toUpperCase (wf_status w) in
           base\<lparr>cv_state := (if s = ''ACTIVE'' then CRE_ACTIVE else if s = ''PAUSED'' then CRE_PAUSED else if s = ''FAILED'' then CRE_FAILED else CRE_DEGRADED),
                cv_workflow := Some w,
                cv_headline := (if s = ''ACTIVE'' then ''Active'' else if s = ''PAUSED'' then ''Paused'' else ''Status '' @ wf_status w),
                cv_detail := ''Workflow '' @ wf_workflowId w @ '' in the '' @ wf_registry w @ '' registry.''\<rparr>))"

definition cre_view :: "(int \<Rightarrow> string) \<Rightarrow> cre_reading observation option \<Rightarrow> int \<Rightarrow> creStatusView" where
  "cre_view isoTime last' nowMs =
    (let base = \<lparr>cv_state = CRE_NOT_CONFIGURED, cv_connection = None, cv_workflow = None, cv_headline = ''Not configured'',
                 cv_detail = ''CRE has not been synchronized for this deployment.'',
                 cv_blockedBy = None, cv_unavailable = map (\<lambda>k. (k, NOT_AVAILABLE_TEXT)) NOT_PROGRAMMATICALLY_AVAILABLE,
                 cv_lastSyncedAtMs = None, cv_isCurrent = False\<rparr> in
     case last' of
       None \<Rightarrow> base
     | Some l \<Rightarrow>
         let p = presentable isoTime l nowMs; based = base\<lparr>cv_lastSyncedAtMs := Some (ob_observedAtMs l)\<rparr> in
         if ob_state p = NOT_CONFIGURED then based\<lparr>cv_detail := or_empty (ob_reason p)\<rparr>
         else if ob_state p = STALE
         then based\<lparr>cv_state := CRE_STALE, cv_connection := map_option fst (ob_value p), cv_workflow := Option.bind (ob_value p) snd,
                    cv_headline := ''Status unknown -- telemetry stale'',
                    cv_detail := ''Last confirmed '' @ isoTime (ob_observedAtMs p) @ ''. '' @ or_empty (ob_reason p),
                    cv_blockedBy := Some TELEMETRY_STALE\<rparr>
         else (case (if ob_state p = FAILED then None else ob_value p) of
             None \<Rightarrow> based\<lparr>cv_state := CRE_FAILED, cv_headline := ''Unreachable'',
               cv_detail := (case ob_reason p of Some r \<Rightarrow> r | None \<Rightarrow> ''CRE could not be reached.''), cv_blockedBy := Some BRIDGE_OFFLINE\<rparr>
           | Some (connection, workflow) \<Rightarrow> cre_view_value (ob_observedAtMs l) (pr_isCurrent p) connection workflow))"

record destructiveConfirmation =
  dc_typedWorkflowName :: string
  dc_understoodConsequence :: string
  dc_actorId :: string
  dc_confirmedAtMs :: int

definition assertDestructiveConfirmation :: "string \<Rightarrow> destructiveConfirmation \<Rightarrow> creReason + unit" where
  "assertDestructiveConfirmation workflowName c = ensure (dc_typedWorkflowName c = workflowName) CONFIRMATION_MISMATCH"

definition FIXTURE_MARKER :: string where
  "FIXTURE_MARKER = ''fixture-''"

definition assertNotFixture :: "provenance \<Rightarrow> string option \<Rightarrow> creReason + unit" where
  "assertNotFixture prov workflowId =
    (if prov = FIXTURE then Inl FIXTURE_IN_LIVE
     else case workflowId of None \<Rightarrow> Inr ()
       | Some i \<Rightarrow> if startsWith i FIXTURE_MARKER then Inl FIXTURE_IN_LIVE else Inr ())"

section \<open>What is shown as current\<close>

lemmas reading_defs = observed_def unavailable_def try_read_def Let_def ttl_or_def isExpired_def

text \<open>
  The policy indicator is what the chain answered. An observation of the policy has a value exactly when the
  chain gave both its block number and the policy, and the value is that answer; it is presented as current
  exactly when there was an answer and it is within the freshness window; and if the chain could not be
  read, the observation says so and the policy is neither shown enabled nor disabled.
\<close>

theorem policy_indicator_is_a_chain_read:
  "ob_value (presentable isoTime (readPolicyState w ttls atMs registry agent policy) nowMs) =
      (case (cw_getBlockNumber w, cw_readPolicy w registry agent policy) of
         (Inr block, Inr p) \<Rightarrow> Some \<lparr>ps_registry = registry, ps_agentIdentityHash = agent, ps_policyHash = policy,
            ps_enabled = pa_enabled p, ps_maxValueHardCap = show_int (pa_cap p), ps_bindingVersion = show_int (pa_bindingVersion p),
            ps_policyAdmin = pa_admin p, ps_blockNumber = show_int block\<rparr>
       | _ \<Rightarrow> None) \<and>
    (pr_isCurrent (presentable isoTime (readPolicyState w ttls atMs registry agent policy) nowMs) \<longleftrightarrow>
       succeeds (cw_getBlockNumber w) \<and> succeeds (cw_readPolicy w registry agent policy) \<and> nowMs - atMs \<le> ttl_or (ot_policy ttls) DEFAULT_TTL_policy) \<and>
    (ob_state (presentable isoTime (readPolicyState w ttls atMs registry agent policy) nowMs) = FAILED \<longleftrightarrow>
       \<not> (succeeds (cw_getBlockNumber w) \<and> succeeds (cw_readPolicy w registry agent policy)))"
  by (cases "cw_getBlockNumber w"; cases "cw_readPolicy w registry agent policy")
     (auto simp: readPolicyState_def reading_defs presentable_state)

text \<open>The monitor over its whole history: the time, the provider and the workflow name of every
  synchronization.\<close>

type_synonym sync_call = "int \<times> cre_provider option \<times> string option"

definition monitor :: "int option \<Rightarrow> sync_call list \<Rightarrow> cre_reading observation option" where
  "monitor ttl hist = fold (\<lambda>(nowMs, provider, name) last'. fst (cre_sync provider nowMs ttl name last')) hist None"

lemma monitor_snoc: "monitor ttl (hist @ [(t, provider, name)]) = fst (cre_sync provider t ttl name (monitor ttl hist))"
  by (simp add: monitor_def)

text \<open>What the provider answered in one synchronization.\<close>

definition answered :: "sync_call \<Rightarrow> creConnection \<Rightarrow> creWorkflow option \<Rightarrow> bool" where
  "answered call connection workflow \<longleftrightarrow> (\<exists>t p name. call = (t, Some p, name) \<and> cp_getConnectionStatus p = Inr connection \<and>
     (if name = None \<or> name = Some [] then workflow = None else cp_getWorkflow p (the name) = Inr workflow))"

lemma sync_cases:
  obtains (unset) "provider = None" "ob_value (the (fst (cre_sync provider t ttl name last'))) = None"
      "ob_state (the (fst (cre_sync provider t ttl name last'))) = NOT_CONFIGURED"
  | (answer) c wkf where "answered (t, provider, name) c wkf"
      "fst (cre_sync provider t ttl name last') =
        Some \<lparr>ob_state = HEALTHY, ob_value = Some (c, wkf), ob_observedAtMs = t, ob_source = ''cre:'' @ cp_id (the provider),
          ob_ttlMs = ttl_or ttl DEFAULT_TTL_cre, ob_reason = None\<rparr>"
  | (failed) "last' = None" "ob_value (the (fst (cre_sync provider t ttl name last'))) = None"
      "ob_state (the (fst (cre_sync provider t ttl name last'))) = FAILED"
  | (kept) "last' \<noteq> None" "fst (cre_sync provider t ttl name last') = last'"
proof (cases provider)
  case None
  then show thesis by (intro unset) (simp_all add: cre_sync_def unavailable_def Let_def)
next
  case (Some p)
  let ?r = "res_bind (cp_getConnectionStatus p) (\<lambda>connection.
      res_bind (case name of None \<Rightarrow> Inr None | Some n \<Rightarrow> if n = [] then Inr None else cp_getWorkflow p n) (\<lambda>workflow.
      Inr (connection, workflow)))"
  show thesis
  proof (cases ?r)
    case (Inl m)
    with Some show thesis by (cases last') (auto intro: failed kept simp: cre_sync_def unavailable_def Let_def)
  next
    case (Inr cw)
    then have "answered (t, provider, name) (fst cw) (snd cw)"
      using Some by (auto simp: answered_def res_bind_Inr_iff split: option.splits if_splits)
    then show thesis using Some Inr by (intro answer) (auto simp: cre_sync_def observed_def Let_def)
  qed
qed

lemma monitor_healthy:
  assumes "monitor ttl hist = Some l" and "ob_state l = HEALTHY"
  shows "\<exists>c wkf. ob_value l = Some (c, wkf) \<and> ob_ttlMs l = ttl_or ttl DEFAULT_TTL_cre \<and>
    (\<exists>call \<in> set hist. fst call = ob_observedAtMs l \<and> answered call c wkf)"
  using assms
proof (induction hist arbitrary: l rule: rev_induct)
  case Nil
  then show ?case by (simp add: monitor_def)
next
  case (snoc call hist)
  obtain t provider name where call: "call = (t, provider, name)" by (cases call) auto
  note new = snoc.prems(1) [unfolded call monitor_snoc]
  show ?case
  proof (cases rule: sync_cases [of provider t ttl name "monitor ttl hist"])
    case unset
    then show ?thesis using new snoc.prems(2) by simp
  next
    case (answer c wkf)
    then show ?thesis using new call by auto
  next
    case failed
    then show ?thesis using new snoc.prems(2) by simp
  next
    case kept
    then show ?thesis using new snoc.IH [OF _ snoc.prems(2)] by fastforce
  qed
qed

lemma value_active:
  "cv_state (cre_view_value t b c wkf) = CRE_ACTIVE \<longleftrightarrow>
    cc_connected c \<and> cc_deployAccess c \<and> wkf \<noteq> None \<and> toUpperCase (wf_status (the wkf)) = ''ACTIVE''"
  unfolding cre_view_value_def Let_def by (cases wkf) simp_all

lemma value_current: "cv_isCurrent (cre_view_value t b c wkf) = b"
  unfolding cre_view_value_def Let_def by (cases wkf) simp_all

lemma view_active:
  assumes "cv_state (cre_view isoTime last' nowMs) = CRE_ACTIVE"
  obtains l c w where "last' = Some l" "ob_value l = Some (c, Some w)" "cc_connected c" "cc_deployAccess c"
    "toUpperCase (wf_status w) = ''ACTIVE''"
    "cv_isCurrent (cre_view isoTime last' nowMs) \<longleftrightarrow> pr_isCurrent (presentable isoTime l nowMs)"
proof -
  obtain l c wkf where l: "last' = Some l" "ob_value l = Some (c, wkf)"
      "cre_view isoTime last' nowMs = cre_view_value (ob_observedAtMs l) (pr_isCurrent (presentable isoTime l nowMs)) c wkf"
  proof (cases last')
    case (Some l)
    let ?p = "presentable isoTime l nowMs"
    have "ob_state ?p \<noteq> NOT_CONFIGURED" "ob_state ?p \<noteq> STALE" using assms by (auto simp: cre_view_def Let_def Some)
    moreover obtain c wkf where "(if ob_state ?p = FAILED then None else ob_value ?p) = Some (c, wkf)"
      using assms calculation by (cases "if ob_state ?p = FAILED then None else ob_value ?p") (auto simp: cre_view_def Let_def Some)
    ultimately show thesis using that [of l c wkf] by (simp add: cre_view_def Let_def Some split: if_splits)
  qed (use assms in \<open>simp add: cre_view_def Let_def\<close>)
  with assms show thesis
    by (cases wkf) (auto simp: value_active value_current intro!: that [of l c "the wkf"])
qed

text \<open>
  Whatever the monitor went through, if it shows the workflow as active and the status as current then, within the
  freshness window, a synchronization took place in which the provider itself answered that it was connected,
  that deployment is enabled and that this workflow is active.
\<close>

theorem active_workflow_was_read:
  assumes "cv_state (cre_view isoTime (monitor ttl hist) nowMs) = CRE_ACTIVE"
    and "cv_isCurrent (cre_view isoTime (monitor ttl hist) nowMs)"
  shows "\<exists>call \<in> set hist. \<exists>c w. answered call c (Some w) \<and> cc_connected c \<and> cc_deployAccess c \<and>
    toUpperCase (wf_status w) = ''ACTIVE'' \<and> nowMs - fst call \<le> ttl_or ttl DEFAULT_TTL_cre"
proof -
  obtain l c w where l: "monitor ttl hist = Some l" "ob_value l = Some (c, Some w)" "cc_connected c" "cc_deployAccess c"
    "toUpperCase (wf_status w) = ''ACTIVE''" "pr_isCurrent (presentable isoTime l nowMs)"
    using view_active [OF assms(1)] assms(2) by metis
  then have "ob_state l = HEALTHY" "\<not> isExpired l nowMs" by simp_all
  from monitor_healthy [OF l(1) this(1)] this(2) l show ?thesis by (fastforce simp: isExpired_def not_less)
qed

text \<open>
  A synchronization that fails leaves the panel exactly as it was: if the last answer is within its
  freshness window, it is still shown as current, although the provider could not be reached since.
\<close>

theorem failed_sync_changes_nothing:
  assumes "cp_getConnectionStatus p = Inl message" and "last' \<noteq> None"
  shows "cre_view isoTime (fst (cre_sync (Some p) t ttl name last')) nowMs = cre_view isoTime last' nowMs \<and>
    ob_state (snd (cre_sync (Some p) t ttl name last')) = FAILED"
  using assms by (auto simp: cre_sync_def unavailable_def Let_def)

definition sample_connection :: creConnection where
  "sample_connection = \<lparr>cc_connected = True, cc_organizationId = Some ''org'', cc_organizationName = None, cc_accountLabel = None,
    cc_deployAccess = True, cc_availableRegistryIds = [''private''], cc_cliVersion = None\<rparr>"

definition sample_workflow :: creWorkflow where
  "sample_workflow = \<lparr>wf_workflowId = ''w1'', wf_workflowName = ''guardian'', wf_registry = ''private'', wf_status = ''active'',
    wf_binaryHash = None, wf_lastExecutionAtMs = None, wf_totalRuns = None, wf_successCount = None, wf_failureCount = None,
    wf_provenance = LIVE\<rparr>"

definition cre_up :: cre_provider where
  "cre_up = \<lparr>cp_id = ''cli'', cp_getConnectionStatus = Inr sample_connection, cp_getWorkflow = (\<lambda>_. Inr (Some sample_workflow))\<rparr>"

definition cre_down :: cre_provider where
  "cre_down = \<lparr>cp_id = ''cli'', cp_getConnectionStatus = Inl ''bridge offline'', cp_getWorkflow = (\<lambda>_. Inl ''bridge offline'')\<rparr>"

lemma sample_active: "toUpperCase ''active'' = ''ACTIVE''"
  by code_simp

lemmas sample_cre_defs = cre_up_def cre_down_def sample_connection_def sample_workflow_def

lemma sample_monitor: "monitor None [(1000, Some cre_up, Some ''guardian'')] =
    Some (observed (sample_connection, Some sample_workflow) 1000 ''cre:cli'' DEFAULT_TTL_cre None None)"
  by (simp add: monitor_def cre_sync_def ttl_or_def cre_up_def Let_def)

lemma sample_view:
  "cv_state (cre_view isoTime (Some (observed (sample_connection, Some sample_workflow) 1000 ''cre:cli'' DEFAULT_TTL_cre None None)) 61000) = CRE_ACTIVE"
  "cv_isCurrent (cre_view isoTime (Some (observed (sample_connection, Some sample_workflow) 1000 ''cre:cli'' DEFAULT_TTL_cre None None)) 61000)"
  by (simp_all add: cre_view_def cre_view_value_def Let_def presentable_state isExpired_def observed_def sample_cre_defs sample_active DEFAULT_TTL_cre_def)

theorem active_workflow_was_read_witness:
  "cv_isCurrent (cre_view (\<lambda>_. []) (monitor None [(1000, Some cre_up, Some ''guardian'')]) 61000) \<and>
   (\<exists>call \<in> set [(1000, Some cre_up, Some ''guardian'')]. \<exists>c w. answered call c (Some w) \<and> cc_connected c \<and> cc_deployAccess c \<and>
    toUpperCase (wf_status w) = ''ACTIVE'' \<and> 61000 - fst call \<le> ttl_or None DEFAULT_TTL_cre)"
  using active_workflow_was_read [of "\<lambda>_. []" None "[(1000, Some cre_up, Some ''guardian'')]" 61000]
  by (simp only: sample_monitor sample_view simp_thms)

theorem failed_sync_changes_nothing_witness:
  "cv_isCurrent (cre_view (\<lambda>_. []) (fst (cre_sync (Some cre_down) 60000 None (Some ''guardian'')
     (monitor None [(1000, Some cre_up, Some ''guardian'')]))) 61000) \<and>
   ob_state (snd (cre_sync (Some cre_down) 60000 None (Some ''guardian'') (monitor None [(1000, Some cre_up, Some ''guardian'')]))) = FAILED"
  using failed_sync_changes_nothing [of cre_down "''bridge offline''" "monitor None [(1000, Some cre_up, Some ''guardian'')]"
    "\<lambda>_. []" 60000 None "Some ''guardian''" 61000]
  by (simp add: sample_monitor sample_view cre_down_def)

end
