(* ===== verification/Drift.thy ===== *)
theory Drift
  imports Observations "HOL-Library.List_Lexorder" "HOL-Library.Char_ord"
begin

text \<open>
  Drift between the deployment record and the chain, the life cycle of a transaction until it is
  final, and the block at which a scan resumes (\<open>packages/studio-control-plane/src/chain.ts\<close>, after the
  observer). The reason of a correction is a text and is left out.

  The lemmas say exactly which drifts \<open>reconcile\<close> reports, and the theorems that a transaction is
  reported final only with the configured confirmations and that a block that was mined and is gone is
  corrected.
\<close>

section \<open>Drift\<close>

datatype driftKind =
    POLICY_ENABLED_UNEXPECTEDLY | POLICY_DISABLED_UNEXPECTEDLY | POLICY_ADMIN_CHANGED | ADMIN_CHANGED | BYTECODE_DRIFT
  | IDENTITY_CHANGED | IDENTITY_REVOKED_UNEXPECTEDLY | RUNTIME_IMAGE_DRIFT | BINDING_VERSION_CHANGED | CONTRACT_MISSING

datatype severity = INFO | WARNING | CRITICAL

definition CRITICAL_DRIFT :: "driftKind \<Rightarrow> bool" where
  "CRITICAL_DRIFT k \<longleftrightarrow> k \<in> {POLICY_ENABLED_UNEXPECTEDLY, POLICY_ADMIN_CHANGED, ADMIN_CHANGED, BYTECODE_DRIFT,
     IDENTITY_CHANGED, RUNTIME_IMAGE_DRIFT, CONTRACT_MISSING}"

record drift =
  dr_kind :: driftKind
  dr_severity :: severity
  dr_subject :: string
  dr_expected :: string
  dr_observed :: string
  dr_detail :: string
  dr_observedAtMs :: int
  dr_blockNumber :: "string option"
  dr_requiresReconciliation :: bool

definition mk_drift :: "driftKind \<Rightarrow> string \<Rightarrow> string \<Rightarrow> string \<Rightarrow> string \<Rightarrow> int \<Rightarrow> string option \<Rightarrow> drift" where
  "mk_drift kind subject expected obs detail atMs block =
    \<lparr>dr_kind = kind, dr_severity = (if CRITICAL_DRIFT kind then CRITICAL else WARNING), dr_subject = subject,
     dr_expected = expected, dr_observed = obs, dr_detail = detail, dr_observedAtMs = atMs, dr_blockNumber = block,
     dr_requiresReconciliation = CRITICAL_DRIFT kind\<rparr>"

record expected_contract =
  ec_name :: string
  ec_address :: string
  ec_runtimeCodeHash :: string

record expectedState =
  ex_policyEnabled :: bool
  ex_policyAdmin :: string
  ex_bindingVersion :: "string option"
  ex_contracts :: "expected_contract list"
  ex_administrators :: "string list"
  ex_identity :: "(string \<times> string) option"
  ex_runtimeImageDigest :: "string option"

text \<open>The expected identity is its node and its bound agent.\<close>

record observedState =
  os_policy :: "policyState observation"
  os_identity :: "identityState observation option"
  os_contracts :: "contractState observation list"
  os_administrators :: "string list observation option"
  os_runtimeImageDigest :: "string option"

definition policy_drift :: "expectedState \<Rightarrow> policyState \<Rightarrow> int \<Rightarrow> drift list" where
  "policy_drift expected p nowMs =
    (let block = Some (ps_blockNumber p) in
     (if ps_enabled p \<noteq> ex_policyEnabled expected
      then [if ps_enabled p
            then mk_drift POLICY_ENABLED_UNEXPECTEDLY (''policy '' @ ps_policyHash p) ''disabled'' ''ENABLED''
              ''The deployment record says this agent's policy is disabled and the chain says it is enabled. This agent can authorize financial execution right now.'' nowMs block
            else mk_drift POLICY_DISABLED_UNEXPECTEDLY (''policy '' @ ps_policyHash p) ''enabled'' ''disabled''
              ''The deployment record says this agent's policy is enabled and the chain says it is disabled. The agent cannot act; something disabled it.'' nowMs block]
      else []) @
     (if toLowerCase (ps_policyAdmin p) \<noteq> toLowerCase (ex_policyAdmin expected)
      then [mk_drift POLICY_ADMIN_CHANGED (''policy admin for '' @ ps_agentIdentityHash p) (toLowerCase (ex_policyAdmin expected))
              (toLowerCase (ps_policyAdmin p))
              ''The address that can change this agent's policy is not the one recorded at deployment.'' nowMs block]
      else []) @
     (case ex_bindingVersion expected of
        None \<Rightarrow> []
      | Some v \<Rightarrow> if ps_bindingVersion p \<noteq> v
          then [mk_drift BINDING_VERSION_CHANGED (''binding version for '' @ ps_agentIdentityHash p) v (ps_bindingVersion p)
              ''The identity binding version has moved, which invalidates capabilities issued against the previous binding.'' nowMs block]
          else []))"

definition contract_drift :: "expectedState \<Rightarrow> int \<Rightarrow> contractState observation \<Rightarrow> drift list" where
  "contract_drift expected nowMs c =
    (case ob_value c of
       None \<Rightarrow> []
     | Some v \<Rightarrow>
         (case find (\<lambda>x. toLowerCase (ec_address x) = toLowerCase (cs_address v)) (ex_contracts expected) of
            None \<Rightarrow> []
          | Some want \<Rightarrow>
              if \<not> cs_hasCode v
              then [mk_drift CONTRACT_MISSING (ec_name want) ''code present'' ''no code''
                     (''No contract code at '' @ ec_address want @ ''.'') nowMs (Some (cs_blockNumber v))]
              else if toLowerCase (cs_runtimeCodeHash v) \<noteq> toLowerCase (ec_runtimeCodeHash want)
              then [mk_drift BYTECODE_DRIFT (ec_name want) (ec_runtimeCodeHash want) (cs_runtimeCodeHash v)
                     (''The code at '' @ ec_address want @ '' is not the code this deployment was verified against.'') nowMs (Some (cs_blockNumber v))]
              else []))"

definition admin_drift :: "expectedState \<Rightarrow> string list observation option \<Rightarrow> int \<Rightarrow> string option \<Rightarrow> drift list" where
  "admin_drift expected administrators nowMs block =
    (case Option.bind administrators ob_value of
       None \<Rightarrow> []
     | Some admins \<Rightarrow>
         let want = map toLowerCase (ex_administrators expected);
             unexpected = filter (\<lambda>a. a \<notin> set want) admins;
             known = join '', '' (sort (remdups want)) in
         if 0 < length unexpected
         then [mk_drift ADMIN_CHANGED ''administrative roles'' (if known = [] then ''(none)'' else known) (join '', '' (sort admins))
                (''Unexpected administrator(s): '' @ join '', '' unexpected @ ''.'') nowMs block]
         else [])"

definition identity_drift :: "expectedState \<Rightarrow> identityState observation option \<Rightarrow> int \<Rightarrow> drift list" where
  "identity_drift expected identity nowMs =
    (case (ex_identity expected, Option.bind identity ob_value) of
       (Some (node, boundAgent), Some i) \<Rightarrow>
         if is_revoked i
         then [mk_drift IDENTITY_REVOKED_UNEXPECTEDLY (is_name i) boundAgent ''revoked'' ''The agent's identity has been revoked.'' nowMs (Some (is_blockNumber i))]
         else if toLowerCase (or_empty (is_boundAgent i)) \<noteq> toLowerCase boundAgent
         then [mk_drift IDENTITY_CHANGED (is_name i) (toLowerCase boundAgent)
                 (toLowerCase (case is_boundAgent i of Some a \<Rightarrow> a | None \<Rightarrow> ''(unbound)''))
                 ''The agent's identity resolves to a different address than the one recorded at deployment.'' nowMs (Some (is_blockNumber i))]
         else []
     | _ \<Rightarrow> [])"

definition image_drift :: "expectedState \<Rightarrow> string option \<Rightarrow> int \<Rightarrow> drift list" where
  "image_drift expected digest nowMs =
    (case (ex_runtimeImageDigest expected, digest) of
       (Some want, Some got) \<Rightarrow>
         if want \<noteq> [] \<and> got \<noteq> [] \<and> want \<noteq> got then [mk_drift RUNTIME_IMAGE_DRIFT ''runtime image'' want got
           ''The container that is running was not built from the image this deployment pinned.'' nowMs None] else []
     | _ \<Rightarrow> [])"

definition reconcile :: "expectedState \<Rightarrow> observedState \<Rightarrow> int \<Rightarrow> drift list" where
  "reconcile expected actual nowMs =
    (let block = map_option ps_blockNumber (ob_value (os_policy actual)) in
     (case ob_value (os_policy actual) of None \<Rightarrow> [] | Some p \<Rightarrow> policy_drift expected p nowMs) @
     concat (map (contract_drift expected nowMs) (os_contracts actual)) @
     admin_drift expected (os_administrators actual) nowMs block @
     identity_drift expected (os_identity actual) nowMs @
     image_drift expected (os_runtimeImageDigest actual) nowMs)"

section \<open>Finality\<close>

datatype txLifecycle = SUBMITTED | MINED | CONFIRMING | FINALIZED | REORGED | REVERTED

record trackedTransaction =
  tt_txHash :: string
  tt_chainId :: int
  tt_state :: txLifecycle
  tt_blockNumber :: "string option"
  tt_confirmations :: int
  tt_gasUsed :: "string option"
  tt_effectiveGasPriceWei :: "string option"
  tt_actualNativeCostWei :: "string option"
  tt_correlationId :: string
  tt_reorgedFromBlock :: "string option"

record finalityPolicy =
  fp_confirmations :: int
  fp_reorgOverlapBlocks :: int

definition DEFAULT_FINALITY :: finalityPolicy where
  "DEFAULT_FINALITY = \<lparr>fp_confirmations = 12, fp_reorgOverlapBlocks = 32\<rparr>"

record receipt =
  rc_success :: bool
  rc_blockNumber :: int
  rc_gasUsed :: int
  rc_effectiveGasPrice :: int

record correction =
  co_from :: txLifecycle
  co_to :: txLifecycle

definition confirmations_at :: "int \<Rightarrow> receipt \<Rightarrow> int" where
  "confirmations_at headBlock r = (if rc_blockNumber r \<le> headBlock then headBlock - rc_blockNumber r + 1 else 0)"

definition with_receipt :: "receipt \<Rightarrow> int \<Rightarrow> trackedTransaction \<Rightarrow> trackedTransaction" where
  "with_receipt r confirmations current =
    current\<lparr>tt_blockNumber := Some (show_int (rc_blockNumber r)), tt_confirmations := confirmations,
      tt_gasUsed := Some (show_int (rc_gasUsed r)), tt_effectiveGasPriceWei := Some (show_int (rc_effectiveGasPrice r)),
      tt_actualNativeCostWei := Some (show_int (rc_gasUsed r * rc_effectiveGasPrice r))\<rparr>"

definition advanceTransaction ::
    "trackedTransaction \<Rightarrow> receipt option \<Rightarrow> int \<Rightarrow> finalityPolicy \<Rightarrow> trackedTransaction \<times> correction option" where
  "advanceTransaction current rcpt headBlock policy =
    (case rcpt of
       None \<Rightarrow>
         if tt_state current = MINED \<or> tt_state current = CONFIRMING \<or> tt_state current = FINALIZED
         then (current\<lparr>tt_state := REORGED, tt_reorgedFromBlock := tt_blockNumber current, tt_confirmations := 0\<rparr>,
               Some \<lparr>co_from = tt_state current, co_to = REORGED\<rparr>)
         else (current, None)
     | Some r \<Rightarrow>
         let confirmations = confirmations_at headBlock r in
         if \<not> rc_success r
         then ((with_receipt r confirmations current)\<lparr>tt_state := REVERTED\<rparr>,
               if tt_state current = REVERTED then None else Some \<lparr>co_from = tt_state current, co_to = REVERTED\<rparr>)
         else
           let movedBlock = (tt_blockNumber current \<noteq> None \<and> tt_blockNumber current \<noteq> Some (show_int (rc_blockNumber r)));
               state = (if fp_confirmations policy \<le> confirmations then FINALIZED else CONFIRMING);
               next' = (with_receipt r confirmations current)
                 \<lparr>tt_state := state, tt_reorgedFromBlock := (if movedBlock then tt_blockNumber current else tt_reorgedFromBlock current)\<rparr> in
           (next',
            if movedBlock then Some \<lparr>co_from = tt_state current, co_to = state\<rparr>
            else if tt_state current = state then None else Some \<lparr>co_from = tt_state current, co_to = state\<rparr>))"

text \<open>\<open>lastFinalizedBlock\<close> is a digit string by the cursor's schema.\<close>

definition resumeFrom :: "string \<Rightarrow> finalityPolicy \<Rightarrow> int" where
  "resumeFrom lastFinalizedBlock policy =
    (let last' = int (parse_nat lastFinalizedBlock); overlap = fp_reorgOverlapBlocks policy in
     if overlap < last' then last' - overlap else 0)"

definition logId :: "int \<Rightarrow> string \<Rightarrow> string \<Rightarrow> int \<Rightarrow> string" where
  "logId chainId blockNumber transactionHash logIndex =
    show_int chainId @ '':'' @ blockNumber @ '':'' @ toLowerCase transactionHash @ '':'' @ show_int logIndex"

section \<open>What is reported\<close>

definition reported :: "driftKind \<Rightarrow> drift list \<Rightarrow> bool" where
  "reported k ds = list_ex (\<lambda>d. dr_kind d = k) ds"

lemma reported_simps [simp]:
  "\<not> reported k []"
  "reported k (d # ds) \<longleftrightarrow> dr_kind d = k \<or> reported k ds"
  "reported k (ds @ es) \<longleftrightarrow> reported k ds \<or> reported k es"
  "reported k (concat dss) \<longleftrightarrow> (\<exists>ds \<in> set dss. reported k ds)"
  "dr_kind (mk_drift k subject expected obs detail atMs block) = k"
  by (induction dss) (auto simp: reported_def mk_drift_def)

lemmas drift_parts = policy_drift_def contract_drift_def admin_drift_def identity_drift_def image_drift_def

lemma kinds_of_parts:
  "reported k (policy_drift ex p now) \<Longrightarrow> k \<in> {POLICY_ENABLED_UNEXPECTEDLY, POLICY_DISABLED_UNEXPECTEDLY, POLICY_ADMIN_CHANGED, BINDING_VERSION_CHANGED}"
  "reported k (contract_drift ex now c) \<Longrightarrow> k \<in> {CONTRACT_MISSING, BYTECODE_DRIFT}"
  "reported k (admin_drift ex ad now b) \<Longrightarrow> k = ADMIN_CHANGED"
  "reported k (identity_drift ex i now) \<Longrightarrow> k \<in> {IDENTITY_REVOKED_UNEXPECTEDLY, IDENTITY_CHANGED}"
  "reported k (image_drift ex d now) \<Longrightarrow> k = RUNTIME_IMAGE_DRIFT"
  by (auto simp: drift_parts Let_def split: if_splits option.splits)

lemma reported_reconcile:
  "reported k (reconcile ex actual now) \<longleftrightarrow>
    (\<exists>p. ob_value (os_policy actual) = Some p \<and> reported k (policy_drift ex p now)) \<or>
    (\<exists>c \<in> set (os_contracts actual). reported k (contract_drift ex now c)) \<or>
    reported k (admin_drift ex (os_administrators actual) now (map_option ps_blockNumber (ob_value (os_policy actual)))) \<or>
    reported k (identity_drift ex (os_identity actual) now) \<or>
    reported k (image_drift ex (os_runtimeImageDigest actual) now)"
  by (auto simp: reconcile_def Let_def split: option.splits)

text \<open>A kind of drift comes from one part only.\<close>

lemma reported_policy:
  assumes "k \<in> {POLICY_ENABLED_UNEXPECTEDLY, POLICY_DISABLED_UNEXPECTEDLY, POLICY_ADMIN_CHANGED, BINDING_VERSION_CHANGED}"
  shows "reported k (reconcile ex actual now) \<longleftrightarrow> (\<exists>p. ob_value (os_policy actual) = Some p \<and> reported k (policy_drift ex p now))"
  unfolding reported_reconcile using assms by (auto dest: kinds_of_parts)

lemma reported_contract:
  assumes "k \<in> {CONTRACT_MISSING, BYTECODE_DRIFT}"
  shows "reported k (reconcile ex actual now) \<longleftrightarrow> (\<exists>c \<in> set (os_contracts actual). reported k (contract_drift ex now c))"
  unfolding reported_reconcile using assms by (auto dest: kinds_of_parts)

lemma reported_admin:
  "reported ADMIN_CHANGED (reconcile ex actual now) \<longleftrightarrow>
    (\<exists>o' admins. os_administrators actual = Some o' \<and> ob_value o' = Some admins \<and> \<not> set admins \<subseteq> toLowerCase ` set (ex_administrators ex))"
proof -
  have "reported ADMIN_CHANGED (reconcile ex actual now) \<longleftrightarrow>
      reported ADMIN_CHANGED (admin_drift ex (os_administrators actual) now (map_option ps_blockNumber (ob_value (os_policy actual))))"
    unfolding reported_reconcile by (auto dest: kinds_of_parts)
  then show ?thesis by (auto simp: admin_drift_def Let_def filter_empty_conv bind_eq_Some_conv split: option.splits)
qed

lemma reported_identity:
  assumes "k \<in> {IDENTITY_REVOKED_UNEXPECTEDLY, IDENTITY_CHANGED}"
  shows "reported k (reconcile ex actual now) \<longleftrightarrow> reported k (identity_drift ex (os_identity actual) now)"
  unfolding reported_reconcile using assms by (auto dest: kinds_of_parts)

lemma contract_kinds:
  "reported CONTRACT_MISSING (contract_drift ex now c) \<longleftrightarrow> (\<exists>v want. ob_value c = Some v \<and> \<not> cs_hasCode v \<and>
     find (\<lambda>x. toLowerCase (ec_address x) = toLowerCase (cs_address v)) (ex_contracts ex) = Some want)"
  "reported BYTECODE_DRIFT (contract_drift ex now c) \<longleftrightarrow> (\<exists>v want. ob_value c = Some v \<and> cs_hasCode v \<and>
     find (\<lambda>x. toLowerCase (ec_address x) = toLowerCase (cs_address v)) (ex_contracts ex) = Some want \<and>
     toLowerCase (cs_runtimeCodeHash v) \<noteq> toLowerCase (ec_runtimeCodeHash want))"
  by (cases "ob_value c";
      cases "find (\<lambda>x. toLowerCase (ec_address x) = toLowerCase (cs_address (the (ob_value c)))) (ex_contracts ex)";
      simp add: contract_drift_def)+


section \<open>What is final\<close>

text \<open>
  A transaction is reported final exactly when the poll found its receipt, successful, with at least the
  configured number of confirmations at the head; it is then recorded with that receipt's block, its gas and the
  exact product of gas and price; and no change of the reported state is silent: it comes with a
  correction from the old to the new state.
\<close>

theorem final_means_confirmed:
  "(tt_state (fst (advanceTransaction current rcpt headBlock policy)) = FINALIZED \<longleftrightarrow>
      (\<exists>r. rcpt = Some r \<and> rc_success r \<and> fp_confirmations policy \<le> confirmations_at headBlock r)) \<and>
   (case rcpt of None \<Rightarrow> tt_blockNumber (fst (advanceTransaction current rcpt headBlock policy)) = tt_blockNumber current | Some r \<Rightarrow>
      tt_blockNumber (fst (advanceTransaction current rcpt headBlock policy)) = Some (show_int (rc_blockNumber r)) \<and>
      tt_actualNativeCostWei (fst (advanceTransaction current rcpt headBlock policy)) = Some (show_int (rc_gasUsed r * rc_effectiveGasPrice r))) \<and>
   (tt_state (fst (advanceTransaction current rcpt headBlock policy)) = tt_state current \<or>
      snd (advanceTransaction current rcpt headBlock policy) =
        Some \<lparr>co_from = tt_state current, co_to = tt_state (fst (advanceTransaction current rcpt headBlock policy))\<rparr>)"
  by (cases rcpt) (auto simp: advanceTransaction_def with_receipt_def Let_def)

text \<open>
  The exception: a transaction that was seen reverted. If its receipt is gone, or is now in another
  block, no correction is made: the record stays as it was, or is edited to the new block without a word and without
  recording the block it came from.
\<close>

theorem reverted_reorg_is_silent:
  assumes "tt_state current = REVERTED" and "\<not> rc_success r" and "tt_blockNumber current \<noteq> Some (show_int (rc_blockNumber r))"
  shows "advanceTransaction current None headBlock policy = (current, None) \<and>
    snd (advanceTransaction current (Some r) headBlock policy) = None \<and>
    tt_blockNumber (fst (advanceTransaction current (Some r) headBlock policy)) \<noteq> tt_blockNumber current \<and>
    tt_reorgedFromBlock (fst (advanceTransaction current (Some r) headBlock policy)) = tt_reorgedFromBlock current"
  using assms by (auto simp: advanceTransaction_def with_receipt_def Let_def)

definition sample_tx :: trackedTransaction where
  "sample_tx = \<lparr>tt_txHash = ''0xab'', tt_chainId = 1, tt_state = REVERTED, tt_blockNumber = Some (show_int 100), tt_confirmations = 3,
    tt_gasUsed = None, tt_effectiveGasPriceWei = None, tt_actualNativeCostWei = None, tt_correlationId = ''c'', tt_reorgedFromBlock = None\<rparr>"

definition sample_receipt :: receipt where
  "sample_receipt = \<lparr>rc_success = False, rc_blockNumber = 101, rc_gasUsed = 21000, rc_effectiveGasPrice = 7\<rparr>"

theorem reverted_reorg_is_silent_witness:
  "snd (advanceTransaction sample_tx (Some sample_receipt) 103 DEFAULT_FINALITY) = None \<and>
   tt_blockNumber (fst (advanceTransaction sample_tx (Some sample_receipt) 103 DEFAULT_FINALITY)) \<noteq> tt_blockNumber sample_tx"
  using reverted_reorg_is_silent [of sample_tx sample_receipt 103 DEFAULT_FINALITY]
  by (simp add: sample_tx_def sample_receipt_def)

text \<open>A resumed scan starts at or before the last finalized block, overlaps it by the configured number
  of blocks, and never starts below block zero.\<close>

lemma resumeFrom_bounds:
  assumes "0 \<le> fp_reorgOverlapBlocks policy"
  shows "0 \<le> resumeFrom b policy" "resumeFrom b policy \<le> int (parse_nat b)"
    "resumeFrom b policy = max 0 (int (parse_nat b) - fp_reorgOverlapBlocks policy)"
  using assms by (auto simp: resumeFrom_def Let_def)

end
