(* ===== verification/Alerts.thy ===== *)
theory Alerts
  imports Drift
begin

text \<open>
  The alert engine (\<open>packages/studio-control-plane/src/alerts.ts\<close>), the table it is written to
  (\<open>apps/studio/src/control/store.ts\<close>), and the expectation with which the fork service reconciles
  (\<open>apps/studio/src/fork/service.ts\<close>, \<open>refresh\<close>).

  The map from fingerprints to alerts is an association list in insertion order. SHA-256 is the argument
  \<open>sha256Hex\<close>. Values of an evidence record are texts or null, as every caller in the program passes them.

  The theorems: a critical drift stays open, critical and under its own identifier through any sequence of polls,
  acknowledgements and automatic resolutions until someone resolves that alert with evidence; and
  two places where the code does less than it says, the expectation of the service and the
  identifiers after a restart.
\<close>

section \<open>Alerts\<close>

datatype alertRule =
    R_RUNTIME_CRASH_LOOP | R_RUNTIME_UNHEALTHY | R_CRE_TELEMETRY_STALE | R_CRE_FAILURE_SPIKE | R_ADAPTER_STALE
  | R_ADAPTER_UNAVAILABLE | R_POLICY_UNEXPECTEDLY_ENABLED | R_POLICY_UNEXPECTEDLY_DISABLED | R_ENS_IDENTITY_CHANGED
  | R_ADMIN_CHANGED | R_BYTECODE_DRIFT | R_RUNTIME_IMAGE_DRIFT | R_REPEATED_DENY | R_PROMPT_INJECTION_ATTEMPTS
  | R_BUDGET_WARNING | R_TRANSACTION_REVERT_SPIKE | R_BRIDGE_DISCONNECTED | R_CHAIN_OBSERVER_STALE | R_STATE_DRIFT

fun rule_text :: "alertRule \<Rightarrow> string" where
  "rule_text R_RUNTIME_CRASH_LOOP = ''RUNTIME_CRASH_LOOP''"
| "rule_text R_RUNTIME_UNHEALTHY = ''RUNTIME_UNHEALTHY''"
| "rule_text R_CRE_TELEMETRY_STALE = ''CRE_TELEMETRY_STALE''"
| "rule_text R_CRE_FAILURE_SPIKE = ''CRE_FAILURE_SPIKE''"
| "rule_text R_ADAPTER_STALE = ''ADAPTER_STALE''"
| "rule_text R_ADAPTER_UNAVAILABLE = ''ADAPTER_UNAVAILABLE''"
| "rule_text R_POLICY_UNEXPECTEDLY_ENABLED = ''POLICY_UNEXPECTEDLY_ENABLED''"
| "rule_text R_POLICY_UNEXPECTEDLY_DISABLED = ''POLICY_UNEXPECTEDLY_DISABLED''"
| "rule_text R_ENS_IDENTITY_CHANGED = ''ENS_IDENTITY_CHANGED''"
| "rule_text R_ADMIN_CHANGED = ''ADMIN_CHANGED''"
| "rule_text R_BYTECODE_DRIFT = ''BYTECODE_DRIFT''"
| "rule_text R_RUNTIME_IMAGE_DRIFT = ''RUNTIME_IMAGE_DRIFT''"
| "rule_text R_REPEATED_DENY = ''REPEATED_DENY''"
| "rule_text R_PROMPT_INJECTION_ATTEMPTS = ''PROMPT_INJECTION_ATTEMPTS''"
| "rule_text R_BUDGET_WARNING = ''BUDGET_WARNING''"
| "rule_text R_TRANSACTION_REVERT_SPIKE = ''TRANSACTION_REVERT_SPIKE''"
| "rule_text R_BRIDGE_DISCONNECTED = ''BRIDGE_DISCONNECTED''"
| "rule_text R_CHAIN_OBSERVER_STALE = ''CHAIN_OBSERVER_STALE''"
| "rule_text R_STATE_DRIFT = ''STATE_DRIFT''"

datatype alertState = OPEN | ACKNOWLEDGED | RESOLVED

definition REQUIRES_RECONCILIATION :: "alertRule \<Rightarrow> bool" where
  "REQUIRES_RECONCILIATION r \<longleftrightarrow> r \<in> {R_POLICY_UNEXPECTEDLY_ENABLED, R_ADMIN_CHANGED, R_BYTECODE_DRIFT,
     R_RUNTIME_IMAGE_DRIFT, R_ENS_IDENTITY_CHANGED}"

type_synonym evidence = "(string \<times> string option) list"

record alert =
  al_alertId :: string
  al_fingerprint :: string
  al_rule :: alertRule
  al_severity :: severity
  al_state :: alertState
  al_projectId :: string
  al_deploymentId :: string
  al_subject :: string
  al_reason :: string
  al_evidence :: evidence
  al_firstSeenAtMs :: int
  al_lastSeenAtMs :: int
  al_occurrences :: nat
  al_acknowledgedBy :: "string option"
  al_acknowledgedAtMs :: "int option"
  al_resolvedAtMs :: "int option"
  al_resolvedBy :: "string option"
  al_resolutionEvidence :: "string option"
  al_requiresReconciliation :: bool

datatype alertReason = RECONCILIATION_REQUIRED | UNKNOWN_ALERT | ALREADY_RESOLVED

definition fingerprintOf :: "(string \<Rightarrow> string) \<Rightarrow> alertRule \<Rightarrow> string \<Rightarrow> string \<Rightarrow> string" where
  "fingerprintOf sha256Hex rule deploymentId subject =
    ''fp_'' @ take 24 (sha256Hex (rule_text rule @ ''|'' @ deploymentId @ ''|'' @ subject))"

record raiseArgs =
  ra_rule :: alertRule
  ra_severity :: severity
  ra_projectId :: string
  ra_deploymentId :: string
  ra_subject :: string
  ra_reason :: string
  ra_evidence :: "evidence option"
  ra_nowMs :: int

record alertEngine =
  ae_byFingerprint :: "(string \<times> alert) list"
  ae_seq :: nat

definition new_engine :: alertEngine where
  "new_engine = \<lparr>ae_byFingerprint = [], ae_seq = 0\<rparr>"

definition alert_id :: "nat \<Rightarrow> string" where
  "alert_id n = ''alr_'' @ padStart 6 (show_nat n)"

definition seen_again :: "raiseArgs \<Rightarrow> alert \<Rightarrow> alert" where
  "seen_again args a =
    a\<lparr>al_occurrences := al_occurrences a + 1, al_lastSeenAtMs := ra_nowMs args, al_reason := ra_reason args,
      al_evidence := (case ra_evidence args of None \<Rightarrow> al_evidence a | Some e \<Rightarrow> fold (\<lambda>(k, v). map_set k v) e (al_evidence a)),
      al_severity := (if ra_severity args = CRITICAL then CRITICAL else al_severity a)\<rparr>"

definition fresh_alert :: "(string \<Rightarrow> string) \<Rightarrow> raiseArgs \<Rightarrow> nat \<Rightarrow> alert" where
  "fresh_alert sha256Hex args n =
    \<lparr>al_alertId = alert_id n, al_fingerprint = fingerprintOf sha256Hex (ra_rule args) (ra_deploymentId args) (ra_subject args),
     al_rule = ra_rule args, al_severity = ra_severity args, al_state = OPEN, al_projectId = ra_projectId args,
     al_deploymentId = ra_deploymentId args, al_subject = ra_subject args, al_reason = ra_reason args,
     al_evidence = (case ra_evidence args of None \<Rightarrow> [] | Some e \<Rightarrow> e), al_firstSeenAtMs = ra_nowMs args,
     al_lastSeenAtMs = ra_nowMs args, al_occurrences = 1, al_acknowledgedBy = None, al_acknowledgedAtMs = None,
     al_resolvedAtMs = None, al_resolvedBy = None, al_resolutionEvidence = None,
     al_requiresReconciliation = REQUIRES_RECONCILIATION (ra_rule args)\<rparr>"

definition raise_alert :: "(string \<Rightarrow> string) \<Rightarrow> raiseArgs \<Rightarrow> alertEngine \<Rightarrow> alertEngine \<times> alert \<times> bool" where
  "raise_alert sha256Hex args eng =
    (let fp = fingerprintOf sha256Hex (ra_rule args) (ra_deploymentId args) (ra_subject args);
         m = ae_byFingerprint eng;
         fresh = (\<lambda>m. let a = fresh_alert sha256Hex args (ae_seq eng + 1)
                      in (\<lparr>ae_byFingerprint = map_set fp a m, ae_seq = ae_seq eng + 1\<rparr>, a, True)) in
     case map_of m fp of
       None \<Rightarrow> fresh m
     | Some existing \<Rightarrow>
         if al_state existing \<noteq> RESOLVED
         then (eng\<lparr>ae_byFingerprint := map_set fp (seen_again args existing) m\<rparr>, seen_again args existing, False)
         else fresh (map_delete fp m))"

definition get_alert :: "alertEngine \<Rightarrow> string \<Rightarrow> alert option" where
  "get_alert eng alertId = find (\<lambda>a. al_alertId a = alertId) (map snd (ae_byFingerprint eng))"

text \<open>An alert is mutated in place; it is stored under its fingerprint.\<close>

definition store_alert :: "alert \<Rightarrow> alertEngine \<Rightarrow> alertEngine" where
  "store_alert a eng = eng\<lparr>ae_byFingerprint := map_set (al_fingerprint a) a (ae_byFingerprint eng)\<rparr>"

definition acknowledge :: "string \<Rightarrow> string \<Rightarrow> int \<Rightarrow> alertEngine \<Rightarrow> alertReason + alertEngine \<times> alert" where
  "acknowledge alertId actorId nowMs eng =
    (case get_alert eng alertId of
       None \<Rightarrow> Inl UNKNOWN_ALERT
     | Some a \<Rightarrow>
         let a' = a\<lparr>al_state := ACKNOWLEDGED, al_acknowledgedBy := Some actorId, al_acknowledgedAtMs := Some nowMs\<rparr>
         in Inr (store_alert a' eng, a'))"

definition reconciled :: "string option \<Rightarrow> bool" where
  "reconciled evidence \<longleftrightarrow> (case evidence of None \<Rightarrow> False | Some e \<Rightarrow> e \<noteq> [] \<and> 10 \<le> length (trim e))"

definition resolve :: "string \<Rightarrow> string \<Rightarrow> string option \<Rightarrow> int \<Rightarrow> alertEngine \<Rightarrow> alertReason + alertEngine \<times> alert" where
  "resolve alertId actorId evidence nowMs eng =
    (case get_alert eng alertId of
       None \<Rightarrow> Inl UNKNOWN_ALERT
     | Some a \<Rightarrow>
         if al_state a = RESOLVED then Inl ALREADY_RESOLVED
         else if al_requiresReconciliation a \<and> \<not> reconciled evidence then Inl RECONCILIATION_REQUIRED
         else
           let a' = a\<lparr>al_state := RESOLVED, al_resolvedAtMs := Some nowMs, al_resolvedBy := Some actorId, al_resolutionEvidence := evidence\<rparr>
           in Inr (store_alert a' eng, a'))"

definition autoResolve ::
    "(string \<Rightarrow> string) \<Rightarrow> alertRule \<Rightarrow> string \<Rightarrow> string \<Rightarrow> int \<Rightarrow> alertEngine \<Rightarrow> alertEngine \<times> alert option" where
  "autoResolve sha256Hex rule deploymentId subject nowMs eng =
    (case map_of (ae_byFingerprint eng) (fingerprintOf sha256Hex rule deploymentId subject) of
       None \<Rightarrow> (eng, None)
     | Some a \<Rightarrow>
         if al_state a = RESOLVED \<or> al_requiresReconciliation a then (eng, None)
         else
           let a' = a\<lparr>al_state := RESOLVED, al_resolvedAtMs := Some nowMs, al_resolvedBy := Some ''system'',
                      al_resolutionEvidence := Some ''the condition was no longer observed''\<rparr>
           in (store_alert a' eng, Some a'))"

definition all_alerts :: "alertEngine \<Rightarrow> alert list" where
  "all_alerts eng = sort_key al_firstSeenAtMs (map snd (ae_byFingerprint eng))"

text \<open>\<open>DRIFT_TO_RULE\<close> has an entry for every kind.\<close>

fun DRIFT_TO_RULE :: "driftKind \<Rightarrow> alertRule" where
  "DRIFT_TO_RULE POLICY_ENABLED_UNEXPECTEDLY = R_POLICY_UNEXPECTEDLY_ENABLED"
| "DRIFT_TO_RULE POLICY_DISABLED_UNEXPECTEDLY = R_POLICY_UNEXPECTEDLY_DISABLED"
| "DRIFT_TO_RULE POLICY_ADMIN_CHANGED = R_ADMIN_CHANGED"
| "DRIFT_TO_RULE ADMIN_CHANGED = R_ADMIN_CHANGED"
| "DRIFT_TO_RULE BYTECODE_DRIFT = R_BYTECODE_DRIFT"
| "DRIFT_TO_RULE IDENTITY_CHANGED = R_ENS_IDENTITY_CHANGED"
| "DRIFT_TO_RULE IDENTITY_REVOKED_UNEXPECTEDLY = R_ENS_IDENTITY_CHANGED"
| "DRIFT_TO_RULE RUNTIME_IMAGE_DRIFT = R_RUNTIME_IMAGE_DRIFT"
| "DRIFT_TO_RULE BINDING_VERSION_CHANGED = R_STATE_DRIFT"
| "DRIFT_TO_RULE CONTRACT_MISSING = R_BYTECODE_DRIFT"

fun kind_text :: "driftKind \<Rightarrow> string" where
  "kind_text POLICY_ENABLED_UNEXPECTEDLY = ''POLICY_ENABLED_UNEXPECTEDLY''"
| "kind_text POLICY_DISABLED_UNEXPECTEDLY = ''POLICY_DISABLED_UNEXPECTEDLY''"
| "kind_text POLICY_ADMIN_CHANGED = ''POLICY_ADMIN_CHANGED''"
| "kind_text ADMIN_CHANGED = ''ADMIN_CHANGED''"
| "kind_text BYTECODE_DRIFT = ''BYTECODE_DRIFT''"
| "kind_text IDENTITY_CHANGED = ''IDENTITY_CHANGED''"
| "kind_text IDENTITY_REVOKED_UNEXPECTEDLY = ''IDENTITY_REVOKED_UNEXPECTEDLY''"
| "kind_text RUNTIME_IMAGE_DRIFT = ''RUNTIME_IMAGE_DRIFT''"
| "kind_text BINDING_VERSION_CHANGED = ''BINDING_VERSION_CHANGED''"
| "kind_text CONTRACT_MISSING = ''CONTRACT_MISSING''"

definition alertForDrift :: "drift \<Rightarrow> string \<Rightarrow> string \<Rightarrow> raiseArgs" where
  "alertForDrift d projectId deploymentId =
    \<lparr>ra_rule = DRIFT_TO_RULE (dr_kind d), ra_severity = (if CRITICAL_DRIFT (dr_kind d) then CRITICAL else WARNING),
     ra_projectId = projectId, ra_deploymentId = deploymentId, ra_subject = dr_subject d, ra_reason = dr_detail d,
     ra_evidence = Some [(''kind'', Some (kind_text (dr_kind d))), (''expected'', Some (dr_expected d)),
       (''observed'', Some (dr_observed d)), (''blockNumber'', dr_blockNumber d)],
     ra_nowMs = dr_observedAtMs d\<rparr>"

section \<open>The table of alerts\<close>

text \<open>\<open>persistAlert\<close>: the primary key is the alert's id, and a partial unique index allows one row that is not
  resolved for each fingerprint. A conflict on the key updates the row's changing columns.\<close>

definition overwrite :: "alert \<Rightarrow> alert \<Rightarrow> alert" where
  "overwrite a row =
    row\<lparr>al_severity := al_severity a, al_state := al_state a, al_reason := al_reason a, al_evidence := al_evidence a,
        al_lastSeenAtMs := al_lastSeenAtMs a, al_occurrences := al_occurrences a, al_acknowledgedBy := al_acknowledgedBy a,
        al_acknowledgedAtMs := al_acknowledgedAtMs a, al_resolvedAtMs := al_resolvedAtMs a, al_resolvedBy := al_resolvedBy a,
        al_resolutionEvidence := al_resolutionEvidence a\<rparr>"

definition open_unique :: "alert list \<Rightarrow> bool" where
  "open_unique rows = distinct (map al_fingerprint (filter (\<lambda>a. al_state a \<noteq> RESOLVED) rows))"

text \<open>\<open>None\<close> is the constraint error of the database.\<close>

definition persistAlert :: "alert \<Rightarrow> alert list \<Rightarrow> alert list option" where
  "persistAlert a rows =
    (let rows' = (if list_ex (\<lambda>r. al_alertId r = al_alertId a) rows
                  then map (\<lambda>r. if al_alertId r = al_alertId a then overwrite a r else r) rows
                  else rows @ [a])
     in if open_unique rows' then Some rows' else None)"

definition loadAlerts :: "string option \<Rightarrow> alert list \<Rightarrow> alert list" where
  "loadAlerts deploymentId rows =
    sort_key al_firstSeenAtMs (filter (\<lambda>a. case deploymentId of None \<Rightarrow> True | Some d \<Rightarrow> d = [] \<or> al_deploymentId a = d) rows)"

section \<open>The expectation of the fork service\<close>

definition fork_expected :: "policyState observation \<Rightarrow> string \<Rightarrow> string \<Rightarrow> string \<Rightarrow> expectedState" where
  "fork_expected policy deployer ensNode user =
    \<lparr>ex_policyEnabled = (case ob_value policy of Some p \<Rightarrow> ps_enabled p | None \<Rightarrow> False), ex_policyAdmin = deployer,
     ex_bindingVersion = None, ex_contracts = [], ex_administrators = [toLowerCase deployer],
     ex_identity = Some (ensNode, user), ex_runtimeImageDigest = None\<rparr>"

section \<open>Sequences of operations\<close>

datatype alert_op =
    Raise raiseArgs
  | Acknowledge string string int
  | Resolve string string "string option" int
  | AutoResolve alertRule string string int

text \<open>An operation that throws leaves the engine as it is.\<close>

definition kept :: "alertEngine \<Rightarrow> alertReason + alertEngine \<times> alert \<Rightarrow> alertEngine" where
  "kept eng r = (case r of Inl _ \<Rightarrow> eng | Inr (eng', _) \<Rightarrow> eng')"

fun apply_op :: "(string \<Rightarrow> string) \<Rightarrow> alert_op \<Rightarrow> alertEngine \<Rightarrow> alertEngine" where
  "apply_op sha (Raise args) eng = fst (raise_alert sha args eng)"
| "apply_op sha (Acknowledge i actor t) eng = kept eng (acknowledge i actor t eng)"
| "apply_op sha (Resolve i actor e t) eng = kept eng (resolve i actor e t eng)"
| "apply_op sha (AutoResolve r d s t) eng = fst (autoResolve sha r d s t eng)"

definition run_ops :: "(string \<Rightarrow> string) \<Rightarrow> alert_op list \<Rightarrow> alertEngine \<Rightarrow> alertEngine" where
  "run_ops sha ops eng = fold (apply_op sha) ops eng"

definition alert_ok :: "alert \<Rightarrow> bool" where
  "alert_ok a \<longleftrightarrow> al_requiresReconciliation a = REQUIRES_RECONCILIATION (al_rule a) \<and>
    (al_state a = RESOLVED \<longrightarrow> al_requiresReconciliation a \<longrightarrow> reconciled (al_resolutionEvidence a))"

definition entry_ok :: "nat \<Rightarrow> string \<times> alert \<Rightarrow> bool" where
  "entry_ok seq e \<longleftrightarrow> al_fingerprint (snd e) = fst e \<and> (\<exists>n \<le> seq. al_alertId (snd e) = alert_id n) \<and> alert_ok (snd e)"

definition engine_ok :: "alertEngine \<Rightarrow> bool" where
  "engine_ok eng \<longleftrightarrow> distinct (map fst (ae_byFingerprint eng)) \<and> distinct (map (\<lambda>e. al_alertId (snd e)) (ae_byFingerprint eng)) \<and>
    (\<forall>e \<in> set (ae_byFingerprint eng). entry_ok (ae_seq eng) e)"

lemma entry_mono: "entry_ok seq e \<Longrightarrow> seq \<le> seq' \<Longrightarrow> entry_ok seq' e"
  by (meson entry_ok_def le_trans)

lemma alert_id_inject [simp]: "alert_id m = alert_id n \<longleftrightarrow> m = n"
  by (simp add: alert_id_def padStart_inject)

lemma map_set_same: "map_of m k = Some v \<Longrightarrow> f (k, v') = f (k, v) \<Longrightarrow> map f (map_set k v' m) = map f m"
  by (induction m) auto

lemma set_map_set: "set (map_set k v m) \<subseteq> insert (k, v) (set m)"
  by (induction m) (auto split: if_splits)

lemma get_alert_stored:
  assumes "engine_ok eng" and "get_alert eng i = Some a"
  shows "map_of (ae_byFingerprint eng) (al_fingerprint a) = Some a" "al_alertId a = i" "alert_ok a"
proof -
  obtain k where k: "(k, a) \<in> set (ae_byFingerprint eng)" and i: "al_alertId a = i"
    using assms(2) by (auto simp: get_alert_def find_Some_iff) (metis nth_mem prod.collapse)
  from assms(1) k have "al_fingerprint a = k" "alert_ok a" "distinct (map fst (ae_byFingerprint eng))" by (auto simp: engine_ok_def entry_ok_def)
  with k i show "map_of (ae_byFingerprint eng) (al_fingerprint a) = Some a" "al_alertId a = i" "alert_ok a" by simp_all
qed

text \<open>Storing a changed alert keeps the invariant if the change keeps what identifies it.\<close>

lemma store_ok:
  assumes "engine_ok eng" and "map_of (ae_byFingerprint eng) (al_fingerprint a) = Some a"
    and "al_fingerprint a' = al_fingerprint a" "al_alertId a' = al_alertId a" "alert_ok a'"
  shows "engine_ok (store_alert a' eng)"
proof -
  let ?m = "ae_byFingerprint eng" and ?m' = "map_set (al_fingerprint a) a' (ae_byFingerprint eng)"
  have "map (\<lambda>e. al_alertId (snd e)) ?m' = map (\<lambda>e. al_alertId (snd e)) ?m" "map fst ?m' = map fst ?m"
    using assms(2,4) by (simp_all add: map_set_same)
  moreover have "\<forall>e \<in> set ?m'. entry_ok (ae_seq eng) e"
  proof -
    have "entry_ok (ae_seq eng) (al_fingerprint a, a)" using map_of_SomeD [OF assms(2)] assms(1) unfolding engine_ok_def by blast
    then have "entry_ok (ae_seq eng) (al_fingerprint a, a')" using assms(3-5) by (simp add: entry_ok_def)
    then show ?thesis using set_map_set [of "al_fingerprint a" a' ?m] assms(1) unfolding engine_ok_def by blast
  qed
  ultimately show ?thesis using assms(1,3) by (simp add: engine_ok_def store_alert_def)
qed

lemma fresh_ok:
  assumes "engine_ok eng" and "set m \<subseteq> set (ae_byFingerprint eng)" "distinct (map fst m)" "distinct (map (\<lambda>e. al_alertId (snd e)) m)"
    and "fp = fingerprintOf sha (ra_rule args) (ra_deploymentId args) (ra_subject args)" "map_of m fp = None"
  shows "engine_ok \<lparr>ae_byFingerprint = map_set fp (fresh_alert sha args (ae_seq eng + 1)) m, ae_seq = ae_seq eng + 1\<rparr>"
proof -
  have new: "map_set fp a m = m @ [(fp, a)]" for a using assms(6) by (intro map_set_new) (simp add: map_of_eq_None_iff)
  have old: "entry_ok (ae_seq eng) e" if "e \<in> set m" for e
    using assms(1,2) that unfolding engine_ok_def by blast
  have "alert_id (ae_seq eng + 1) \<notin> (\<lambda>e. al_alertId (snd e)) ` set m"
  proof
    assume "alert_id (ae_seq eng + 1) \<in> (\<lambda>e. al_alertId (snd e)) ` set m"
    then obtain e where "e \<in> set m" "al_alertId (snd e) = alert_id (ae_seq eng + 1)" by auto
    with old [of e] show False by (auto simp: entry_ok_def)
  qed
  moreover have "fp \<notin> fst ` set m" using assms(6) by (simp add: map_of_eq_None_iff)
  moreover have "\<forall>e \<in> set m. entry_ok (ae_seq eng + 1) e" using old entry_mono le_add1 by blast
  moreover have "entry_ok (ae_seq eng + 1) (fp, fresh_alert sha args (ae_seq eng + 1))"
    by (auto simp: entry_ok_def fresh_alert_def alert_ok_def assms(5))
  ultimately show ?thesis using assms(3,4) by (auto simp: engine_ok_def new fresh_alert_def)
qed

lemma raise_cases:
  fixes sha args eng
  defines "fp \<equiv> fingerprintOf sha (ra_rule args) (ra_deploymentId args) (ra_subject args)"
  obtains (again) a where "map_of (ae_byFingerprint eng) fp = Some a" "al_state a \<noteq> RESOLVED"
      "raise_alert sha args eng = (eng\<lparr>ae_byFingerprint := map_set fp (seen_again args a) (ae_byFingerprint eng)\<rparr>, seen_again args a, False)"
  | (new) m where "m = map_delete fp (ae_byFingerprint eng)"
      "\<And>a. map_of (ae_byFingerprint eng) fp = Some a \<Longrightarrow> al_state a = RESOLVED"
      "raise_alert sha args eng = (\<lparr>ae_byFingerprint = map_set fp (fresh_alert sha args (ae_seq eng + 1)) m, ae_seq = ae_seq eng + 1\<rparr>,
         fresh_alert sha args (ae_seq eng + 1), True)"
proof (cases "map_of (ae_byFingerprint eng) fp")
  case None
  then have "map_delete fp (ae_byFingerprint eng) = ae_byFingerprint eng"
    by (auto simp: map_delete_def filter_id_conv map_of_eq_None_iff)
  with None show thesis by (intro new) (simp_all add: raise_alert_def Let_def fp_def)
next
  case (Some a)
  show thesis
  proof (cases "al_state a = RESOLVED")
    case True
    with Some show thesis by (intro new) (simp_all add: raise_alert_def Let_def fp_def)
  next
    case False
    with Some show thesis by (intro again) (simp_all add: raise_alert_def Let_def fp_def)
  qed
qed

lemma seen_again_keeps [simp]:
  "al_alertId (seen_again args a) = al_alertId a" "al_fingerprint (seen_again args a) = al_fingerprint a"
  "al_state (seen_again args a) = al_state a" "al_requiresReconciliation (seen_again args a) = al_requiresReconciliation a"
  "al_rule (seen_again args a) = al_rule a" "al_occurrences (seen_again args a) = al_occurrences a + 1"
  "al_severity a = CRITICAL \<Longrightarrow> al_severity (seen_again args a) = CRITICAL"
  "alert_ok a \<Longrightarrow> alert_ok (seen_again args a)"
  by (simp_all add: seen_again_def alert_ok_def)

lemma raise_ok:
  assumes "engine_ok eng"
  shows "engine_ok (fst (raise_alert sha args eng))"
proof (cases rule: raise_cases [of eng sha args])
  case (again a)
  then have "(al_fingerprint a = fingerprintOf sha (ra_rule args) (ra_deploymentId args) (ra_subject args)) \<and> alert_ok a"
    using assms map_of_SomeD [OF again(1)] by (auto simp: engine_ok_def entry_ok_def)
  then show ?thesis using store_ok [OF assms, of a "seen_again args a"] again by (simp add: store_alert_def)
next
  case (new m)
  have "distinct (map (\<lambda>e. al_alertId (snd e)) m)" "distinct (map fst m)"
    using assms by (simp_all add: new(1) map_delete_def engine_ok_def distinct_map_filter)
  then show ?thesis unfolding new(3) fst_conv
    by (intro fresh_ok [OF assms]) (auto simp: new(1) map_of_map_delete, simp add: map_delete_def)
qed

text \<open>What an operation other than a raise changes: at most one alert, which keeps what identifies it.\<close>

lemma store_change:
  assumes "engine_ok eng" and "map_of (ae_byFingerprint eng) (al_fingerprint a) = Some a"
    and "al_fingerprint a' = al_fingerprint a"
  shows "map_of (ae_byFingerprint (store_alert a' eng)) = (map_of (ae_byFingerprint eng))(al_fingerprint a \<mapsto> a')"
  using assms(3) by (simp add: store_alert_def map_of_map_set)

lemma op_cases [consumes 2]:
  assumes "engine_ok eng" and "\<nexists>args. op = Raise args"
  obtains (same) "apply_op sha op eng = eng"
  | (change) a a' where "map_of (ae_byFingerprint eng) (al_fingerprint a) = Some a" "apply_op sha op eng = store_alert a' eng"
      "al_fingerprint a' = al_fingerprint a" "al_alertId a' = al_alertId a" "alert_ok a'" "al_rule a' = al_rule a"
      "al_severity a' = al_severity a" "al_occurrences a' = al_occurrences a"
      "al_requiresReconciliation a' = al_requiresReconciliation a"
      "al_state a' = RESOLVED \<Longrightarrow> al_requiresReconciliation a \<Longrightarrow>
         \<exists>actor e t. op = Resolve (al_alertId a) actor e t \<and> reconciled e"
proof (cases op)
  case (Raise args)
  then show thesis using assms(2) by blast
next
  case (Acknowledge i actor t)
  show thesis
  proof (cases "get_alert eng i")
    case None
    then show thesis by (intro same) (simp add: Acknowledge acknowledge_def kept_def)
  next
    case (Some a)
    note st = get_alert_stored [OF assms(1) Some]
    show thesis
      by (rule change [of a "a\<lparr>al_state := ACKNOWLEDGED, al_acknowledgedBy := Some actor, al_acknowledgedAtMs := Some t\<rparr>"])
         (use st in \<open>simp_all add: Acknowledge Some acknowledge_def kept_def Let_def alert_ok_def\<close>)
  qed
next
  case (Resolve i actor e t)
  show thesis
  proof (cases "get_alert eng i")
    case None
    then show thesis by (intro same) (simp add: Resolve resolve_def kept_def)
  next
    case (Some a)
    note st = get_alert_stored [OF assms(1) Some]
    show thesis
    proof (cases "al_state a = RESOLVED \<or> al_requiresReconciliation a \<and> \<not> reconciled e")
      case True
      then show thesis by (intro same) (auto simp: Resolve Some resolve_def kept_def)
    next
      case False
      show thesis
        by (rule change [of a "a\<lparr>al_state := RESOLVED, al_resolvedAtMs := Some t, al_resolvedBy := Some actor, al_resolutionEvidence := e\<rparr>"])
           (use st False in \<open>auto simp: Resolve Some resolve_def kept_def Let_def alert_ok_def\<close>)
    qed
  qed
next
  case (AutoResolve r d su t)
  show thesis
  proof (cases "map_of (ae_byFingerprint eng) (fingerprintOf sha r d su)")
    case None
    then show thesis by (intro same) (simp add: AutoResolve autoResolve_def)
  next
    case (Some a)
    have st: "al_fingerprint a = fingerprintOf sha r d su" "alert_ok a"
      using map_of_SomeD [OF Some] assms(1) by (auto simp: engine_ok_def entry_ok_def)
    show thesis
    proof (cases "al_state a = RESOLVED \<or> al_requiresReconciliation a")
      case True
      then show thesis by (intro same) (auto simp: AutoResolve Some autoResolve_def)
    next
      case False
      show thesis
        by (rule change [of a "a\<lparr>al_state := RESOLVED, al_resolvedAtMs := Some t, al_resolvedBy := Some ''system'',
              al_resolutionEvidence := Some ''the condition was no longer observed''\<rparr>"])
           (use st False Some in \<open>auto simp: AutoResolve autoResolve_def Let_def alert_ok_def\<close>)
    qed
  qed
qed

lemma apply_ok:
  assumes "engine_ok eng"
  shows "engine_ok (apply_op sha op eng)"
proof (cases "\<exists>args. op = Raise args")
  case True
  then show ?thesis using raise_ok [OF assms] by auto
next
  case False
  from assms False show ?thesis
  proof (cases rule: op_cases [where sha = sha])
    case same
    then show ?thesis using assms by simp
  next
    case (change a a')
    then show ?thesis using store_ok [OF assms change(1,3,4,5)] by simp
  qed
qed

lemma run_ok: "engine_ok eng \<Longrightarrow> engine_ok (run_ops sha ops eng)"
  by (induction ops arbitrary: eng) (auto simp: run_ops_def apply_ok)

lemma new_ok: "engine_ok new_engine"
  by (simp add: engine_ok_def new_engine_def)

text \<open>
  The alerts after any sequence of operations: there is one row for each fingerprint, no two rows have the same
  identifier, and a resolved alert whose rule requires reconciliation was resolved with evidence of at
  least ten characters.
\<close>

theorem resolved_alerts_are_reconciled:
  "distinct (map fst (ae_byFingerprint (run_ops sha ops new_engine))) \<and>
   distinct (map al_alertId (all_alerts (run_ops sha ops new_engine))) \<and>
   list_all (\<lambda>a. al_state a \<noteq> RESOLVED \<or> \<not> REQUIRES_RECONCILIATION (al_rule a) \<or> reconciled (al_resolutionEvidence a))
     (all_alerts (run_ops sha ops new_engine))"
proof -
  let ?m = "ae_byFingerprint (run_ops sha ops new_engine)"
  have ok: "engine_ok (run_ops sha ops new_engine)" by (rule run_ok [OF new_ok])
  have "distinct (map al_alertId (map snd ?m))" using ok by (simp add: engine_ok_def comp_def)
  then have "distinct (map al_alertId (all_alerts (run_ops sha ops new_engine)))"
    unfolding all_alerts_def distinct_map by (auto simp: distinct_map distinct_sort)
  moreover have "alert_ok a" if "a \<in> set (all_alerts (run_ops sha ops new_engine))" for a
    using ok that by (auto simp: all_alerts_def engine_ok_def entry_ok_def)
  ultimately show ?thesis using ok by (auto simp: engine_ok_def alert_ok_def list_all_iff)
qed

section \<open>A critical drift stays open\<close>

definition pending_at :: "string \<Rightarrow> string \<Rightarrow> nat \<Rightarrow> alertEngine \<Rightarrow> bool" where
  "pending_at fp i n eng \<longleftrightarrow> (\<exists>a. map_of (ae_byFingerprint eng) fp = Some a \<and> al_alertId a = i \<and> al_state a \<noteq> RESOLVED \<and>
     al_severity a = CRITICAL \<and> al_requiresReconciliation a \<and> n \<le> al_occurrences a)"

text \<open>The one operation that closes the alert.\<close>

definition reconciles :: "string \<Rightarrow> alert_op \<Rightarrow> bool" where
  "reconciles i op = (case op of Resolve j actor e t \<Rightarrow> j = i \<and> reconciled e | _ \<Rightarrow> False)"

lemma raise_pending:
  assumes "pending_at fp i n eng"
  shows "pending_at fp i n (fst (raise_alert sha args eng))"
proof -
  from assms obtain a where a: "map_of (ae_byFingerprint eng) fp = Some a" "al_alertId a = i" "al_state a \<noteq> RESOLVED"
    "al_severity a = CRITICAL" "al_requiresReconciliation a" "n \<le> al_occurrences a" by (auto simp: pending_at_def)
  show ?thesis
  proof (cases rule: raise_cases [of eng sha args])
    case (again b)
    then show ?thesis using a by (auto simp: pending_at_def map_of_map_set)
  next
    case (new m)
    then have "fingerprintOf sha (ra_rule args) (ra_deploymentId args) (ra_subject args) \<noteq> fp" using a(1,3) by auto
    then show ?thesis using a new(3) by (auto simp: pending_at_def map_of_map_set map_of_map_delete new(1))
  qed
qed

lemma apply_pending:
  assumes "engine_ok eng" and "pending_at fp i n eng" and "\<not> reconciles i op"
  shows "pending_at fp i n (apply_op sha op eng)"
proof (cases "\<exists>args. op = Raise args")
  case True
  then show ?thesis using raise_pending [OF assms(2)] by auto
next
  case False
  from assms(1) False show ?thesis
  proof (cases rule: op_cases [where sha = sha])
    case same
    then show ?thesis using assms(2) by simp
  next
    case (change a a')
    have "al_state a' \<noteq> RESOLVED" if "al_alertId a = i" "al_requiresReconciliation a"
      using change(10) that assms(3) by (auto simp: reconciles_def)
    then show ?thesis using assms(2) change store_change [OF assms(1) change(1,3)] by (auto simp: pending_at_def)
  qed
qed

lemma run_pending:
  assumes "engine_ok eng" and "pending_at fp i n eng" and "list_all (\<lambda>op. \<not> reconciles i op) ops"
  shows "pending_at fp i n (run_ops sha ops eng)"
  using assms by (induction ops arbitrary: eng) (auto simp: run_ops_def apply_ok apply_pending)

lemma critical_rule: "CRITICAL_DRIFT k \<Longrightarrow> REQUIRES_RECONCILIATION (DRIFT_TO_RULE k)"
  by (cases k) (simp_all add: CRITICAL_DRIFT_def REQUIRES_RECONCILIATION_def)

text \<open>
  C23: A critical drift, once raised, cannot be cleared by polling. Whatever happened before and whatever
  operations follow, raises of this or another problem, acknowledgements, automatic resolutions, resolutions of other
  alerts and resolutions without evidence, as long as nobody resolves this alert with evidence
  it is there under the same identifier, not resolved, critical, and with at least as many occurrences. The hypothesis on
  the rule excludes a collision of fingerprints with an alert of another rule.
\<close>

theorem critical_drift_stays_open:
  assumes "CRITICAL_DRIFT (dr_kind d)"
    and raised: "raise_alert sha (alertForDrift d project deployment) (run_ops sha before new_engine) = (eng, a, created)"
    and "al_rule a = DRIFT_TO_RULE (dr_kind d)"
    and "list_all (\<lambda>op. \<not> reconciles (al_alertId a) op) after"
  shows "\<exists>a'. map_of (ae_byFingerprint (run_ops sha after eng)) (fingerprintOf sha (DRIFT_TO_RULE (dr_kind d)) deployment (dr_subject d)) = Some a' \<and>
    al_alertId a' = al_alertId a \<and> al_state a' \<noteq> RESOLVED \<and> al_severity a' = CRITICAL \<and> al_occurrences a \<le> al_occurrences a'"
proof -
  let ?e0 = "run_ops sha before new_engine" and ?args = "alertForDrift d project deployment"
  let ?fp = "fingerprintOf sha (DRIFT_TO_RULE (dr_kind d)) deployment (dr_subject d)"
  have ok: "engine_ok ?e0" by (rule run_ok [OF new_ok])
  have args: "ra_rule ?args = DRIFT_TO_RULE (dr_kind d)" "ra_deploymentId ?args = deployment" "ra_subject ?args = dr_subject d"
    "ra_severity ?args = CRITICAL" using assms(1) by (simp_all add: alertForDrift_def)
  have ok': "engine_ok eng" using raise_ok [OF ok, of sha ?args] raised by simp
  have "map_of (ae_byFingerprint eng) ?fp = Some a \<and> al_state a \<noteq> RESOLVED \<and> al_severity a = CRITICAL"
  proof (cases rule: raise_cases [of ?e0 sha ?args])
    case (again b)
    then show ?thesis using raised args by (auto simp: map_of_map_set seen_again_def)
  next
    case (new m)
    then show ?thesis using raised args by (auto simp: map_of_map_set fresh_alert_def)
  qed
  moreover from this ok' have "alert_ok a" by (auto simp: engine_ok_def entry_ok_def dest!: map_of_SomeD)
  then have "al_requiresReconciliation a" using critical_rule [OF assms(1)] assms(3) by (simp add: alert_ok_def)
  ultimately have "pending_at ?fp (al_alertId a) (al_occurrences a) eng" by (simp add: pending_at_def)
  from run_pending [OF ok' this assms(4)] show ?thesis by (auto simp: pending_at_def)
qed

definition sample_drift :: drift where
  "sample_drift = mk_drift POLICY_ENABLED_UNEXPECTEDLY ''policy 0xabc'' ''disabled'' ''ENABLED'' ''enabled'' 1000 (Some ''7'')"

definition sample_after :: "alert_op list" where
  "sample_after =
    [AutoResolve R_POLICY_UNEXPECTEDLY_ENABLED ''dep'' ''policy 0xabc'' 2000, Acknowledge (alert_id 1) ''operator'' 2500,
     Resolve (alert_id 1) ''operator'' (Some ''fine'') 3000, Raise (alertForDrift sample_drift ''prj'' ''dep'')]"

lemma sample_raise:
  "raise_alert id (alertForDrift sample_drift ''prj'' ''dep'') (run_ops id [] new_engine) =
    (\<lparr>ae_byFingerprint = [(fingerprintOf id R_POLICY_UNEXPECTEDLY_ENABLED ''dep'' ''policy 0xabc'',
        fresh_alert id (alertForDrift sample_drift ''prj'' ''dep'') 1)], ae_seq = 1\<rparr>,
     fresh_alert id (alertForDrift sample_drift ''prj'' ''dep'') 1, True)"
  by (simp add: raise_alert_def run_ops_def new_engine_def sample_drift_def mk_drift_def alertForDrift_def Let_def)

theorem critical_drift_stays_open_witness:
  "\<exists>a'. map_of (ae_byFingerprint (run_ops id sample_after (fst (raise_alert id (alertForDrift sample_drift ''prj'' ''dep'') new_engine))))
      (fingerprintOf id R_POLICY_UNEXPECTEDLY_ENABLED ''dep'' ''policy 0xabc'') = Some a' \<and>
    al_alertId a' = alert_id 1 \<and> al_state a' \<noteq> RESOLVED \<and> al_severity a' = CRITICAL"
proof -
  have "length (trim ''fine'') < 10" by code_simp
  then have "list_all (\<lambda>op. \<not> reconciles (alert_id 1) op) sample_after" by (simp add: sample_after_def reconciles_def reconciled_def)
  then show ?thesis
    using critical_drift_stays_open [OF _ sample_raise, of sample_after] sample_raise
    by (auto simp: sample_drift_def mk_drift_def CRITICAL_DRIFT_def alertForDrift_def fresh_alert_def run_ops_def)
qed

section \<open>Where the program does less\<close>

text \<open>
  The fork service reconciles the policy against what it has just read. Whatever the chain answers, it
  reports neither that the policy was enabled unexpectedly nor that it was disabled unexpectedly, nor any
  drift of a contract's code, which it does not read.
\<close>

theorem fork_service_sees_no_policy_drift:
  assumes "os_contracts actual = []"
  shows "\<not> reported POLICY_ENABLED_UNEXPECTEDLY (reconcile (fork_expected (os_policy actual) deployer ensNode user) actual now) \<and>
    \<not> reported POLICY_DISABLED_UNEXPECTEDLY (reconcile (fork_expected (os_policy actual) deployer ensNode user) actual now) \<and>
    \<not> reported BYTECODE_DRIFT (reconcile (fork_expected (os_policy actual) deployer ensNode user) actual now)"
  using assms by (auto simp: reported_policy reported_contract policy_drift_def fork_expected_def Let_def split: option.splits if_splits)

text \<open>The observed state the service builds around a policy that someone has enabled.\<close>

definition enabled_policy :: policyState where
  "enabled_policy = \<lparr>ps_registry = ''0x1'', ps_agentIdentityHash = ''0x2'', ps_policyHash = ''0x3'', ps_enabled = True,
    ps_maxValueHardCap = ''1'', ps_bindingVersion = ''1'', ps_policyAdmin = ''0x4'', ps_blockNumber = ''9''\<rparr>"

definition enabled_state :: observedState where
  "enabled_state = \<lparr>os_policy = observed enabled_policy 1000 ''chain:31337'' 30000 None None, os_identity = None, os_contracts = [],
    os_administrators = None, os_runtimeImageDigest = None\<rparr>"

theorem fork_service_sees_no_policy_drift_witness:
  "\<not> reported POLICY_ENABLED_UNEXPECTEDLY (reconcile (fork_expected (os_policy enabled_state) ''0x4'' ''node'' ''0x5'') enabled_state 1000) \<and>
   reported POLICY_ENABLED_UNEXPECTEDLY
     (reconcile ((fork_expected (os_policy enabled_state) ''0x4'' ''node'' ''0x5'')\<lparr>ex_policyEnabled := False\<rparr>) enabled_state 1000)"
  using fork_service_sees_no_policy_drift [of enabled_state "''0x4''" "''node''" "''0x5''" 1000]
  by (simp add: reported_policy policy_drift_def enabled_state_def enabled_policy_def observed_def Let_def)

text \<open>
  A restart of the server loses alerts. The first alert of a new engine has the identifier of the first alert
  of the engine before it, so that writing it changes the row of the earlier problem: the table then has one row, with
  the rule, the subject and the fingerprint of the earlier problem and the reason and the state of
  the new one, and no row for the new problem.
\<close>

theorem restart_overwrites_alert:
  "\<exists>row. persistAlert (fst (snd (raise_alert sha args1 new_engine))) [] = Some [fst (snd (raise_alert sha args1 new_engine))] \<and>
    persistAlert (fst (snd (raise_alert sha args2 new_engine))) [fst (snd (raise_alert sha args1 new_engine))] = Some [row] \<and>
    al_rule row = ra_rule args1 \<and> al_subject row = ra_subject args1 \<and>
    al_fingerprint row = fingerprintOf sha (ra_rule args1) (ra_deploymentId args1) (ra_subject args1) \<and>
    al_reason row = ra_reason args2 \<and> al_severity row = ra_severity args2 \<and> al_state row = OPEN"
  by (simp add: raise_alert_def new_engine_def Let_def persistAlert_def overwrite_def fresh_alert_def open_unique_def)

text \<open>An acknowledgement of a resolved alert reopens it and leaves the record of its resolution in place.\<close>

lemma acknowledge_reopens:
  assumes "get_alert eng i = Some a"
  shows "\<exists>eng' a'. acknowledge i actor t eng = Inr (eng', a') \<and> al_state a' = ACKNOWLEDGED \<and> al_resolvedBy a' = al_resolvedBy a"
  using assms by (simp add: acknowledge_def Let_def)

end
