(* ===== verification/Runtime_Health.thy ===== *)
theory Runtime_Health
  imports Observations
begin

text \<open>
  Adapter health (\<open>packages/studio-control-plane/src/adapters.ts\<close>), the verdict on a runtime, the fence of
  runtime revisions and the LIVE badge (\<open>runtime.ts\<close>), and the badge as the fork service
  computes it (\<open>apps/studio/src/fork/service.ts\<close>, \<open>refresh\<close>).

  The reasons of a verdict are a datatype that keeps the numbers they print. The two latency percentiles of an
  adapter, which decide nothing, are left out. An error rate is a rational number.

  The theorems: what the LIVE badge entails about the chain, the runtime and the adapters; an adapter that
  is not called decays; and that a revision passes the fence only while it is the active one of its agent.
\<close>

section \<open>Adapter health\<close>

datatype adapterHealthState = AD_HEALTHY | AD_DEGRADED | AD_DISABLED | AD_UNKNOWN

record adapterHealthPolicy =
  hp_windowMs :: int
  hp_minSamples :: nat
  hp_degradedErrorRate :: rat
  hp_staleDataMs :: int
  hp_timeoutMs :: int

definition DEFAULT_ADAPTER_POLICY :: adapterHealthPolicy where
  "DEFAULT_ADAPTER_POLICY = \<lparr>hp_windowMs = 600000, hp_minSamples = 3, hp_degradedErrorRate = 1 / 5, hp_staleDataMs = 300000,
    hp_timeoutMs = 10000\<rparr>"

record sample =
  sm_atMs :: int
  sm_ok :: bool
  sm_latencyMs :: int
  sm_dataAtMs :: "int option"
  sm_reason :: "string option"

record adapterHealthService =
  hs_samples :: "(string \<times> sample list) list"
  hs_disabled :: "(string \<times> string) list"
  hs_versions :: "(string \<times> string) list"

record adapterHealth =
  ah_adapterId :: string
  ah_adapterVersion :: string
  ah_state :: adapterHealthState
  ah_lastSuccessAtMs :: "int option"
  ah_lastFailureAtMs :: "int option"
  ah_recentErrorRate :: rat
  ah_dataFreshnessMs :: "int option"
  ah_lastProviderReason :: "string option"
  ah_lastCheckedAtMs :: int
  ah_disabledReason :: "string option"

definition register :: "string \<Rightarrow> string \<Rightarrow> adapterHealthService \<Rightarrow> adapterHealthService" where
  "register adapterId version s =
    s\<lparr>hs_versions := map_set adapterId version (hs_versions s),
      hs_samples := (if map_of (hs_samples s) adapterId = None then map_set adapterId [] (hs_samples s) else hs_samples s)\<rparr>"

definition disable :: "string \<Rightarrow> string \<Rightarrow> adapterHealthService \<Rightarrow> adapterHealthService" where
  "disable adapterId reason s = s\<lparr>hs_disabled := map_set adapterId reason (hs_disabled s)\<rparr>"

definition enable :: "string \<Rightarrow> adapterHealthService \<Rightarrow> adapterHealthService" where
  "enable adapterId s = s\<lparr>hs_disabled := map_delete adapterId (hs_disabled s)\<rparr>"

definition samples_of :: "adapterHealthService \<Rightarrow> string \<Rightarrow> sample list" where
  "samples_of s adapterId = (case map_of (hs_samples s) adapterId of Some l \<Rightarrow> l | None \<Rightarrow> [])"

definition record_sample ::
    "adapterHealthPolicy \<Rightarrow> string \<Rightarrow> int \<Rightarrow> bool \<Rightarrow> int \<Rightarrow> int option \<Rightarrow> string option \<Rightarrow> adapterHealthService \<Rightarrow> adapterHealthService" where
  "record_sample policy adapterId atMs ok latencyMs dataAtMs reason s =
    (let ok' = (ok \<and> latencyMs \<le> hp_timeoutMs policy);
         x = \<lparr>sm_atMs = atMs, sm_ok = ok', sm_latencyMs = latencyMs, sm_dataAtMs = dataAtMs,
              sm_reason = (case reason of Some r \<Rightarrow> Some r | None \<Rightarrow> if ok' then None else Some ''call failed'')\<rparr> in
     s\<lparr>hs_samples := map_set adapterId
         (filter (\<lambda>y. atMs - sm_atMs y \<le> hp_windowMs policy) (samples_of s adapterId @ [x])) (hs_samples s)\<rparr>)"

text \<open>\<open>.sort((a, b) => b - a)[0] ?? null\<close>.\<close>

definition newest :: "int list \<Rightarrow> int option" where
  "newest xs = (case rev (sort xs) of [] \<Rightarrow> None | x # _ \<Rightarrow> Some x)"

definition window :: "adapterHealthPolicy \<Rightarrow> adapterHealthService \<Rightarrow> string \<Rightarrow> int \<Rightarrow> sample list" where
  "window policy s adapterId nowMs = filter (\<lambda>x. nowMs - sm_atMs x \<le> hp_windowMs policy) (samples_of s adapterId)"

definition error_rate :: "sample list \<Rightarrow> rat" where
  "error_rate all' = (if length all' = 0 then 0 else of_nat (length (filter (\<lambda>x. \<not> sm_ok x) all')) / of_nat (length all'))"

definition data_freshness :: "int \<Rightarrow> sample list \<Rightarrow> int option" where
  "data_freshness nowMs all' =
    map_option (\<lambda>d. max 0 (nowMs - d)) (newest (List.map_filter sm_dataAtMs (filter sm_ok all')))"

definition health :: "adapterHealthPolicy \<Rightarrow> adapterHealthService \<Rightarrow> string \<Rightarrow> int \<Rightarrow> adapterHealth" where
  "health policy s adapterId nowMs =
    (let all' = window policy s adapterId nowMs;
         disabledReason = map_of (hs_disabled s) adapterId;
         fresh = data_freshness nowMs all';
         rate = error_rate all' in
     \<lparr>ah_adapterId = adapterId, ah_adapterVersion = (case map_of (hs_versions s) adapterId of Some v \<Rightarrow> v | None \<Rightarrow> ''0.0.0''),
      ah_state = (if disabledReason \<noteq> None then AD_DISABLED
                  else if length all' < hp_minSamples policy then AD_UNKNOWN
                  else if hp_degradedErrorRate policy < rate then AD_DEGRADED
                  else if (case fresh of None \<Rightarrow> False | Some f \<Rightarrow> hp_staleDataMs policy < f) then AD_DEGRADED
                  else AD_HEALTHY),
      ah_lastSuccessAtMs = newest (map sm_atMs (filter sm_ok all')),
      ah_lastFailureAtMs = newest (map sm_atMs (filter (\<lambda>x. \<not> sm_ok x) all')),
      ah_recentErrorRate = rate, ah_dataFreshnessMs = fresh,
      ah_lastProviderReason = Option.bind (find (\<lambda>x. sm_reason x \<noteq> None) (rev all')) sm_reason,
      ah_lastCheckedAtMs = (case newest (map sm_atMs all') of Some t \<Rightarrow> t | None \<Rightarrow> nowMs),
      ah_disabledReason = disabledReason\<rparr>)"

definition unusable :: "adapterHealthPolicy \<Rightarrow> adapterHealthService \<Rightarrow> string list \<Rightarrow> int \<Rightarrow> adapterHealth list" where
  "unusable policy s required nowMs = filter (\<lambda>h. ah_state h \<noteq> AD_HEALTHY) (map (\<lambda>i. health policy s i nowMs) required)"

text \<open>Whether an adapter may be read and decided on; the reason is a text.\<close>

fun adapterUsage :: "adapterHealthState \<Rightarrow> bool \<times> bool" where
  "adapterUsage AD_HEALTHY = (True, True)"
| "adapterUsage AD_DEGRADED = (True, False)"
| "adapterUsage AD_DISABLED = (False, False)"
| "adapterUsage AD_UNKNOWN = (True, False)"

fun health_text :: "adapterHealthState \<Rightarrow> string" where
  "health_text AD_HEALTHY = ''HEALTHY''"
| "health_text AD_DEGRADED = ''DEGRADED''"
| "health_text AD_DISABLED = ''DISABLED''"
| "health_text AD_UNKNOWN = ''UNKNOWN''"

definition asObservation :: "(int \<Rightarrow> string) \<Rightarrow> adapterHealth \<Rightarrow> int \<Rightarrow> int \<Rightarrow> adapterHealth presentation" where
  "asObservation isoTime h nowMs ttlMs =
    presentable isoTime
      \<lparr>ob_state = (case ah_state h of AD_HEALTHY \<Rightarrow> HEALTHY | AD_DEGRADED \<Rightarrow> DEGRADED | AD_DISABLED \<Rightarrow> BLOCKED | AD_UNKNOWN \<Rightarrow> NOT_CONFIGURED),
       ob_value = Some h, ob_observedAtMs = ah_lastCheckedAtMs h, ob_source = ''adapter:'' @ ah_adapterId h, ob_ttlMs = ttlMs,
       ob_reason = (if ah_state h = AD_HEALTHY then None
         else case ah_disabledReason h of Some r \<Rightarrow> Some r
           | None \<Rightarrow> (case ah_lastProviderReason h of Some r \<Rightarrow> Some r | None \<Rightarrow> Some (health_text (ah_state h))))\<rparr>
      nowMs"

section \<open>The verdict on a runtime\<close>

datatype runtimeState =
    RT_PROVISIONING | RT_STARTING | RT_HEALTHY | RT_DEGRADED | RT_PAUSED | RT_STOPPING | RT_STOPPED | RT_CRASH_LOOP
  | RT_FAILED | RT_UNKNOWN

record runtimeObservationInputs =
  ri_containerRunning :: bool
  ri_containerHealth :: "string option"
  ri_restartsInWindow :: int
  ri_observedImageDigest :: "string option"
  ri_lastHeartbeatMs :: "int option"
  ri_controlPlaneReachable :: bool
  ri_modelGatewayReachable :: bool
  ri_adapterBrokerReachable :: bool
  ri_contextlockBrokerReachable :: bool
  ri_eventCursorAgeMs :: "int option"
  ri_credentialValid :: bool
  ri_credentialExpiresAtMs :: "int option"
  ri_strategyCheckpointAgeMs :: "int option"
  ri_paused :: bool
  ri_stopping :: bool
  ri_processStartedAtMs :: "int option"
  ri_nowMs :: int

record runtimeHealthPolicy =
  rp_heartbeatStaleAfterMs :: int
  rp_startupGraceMs :: int
  rp_eventCursorStaleAfterMs :: int
  rp_checkpointStaleAfterMs :: int
  rp_crashLoopRestarts :: int

definition DEFAULT_RUNTIME_POLICY :: runtimeHealthPolicy where
  "DEFAULT_RUNTIME_POLICY = \<lparr>rp_heartbeatStaleAfterMs = 30000, rp_startupGraceMs = 60000, rp_eventCursorStaleAfterMs = 300000,
    rp_checkpointStaleAfterMs = 600000, rp_crashLoopRestarts = 3\<rparr>"

datatype runtime_reason =
    Restarts int | PausedByOperator | ContainerNotRunning | BrokerUnreachable | ControlPlaneUnreachable
  | ModelGatewayUnreachable | AdapterBrokerUnreachable | CredentialInvalid | CredentialExpired | CursorBehind int
  | CheckpointOld int | NoHeartbeat | HeartbeatOld int

record runtimeHealthVerdict =
  rv_state :: runtimeState
  rv_reasons :: "runtime_reason list"
  rv_mayStartNewWork :: bool

definition verdict :: "runtimeState \<Rightarrow> runtime_reason list \<Rightarrow> bool \<Rightarrow> runtimeHealthVerdict" where
  "verdict st rs may = \<lparr>rv_state = st, rv_reasons = rs, rv_mayStartNewWork = may\<rparr>"

definition running_reasons :: "runtimeObservationInputs \<Rightarrow> runtimeHealthPolicy \<Rightarrow> runtime_reason list" where
  "running_reasons i policy =
    (if \<not> ri_contextlockBrokerReachable i then [BrokerUnreachable] else []) @
    (if \<not> ri_controlPlaneReachable i then [ControlPlaneUnreachable] else []) @
    (if \<not> ri_modelGatewayReachable i then [ModelGatewayUnreachable] else []) @
    (if \<not> ri_adapterBrokerReachable i then [AdapterBrokerUnreachable] else []) @
    (if \<not> ri_credentialValid i then [CredentialInvalid]
     else case ri_credentialExpiresAtMs i of Some t \<Rightarrow> if t \<le> ri_nowMs i then [CredentialExpired] else [] | None \<Rightarrow> []) @
    (case ri_eventCursorAgeMs i of
       Some a \<Rightarrow> if rp_eventCursorStaleAfterMs policy < a then [CursorBehind ((a + 500) div 1000)] else [] | None \<Rightarrow> []) @
    (case ri_strategyCheckpointAgeMs i of
       Some a \<Rightarrow> if rp_checkpointStaleAfterMs policy < a then [CheckpointOld ((a + 500) div 1000)] else [] | None \<Rightarrow> [])"

definition evaluateRuntime :: "runtimeObservationInputs \<Rightarrow> runtimeHealthPolicy \<Rightarrow> runtimeHealthVerdict" where
  "evaluateRuntime i policy =
    (if rp_crashLoopRestarts policy \<le> ri_restartsInWindow i then verdict RT_CRASH_LOOP [Restarts (ri_restartsInWindow i)] False
     else if ri_stopping i then verdict RT_STOPPING [] False
     else if \<not> ri_containerRunning i
     then verdict (if ri_paused i then RT_PAUSED else RT_STOPPED) (if ri_paused i then [PausedByOperator] else [ContainerNotRunning]) False
     else if ri_paused i then verdict RT_PAUSED [PausedByOperator] False
     else
       let reasons = running_reasons i policy;
           uptime = (case ri_processStartedAtMs i of None \<Rightarrow> 0 | Some t \<Rightarrow> ri_nowMs i - t) in
       case ri_lastHeartbeatMs i of
         None \<Rightarrow> if uptime < rp_startupGraceMs policy then verdict RT_STARTING reasons False
                 else verdict RT_FAILED (reasons @ [NoHeartbeat]) False
       | Some hb \<Rightarrow>
           let late = (if rp_heartbeatStaleAfterMs policy < ri_nowMs i - hb then [HeartbeatOld ((ri_nowMs i - hb + 500) div 1000)] else []) in
           if 0 < length (reasons @ late) then verdict RT_DEGRADED (reasons @ late) False
           else verdict RT_HEALTHY [] True)"

text \<open>\<open>reason_text\<close> prints a reason.\<close>

definition runtimeObservation ::
    "(runtime_reason \<Rightarrow> string) \<Rightarrow> runtimeHealthVerdict \<Rightarrow> int \<Rightarrow> int \<Rightarrow> runtimeHealthVerdict observation" where
  "runtimeObservation reason_text v atMs ttlMs =
    (if rv_state v = RT_UNKNOWN then unavailable NOT_CONFIGURED atMs ''runtime'' ttlMs ''the runtime has not been observed''
     else observed v atMs ''runtime'' ttlMs
       (Some (if rv_state v = RT_HEALTHY then HEALTHY else if rv_state v = RT_PAUSED \<or> rv_state v = RT_STOPPED then BLOCKED else DEGRADED))
       (if 0 < length (rv_reasons v) then Some (join ''; '' (map reason_text (rv_reasons v))) else None))"

section \<open>The revision fence\<close>

record fencedRevision =
  fr_revisionId :: string
  fr_fencedAtMs :: int
  fr_reason :: string
  fr_supersededBy :: string

record revisionFence =
  rf_active :: "(string \<times> string) list"
  rf_fenced :: "(string \<times> fencedRevision) list"

definition new_fence :: revisionFence where
  "new_fence = \<lparr>rf_active = [], rf_fenced = []\<rparr>"

datatype fenceReason = FENCED | NOT_ACTIVE

definition activate :: "int \<Rightarrow> string \<Rightarrow> string \<Rightarrow> string \<Rightarrow> revisionFence \<Rightarrow> revisionFence \<times> fencedRevision option" where
  "activate nowMs agentId revisionId reason f =
    (let previous = map_of (rf_active f) agentId;
         f' = f\<lparr>rf_active := map_set agentId revisionId (rf_active f), rf_fenced := map_delete revisionId (rf_fenced f)\<rparr> in
     case previous of
       None \<Rightarrow> (f', None)
     | Some p \<Rightarrow>
         if p = [] \<or> p = revisionId then (f', None)
         else let fr = \<lparr>fr_revisionId = p, fr_fencedAtMs = nowMs, fr_reason = reason, fr_supersededBy = revisionId\<rparr>
              in (f'\<lparr>rf_fenced := map_set p fr (rf_fenced f')\<rparr>, Some fr))"

definition isFenced :: "revisionFence \<Rightarrow> string \<Rightarrow> bool" where
  "isFenced f revisionId = (map_of (rf_fenced f) revisionId \<noteq> None)"

definition fencedRevisions :: "revisionFence \<Rightarrow> fencedRevision list" where
  "fencedRevisions f = sort_key fr_fencedAtMs (map snd (rf_fenced f))"

definition assertActive :: "revisionFence \<Rightarrow> string \<Rightarrow> string \<Rightarrow> fenceReason + unit" where
  "assertActive f agentId revisionId =
    (if map_of (rf_fenced f) revisionId \<noteq> None then Inl FENCED
     else if map_of (rf_active f) agentId \<noteq> Some revisionId then Inl NOT_ACTIVE else Inr ())"

section \<open>The LIVE badge\<close>

record livenessInputs =
  li_runtime :: runtimeState
  li_policyEnabled :: "bool option"
  li_policyIsCurrent :: bool
  li_identityActive :: "bool option"
  li_requiredAdapters :: "adapterHealth list"
  li_creRequired :: bool
  li_creActive :: "bool option"

datatype not_live =
    RuntimeIs runtimeState | PolicyUnknown | PolicyDisabled | PolicyNotCurrent | IdentityUnknown | IdentityInactive
  | AdapterIs string adapterHealthState | CreUnknown | CreInactive

definition agentIsLive :: "livenessInputs \<Rightarrow> bool \<times> not_live list" where
  "agentIsLive i =
    (let reasons =
       (if li_runtime i \<noteq> RT_HEALTHY then [RuntimeIs (li_runtime i)] else []) @
       (case li_policyEnabled i of None \<Rightarrow> [PolicyUnknown] | Some e \<Rightarrow> if \<not> e then [PolicyDisabled] else []) @
       (if \<not> li_policyIsCurrent i then [PolicyNotCurrent] else []) @
       (case li_identityActive i of None \<Rightarrow> [IdentityUnknown] | Some e \<Rightarrow> if \<not> e then [IdentityInactive] else []) @
       map (\<lambda>a. AdapterIs (ah_adapterId a) (ah_state a)) (filter (\<lambda>a. ah_state a \<noteq> AD_HEALTHY) (li_requiredAdapters i)) @
       (if li_creRequired i
        then case li_creActive i of None \<Rightarrow> [CreUnknown] | Some e \<Rightarrow> if \<not> e then [CreInactive] else []
        else [])
     in (length reasons = 0, reasons))"

text \<open>The badge of the fork service: the runtime it runs, the two chain observations, and every adapter but
  the execution adapter.\<close>

definition fork_live ::
    "(int \<Rightarrow> string) \<Rightarrow> runtimeHealthVerdict \<Rightarrow> policyState observation \<Rightarrow> identityState observation option \<Rightarrow>
     adapterHealth list \<Rightarrow> int \<Rightarrow> bool \<times> not_live list" where
  "fork_live isoTime rt policy identity adapters now =
    agentIsLive \<lparr>li_runtime = rv_state rt, li_policyEnabled = map_option ps_enabled (ob_value policy),
      li_policyIsCurrent = pr_isCurrent (presentable isoTime policy now),
      li_identityActive = map_option (\<lambda>v. \<not> is_revoked v) (Option.bind identity ob_value),
      li_requiredAdapters = filter (\<lambda>a. ah_adapterId a \<noteq> ''aave-v3-execution'') adapters,
      li_creRequired = False, li_creActive = None\<rparr>"

section \<open>What the badge entails\<close>

lemma running_reasons_empty:
  "running_reasons i policy = [] \<longleftrightarrow>
    ri_contextlockBrokerReachable i \<and> ri_controlPlaneReachable i \<and> ri_modelGatewayReachable i \<and> ri_adapterBrokerReachable i \<and>
    ri_credentialValid i \<and> (case ri_credentialExpiresAtMs i of None \<Rightarrow> True | Some t \<Rightarrow> ri_nowMs i < t) \<and>
    (case ri_eventCursorAgeMs i of None \<Rightarrow> True | Some a \<Rightarrow> a \<le> rp_eventCursorStaleAfterMs policy) \<and>
    (case ri_strategyCheckpointAgeMs i of None \<Rightarrow> True | Some a \<Rightarrow> a \<le> rp_checkpointStaleAfterMs policy)"
  by (auto simp: running_reasons_def split: option.splits if_splits)

lemma runtime_healthy_iff:
  "rv_state (evaluateRuntime i policy) = RT_HEALTHY \<longleftrightarrow>
    ri_restartsInWindow i < rp_crashLoopRestarts policy \<and> \<not> ri_stopping i \<and> ri_containerRunning i \<and> \<not> ri_paused i \<and>
    running_reasons i policy = [] \<and>
    (case ri_lastHeartbeatMs i of None \<Rightarrow> False | Some hb \<Rightarrow> ri_nowMs i - hb \<le> rp_heartbeatStaleAfterMs policy)"
  by (auto simp: evaluateRuntime_def verdict_def Let_def not_less split: option.splits)

lemma new_work_iff: "rv_mayStartNewWork (evaluateRuntime i policy) \<longleftrightarrow> rv_state (evaluateRuntime i policy) = RT_HEALTHY"
  by (auto simp: evaluateRuntime_def verdict_def Let_def split: option.splits)

lemma agentIsLive_iff:
  "fst (agentIsLive i) \<longleftrightarrow> li_runtime i = RT_HEALTHY \<and> li_policyEnabled i = Some True \<and> li_policyIsCurrent i \<and>
    li_identityActive i = Some True \<and> list_all (\<lambda>a. ah_state a = AD_HEALTHY) (li_requiredAdapters i) \<and>
    (li_creRequired i \<longrightarrow> li_creActive i = Some True)"
  by (auto simp: agentIsLive_def Let_def list_all_iff filter_empty_conv split: option.splits if_splits)

text \<open>
  C24: When the LIVE badge is shown, exactly. The chain itself answered that the policy is enabled, not longer ago than
  the freshness window; it answered that the identity is not revoked; the container runs, is neither
  paused nor stopping nor in a crash loop, reaches the four gateways, has a valid credential that has not
  expired, a fresh event cursor and checkpoint and a recent heartbeat; and every adapter but the
  execution adapter is healthy.
\<close>

theorem live_badge_is_earned:
  "fst (fork_live isoTime (evaluateRuntime i rp) (readPolicyState w ttls atMs registry agent policy)
         (Some (readIdentityState w ttls atMs name node)) adapters now) \<longleftrightarrow>
    (\<exists>block p r. cw_getBlockNumber w = Inr block \<and> cw_readPolicy w registry agent policy = Inr p \<and> pa_enabled p \<and>
       cw_resolveIdentity w node = Inr r \<and> \<not> ia_revoked r) \<and>
    now - atMs \<le> ttl_or (ot_policy ttls) DEFAULT_TTL_policy \<and>
    ri_restartsInWindow i < rp_crashLoopRestarts rp \<and> \<not> ri_stopping i \<and> ri_containerRunning i \<and> \<not> ri_paused i \<and>
    ri_contextlockBrokerReachable i \<and> ri_controlPlaneReachable i \<and> ri_modelGatewayReachable i \<and> ri_adapterBrokerReachable i \<and>
    ri_credentialValid i \<and> (case ri_credentialExpiresAtMs i of None \<Rightarrow> True | Some t \<Rightarrow> ri_nowMs i < t) \<and>
    (case ri_eventCursorAgeMs i of None \<Rightarrow> True | Some a \<Rightarrow> a \<le> rp_eventCursorStaleAfterMs rp) \<and>
    (case ri_strategyCheckpointAgeMs i of None \<Rightarrow> True | Some a \<Rightarrow> a \<le> rp_checkpointStaleAfterMs rp) \<and>
    (case ri_lastHeartbeatMs i of None \<Rightarrow> False | Some hb \<Rightarrow> ri_nowMs i - hb \<le> rp_heartbeatStaleAfterMs rp) \<and>
    list_all (\<lambda>a. ah_state a = AD_HEALTHY) (filter (\<lambda>a. ah_adapterId a \<noteq> ''aave-v3-execution'') adapters)"
proof -
  let ?p = "readPolicyState w ttls atMs registry agent policy" and ?i = "readIdentityState w ttls atMs name node"
  have p: "map_option ps_enabled (ob_value ?p) = Some True \<and> pr_isCurrent (presentable isoTime ?p now) \<longleftrightarrow>
      (\<exists>block p. cw_getBlockNumber w = Inr block \<and> cw_readPolicy w registry agent policy = Inr p \<and> pa_enabled p) \<and>
      now - atMs \<le> ttl_or (ot_policy ttls) DEFAULT_TTL_policy"
    by (cases "cw_getBlockNumber w"; cases "cw_readPolicy w registry agent policy") (auto simp: readPolicyState_def reading_defs)
  have i: "map_option (\<lambda>v. \<not> is_revoked v) (Option.bind (Some ?i) ob_value) = Some True \<longleftrightarrow>
      (\<exists>block r. cw_getBlockNumber w = Inr block \<and> cw_resolveIdentity w node = Inr r \<and> \<not> ia_revoked r)"
    by (cases "cw_getBlockNumber w"; cases "cw_resolveIdentity w node") (auto simp: readIdentityState_def reading_defs)
  show ?thesis
    using p i by (simp only: fork_live_def agentIsLive_iff livenessInputs.simps runtime_healthy_iff running_reasons_empty) blast
qed

text \<open>An adapter nobody has called within the window is not one to decide on.\<close>

lemma unused_adapter_decays:
  assumes "\<forall>x \<in> set (samples_of s i). hp_windowMs policy < now - sm_atMs x" and "0 < hp_minSamples policy"
  shows "ah_state (health policy s i now) \<in> {AD_DISABLED, AD_UNKNOWN} \<and> \<not> snd (adapterUsage (ah_state (health policy s i now)))"
proof -
  have "window policy s i now = []" using assms(1) by (auto simp: window_def filter_empty_conv not_le)
  with assms(2) show ?thesis by (auto simp: health_def Let_def)
qed

section \<open>The fence over any sequence of activations\<close>

type_synonym activation = "int \<times> string \<times> string \<times> string"

definition run_fence :: "activation list \<Rightarrow> revisionFence \<Rightarrow> revisionFence" where
  "run_fence acts f = fold (\<lambda>(t, agent, rv, reason) f. fst (activate t agent rv reason f)) acts f"

lemma activate_active: "map_of (rf_active (fst (activate t agent rv reason f))) = (map_of (rf_active f))(agent \<mapsto> rv)"
  by (simp add: activate_def Let_def map_of_map_set split: option.splits)

lemma activate_fenced:
  "map_of (rf_fenced (fst (activate t agent rv reason f))) r \<noteq> None \<longleftrightarrow>
    r \<noteq> rv \<and> (map_of (rf_fenced f) r \<noteq> None \<or> r \<noteq> [] \<and> map_of (rf_active f) agent = Some r)"
  by (auto simp: activate_def Let_def map_of_map_set map_of_map_delete split: option.splits)

lemma run_fence_snoc: "run_fence (acts @ [(t, agent, rv, reason)]) f = fst (activate t agent rv reason (run_fence acts f))"
  by (simp add: run_fence_def)

lemma fenced_stays:
  assumes "map_of (rf_fenced f) rv \<noteq> None" and "list_all (\<lambda>(t, agent, r, reason). r \<noteq> rv) acts"
  shows "map_of (rf_fenced (run_fence acts f)) rv \<noteq> None"
  using assms
proof (induction acts rule: rev_induct)
  case Nil
  then show ?case by (simp add: run_fence_def)
next
  case (snoc act acts)
  then show ?case by (cases act) (auto simp: run_fence_snoc activate_fenced simp del: not_None_eq)
qed

text \<open>
  C25: A revision that was replaced is powerless. Once an agent's active revision is replaced by another one, every
  check of the old revision, for this agent or any other and after any further activations, is refused as
  fenced until somebody activates that revision again.
\<close>

theorem replaced_revision_is_powerless:
  assumes "map_of (rf_active f) agent = Some rv" and "rv \<noteq> []" and "rv' \<noteq> rv"
    and "list_all (\<lambda>(t, a, r, reason). r \<noteq> rv) later"
  shows "assertActive (run_fence later (fst (activate t agent rv' reason f))) any rv = Inl FENCED"
proof -
  have "map_of (rf_fenced (fst (activate t agent rv' reason f))) rv \<noteq> None"
    using assms(1-3) by (simp add: activate_fenced del: not_None_eq)
  from fenced_stays [OF this assms(4)] show ?thesis by (simp add: assertActive_def)
qed

theorem replaced_revision_is_powerless_witness:
  "assertActive (run_fence [(3, ''a'', ''r3'', ''again'')]
     (fst (activate 2 ''a'' ''r2'' ''newer'' (run_fence [(1, ''a'', ''r1'', ''first'')] new_fence)))) ''a'' ''r1'' = Inl FENCED"
proof -
  have "map_of (rf_active (run_fence [(1, ''a'', ''r1'', ''first'')] new_fence)) ''a'' = Some ''r1''"
    by (simp add: run_fence_def activate_active)
  from replaced_revision_is_powerless [OF this, of "''r2''" "[(3, ''a'', ''r3'', ''again'')]" 2 "''newer''" "''a''"] show ?thesis
    by simp
qed

text \<open>A revision that passes the check was the last one activated for that agent.\<close>

lemma passes_only_active:
  assumes "assertActive (run_fence acts new_fence) agent rv = Inr ()"
  shows "\<exists>before t reason after. acts = before @ (t, agent, rv, reason) # after \<and> agent \<notin> (\<lambda>act. fst (snd act)) ` set after"
proof -
  have "map_of (rf_active (run_fence acts new_fence)) agent = Some rv" using assms by (auto simp: assertActive_def split: if_splits)
  then show ?thesis
  proof (induction acts rule: rev_induct)
    case Nil
    then show ?case by (simp add: run_fence_def new_fence_def)
  next
    case (snoc act acts)
    obtain t a r x where act: "act = (t, a, r, x)" by (cases act) auto
    show ?case
    proof (cases "a = agent")
      case True
      then show ?thesis using snoc.prems act by (intro exI [of _ acts]) (auto simp: run_fence_snoc activate_active)
    next
      case False
      with snoc act obtain before' t' x' after' where
        "acts = before' @ (t', agent, rv, x') # after'" "agent \<notin> (\<lambda>act. fst (snd act)) ` set after'"
        by (auto simp: run_fence_snoc activate_active)
      with act False show ?thesis by (intro exI [of _ before'] exI [of _ t'] exI [of _ x'] exI [of _ "after' @ [act]"]) auto
    qed
  qed
qed

text \<open>
  The fence is keyed by the revision alone. If two agents run the same revision, moving one of them to
  another revision fences the other one as well, although that revision is still its active one.
\<close>

theorem shared_revision_is_fenced:
  assumes "map_of (rf_active f) a = Some rv" and "map_of (rf_active f) b = Some rv" and "a \<noteq> b" and "rv \<noteq> []" and "rv' \<noteq> rv"
  shows "map_of (rf_active (fst (activate t a rv' reason f))) b = Some rv \<and>
    assertActive (fst (activate t a rv' reason f)) b rv = Inl FENCED"
  using assms activate_fenced [of t a rv' reason f rv] by (simp add: activate_active assertActive_def)

theorem shared_revision_is_fenced_witness:
  "assertActive (fst (activate 3 ''a'' ''r2'' ''newer'' (run_fence [(1, ''a'', ''r1'', ''x''), (2, ''b'', ''r1'', ''x'')] new_fence))) ''b'' ''r1'' = Inl FENCED"
proof -
  let ?f = "run_fence [(1, ''a'', ''r1'', ''x''), (2, ''b'', ''r1'', ''x'')] new_fence"
  have "map_of (rf_active ?f) ''a'' = Some ''r1''" "map_of (rf_active ?f) ''b'' = Some ''r1''"
    by (simp_all add: run_fence_def activate_active)
  from shared_revision_is_fenced [OF this, of "''r2''" 3 "''newer''"] show ?thesis by simp
qed

end
