(* ===== verification/Commands.thy ===== *)
theory Commands
  imports Canonical
begin

text \<open>
  Control commands (\<open>packages/studio-control-plane/src/commands.ts\<close>), the table they are recorded in
  (\<open>apps/studio/src/control/store.ts\<close>) and the route that issues them (\<open>apps/studio/src/control/api.ts\<close>).

  SHA-256 (\<open>sha256Hex\<close>) and the decimal text of a number (\<open>num\<close>) are arguments. A request carries what the world
  answers while it is handled: the random identifier, the two clock readings, what \<open>refresh\<close> reads and
  what \<open>execute\<close> does. The last scan of a response for secrets happens after everything else and is not modelled.

  The theorems are about every sequence of requests: what is executed was authorized, fresh and confirmed, and no intent is
  executed twice. Two of them show limits: an intent is never executed again at the same revision,
  whatever became of it, and the route does not tell the validation that an emergency lock is in force.
\<close>

section \<open>Commands\<close>

datatype operatorCapability = VIEW | RUNTIME_CONTROL | CRE_CONTROL | POLICY_CONTROL | IDENTITY_CONTROL | EMERGENCY_CONTROL

datatype controlOperation =
    PAUSE_RUNTIME | RESUME_RUNTIME | ROLLBACK_RUNTIME | ROTATE_RUNTIME_REVISION | PAUSE_CRE | ACTIVATE_CRE | DELETE_CRE
  | DISABLE_POLICY | ENABLE_POLICY | REVOKE_IDENTITY | EMERGENCY_LOCK

record requirement =
  rq_capability :: operatorCapability
  rq_affects :: string
  rq_destructive :: bool
  rq_isFinancialStop :: bool

definition mk_req :: "operatorCapability \<Rightarrow> string \<Rightarrow> bool \<Rightarrow> bool \<Rightarrow> requirement" where
  "mk_req c a d f = \<lparr>rq_capability = c, rq_affects = a, rq_destructive = d, rq_isFinancialStop = f\<rparr>"

fun OPERATION_REQUIREMENTS :: "controlOperation \<Rightarrow> requirement" where
  "OPERATION_REQUIREMENTS PAUSE_RUNTIME = mk_req RUNTIME_CONTROL ''the agent process only'' False False"
| "OPERATION_REQUIREMENTS RESUME_RUNTIME = mk_req RUNTIME_CONTROL ''the agent process only'' False False"
| "OPERATION_REQUIREMENTS ROLLBACK_RUNTIME = mk_req RUNTIME_CONTROL ''which image revision runs'' False False"
| "OPERATION_REQUIREMENTS ROTATE_RUNTIME_REVISION = mk_req RUNTIME_CONTROL ''which image revision runs'' False False"
| "OPERATION_REQUIREMENTS PAUSE_CRE = mk_req CRE_CONTROL ''the workflow's response to triggers'' False False"
| "OPERATION_REQUIREMENTS ACTIVATE_CRE = mk_req CRE_CONTROL ''the workflow's response to triggers'' False False"
| "OPERATION_REQUIREMENTS DELETE_CRE = mk_req CRE_CONTROL ''the workflow registration, permanently'' True False"
| "OPERATION_REQUIREMENTS DISABLE_POLICY = mk_req POLICY_CONTROL ''this agent's authority to move value'' False True"
| "OPERATION_REQUIREMENTS ENABLE_POLICY = mk_req POLICY_CONTROL ''this agent's authority to move value'' False False"
| "OPERATION_REQUIREMENTS REVOKE_IDENTITY = mk_req IDENTITY_CONTROL ''the agent's onchain identity binding'' True False"
| "OPERATION_REQUIREMENTS EMERGENCY_LOCK = mk_req EMERGENCY_CONTROL ''policy, capabilities, CRE and runtime, in that order'' False True"

definition OPERATIONS :: "(string \<times> controlOperation) list" where
  "OPERATIONS =
    [(''PAUSE_RUNTIME'', PAUSE_RUNTIME), (''RESUME_RUNTIME'', RESUME_RUNTIME), (''ROLLBACK_RUNTIME'', ROLLBACK_RUNTIME),
     (''ROTATE_RUNTIME_REVISION'', ROTATE_RUNTIME_REVISION), (''PAUSE_CRE'', PAUSE_CRE), (''ACTIVATE_CRE'', ACTIVATE_CRE),
     (''DELETE_CRE'', DELETE_CRE), (''DISABLE_POLICY'', DISABLE_POLICY), (''ENABLE_POLICY'', ENABLE_POLICY),
     (''REVOKE_IDENTITY'', REVOKE_IDENTITY), (''EMERGENCY_LOCK'', EMERGENCY_LOCK)]"

definition CAPABILITIES :: "(string \<times> operatorCapability) list" where
  "CAPABILITIES =
    [(''VIEW'', VIEW), (''RUNTIME_CONTROL'', RUNTIME_CONTROL), (''CRE_CONTROL'', CRE_CONTROL), (''POLICY_CONTROL'', POLICY_CONTROL),
     (''IDENTITY_CONTROL'', IDENTITY_CONTROL), (''EMERGENCY_CONTROL'', EMERGENCY_CONTROL)]"

definition operation_text :: "controlOperation \<Rightarrow> string" where
  "operation_text o' = (case find (\<lambda>e. snd e = o') OPERATIONS of Some e \<Rightarrow> fst e | None \<Rightarrow> [])"

record actor =
  ac_actorId :: string
  ac_displayName :: string
  ac_capabilities :: "operatorCapability list"

record command_target =
  tg_agentId :: "string option"
  tg_runtimeRevision :: "string option"
  tg_creWorkflowName :: "string option"
  tg_policyHash :: "string option"
  tg_identityNode :: "string option"

record controlCommand =
  cm_commandId :: string
  cm_projectId :: string
  cm_deploymentId :: string
  cm_actor :: actor
  cm_operation :: controlOperation
  cm_target :: command_target
  cm_expectedRevision :: string
  cm_issuedAtMs :: int
  cm_expiresAtMs :: int
  cm_idempotencyKey :: string
  cm_confirmation :: "(string \<times> json) list option"
  cm_reason :: "string option"

definition target_json :: "command_target \<Rightarrow> json" where
  "target_json t =
    JObj [(''agentId'', j_nullable JStr (tg_agentId t)), (''runtimeRevision'', j_nullable JStr (tg_runtimeRevision t)),
          (''creWorkflowName'', j_nullable JStr (tg_creWorkflowName t)), (''policyHash'', j_nullable JStr (tg_policyHash t)),
          (''identityNode'', j_nullable JStr (tg_identityNode t))]"

definition derived_key :: "(string \<Rightarrow> string) \<Rightarrow> (jsnum \<Rightarrow> string) \<Rightarrow> string \<Rightarrow> controlOperation \<Rightarrow> command_target \<Rightarrow> string \<Rightarrow> string" where
  "derived_key sha256Hex num deploymentId op target expectedRevision =
    ''idem_'' @ take 32 (sha256Hex (stringify num
      (JArr [JStr deploymentId, JStr (operation_text op), target_json target, JStr expectedRevision])))"

text \<open>\<open>newCommand\<close>; the command's own identifier field of the arguments is ignored.\<close>

definition newCommand ::
    "(string \<Rightarrow> string) \<Rightarrow> (jsnum \<Rightarrow> string) \<Rightarrow> string \<Rightarrow> controlCommand \<Rightarrow> string option \<Rightarrow> controlCommand" where
  "newCommand sha256Hex num uuid args key =
    args\<lparr>cm_commandId := ''cmd_'' @ uuid,
      cm_idempotencyKey := (case key of Some k \<Rightarrow> k
        | None \<Rightarrow> derived_key sha256Hex num (cm_deploymentId args) (cm_operation args) (cm_target args) (cm_expectedRevision args))\<rparr>"

datatype commandReason =
    NOT_AUTHORIZED | STALE_REVISION | EXPIRED | MALFORMED | CONFIRMATION_REQUIRED | PRECONDITION_FAILED
  | CRE_REQUIRED_NOT_DEPLOYED | EMERGENCY_LOCK_ACTIVE

text \<open>What the schema demands beyond the types.\<close>

definition command_parses :: "controlCommand \<Rightarrow> bool" where
  "command_parses c =
    (1 \<le> length (cm_commandId c) \<and> 1 \<le> length (cm_projectId c) \<and> 1 \<le> length (cm_deploymentId c) \<and>
     1 \<le> length (ac_actorId (cm_actor c)) \<and> 1 \<le> length (ac_displayName (cm_actor c)) \<and> 1 \<le> length (cm_expectedRevision c) \<and>
     0 < cm_issuedAtMs c \<and> 0 < cm_expiresAtMs c \<and> 8 \<le> length (cm_idempotencyKey c) \<and>
     (case cm_reason c of None \<Rightarrow> True | Some r \<Rightarrow> length r \<le> 500))"

definition assertCommandValid :: "controlCommand \<Rightarrow> string \<Rightarrow> int \<Rightarrow> bool \<Rightarrow> commandReason + unit" where
  "assertCommandValid cmd currentRevision nowMs emergencyLockActive =
    (let req = OPERATION_REQUIREMENTS (cm_operation cmd) in
     res_bind (ensure (command_parses cmd) MALFORMED) (\<lambda>_.
     res_bind (ensure (rq_capability req \<in> set (ac_capabilities (cm_actor cmd))) NOT_AUTHORIZED) (\<lambda>_.
     res_bind (ensure (nowMs \<le> cm_expiresAtMs cmd) EXPIRED) (\<lambda>_.
     res_bind (ensure (cm_expectedRevision cmd = currentRevision) STALE_REVISION) (\<lambda>_.
     res_bind (ensure (\<not> (rq_destructive req \<and> cm_confirmation cmd = None)) CONFIRMATION_REQUIRED) (\<lambda>_.
     ensure (\<not> (emergencyLockActive \<and> (cm_operation cmd = ENABLE_POLICY \<or> cm_operation cmd = ACTIVATE_CRE \<or> cm_operation cmd = RESUME_RUNTIME)))
       EMERGENCY_LOCK_ACTIVE))))))"

section \<open>The command log in memory\<close>

datatype outcome = PENDING | APPLIED | REJECTED | FAILED

record commandRecord =
  cr_commandId :: string
  cr_idempotencyKey :: string
  cr_operation :: controlOperation
  cr_actorId :: string
  cr_issuedAtMs :: int
  cr_completedAtMs :: "int option"
  cr_outcome :: outcome
  cr_detail :: "string option"
  cr_result :: json

text \<open>The two maps share their records: \<open>byId\<close> leads to the key under which the record is.\<close>

record commandLog =
  cl_byKey :: "(string \<times> commandRecord) list"
  cl_byId :: "(string \<times> string) list"

definition log_begin :: "controlCommand \<Rightarrow> int \<Rightarrow> commandLog \<Rightarrow> commandLog \<times> commandRecord option" where
  "log_begin cmd nowMs l =
    (case map_of (cl_byKey l) (cm_idempotencyKey cmd) of
       Some existing \<Rightarrow> (l, Some existing)
     | None \<Rightarrow>
         let rec' = \<lparr>cr_commandId = cm_commandId cmd, cr_idempotencyKey = cm_idempotencyKey cmd, cr_operation = cm_operation cmd,
               cr_actorId = ac_actorId (cm_actor cmd), cr_issuedAtMs = nowMs, cr_completedAtMs = None, cr_outcome = PENDING,
               cr_detail = None, cr_result = JNull\<rparr> in
         (\<lparr>cl_byKey = map_set (cm_idempotencyKey cmd) rec' (cl_byKey l),
           cl_byId = map_set (cm_commandId cmd) (cm_idempotencyKey cmd) (cl_byId l)\<rparr>, None))"

definition log_complete ::
    "controlCommand \<Rightarrow> outcome \<Rightarrow> string \<Rightarrow> json \<Rightarrow> int \<Rightarrow> commandLog \<Rightarrow> commandReason + commandLog \<times> commandRecord" where
  "log_complete cmd out detail result nowMs l =
    (case map_of (cl_byKey l) (cm_idempotencyKey cmd) of
       None \<Rightarrow> Inl MALFORMED
     | Some r \<Rightarrow>
         let r' = r\<lparr>cr_outcome := out, cr_detail := Some detail, cr_result := result, cr_completedAtMs := Some nowMs\<rparr> in
         Inr (l\<lparr>cl_byKey := map_set (cm_idempotencyKey cmd) r' (cl_byKey l)\<rparr>, r'))"

definition log_get :: "commandLog \<Rightarrow> string \<Rightarrow> commandRecord option" where
  "log_get l commandId = Option.bind (map_of (cl_byId l) commandId) (map_of (cl_byKey l))"

definition log_byIdempotencyKey :: "commandLog \<Rightarrow> string \<Rightarrow> commandRecord option" where
  "log_byIdempotencyKey l key = map_of (cl_byKey l) key"

text \<open>\<open>runtimePauseClaim\<close>: whether the pause secured the money, and the warning.\<close>

datatype pause_warning = PolicyStateUnknown | PolicyStillEnabled

definition runtimePauseClaim :: "bool option \<Rightarrow> bool \<times> pause_warning option" where
  "runtimePauseClaim policyEnabledOnChain =
    (case policyEnabledOnChain of
       None \<Rightarrow> (False, Some PolicyStateUnknown)
     | Some e \<Rightarrow> (\<not> e, if e then Some PolicyStillEnabled else None))"

section \<open>The table of commands\<close>

text \<open>A row as the route reads it back; the columns that nothing reads are left out. Both the command's id and the key
  are unique in the table.\<close>

definition beginCommand :: "controlCommand \<Rightarrow> commandRecord list \<Rightarrow> (commandRecord list \<times> commandRecord option) option" where
  "beginCommand cmd rows =
    (case find (\<lambda>r. cr_idempotencyKey r = cm_idempotencyKey cmd) rows of
       Some existing \<Rightarrow> Some (rows, Some existing)
     | None \<Rightarrow>
         if list_ex (\<lambda>r. cr_commandId r = cm_commandId cmd) rows then None
         else Some (rows @ [\<lparr>cr_commandId = cm_commandId cmd, cr_idempotencyKey = cm_idempotencyKey cmd, cr_operation = cm_operation cmd,
               cr_actorId = ac_actorId (cm_actor cmd), cr_issuedAtMs = cm_issuedAtMs cmd, cr_completedAtMs = None, cr_outcome = PENDING,
               cr_detail = None, cr_result = JNull\<rparr>], None))"

definition completeCommand :: "controlCommand \<Rightarrow> outcome \<Rightarrow> string \<Rightarrow> json \<Rightarrow> int \<Rightarrow> commandRecord list \<Rightarrow> commandRecord list" where
  "completeCommand cmd out detail result nowMs rows =
    map (\<lambda>r. if cr_commandId r = cm_commandId cmd
             then r\<lparr>cr_outcome := out, cr_detail := Some detail, cr_result := result, cr_completedAtMs := Some nowMs\<rparr> else r) rows"

section \<open>The route\<close>

text \<open>The headers of a request: capabilities, actor, actor name.\<close>

definition actorFrom :: "string option \<Rightarrow> string option \<Rightarrow> string option \<Rightarrow> actor" where
  "actorFrom capabilities actorId name =
    (let claimed = filter (\<lambda>c. c \<noteq> []) (map trim (split_on (CHR '','') (case capabilities of Some h \<Rightarrow> h | None \<Rightarrow> [])));
         granted = List.map_filter (map_of CAPABILITIES) claimed in
     \<lparr>ac_actorId = (case actorId of Some a \<Rightarrow> a | None \<Rightarrow> ''usr_local''),
      ac_displayName = (case name of Some n \<Rightarrow> n | None \<Rightarrow> ''local operator''),
      ac_capabilities = (if 0 < length granted then granted else [VIEW])\<rparr>)"

record command_request =
  cq_deploymentId :: string
  cq_projectId :: "string option"
  cq_capabilities :: "string option"
  cq_actor :: "string option"
  cq_actorName :: "string option"
  cq_operation :: string
  cq_target :: command_target
  cq_expectedRevision :: string
  cq_reason :: "string option"
  cq_confirmation :: "(string \<times> json) list option"
  cq_idempotencyKey :: "string option"
  cq_uuid :: string
  cq_nowMs :: int
  cq_refresh :: "string + string \<times> bool option"
  cq_execute :: "controlCommand \<Rightarrow> string + bool \<times> string \<times> json"
  cq_doneMs :: int

text \<open>\<open>refresh\<close> gives the current revision and whether the chain says the policy is enabled.\<close>

datatype command_response =
    UnknownOperation
  | ServerError
  | Refused nat commandReason
  | Replayed string commandRecord
  | Performed string bool string json "(bool \<times> pause_warning option) option"

definition request_command :: "(string \<Rightarrow> string) \<Rightarrow> (jsnum \<Rightarrow> string) \<Rightarrow> controlOperation \<Rightarrow> command_request \<Rightarrow> controlCommand" where
  "request_command sha256Hex num op q =
    newCommand sha256Hex num (cq_uuid q)
      \<lparr>cm_commandId = [], cm_projectId = (case cq_projectId q of Some p \<Rightarrow> p | None \<Rightarrow> ''prj_unknown''), cm_deploymentId = cq_deploymentId q,
       cm_actor = actorFrom (cq_capabilities q) (cq_actor q) (cq_actorName q), cm_operation = op, cm_target = cq_target q,
       cm_expectedRevision = cq_expectedRevision q, cm_issuedAtMs = cq_nowMs q, cm_expiresAtMs = cq_nowMs q + 120000,
       cm_idempotencyKey = [], cm_confirmation = cq_confirmation q, cm_reason = cq_reason q\<rparr>
      (case cq_idempotencyKey q of Some k \<Rightarrow> if k = [] then None else Some k | None \<Rightarrow> None)"

text \<open>The route changes the table, gives a response, and calls \<open>execute\<close> on at most one command. The redaction
  scanner, which may replace the final response by an error and changes nothing else, is left out.\<close>

definition postCommand ::
    "(string \<Rightarrow> string) \<Rightarrow> (jsnum \<Rightarrow> string) \<Rightarrow> command_request \<Rightarrow> commandRecord list \<Rightarrow>
     commandRecord list \<times> command_response \<times> controlCommand option" where
  "postCommand sha256Hex num q rows =
    (case map_of OPERATIONS (cq_operation q) of
       None \<Rightarrow> (rows, UnknownOperation, None)
     | Some op \<Rightarrow>
         let cmd = request_command sha256Hex num op q in
         (case cq_refresh q of
            Inl _ \<Rightarrow> (rows, ServerError, None)
          | Inr (currentRevision, policyEnabled) \<Rightarrow>
              (case assertCommandValid cmd currentRevision (cq_nowMs q) False of
                 Inl reason \<Rightarrow> (rows, Refused (if reason = NOT_AUTHORIZED then 403 else 409) reason, None)
               | Inr _ \<Rightarrow>
                   (case beginCommand cmd rows of
                      None \<Rightarrow> (rows, ServerError, None)
                    | Some (rows', Some existing) \<Rightarrow> (rows', Replayed (cm_commandId cmd) existing, None)
                    | Some (rows', None) \<Rightarrow>
                        (case cq_execute q cmd of
                           Inl _ \<Rightarrow> (rows', ServerError, Some cmd)
                         | Inr (ok, detail, result) \<Rightarrow>
                             (completeCommand cmd (if ok then APPLIED else FAILED) detail result (cq_doneMs q) rows',
                              Performed (cm_commandId cmd) ok detail result
                                (if cm_operation cmd = PAUSE_RUNTIME then Some (runtimePauseClaim policyEnabled) else None),
                              Some cmd))))))"

section \<open>Lemmas\<close>

lemma command_valid_iff:
  "assertCommandValid cmd rev' nowMs lock = Inr u \<longleftrightarrow>
    command_parses cmd \<and> rq_capability (OPERATION_REQUIREMENTS (cm_operation cmd)) \<in> set (ac_capabilities (cm_actor cmd)) \<and>
    nowMs \<le> cm_expiresAtMs cmd \<and> cm_expectedRevision cmd = rev' \<and>
    \<not> (rq_destructive (OPERATION_REQUIREMENTS (cm_operation cmd)) \<and> cm_confirmation cmd = None) \<and>
    \<not> (lock \<and> cm_operation cmd \<in> {ENABLE_POLICY, ACTIVATE_CRE, RESUME_RUNTIME})"
  by (auto simp: assertCommandValid_def Let_def res_bind_Inr_iff ensure_iff)

lemma request_command_simps [simp]:
  "cm_operation (request_command sha num op q) = op"
  "cm_expectedRevision (request_command sha num op q) = cq_expectedRevision q"
  "cm_confirmation (request_command sha num op q) = cq_confirmation q"
  "cm_actor (request_command sha num op q) = actorFrom (cq_capabilities q) (cq_actor q) (cq_actorName q)"
  "cm_commandId (request_command sha num op q) = ''cmd_'' @ cq_uuid q"
  "cm_expiresAtMs (request_command sha num op q) = cq_nowMs q + 120000"
  "cm_deploymentId (request_command sha num op q) = cq_deploymentId q"
  "cm_target (request_command sha num op q) = cq_target q"
  by (simp_all add: request_command_def newCommand_def)

lemma complete_keys [simp]: "map cr_idempotencyKey (completeCommand cmd out detail result t rows) = map cr_idempotencyKey rows"
  by (auto simp: completeCommand_def)

text \<open>What one request does: nothing but a response, or one new row and one call of \<open>execute\<close>.\<close>

lemma post_cases:
  obtains (idle) "fst (postCommand sha num q rows) = rows" "snd (snd (postCommand sha num q rows)) = None"
  | (executes) op where "map_of OPERATIONS (cq_operation q) = Some op"
      "snd (snd (postCommand sha num q rows)) = Some (request_command sha num op q)"
      "\<exists>enabled. cq_refresh q = Inr (cq_expectedRevision q, enabled)"
      "assertCommandValid (request_command sha num op q) (cq_expectedRevision q) (cq_nowMs q) False = Inr ()"
      "cm_idempotencyKey (request_command sha num op q) \<notin> set (map cr_idempotencyKey rows)"
      "map cr_idempotencyKey (fst (postCommand sha num q rows)) = map cr_idempotencyKey rows @ [cm_idempotencyKey (request_command sha num op q)]"
proof (cases "snd (snd (postCommand sha num q rows))")
  case None
  moreover have "fst (postCommand sha num q rows) = rows" using None
    by (auto simp: postCommand_def beginCommand_def Let_def split: option.splits sum.splits prod.splits if_splits)
  ultimately show thesis by (intro idle)
next
  case (Some cmd)
  then obtain op current enabled where o: "map_of OPERATIONS (cq_operation q) = Some op" "cq_refresh q = Inr (current, enabled)"
      "assertCommandValid (request_command sha num op q) current (cq_nowMs q) False = Inr ()"
    by (auto simp: postCommand_def Let_def split: option.splits sum.splits prod.splits if_splits)
  let ?c = "request_command sha num op q"
  have current: "current = cq_expectedRevision q" using o(3) by (simp add: command_valid_iff)
  have none: "find (\<lambda>r. cr_idempotencyKey r = cm_idempotencyKey ?c) rows = None" "\<not> list_ex (\<lambda>r. cr_commandId r = cm_commandId ?c) rows"
    using Some o by (auto simp: postCommand_def beginCommand_def Let_def split: option.splits if_splits)
  from none(1) have "cm_idempotencyKey ?c \<notin> set (map cr_idempotencyKey rows)" by (auto simp: find_None_iff)
  moreover have "snd (snd (postCommand sha num q rows)) = Some ?c \<and>
      map cr_idempotencyKey (fst (postCommand sha num q rows)) = map cr_idempotencyKey rows @ [cm_idempotencyKey ?c]"
    using o none by (auto simp: postCommand_def beginCommand_def Let_def split: sum.splits)
  ultimately show thesis using o current by (intro executes [of op]) auto
qed

section \<open>Sequences of requests\<close>

fun serve ::
    "(string \<Rightarrow> string) \<Rightarrow> (jsnum \<Rightarrow> string) \<Rightarrow> command_request list \<Rightarrow> commandRecord list \<Rightarrow>
     commandRecord list \<times> (command_request \<times> controlCommand) list" where
  "serve sha num [] rows = (rows, [])"
| "serve sha num (q # qs) rows =
    (let r = postCommand sha num q rows; rest = serve sha num qs (fst r) in
     (fst rest, (case snd (snd r) of None \<Rightarrow> snd rest | Some c \<Rightarrow> (q, c) # snd rest)))"

text \<open>The executed command of a request was allowed.\<close>

definition allowed :: "(string \<Rightarrow> string) \<Rightarrow> (jsnum \<Rightarrow> string) \<Rightarrow> command_request \<Rightarrow> controlCommand \<Rightarrow> bool" where
  "allowed sha num q c \<longleftrightarrow> map_of OPERATIONS (cq_operation q) = Some (cm_operation c) \<and> c = request_command sha num (cm_operation c) q \<and>
    (\<exists>enabled. cq_refresh q = Inr (cm_expectedRevision c, enabled)) \<and>
    rq_capability (OPERATION_REQUIREMENTS (cm_operation c)) \<in> set (ac_capabilities (actorFrom (cq_capabilities q) (cq_actor q) (cq_actorName q))) \<and>
    \<not> (rq_destructive (OPERATION_REQUIREMENTS (cm_operation c)) \<and> cq_confirmation q = None)"

lemma serve_allowed: "list_all (\<lambda>e. allowed sha num (fst e) (snd e)) (snd (serve sha num qs rows))"
proof (induction qs arbitrary: rows)
  case (Cons q qs)
  show ?case
  proof (cases rule: post_cases [of sha num q rows])
    case idle
    then show ?thesis using Cons by (simp add: Let_def)
  next
    case (executes op)
    then have "allowed sha num q (request_command sha num op q)" by (auto simp: allowed_def command_valid_iff)
    then show ?thesis using executes Cons by (simp add: Let_def)
  qed
qed simp

text \<open>Both stores of commands keep the contract of single use: the log in memory, and the table behind the route.\<close>

interpretation command_log: single_use "\<lambda>q l. snd (log_begin (fst q) (snd q) l) = None" "\<lambda>q l. fst (log_begin (fst q) (snd q) l)"
    "\<lambda>q. cm_idempotencyKey (fst q)" "\<lambda>l. dom (map_of (cl_byKey l))"
  by unfold_locales (auto simp: log_begin_def Let_def map_of_map_set split: option.splits)

definition request_key :: "(string \<Rightarrow> string) \<Rightarrow> (jsnum \<Rightarrow> string) \<Rightarrow> command_request \<Rightarrow> string" where
  "request_key sha num q =
    (case map_of OPERATIONS (cq_operation q) of Some op \<Rightarrow> cm_idempotencyKey (request_command sha num op q) | None \<Rightarrow> [])"

interpretation command_route: single_use "\<lambda>q rows. snd (snd (postCommand sha num q rows)) \<noteq> None"
    "\<lambda>q rows. fst (postCommand sha num q rows)" "request_key sha num" "\<lambda>rows. set (map cr_idempotencyKey rows)" for sha num
proof
  fix q rows
  show "set (map cr_idempotencyKey rows) \<subseteq> set (map cr_idempotencyKey (fst (postCommand sha num q rows)))"
    by (cases rule: post_cases [of sha num q rows]) (simp_all add: subset_insertI del: set_map)
  assume "snd (snd (postCommand sha num q rows)) \<noteq> None"
  then show "request_key sha num q \<notin> set (map cr_idempotencyKey rows)"
    "request_key sha num q \<in> set (map cr_idempotencyKey (fst (postCommand sha num q rows)))"
    by (cases rule: post_cases [of sha num q rows]; simp add: request_key_def del: set_map)+
qed

lemma serve_begun:
  "map fst (snd (serve sha num qs rows)) =
     begun (\<lambda>q rows. snd (snd (postCommand sha num q rows)) \<noteq> None) (\<lambda>q rows. fst (postCommand sha num q rows)) qs rows"
  by (induction qs arbitrary: rows) (auto simp: Let_def split: option.splits)

lemma serve_rows: "fst (serve sha num qs rows) = fold (\<lambda>q rows. fst (postCommand sha num q rows)) qs rows"
  by (induction qs arbitrary: rows) (auto simp: Let_def)

lemma allowed_key: "allowed sha num q c \<Longrightarrow> request_key sha num q = cm_idempotencyKey c"
  by (auto simp: allowed_def request_key_def)

lemma serve_once: "distinct (map (\<lambda>e. cm_idempotencyKey (snd e)) (snd (serve sha num qs rows)))"
proof -
  have "map (\<lambda>e. cm_idempotencyKey (snd e)) (snd (serve sha num qs rows)) = map (request_key sha num) (map fst (snd (serve sha num qs rows)))"
    using serve_allowed [of sha num qs rows] allowed_key by (auto simp: list_all_iff)
  then show ?thesis unfolding serve_begun using command_route.begun_once [of sha num qs rows] by simp
qed

text \<open>
  C20: Every command the route ever executes, whatever requests come in: its operation is the requested one, the
  actor of the request holds the capability that operation needs, the revision it was issued against is the one
  that was current when the deployment was read again, a destructive operation carries a confirmation, and no two
  executed commands have the same idempotency key.
\<close>

theorem executed_commands_were_allowed:
  "list_all (\<lambda>e. allowed sha num (fst e) (snd e)) (snd (serve sha num qs [])) \<and>
   distinct (map (\<lambda>e. cm_idempotencyKey (snd e)) (snd (serve sha num qs [])))"
  using serve_allowed serve_once by blast

text \<open>
  An intent is executed once and never again. If a request without a key of its own was executed, then no later
  request for the same deployment, operation, target and revision is executed, whatever became of the first one and
  whatever was done in between: a pause after a resume is answered with the first pause's record, and so is the
  second attempt of a command that failed.
\<close>

theorem repeated_intent_is_never_executed:
  assumes "(q1, c1) \<in> set (snd (serve sha num qs []))" and "cq_idempotencyKey q1 = None" and "cq_idempotencyKey q = None"
    and "cq_operation q = cq_operation q1" "cq_deploymentId q = cq_deploymentId q1" "cq_target q = cq_target q1"
      "cq_expectedRevision q = cq_expectedRevision q1"
  shows "fst (postCommand sha num q (fst (serve sha num qs []))) = fst (serve sha num qs []) \<and>
    snd (snd (postCommand sha num q (fst (serve sha num qs [])))) = None"
proof -
  have same: "request_key sha num q = request_key sha num q1"
    using assms(2-7) by (simp add: request_key_def request_command_def newCommand_def split: option.splits)
  have "q1 \<in> set (map fst (snd (serve sha num qs [])))" using assms(1) by force
  from command_route.no_second_use [OF this [unfolded serve_begun] same]
  have idle: "snd (snd (postCommand sha num q (fst (serve sha num qs [])))) = None" by (simp add: serve_rows)
  then show ?thesis by (cases rule: post_cases [of sha num q "fst (serve sha num qs [])"]) simp_all
qed

text \<open>
  C22: The route validates every command as if no emergency lock were in force. A request that would restore
  capability, and that the validation refuses when it is told of a lock, is executed by the route
  whatever the table records, an applied emergency lock included.
\<close>

theorem emergency_lock_is_not_consulted:
  assumes "map_of OPERATIONS (cq_operation q) = Some op" and "op \<in> {ENABLE_POLICY, ACTIVATE_CRE, RESUME_RUNTIME}"
    and "cq_refresh q = Inr (current, enabled)"
    and "assertCommandValid (request_command sha num op q) current (cq_nowMs q) False = Inr ()"
    and "list_all (\<lambda>r. cr_idempotencyKey r \<noteq> cm_idempotencyKey (request_command sha num op q) \<and> cr_commandId r \<noteq> ''cmd_'' @ cq_uuid q) rows"
  shows "snd (snd (postCommand sha num q rows)) = Some (request_command sha num op q) \<and>
    assertCommandValid (request_command sha num op q) current (cq_nowMs q) True = Inl EMERGENCY_LOCK_ACTIVE"
proof
  have "find (\<lambda>r. cr_idempotencyKey r = cm_idempotencyKey (request_command sha num op q)) rows = None"
    "\<not> list_ex (\<lambda>r. cr_commandId r = ''cmd_'' @ cq_uuid q) rows"
    using assms(5) by (auto simp: find_None_iff list_all_iff list_ex_iff)
  then show "snd (snd (postCommand sha num q rows)) = Some (request_command sha num op q)"
    using assms(1,3,4) by (auto simp: postCommand_def beginCommand_def Let_def split: sum.splits)
  show "assertCommandValid (request_command sha num op q) current (cq_nowMs q) True = Inl EMERGENCY_LOCK_ACTIVE"
    using assms(2,4) by (auto simp: assertCommandValid_def Let_def res_bind_Inr_iff ensure_iff res_bind_Inl_iff)
qed

section \<open>Concrete requests\<close>

definition sample_target :: command_target where
  "sample_target = \<lparr>tg_agentId = Some ''agent'', tg_runtimeRevision = None, tg_creWorkflowName = None, tg_policyHash = None, tg_identityNode = None\<rparr>"

text \<open>Everything an operator with two capabilities asks for; the operation succeeds.\<close>

definition sample_request :: "string \<Rightarrow> string \<Rightarrow> int \<Rightarrow> command_request" where
  "sample_request op uuid t =
    \<lparr>cq_deploymentId = ''dep'', cq_projectId = None, cq_capabilities = Some ''RUNTIME_CONTROL,POLICY_CONTROL'', cq_actor = None, cq_actorName = None,
     cq_operation = op, cq_target = sample_target, cq_expectedRevision = ''rev_1'', cq_reason = None, cq_confirmation = None,
     cq_idempotencyKey = None, cq_uuid = uuid, cq_nowMs = t, cq_refresh = Inr (''rev_1'', Some True),
     cq_execute = (\<lambda>_. Inr (True, ''done'', JNull)), cq_doneMs = t + 5\<rparr>"

lemma sample_capabilities: "ac_capabilities (actorFrom (Some ''RUNTIME_CONTROL,POLICY_CONTROL'') None None) = [RUNTIME_CONTROL, POLICY_CONTROL]"
  by code_simp

lemma sample_operations:
  "map_of OPERATIONS ''PAUSE_RUNTIME'' = Some PAUSE_RUNTIME" "map_of OPERATIONS ''RESUME_RUNTIME'' = Some RESUME_RUNTIME"
  "map_of OPERATIONS ''ENABLE_POLICY'' = Some ENABLE_POLICY"
  by (simp_all add: OPERATIONS_def)

lemma sample_keys:
  "8 \<le> length (derived_key id (\<lambda>_. []) ''dep'' PAUSE_RUNTIME sample_target ''rev_1'')"
  "8 \<le> length (derived_key id (\<lambda>_. []) ''dep'' ENABLE_POLICY sample_target ''rev_1'')"
  "''idem_lock'' \<noteq> derived_key id (\<lambda>_. []) ''dep'' ENABLE_POLICY sample_target ''rev_1''"
  by code_simp+

lemma sample_request_simps:
  "cq_operation (sample_request o' u t) = o'" "cq_refresh (sample_request o' u t) = Inr (''rev_1'', Some True)"
  "cq_nowMs (sample_request o' u t) = t" "cq_idempotencyKey (sample_request o' u t) = None" "cq_uuid (sample_request o' u t) = u"
  "cq_deploymentId (sample_request o' u t) = ''dep''" "cq_target (sample_request o' u t) = sample_target"
  "cq_expectedRevision (sample_request o' u t) = ''rev_1''" "cq_execute (sample_request o' u t) c = Inr (True, ''done'', JNull)"
  "cm_idempotencyKey (request_command sha num op (sample_request o' u t)) = derived_key sha num ''dep'' op sample_target ''rev_1''"
  by (simp_all add: sample_request_def request_command_def newCommand_def)

lemma sample_valid:
  assumes "8 \<le> length (derived_key sha num ''dep'' op sample_target ''rev_1'')" and "op \<in> {PAUSE_RUNTIME, ENABLE_POLICY}" and "0 < t"
  shows "assertCommandValid (request_command sha num op (sample_request o' u t)) ''rev_1'' t False = Inr ()"
proof -
  have "command_parses (request_command sha num op (sample_request o' u t))"
    using assms(1,3) by (simp add: command_parses_def request_command_def newCommand_def sample_request_def actorFrom_def Let_def)
  moreover have "rq_capability (OPERATION_REQUIREMENTS op) \<in> {RUNTIME_CONTROL, POLICY_CONTROL}"
    "\<not> rq_destructive (OPERATION_REQUIREMENTS op)" using assms(2) by (auto simp: mk_req_def)
  moreover have "ac_capabilities (cm_actor (request_command sha num op (sample_request o' u t))) = [RUNTIME_CONTROL, POLICY_CONTROL]"
    by (simp add: sample_request_def sample_capabilities)
  ultimately show ?thesis using assms(3) by (simp add: command_valid_iff sample_request_simps)
qed

lemma sample_pause_runs:
  "(sample_request ''PAUSE_RUNTIME'' ''1'' 1000, request_command id (\<lambda>_. []) PAUSE_RUNTIME (sample_request ''PAUSE_RUNTIME'' ''1'' 1000)) \<in>
    set (snd (serve id (\<lambda>_. []) [sample_request ''PAUSE_RUNTIME'' ''1'' 1000, sample_request ''RESUME_RUNTIME'' ''2'' 2000] []))"
proof -
  have "snd (snd (postCommand id (\<lambda>_. []) (sample_request ''PAUSE_RUNTIME'' ''1'' 1000) [])) =
      Some (request_command id (\<lambda>_. []) PAUSE_RUNTIME (sample_request ''PAUSE_RUNTIME'' ''1'' 1000))"
    using sample_valid [OF sample_keys(1), of 1000 "''PAUSE_RUNTIME''" "''1''"]
    by (simp add: postCommand_def sample_request_simps sample_operations Let_def beginCommand_def)
  then show ?thesis by (simp add: Let_def)
qed

theorem repeated_intent_is_never_executed_witness:
  "snd (snd (postCommand id (\<lambda>_. []) (sample_request ''PAUSE_RUNTIME'' ''3'' 3000)
     (fst (serve id (\<lambda>_. []) [sample_request ''PAUSE_RUNTIME'' ''1'' 1000, sample_request ''RESUME_RUNTIME'' ''2'' 2000] [])))) = None"
  using repeated_intent_is_never_executed [OF sample_pause_runs, of "sample_request ''PAUSE_RUNTIME'' ''3'' 3000"]
  by (simp add: sample_request_simps)

definition lock_row :: commandRecord where
  "lock_row = \<lparr>cr_commandId = ''cmd_0'', cr_idempotencyKey = ''idem_lock'', cr_operation = EMERGENCY_LOCK, cr_actorId = ''operator'',
    cr_issuedAtMs = 500, cr_completedAtMs = Some 600, cr_outcome = APPLIED, cr_detail = None, cr_result = JNull\<rparr>"

theorem emergency_lock_is_not_consulted_witness:
  "cr_operation lock_row = EMERGENCY_LOCK \<and> cr_outcome lock_row = APPLIED \<and>
   snd (snd (postCommand id (\<lambda>_. []) (sample_request ''ENABLE_POLICY'' ''1'' 1000) [lock_row])) =
     Some (request_command id (\<lambda>_. []) ENABLE_POLICY (sample_request ''ENABLE_POLICY'' ''1'' 1000))"
  using emergency_lock_is_not_consulted [of "sample_request ''ENABLE_POLICY'' ''1'' 1000" ENABLE_POLICY "''rev_1''" "Some True" id "\<lambda>_. []" "[lock_row]"]
    sample_valid [OF sample_keys(2), of 1000 "''ENABLE_POLICY''" "''1''"] sample_keys(3)
  by (simp add: sample_request_simps sample_operations lock_row_def)

end
