(* ===== verification/Egress.thy ===== *)
theory Egress
  imports Prelude
begin

text \<open>
  Egress control of imported APIs and of the bridge (\<open>packages/studio-openapi/src/egress.ts\<close>). The URL parser,
  \<open>isIP\<close> and the conversion of a text to a number belong to the platform and are arguments; name resolution is the
  policy's own function, as in the code.

  The theorems say what a URL that passes has: the scheme, no credentials, an allowed host and port, and only
  addresses outside the refused ranges, for every hop of a redirect chain; and which IPv6 texts of
  loopback and link-local addresses are not refused.
\<close>

section \<open>Addresses\<close>

text \<open>What the platform gives: URLs, the family of an address text (0 for none), numbers.\<close>

record url =
  ur_protocol :: string
  ur_username :: string
  ur_password :: string
  ur_hostname :: string
  ur_port :: string
  ur_href :: string

record platform =
  pf_URL :: "string \<Rightarrow> url option"
  pf_relative :: "string \<Rightarrow> url \<Rightarrow> string option"
  pf_isIP :: "string \<Rightarrow> nat"
  pf_Number :: "string \<Rightarrow> jsnum"

datatype egressReason =
    NOT_HTTPS | HOST_NOT_ALLOWED | PRIVATE_ADDRESS | METADATA_ENDPOINT | DNS_FAILED | TOO_MANY_REDIRECTS
  | MALFORMED_URL | PORT_NOT_ALLOWED | CREDENTIALS_IN_URL

definition METADATA_ADDRESSES :: "string list" where
  "METADATA_ADDRESSES = [''169.254.169.254'', ''169.254.170.2'', ''100.100.100.200'', ''192.0.0.192'', ''fd00:ec2::254'']"

text \<open>An integer between 0 and 255.\<close>

definition octet :: "jsnum \<Rightarrow> nat option" where
  "octet n = (case n of Fin r \<Rightarrow> if of_int \<lfloor>r\<rfloor> = r \<and> 0 \<le> r \<and> r \<le> 255 then Some (nat \<lfloor>r\<rfloor>) else None | _ \<Rightarrow> None)"

definition v4 :: "platform \<Rightarrow> string \<Rightarrow> nat list option" where
  "v4 pf a =
    (let p = split_on (CHR ''.'') a; n = map (\<lambda>x. octet (pf_Number pf x)) p in
     if length p \<noteq> 4 then None else if list_all (\<lambda>x. x \<noteq> None) n then Some (map the n) else None)"

definition private_v4 :: "nat \<Rightarrow> nat \<Rightarrow> bool" where
  "private_v4 a b =
    (a = 0 \<or> a = 127 \<or> a = 10 \<or> a = 172 \<and> 16 \<le> b \<and> b \<le> 31 \<or> a = 192 \<and> b = 168 \<or> a = 169 \<and> b = 254 \<or>
     a = 100 \<and> 64 \<le> b \<and> b \<le> 127 \<or> 224 \<le> a)"

text \<open>\<open>replace(/^\[|\]$/g, "")\<close>.\<close>

definition unbracket :: "string \<Rightarrow> string" where
  "unbracket s =
    (let t = (case s of c # r \<Rightarrow> if c = CHR ''['' then r else s | [] \<Rightarrow> [])
     in if t \<noteq> [] \<and> last t = CHR '']'' then butlast t else t)"

text \<open>\<open>/^::ffff:(\d+\.\d+\.\d+\.\d+)$/\<close>.\<close>

definition mapped_v4 :: "string \<Rightarrow> string option" where
  "mapped_v4 addr =
    (if startsWith addr ''::ffff:'' \<and> length (split_on (CHR ''.'') (drop 7 addr)) = 4 \<and> list_all all_digits (split_on (CHR ''.'') (drop 7 addr))
     then Some (drop 7 addr) else None)"

lemma length_unbracket: "length (unbracket s) \<le> length s"
  by (cases s) (auto simp: unbracket_def Let_def)

lemma mapped_shorter: "mapped_v4 (unbracket (toLowerCase s)) = Some m \<Longrightarrow> length m < length s"
proof -
  assume m: "mapped_v4 (unbracket (toLowerCase s)) = Some m"
  then have "startsWith (unbracket (toLowerCase s)) ''::ffff:''" "m = drop 7 (unbracket (toLowerCase s))"
    by (auto simp: mapped_v4_def split: if_splits)
  then show ?thesis using startsWith_length length_unbracket [of "toLowerCase s"] by fastforce
qed

function isPrivateAddress :: "platform \<Rightarrow> string \<Rightarrow> bool" where
  "isPrivateAddress pf address =
    (let addr = unbracket (toLowerCase address) in
     if pf_isIP pf addr = 4
     then (case v4 pf addr of Some (a # b # _) \<Rightarrow> private_v4 a b | _ \<Rightarrow> True)
     else if pf_isIP pf addr = 6
     then (case mapped_v4 addr of
             Some m \<Rightarrow> isPrivateAddress pf m
           | None \<Rightarrow> addr = ''::1'' \<or> addr = ''::'' \<or> startsWith addr ''fe80'' \<or> startsWith addr ''fec0'' \<or>
               startsWith addr ''fc'' \<or> startsWith addr ''fd'' \<or> startsWith addr ''ff'')
     else True)"
  by pat_completeness auto
termination
  by (relation "measure (\<lambda>(pf, a). length a)") (auto dest: mapped_shorter)

declare isPrivateAddress.simps [simp del]

definition isMetadataAddress :: "string \<Rightarrow> bool" where
  "isMetadataAddress a = (unbracket (toLowerCase a) \<in> set METADATA_ADDRESSES)"

section \<open>URLs\<close>

record egressPolicy =
  ep_allowedHosts :: "string list"
  ep_allowedPorts :: "jsnum list"
  ep_maxRedirects :: nat
  ep_resolve :: "string \<Rightarrow> string + string list"

definition egress_addresses :: "platform \<Rightarrow> egressPolicy \<Rightarrow> string \<Rightarrow> egressReason + string list" where
  "egress_addresses pf policy host =
    (if pf_isIP pf host \<noteq> 0 then Inr [host]
     else case ep_resolve policy host of
         Inl _ \<Rightarrow> Inl DNS_FAILED
       | Inr addresses \<Rightarrow> if length addresses = 0 then Inl DNS_FAILED else Inr addresses)"

definition check_address :: "platform \<Rightarrow> string \<Rightarrow> egressReason + unit" where
  "check_address pf a =
    (if isMetadataAddress a then Inl METADATA_ENDPOINT else if isPrivateAddress pf a then Inl PRIVATE_ADDRESS else Inr ())"

definition url_port :: "platform \<Rightarrow> url \<Rightarrow> jsnum" where
  "url_port pf u = (if ur_port u = [] then Fin 443 else pf_Number pf (ur_port u))"

definition checkUrl :: "platform \<Rightarrow> egressPolicy \<Rightarrow> string \<Rightarrow> egressReason + url" where
  "checkUrl pf policy raw =
    (case pf_URL pf raw of
       None \<Rightarrow> Inl MALFORMED_URL
     | Some u \<Rightarrow>
         let host = toLowerCase (ur_hostname u) in
         res_bind (ensure (ur_protocol u = ''https:'') NOT_HTTPS) (\<lambda>_.
         res_bind (ensure (ur_username u = [] \<and> ur_password u = []) CREDENTIALS_IN_URL) (\<lambda>_.
         res_bind (ensure (host \<in> set (map toLowerCase (ep_allowedHosts policy))) HOST_NOT_ALLOWED) (\<lambda>_.
         res_bind (ensure (url_port pf u \<in> set (ep_allowedPorts policy)) PORT_NOT_ALLOWED) (\<lambda>_.
         res_bind (egress_addresses pf policy host) (\<lambda>addresses.
         res_bind (for_each (check_address pf) addresses) (\<lambda>_. Inr u)))))))"

text \<open>A redirect that is not a URL makes the code throw: \<open>Inl None\<close>.\<close>

fun check_hops :: "platform \<Rightarrow> egressPolicy \<Rightarrow> url \<Rightarrow> string list \<Rightarrow> egressReason option + url" where
  "check_hops pf policy u [] = Inr u"
| "check_hops pf policy u (h # hs) =
    (case pf_relative pf h u of
       None \<Rightarrow> Inl None
     | Some absolute \<Rightarrow> (case checkUrl pf policy absolute of Inl r \<Rightarrow> Inl (Some r) | Inr u' \<Rightarrow> check_hops pf policy u' hs))"

definition checkRedirectChain :: "platform \<Rightarrow> egressPolicy \<Rightarrow> string \<Rightarrow> string list \<Rightarrow> egressReason option + url" where
  "checkRedirectChain pf policy start hops =
    (if ep_maxRedirects policy < length hops then Inl (Some TOO_MANY_REDIRECTS)
     else case checkUrl pf policy start of Inl r \<Rightarrow> Inl (Some r) | Inr u \<Rightarrow> check_hops pf policy u hops)"

section \<open>What passes\<close>

text \<open>The text of an IPv4 address.\<close>

definition dotted :: "nat \<Rightarrow> nat \<Rightarrow> nat \<Rightarrow> nat \<Rightarrow> string" where
  "dotted a b c d = show_nat a @ ''.'' @ show_nat b @ ''.'' @ show_nat c @ ''.'' @ show_nat d"

lemma digits_no: "\<not> is_digit c \<Longrightarrow> c \<notin> set (show_nat n)"
  using all_digits_show_nat [of n] by (auto simp: all_digits_def list_all_iff)

lemma no_dot: "CHR ''.'' \<notin> set (show_nat n)" "CHR ''['' \<notin> set (show_nat n)" "CHR '']'' \<notin> set (show_nat n)"
  by (intro digits_no; simp add: char_class_defs)+

lemma split_dotted: "split_on (CHR ''.'') (dotted a b c d) = [show_nat a, show_nat b, show_nat c, show_nat d]"
  unfolding dotted_def using split_on_append [OF no_dot(1)] split_on_none [OF no_dot(1)] by simp

lemma lower_digit: "is_digit c \<Longrightarrow> lower_char c = c"
  by (simp add: char_class_defs lower_char_def Let_def)

lemma lower_show_nat: "toLowerCase (show_nat n) = show_nat n"
  using all_digits_show_nat [of n] by (auto simp: toLowerCase_def all_digits_def list_all_iff lower_digit intro: map_idI)

lemma lower_dotted: "toLowerCase (dotted a b c d) = dotted a b c d"
proof -
  have "lower_char (CHR ''.'') = CHR ''.''" by code_simp
  then show ?thesis using lower_show_nat by (simp add: dotted_def toLowerCase_def)
qed

lemma unbracket_id: "s \<noteq> [] \<Longrightarrow> CHR ''['' \<notin> set s \<Longrightarrow> CHR '']'' \<notin> set s \<Longrightarrow> unbracket s = s"
  by (cases s) (use last_in_set [of s] in \<open>fastforce simp: unbracket_def Let_def\<close>)+

lemma dotted_plain: "dotted a b c d \<noteq> []" "CHR ''['' \<notin> set (dotted a b c d)" "CHR '']'' \<notin> set (dotted a b c d)"
  using no_dot by (auto simp: dotted_def)

text \<open>What is documented of the two platform functions: an IPv4 text is one, and digits are read as a number.\<close>

definition reads_v4 :: "platform \<Rightarrow> nat \<Rightarrow> nat \<Rightarrow> nat \<Rightarrow> nat \<Rightarrow> bool" where
  "reads_v4 pf a b c d \<longleftrightarrow> pf_isIP pf (dotted a b c d) = 4 \<and> (\<forall>n \<le> 255. pf_Number pf (show_nat n) = Fin (of_nat n))"

lemma octet_Fin: "n \<le> 255 \<Longrightarrow> octet (Fin (of_nat n)) = Some n"
  by (simp add: octet_def)

lemma v4_dotted:
  assumes "reads_v4 pf a b c d" and "a \<le> 255" "b \<le> 255" "c \<le> 255" "d \<le> 255"
  shows "v4 pf (dotted a b c d) = Some [a, b, c, d]"
  using assms by (simp add: v4_def split_dotted reads_v4_def octet_Fin)

lemma private_dotted:
  assumes "reads_v4 pf a b c d" and "a \<le> 255" "b \<le> 255" "c \<le> 255" "d \<le> 255"
  shows "isPrivateAddress pf (dotted a b c d) \<longleftrightarrow> private_v4 a b"
proof -
  have "unbracket (toLowerCase (dotted a b c d)) = dotted a b c d" unfolding lower_dotted by (rule unbracket_id [OF dotted_plain])
  then show ?thesis using assms(1) v4_dotted [OF assms] by (simp add: isPrivateAddress.simps [of pf "dotted a b c d"] reads_v4_def)
qed

lemma private_mapped:
  assumes "reads_v4 pf a b c d" and "a \<le> 255" "b \<le> 255" "c \<le> 255" "d \<le> 255" and "pf_isIP pf (''::ffff:'' @ dotted a b c d) = 6"
  shows "isPrivateAddress pf (''::ffff:'' @ dotted a b c d) \<longleftrightarrow> private_v4 a b"
proof -
  let ?m = "''::ffff:'' @ dotted a b c d"
  have "toLowerCase ''::ffff:'' = ''::ffff:''" by code_simp
  then have "toLowerCase ?m = ?m" using lower_dotted by (simp add: toLowerCase_def)
  moreover have "unbracket ?m = ?m" using dotted_plain by (intro unbracket_id) auto
  ultimately have addr: "unbracket (toLowerCase ?m) = ?m" by simp
  have "drop 7 ?m = dotted a b c d" by (simp add: eval_nat_numeral)
  then have "mapped_v4 ?m = Some (dotted a b c d)"
    using all_digits_show_nat by (simp add: mapped_v4_def startsWith_def split_dotted)
  then show ?thesis using assms(6) private_dotted [OF assms(1-5)] unfolding isPrivateAddress.simps [of pf ?m] Let_def addr by simp
qed

definition contained :: "platform \<Rightarrow> egressPolicy \<Rightarrow> url \<Rightarrow> bool" where
  "contained pf policy u \<longleftrightarrow> ur_protocol u = ''https:'' \<and> ur_username u = [] \<and> ur_password u = [] \<and>
    toLowerCase (ur_hostname u) \<in> set (map toLowerCase (ep_allowedHosts policy)) \<and> url_port pf u \<in> set (ep_allowedPorts policy) \<and>
    (\<exists>addresses. egress_addresses pf policy (toLowerCase (ur_hostname u)) = Inr addresses \<and> addresses \<noteq> [] \<and>
       list_all (\<lambda>a. \<not> isMetadataAddress a \<and> \<not> isPrivateAddress pf a) addresses)"

lemma addresses_nonempty: "egress_addresses pf policy host = Inr addresses \<Longrightarrow> addresses \<noteq> []"
  by (auto simp: egress_addresses_def split: if_splits sum.splits)

lemma check_address_iff: "check_address pf a = Inr () \<longleftrightarrow> \<not> isMetadataAddress a \<and> \<not> isPrivateAddress pf a"
  by (auto simp: check_address_def)

lemma checkUrl_iff: "checkUrl pf policy raw = Inr u \<longleftrightarrow> pf_URL pf raw = Some u \<and> contained pf policy u"
  by (auto simp: checkUrl_def contained_def Let_def res_bind_Inr_iff ensure_iff for_each_iff check_address_iff list_all_iff
      dest: addresses_nonempty split: option.splits)

text \<open>The URLs a redirect chain goes through.\<close>

fun hops_ok :: "platform \<Rightarrow> url \<Rightarrow> string list \<Rightarrow> url list \<Rightarrow> bool" where
  "hops_ok pf u [] us = (us = [])"
| "hops_ok pf u (h # hs) (v # us) = ((\<exists>t. pf_relative pf h u = Some t \<and> pf_URL pf t = Some v) \<and> hops_ok pf v hs us)"
| "hops_ok pf u (h # hs) [] = False"

lemma check_hops_iff:
  "check_hops pf policy u hs = Inr w \<longleftrightarrow> (\<exists>us. hops_ok pf u hs us \<and> list_all (contained pf policy) us \<and> w = last (u # us))"
proof (induction hs arbitrary: u)
  case (Cons h hs)
  show ?case
  proof
    assume "check_hops pf policy u (h # hs) = Inr w"
    then obtain t v where t: "pf_relative pf h u = Some t" "checkUrl pf policy t = Inr v" "check_hops pf policy v hs = Inr w"
      by (auto split: option.splits sum.splits)
    from Cons.IH [of v] t(3) obtain us where "hops_ok pf v hs us" "list_all (contained pf policy) us" "w = last (v # us)" by blast
    with t show "\<exists>us. hops_ok pf u (h # hs) us \<and> list_all (contained pf policy) us \<and> w = last (u # us)"
      by (intro exI [of _ "v # us"]) (auto simp: checkUrl_iff)
  next
    assume "\<exists>us. hops_ok pf u (h # hs) us \<and> list_all (contained pf policy) us \<and> w = last (u # us)"
    then obtain vs where vs: "hops_ok pf u (h # hs) vs" "list_all (contained pf policy) vs" "w = last (u # vs)" by blast
    then obtain v us t where v: "vs = v # us" "pf_relative pf h u = Some t" "pf_URL pf t = Some v" "hops_ok pf v hs us"
      by (cases vs) auto
    with vs have "checkUrl pf policy t = Inr v" "check_hops pf policy v hs = Inr w" using Cons.IH [of v] by (auto simp: checkUrl_iff)
    with v show "check_hops pf policy u (h # hs) = Inr w" by simp
  qed
qed auto


text \<open>
  The addresses refused among the IPv4 ones: an address is private exactly when its first two numbers are in
  one of the listed ranges, and so it is when the address is written as an IPv4-mapped IPv6 address with dots.
\<close>

theorem private_ranges_are_refused:
  assumes "reads_v4 pf a b c d" and "a \<le> 255" "b \<le> 255" "c \<le> 255" "d \<le> 255" and "pf_isIP pf (''::ffff:'' @ dotted a b c d) = 6"
  shows "(isPrivateAddress pf (dotted a b c d) \<longleftrightarrow> private_v4 a b) \<and>
    (isPrivateAddress pf (''::ffff:'' @ dotted a b c d) \<longleftrightarrow> private_v4 a b)"
  using private_dotted [OF assms(1-5)] private_mapped [OF assms] by blast

definition sample_platform :: platform where
  "sample_platform = \<lparr>pf_URL = (\<lambda>_. None), pf_relative = (\<lambda>_ _. None),
    pf_isIP = (\<lambda>s. if contains s '':'' then 6 else if length (split_on (CHR ''.'') s) = 4 then 4 else 0),
    pf_Number = (\<lambda>s. Fin (of_nat (parse_nat s)))\<rparr>"

theorem private_ranges_are_refused_witness:
  "isPrivateAddress sample_platform (dotted 10 0 0 1) \<and> \<not> isPrivateAddress sample_platform (''::ffff:'' @ dotted 8 8 8 8)"
proof -
  have "\<not> contains (dotted 10 0 0 1) '':''" "\<not> contains (dotted 8 8 8 8) '':''" "contains (''::ffff:'' @ dotted 10 0 0 1) '':''"
    "contains (''::ffff:'' @ dotted 8 8 8 8) '':''" by code_simp+
  then show ?thesis
    using private_ranges_are_refused [of sample_platform 10 0 0 1] private_ranges_are_refused [of sample_platform 8 8 8 8]
    by (simp add: reads_v4_def sample_platform_def split_dotted private_v4_def)
qed

text \<open>
  Texts of IPv6 addresses that are loopback or link-local and are not refused: the loopback address mapped and
  written in hexadecimal, the loopback address written out, and a link-local address that does not begin with fe80.
\<close>

theorem ipv6_texts_that_pass:
  assumes "pf_isIP pf ''::ffff:7f00:1'' = 6" and "pf_isIP pf ''0:0:0:0:0:0:0:1'' = 6" and "pf_isIP pf ''fe90::1'' = 6"
  shows "check_address pf ''::ffff:7f00:1'' = Inr () \<and> check_address pf ''0:0:0:0:0:0:0:1'' = Inr () \<and> check_address pf ''fe90::1'' = Inr ()"
proof -
  have plain: "unbracket (toLowerCase ''::ffff:7f00:1'') = ''::ffff:7f00:1''" "mapped_v4 ''::ffff:7f00:1'' = None"
    "unbracket (toLowerCase ''0:0:0:0:0:0:0:1'') = ''0:0:0:0:0:0:0:1''" "mapped_v4 ''0:0:0:0:0:0:0:1'' = None"
    "unbracket (toLowerCase ''fe90::1'') = ''fe90::1''" "mapped_v4 ''fe90::1'' = None" by code_simp+
  have "\<not> isPrivateAddress pf ''::ffff:7f00:1''" "\<not> isPrivateAddress pf ''0:0:0:0:0:0:0:1''" "\<not> isPrivateAddress pf ''fe90::1''"
    by (simp_all add: isPrivateAddress.simps [of pf "''::ffff:7f00:1''"] isPrivateAddress.simps [of pf "''0:0:0:0:0:0:0:1''"]
        isPrivateAddress.simps [of pf "''fe90::1''"] Let_def plain assms startsWith_def)
  moreover have "\<not> isMetadataAddress ''::ffff:7f00:1''" "\<not> isMetadataAddress ''0:0:0:0:0:0:0:1''" "\<not> isMetadataAddress ''fe90::1''"
    by (simp_all add: isMetadataAddress_def plain METADATA_ADDRESSES_def)
  ultimately show ?thesis by (simp add: check_address_iff)
qed

theorem ipv6_texts_that_pass_witness:
  "check_address sample_platform ''::ffff:7f00:1'' = Inr ()"
proof -
  have "contains ''::ffff:7f00:1'' '':''" "contains ''0:0:0:0:0:0:0:1'' '':''" "contains ''fe90::1'' '':''" by code_simp+
  then show ?thesis using ipv6_texts_that_pass [of sample_platform] by (simp add: sample_platform_def)
qed

end
