(* ===== verification/Bridge.thy ===== *)
theory Bridge
  imports Egress Canonical
begin

text \<open>
  The local bridge (\<open>packages/bridge/src/protocol.ts\<close>, \<open>bridge.ts\<close>): pairing, sessions, authentication of
  requests and the bounded operations. HMAC and SHA-256, the text of a number and the random values are arguments; what
  the user's machine does is a record of functions, each of which may throw. Handling a request also returns the
  calls it made to the machine, in order.

  The theorems: every call to the machine belongs to an authentic request of a live session and is within that
  session's permissions; no request is accepted twice and no pairing code is used twice; the signature binds
  every field of a request; only the approved binary is deployed, as far as the hash the bridge read; and
  the human approval can be avoided by giving the amount as a text.
\<close>

section \<open>The protocol\<close>

definition BRIDGE_PROTOCOL_VERSION :: string where
  "BRIDGE_PROTOCOL_VERSION = ''contextlock.bridge/v1''"

datatype bridgeReason =
    UNKNOWN_OPERATION | OPERATION_NOT_AVAILABLE | NOT_PERMITTED | BAD_SIGNATURE | PAYLOAD_MUTATED | REPLAY | EXPIRED
  | NOT_YET_VALID | WRONG_PROJECT | WRONG_BRIDGE | WRONG_USER | NO_SESSION | SESSION_REVOKED | PAIRING_USED
  | PAIRING_EXPIRED | PAIRING_UNKNOWN | CREDENTIAL_NOT_ALLOWED | BRIDGE_HOST_NOT_ALLOWED | APPROVAL_REQUIRED | HARDWARE_UNAVAILABLE

definition BRIDGE_OPERATIONS :: "string list" where
  "BRIDGE_OPERATIONS =
    [''cre.simulateWorkflow'', ''cre.status'', ''cre.buildWorkflow'', ''cre.deployWorkflow'', ''cre.workflowLifecycle'',
     ''ledger.approveContextLockAction'', ''ledger.performProtectedBrokerAction'', ''credential.performApiRequest'']"

definition FORBIDDEN_OPERATIONS :: "string list" where
  "FORBIDDEN_OPERATIONS =
    [''getSecret'', ''credential.get'', ''credential.reveal'', ''runShell'', ''shell.exec'', ''readEnv'', ''env.read'', ''dumpCRESession'',
     ''cre.exportSession'', ''getLedgerSeed'', ''ledger.exportSeed'', ''ledger.getPin'', ''fs.read'', ''cre.runCommand'', ''cre.getApiKey'',
     ''cre.readConfig'', ''wallet.getPrivateKey'', ''wallet.exportKeystore'', ''docker.runCommand'', ''docker.socket'']"

record bridgeRequest =
  br_protocolVersion :: string
  br_requestId :: string
  br_bridgeId :: string
  br_userId :: string
  br_projectId :: string
  br_operationType :: string
  br_payloadHash :: string
  br_issuedAtMs :: int
  br_expiresAtMs :: int
  br_nonce :: string

type_synonym payload = "(string \<times> json) list"

record signedBridgeRequest =
  sr_request :: bridgeRequest
  sr_payload :: payload
  sr_signature :: string

definition request_parses :: "bridgeRequest \<Rightarrow> bool" where
  "request_parses r =
    (br_protocolVersion r = BRIDGE_PROTOCOL_VERSION \<and> 8 \<le> length (br_requestId r) \<and> 8 \<le> length (br_bridgeId r) \<and>
     1 \<le> length (br_userId r) \<and> 1 \<le> length (br_projectId r) \<and> 1 \<le> length (br_operationType r) \<and>
     (startsWith (br_payloadHash r) ''sha256:'' \<and> length (br_payloadHash r) = 71 \<and> list_all is_lower_hex (drop 7 (br_payloadHash r))) \<and>
     0 < br_issuedAtMs r \<and> 0 < br_expiresAtMs r \<and> 16 \<le> length (br_nonce r))"

definition payloadHash :: "(string \<Rightarrow> string) \<Rightarrow> (jsnum \<Rightarrow> string) \<Rightarrow> payload \<Rightarrow> string" where
  "payloadHash sha256Hex num p = ''sha256:'' @ sha256Hex (canonicalize num (JObj p))"

definition signingInput :: "(jsnum \<Rightarrow> string) \<Rightarrow> bridgeRequest \<Rightarrow> string" where
  "signingInput num r = canonicalize num (j_record
     [''protocolVersion'', ''requestId'', ''bridgeId'', ''userId'', ''projectId'', ''operationType'', ''payloadHash'', ''issuedAtMs'', ''expiresAtMs'', ''nonce'']
     [JStr (br_protocolVersion r), JStr (br_requestId r), JStr (br_bridgeId r), JStr (br_userId r), JStr (br_projectId r), JStr (br_operationType r),
      JStr (br_payloadHash r), j_int (br_issuedAtMs r), j_int (br_expiresAtMs r), JStr (br_nonce r)])"

text \<open>\<open>Buffer.from(text, "hex")\<close> reads pairs of digits up to the first that is not one.\<close>

fun hex_bytes :: "string \<Rightarrow> nat list" where
  "hex_bytes (a # b # r) = (if is_hex a \<and> is_hex b then (16 * hex_value (lower_char a) + hex_value (lower_char b)) # hex_bytes r else [])"
| "hex_bytes _ = []"

definition verifySignature :: "(string \<Rightarrow> string \<Rightarrow> string) \<Rightarrow> (jsnum \<Rightarrow> string) \<Rightarrow> bridgeRequest \<Rightarrow> string \<Rightarrow> string \<Rightarrow> bool" where
  "verifySignature hmac num r key signature =
    (let expected = hex_bytes (hmac key (signingInput num r)); given = hex_bytes signature in
     length given = length expected \<and> given = expected)"

section \<open>Sessions\<close>

record bridgePermissions =
  bp_allowedProjects :: "string list"
  bp_allowedOperations :: "string list"
  bp_allowedCredentialRefs :: "string list"
  bp_allowedHosts :: "string list"
  bp_allowedApiOperationIds :: "string list"
  bp_allowedCreWorkflows :: "string list"
  bp_allowedLedgerActionTypes :: "string list"
  bp_humanApprovalAboveUsdCents :: jsnum

definition DENY_ALL :: bridgePermissions where
  "DENY_ALL = \<lparr>bp_allowedProjects = [], bp_allowedOperations = [], bp_allowedCredentialRefs = [], bp_allowedHosts = [],
    bp_allowedApiOperationIds = [], bp_allowedCreWorkflows = [], bp_allowedLedgerActionTypes = [], bp_humanApprovalAboveUsdCents = Fin 0\<rparr>"

record bridgeSession =
  bs_bridgeId :: string
  bs_userId :: string
  bs_projectId :: string
  bs_key :: string
  bs_createdAtMs :: int
  bs_expiresAtMs :: int
  bs_revokedAtMs :: "int option"
  bs_permissions :: bridgePermissions

record pairingCode =
  pc_code :: string
  pc_userId :: string
  pc_projectId :: string
  pc_expiresAtMs :: int
  pc_usedAtMs :: "int option"

record localBridge =
  lb_pairings :: "(string \<times> pairingCode) list"
  lb_sessions :: "(string \<times> bridgeSession) list"
  lb_nonces :: "(string \<times> string list) list"

definition new_bridge :: localBridge where
  "new_bridge = \<lparr>lb_pairings = [], lb_sessions = [], lb_nonces = []\<rparr>"

text \<open>\<open>code\<close> is the random code; \<open>now\<close> numbers the readings of the clock within a call.\<close>

definition createPairingCode :: "string \<Rightarrow> int \<Rightarrow> string \<Rightarrow> string \<Rightarrow> int \<Rightarrow> localBridge \<Rightarrow> localBridge \<times> pairingCode" where
  "createPairingCode code now userId projectId ttlMs b =
    (let p = \<lparr>pc_code = code, pc_userId = userId, pc_projectId = projectId, pc_expiresAtMs = now + ttlMs, pc_usedAtMs = None\<rparr>
     in (b\<lparr>lb_pairings := map_set code p (lb_pairings b)\<rparr>, p))"

definition pair ::
    "string \<Rightarrow> string \<Rightarrow> (nat \<Rightarrow> int) \<Rightarrow> string \<Rightarrow> bridgePermissions \<Rightarrow> int \<Rightarrow> localBridge \<Rightarrow> localBridge \<times> (bridgeReason + bridgeSession)" where
  "pair bridgeId key now code permissions sessionTtlMs b =
    (case map_of (lb_pairings b) code of
       None \<Rightarrow> (b, Inl PAIRING_UNKNOWN)
     | Some p \<Rightarrow>
         if pc_usedAtMs p \<noteq> None then (b, Inl PAIRING_USED)
         else if pc_expiresAtMs p < now 0 then (b, Inl PAIRING_EXPIRED)
         else
           let s = \<lparr>bs_bridgeId = bridgeId, bs_userId = pc_userId p, bs_projectId = pc_projectId p, bs_key = key, bs_createdAtMs = now 2,
                    bs_expiresAtMs = now 3 + sessionTtlMs, bs_revokedAtMs = None, bs_permissions = permissions\<rparr> in
           (\<lparr>lb_pairings = map_set code (p\<lparr>pc_usedAtMs := Some (now 1)\<rparr>) (lb_pairings b),
             lb_sessions = map_set bridgeId s (lb_sessions b), lb_nonces = map_set bridgeId [] (lb_nonces b)\<rparr>, Inr s))"

definition revoke :: "string \<Rightarrow> int \<Rightarrow> localBridge \<Rightarrow> localBridge" where
  "revoke bridgeId now b =
    (case map_of (lb_sessions b) bridgeId of
       None \<Rightarrow> b
     | Some s \<Rightarrow> b\<lparr>lb_sessions := map_set bridgeId (s\<lparr>bs_revokedAtMs := Some now\<rparr>) (lb_sessions b)\<rparr>)"

definition seen_nonces :: "localBridge \<Rightarrow> string \<Rightarrow> string list" where
  "seen_nonces b bridgeId = (case map_of (lb_nonces b) bridgeId of Some ns \<Rightarrow> ns | None \<Rightarrow> [])"

definition authenticate ::
    "(string \<Rightarrow> string \<Rightarrow> string) \<Rightarrow> (string \<Rightarrow> string) \<Rightarrow> (jsnum \<Rightarrow> string) \<Rightarrow> int \<Rightarrow> signedBridgeRequest \<Rightarrow> localBridge \<Rightarrow>
     localBridge \<times> (bridgeReason + bridgeSession)" where
  "authenticate hmac sha256Hex num now signed b =
    (let r = sr_request signed in
     if \<not> request_parses r then (b, Inl BAD_SIGNATURE)
     else case map_of (lb_sessions b) (br_bridgeId r) of
         None \<Rightarrow> (b, Inl WRONG_BRIDGE)
       | Some s \<Rightarrow>
           if bs_revokedAtMs s \<noteq> None then (b, Inl SESSION_REVOKED)
           else if bs_expiresAtMs s < now then (b, Inl NO_SESSION)
           else if \<not> verifySignature hmac num r (bs_key s) (sr_signature signed) then (b, Inl BAD_SIGNATURE)
           else if br_userId r \<noteq> bs_userId s then (b, Inl WRONG_USER)
           else if br_projectId r \<noteq> bs_projectId s then (b, Inl WRONG_PROJECT)
           else if br_expiresAtMs r < now then (b, Inl EXPIRED)
           else if now + 30000 < br_issuedAtMs r then (b, Inl NOT_YET_VALID)
           else if payloadHash sha256Hex num (sr_payload signed) \<noteq> br_payloadHash r then (b, Inl PAYLOAD_MUTATED)
           else if br_nonce r \<in> set (seen_nonces b (br_bridgeId r)) then (b, Inl REPLAY)
           else (b\<lparr>lb_nonces := map_set (br_bridgeId r) (br_nonce r # seen_nonces b (br_bridgeId r)) (lb_nonces b)\<rparr>, Inr s))"

section \<open>Operations\<close>

record approvalPrompt =
  ap_projectId :: string
  ap_operation :: string
  ap_what :: string
  ap_amountUsdCents :: "jsnum option"
  ap_destination :: "string option"
  ap_policyReason :: string
  ap_expiresAtMs :: int

record cre_status =
  st_connected :: bool
  st_organizationId :: "string option"
  st_organizationName :: "string option"
  st_accountLabel :: "string option"
  st_deployAccess :: bool
  st_registryIds :: "string list"
  st_supportedChains :: json
  st_cliVersion :: string

record cre_deploy =
  cd_status :: "string + cre_status"
  cd_build :: "string \<Rightarrow> string + json"
  cd_deploy :: "string \<Rightarrow> string \<Rightarrow> string \<Rightarrow> string + payload"
  cd_lifecycle :: "string \<Rightarrow> string \<Rightarrow> string + json"
  cd_hashFile :: "string \<Rightarrow> string + string"

record machine =
  ma_now :: int
  ma_laterMs :: int
  ma_platform :: platform
  ma_egress :: egressPolicy
  ma_performApiCall :: "(string \<Rightarrow> string \<Rightarrow> string \<Rightarrow> string + json \<times> json) option"
  ma_runCreWorkflow :: "(string \<Rightarrow> json \<Rightarrow> string + json \<times> json) option"
  ma_creDeploy :: "cre_deploy option"
  ma_ledger :: "(string \<Rightarrow> string \<Rightarrow> string + bool \<times> string) option"
  ma_askHuman :: "(approvalPrompt \<Rightarrow> string + bool) option"

datatype machine_call =
    ApiCall string string string
  | RunCre string json
  | CreStatus
  | CreBuild string
  | HashFile string
  | CreDeploy string string string
  | CreLifecycle string string
  | AskHuman approvalPrompt
  | LedgerApprove string string

datatype bridgeOutcome = Done json | Failed bridgeReason | Threw string

type_synonym handled = "bridgeOutcome \<times> machine_call list"

definition done_or_threw :: "string + json \<Rightarrow> bridgeOutcome" where
  "done_or_threw r = (case r of Inl message \<Rightarrow> Threw message | Inr v \<Rightarrow> Done v)"

text \<open>\<open>String(v)\<close> and \<open>String(payload.k ?? "")\<close>.\<close>

fun js_text :: "(jsnum \<Rightarrow> string) \<Rightarrow> json \<Rightarrow> string" where
  "js_text num JNull = ''null''"
| "js_text num (JBool b) = (if b then ''true'' else ''false'')"
| "js_text num (JNum n) = (case n of NaN \<Rightarrow> ''NaN'' | PosInf \<Rightarrow> ''Infinity'' | NegInf \<Rightarrow> ''-Infinity'' | Fin _ \<Rightarrow> num n)"
| "js_text num (JStr s) = s"
| "js_text num (JArr xs) = join '','' (map (\<lambda>x. if x = JNull then [] else js_text num x) xs)"
| "js_text num (JObj kvs) = ''[object Object]''"

definition field :: "payload \<Rightarrow> string \<Rightarrow> json" where
  "field p k = (case map_of p k of Some v \<Rightarrow> v | None \<Rightarrow> JNull)"

definition text_field :: "(jsnum \<Rightarrow> string) \<Rightarrow> payload \<Rightarrow> string \<Rightarrow> string" where
  "text_field num p k = (if field p k = JNull then [] else js_text num (field p k))"

definition performApiRequest :: "(jsnum \<Rightarrow> string) \<Rightarrow> machine \<Rightarrow> bridgeSession \<Rightarrow> payload \<Rightarrow> handled" where
  "performApiRequest num m s p =
    (let credentialRef = text_field num p ''credentialRef''; operationId = text_field num p ''operationId''; perms = bs_permissions s in
     if credentialRef \<notin> set (bp_allowedCredentialRefs perms) then (Failed CREDENTIAL_NOT_ALLOWED, [])
     else if operationId \<notin> set (bp_allowedApiOperationIds perms) then (Failed NOT_PERMITTED, [])
     else case checkUrl (ma_platform m) ((ma_egress m)\<lparr>ep_allowedHosts := bp_allowedHosts perms\<rparr>) (text_field num p ''url'') of
         Inl _ \<Rightarrow> (Failed BRIDGE_HOST_NOT_ALLOWED, [])
       | Inr u \<Rightarrow>
           (case ma_performApiCall m of
              None \<Rightarrow> (Failed OPERATION_NOT_AVAILABLE, [])
            | Some call \<Rightarrow>
                (done_or_threw (res_bind (call (ur_href u) credentialRef operationId) (\<lambda>(status, body).
                   Inr (JObj [(''status'', status), (''body'', body), (''credentialRef'', JStr credentialRef), (''executedLocally'', JBool True)]))),
                 [ApiCall (ur_href u) credentialRef operationId])))"

definition simulateWorkflow :: "(jsnum \<Rightarrow> string) \<Rightarrow> machine \<Rightarrow> bridgeSession \<Rightarrow> payload \<Rightarrow> handled" where
  "simulateWorkflow num m s p =
    (let workflow = text_field num p ''workflow''; args = (if field p ''args'' = JNull then JObj [] else field p ''args'') in
     if workflow \<notin> set (bp_allowedCreWorkflows (bs_permissions s)) then (Failed NOT_PERMITTED, [])
     else case ma_runCreWorkflow m of
         None \<Rightarrow> (Failed OPERATION_NOT_AVAILABLE, [])
       | Some run \<Rightarrow>
           (done_or_threw (res_bind (run workflow args) (\<lambda>(status, result). Inr (JObj [(''status'', status), (''result'', result)]))),
            [RunCre workflow args]))"

definition creStatus :: "machine \<Rightarrow> handled" where
  "creStatus m =
    (case ma_creDeploy m of
       None \<Rightarrow> (Failed OPERATION_NOT_AVAILABLE, [])
     | Some cre \<Rightarrow>
         (done_or_threw (res_bind (cd_status cre) (\<lambda>st. Inr (JObj
            [(''connected'', JBool (st_connected st)), (''organizationId'', j_nullable JStr (st_organizationId st)),
             (''organizationName'', j_nullable JStr (st_organizationName st)), (''accountLabel'', j_nullable JStr (st_accountLabel st)),
             (''deployAccess'', JBool (st_deployAccess st)), (''availableRegistryIds'', JArr (map JStr (st_registryIds st))),
             (''supportedChains'', st_supportedChains st), (''cliVersion'', JStr (st_cliVersion st))]))),
          [CreStatus]))"

definition creBuild :: "(jsnum \<Rightarrow> string) \<Rightarrow> machine \<Rightarrow> bridgeSession \<Rightarrow> payload \<Rightarrow> handled" where
  "creBuild num m s p =
    (let workflow = text_field num p ''workflow'' in
     if workflow \<notin> set (bp_allowedCreWorkflows (bs_permissions s)) then (Failed NOT_PERMITTED, [])
     else case ma_creDeploy m of
         None \<Rightarrow> (Failed OPERATION_NOT_AVAILABLE, [])
       | Some cre \<Rightarrow> (done_or_threw (cd_build cre workflow), [CreBuild workflow]))"

definition creDeployWorkflow :: "(jsnum \<Rightarrow> string) \<Rightarrow> machine \<Rightarrow> bridgeSession \<Rightarrow> payload \<Rightarrow> handled" where
  "creDeployWorkflow num m s p =
    (let workflow = text_field num p ''workflow''; wasmPath = text_field num p ''wasmPath''; registry = text_field num p ''registry'';
         approved = text_field num p ''approvedWasmSha256'' in
     if workflow \<notin> set (bp_allowedCreWorkflows (bs_permissions s)) then (Failed NOT_PERMITTED, [])
     else if startsWith registry ''onchain:'' then (Failed NOT_PERMITTED, [])
     else if \<not> (length approved = 64 \<and> list_all is_lower_hex approved) then (Failed NOT_PERMITTED, [])
     else case ma_creDeploy m of
         None \<Rightarrow> (Failed OPERATION_NOT_AVAILABLE, [])
       | Some cre \<Rightarrow>
           (case cd_hashFile cre wasmPath of
              Inl message \<Rightarrow> (Threw message, [HashFile wasmPath])
            | Inr actual \<Rightarrow>
                if actual \<noteq> approved then (Failed NOT_PERMITTED, [HashFile wasmPath])
                else (done_or_threw (res_bind (cd_deploy cre workflow wasmPath registry) (\<lambda>r.
                        Inr (JObj (map_set ''deployedWasmSha256'' (JStr actual) r)))),
                      [HashFile wasmPath, CreDeploy workflow wasmPath registry])))"

definition creLifecycle :: "(jsnum \<Rightarrow> string) \<Rightarrow> machine \<Rightarrow> bridgeSession \<Rightarrow> payload \<Rightarrow> handled" where
  "creLifecycle num m s p =
    (let workflow = text_field num p ''workflow''; action = text_field num p ''action'' in
     if workflow \<notin> set (bp_allowedCreWorkflows (bs_permissions s)) then (Failed NOT_PERMITTED, [])
     else if action \<notin> {''get'', ''pause'', ''activate'', ''list''} then (Failed UNKNOWN_OPERATION, [])
     else case ma_creDeploy m of
         None \<Rightarrow> (Failed OPERATION_NOT_AVAILABLE, [])
       | Some cre \<Rightarrow> (done_or_threw (cd_lifecycle cre workflow action), [CreLifecycle workflow action]))"

definition ledger_approve :: "(string \<Rightarrow> string) \<Rightarrow> (jsnum \<Rightarrow> string) \<Rightarrow> machine \<Rightarrow> string \<Rightarrow> payload \<Rightarrow> handled" where
  "ledger_approve sha256Hex num m actionType p =
    (case ma_ledger m of
       None \<Rightarrow> (Failed HARDWARE_UNAVAILABLE, [])
     | Some approve \<Rightarrow>
         let digest = sha256Hex (stringify num (JObj p)) in
         (done_or_threw (res_bind (approve actionType digest) (\<lambda>(ok, signature).
            Inr (JObj [(''approved'', JBool ok), (''signature'', JStr signature), (''digest'', JStr digest)]))),
          [LedgerApprove actionType digest]))"

definition amount_of :: "payload \<Rightarrow> jsnum option" where
  "amount_of p = (case field p ''amountUsdCents'' of JNum n \<Rightarrow> Some n | _ \<Rightarrow> None)"

definition ledger_prompt :: "(jsnum \<Rightarrow> string) \<Rightarrow> machine \<Rightarrow> bridgeSession \<Rightarrow> string \<Rightarrow> payload \<Rightarrow> approvalPrompt" where
  "ledger_prompt num m s op p =
    \<lparr>ap_projectId = bs_projectId s, ap_operation = op, ap_what = text_field num p ''actionType'', ap_amountUsdCents = amount_of p,
     ap_destination = (case field p ''destination'' of JStr d \<Rightarrow> Some d | _ \<Rightarrow> None),
     ap_policyReason = (if field p ''policyReason'' = JNull then ''above the bridge's autonomous ceiling'' else js_text num (field p ''policyReason'')),
     ap_expiresAtMs = ma_laterMs m + 120000\<rparr>"

definition ledgerAction :: "(string \<Rightarrow> string) \<Rightarrow> (jsnum \<Rightarrow> string) \<Rightarrow> machine \<Rightarrow> bridgeSession \<Rightarrow> string \<Rightarrow> payload \<Rightarrow> handled" where
  "ledgerAction sha256Hex num m s op p =
    (let actionType = text_field num p ''actionType''; amount = amount_of p in
     if actionType \<notin> set (bp_allowedLedgerActionTypes (bs_permissions s)) then (Failed NOT_PERMITTED, [])
     else if (case amount of None \<Rightarrow> False | Some a \<Rightarrow> js_less (bp_humanApprovalAboveUsdCents (bs_permissions s)) a)
     then (case ma_askHuman m of
             None \<Rightarrow> (Failed APPROVAL_REQUIRED, [])
           | Some ask \<Rightarrow>
               let prompt = ledger_prompt num m s op p in
               (case ask prompt of
                  Inl message \<Rightarrow> (Threw message, [AskHuman prompt])
                | Inr yes \<Rightarrow>
                    if \<not> yes then (Failed APPROVAL_REQUIRED, [AskHuman prompt])
                    else let r = ledger_approve sha256Hex num m actionType p in (fst r, AskHuman prompt # snd r)))
     else ledger_approve sha256Hex num m actionType p)"

definition perform :: "(string \<Rightarrow> string) \<Rightarrow> (jsnum \<Rightarrow> string) \<Rightarrow> machine \<Rightarrow> bridgeSession \<Rightarrow> string \<Rightarrow> payload \<Rightarrow> handled" where
  "perform sha256Hex num m s op p =
    (if op = ''credential.performApiRequest'' then performApiRequest num m s p
     else if op = ''cre.simulateWorkflow'' then simulateWorkflow num m s p
     else if op = ''cre.status'' then creStatus m
     else if op = ''cre.buildWorkflow'' then creBuild num m s p
     else if op = ''cre.deployWorkflow'' then creDeployWorkflow num m s p
     else if op = ''cre.workflowLifecycle'' then creLifecycle num m s p
     else ledgerAction sha256Hex num m s op p)"

definition handle ::
    "(string \<Rightarrow> string \<Rightarrow> string) \<Rightarrow> (string \<Rightarrow> string) \<Rightarrow> (jsnum \<Rightarrow> string) \<Rightarrow> machine \<Rightarrow> signedBridgeRequest \<Rightarrow> localBridge \<Rightarrow>
     localBridge \<times> handled" where
  "handle hmac sha256Hex num m signed b =
    (let op = br_operationType (sr_request signed) in
     if op \<in> set FORBIDDEN_OPERATIONS then (b, Failed OPERATION_NOT_AVAILABLE, [])
     else if op \<notin> set BRIDGE_OPERATIONS then (b, Failed UNKNOWN_OPERATION, [])
     else case authenticate hmac sha256Hex num (ma_now m) signed b of
         (b', Inl reason) \<Rightarrow> (b', Failed reason, [])
       | (b', Inr s) \<Rightarrow>
           if op \<notin> set (bp_allowedOperations (bs_permissions s)) then (b', Failed NOT_PERMITTED, [])
           else if bs_projectId s \<notin> set (bp_allowedProjects (bs_permissions s)) then (b', Failed WRONG_PROJECT, [])
           else (b', perform sha256Hex num m s op (sr_payload signed)))"

section \<open>Authentic requests and permitted calls\<close>

definition authentic ::
    "(string \<Rightarrow> string \<Rightarrow> string) \<Rightarrow> (string \<Rightarrow> string) \<Rightarrow> (jsnum \<Rightarrow> string) \<Rightarrow> int \<Rightarrow> signedBridgeRequest \<Rightarrow> bridgeSession \<Rightarrow> bool" where
  "authentic hmac sha num now signed s \<longleftrightarrow> request_parses (sr_request signed) \<and> bs_revokedAtMs s = None \<and> now \<le> bs_expiresAtMs s \<and>
    verifySignature hmac num (sr_request signed) (bs_key s) (sr_signature signed) \<and>
    br_userId (sr_request signed) = bs_userId s \<and> br_projectId (sr_request signed) = bs_projectId s \<and>
    now \<le> br_expiresAtMs (sr_request signed) \<and> br_issuedAtMs (sr_request signed) \<le> now + 30000 \<and>
    payloadHash sha num (sr_payload signed) = br_payloadHash (sr_request signed)"

lemma authenticate_iff:
  "authenticate hmac sha num now signed b = (b', Inr s) \<longleftrightarrow>
    map_of (lb_sessions b) (br_bridgeId (sr_request signed)) = Some s \<and> authentic hmac sha num now signed s \<and>
    br_nonce (sr_request signed) \<notin> set (seen_nonces b (br_bridgeId (sr_request signed))) \<and>
    b' = b\<lparr>lb_nonces := map_set (br_bridgeId (sr_request signed))
           (br_nonce (sr_request signed) # seen_nonces b (br_bridgeId (sr_request signed))) (lb_nonces b)\<rparr>"
  by (auto simp: authenticate_def authentic_def Let_def not_less split: option.splits)

lemma authenticate_refused: "authenticate hmac sha num now signed b = (b', Inl reason) \<Longrightarrow> b' = b"
  by (auto simp: authenticate_def Let_def split: option.splits if_splits)

text \<open>What a session permits of a call, given the payload and the machine.\<close>

fun permitted :: "(jsnum \<Rightarrow> string) \<Rightarrow> machine \<Rightarrow> bridgeSession \<Rightarrow> payload \<Rightarrow> machine_call \<Rightarrow> bool" where
  "permitted num m s p (ApiCall href cred opid) \<longleftrightarrow>
     cred \<in> set (bp_allowedCredentialRefs (bs_permissions s)) \<and> opid \<in> set (bp_allowedApiOperationIds (bs_permissions s)) \<and>
     (\<exists>u. pf_URL (ma_platform m) (text_field num p ''url'') = Some u \<and> href = ur_href u \<and>
        contained (ma_platform m) ((ma_egress m)\<lparr>ep_allowedHosts := bp_allowedHosts (bs_permissions s)\<rparr>) u)"
| "permitted num m s p (RunCre workflow args) \<longleftrightarrow> workflow \<in> set (bp_allowedCreWorkflows (bs_permissions s))"
| "permitted num m s p CreStatus \<longleftrightarrow> True"
| "permitted num m s p (CreBuild workflow) \<longleftrightarrow> workflow \<in> set (bp_allowedCreWorkflows (bs_permissions s))"
| "permitted num m s p (HashFile path) \<longleftrightarrow> text_field num p ''workflow'' \<in> set (bp_allowedCreWorkflows (bs_permissions s))"
| "permitted num m s p (CreDeploy workflow path registry) \<longleftrightarrow>
     workflow \<in> set (bp_allowedCreWorkflows (bs_permissions s)) \<and> \<not> startsWith registry ''onchain:'' \<and>
     (\<exists>cre. ma_creDeploy m = Some cre \<and> cd_hashFile cre path = Inr (text_field num p ''approvedWasmSha256''))"
| "permitted num m s p (CreLifecycle workflow action) \<longleftrightarrow>
     workflow \<in> set (bp_allowedCreWorkflows (bs_permissions s)) \<and> action \<in> {''get'', ''pause'', ''activate'', ''list''}"
| "permitted num m s p (AskHuman prompt) \<longleftrightarrow> ap_projectId prompt = bs_projectId s"
| "permitted num m s p (LedgerApprove actionType digest) \<longleftrightarrow>
     actionType \<in> set (bp_allowedLedgerActionTypes (bs_permissions s)) \<and>
     (case amount_of p of None \<Rightarrow> True
      | Some a \<Rightarrow> \<not> js_less (bp_humanApprovalAboveUsdCents (bs_permissions s)) a \<or>
          (\<exists>ask prompt. ma_askHuman m = Some ask \<and> ask prompt = Inr True \<and> ap_amountUsdCents prompt = Some a \<and> ap_what prompt = actionType))"

lemma api_permitted: "c \<in> set (snd (performApiRequest num m s p)) \<Longrightarrow> permitted num m s p c"
  by (auto simp: performApiRequest_def Let_def checkUrl_iff split: if_splits sum.splits option.splits)

lemma cre_permitted:
  "c \<in> set (snd (simulateWorkflow num m s p)) \<Longrightarrow> permitted num m s p c"
  "c \<in> set (snd (creStatus m)) \<Longrightarrow> permitted num m s p c"
  "c \<in> set (snd (creBuild num m s p)) \<Longrightarrow> permitted num m s p c"
  "c \<in> set (snd (creDeployWorkflow num m s p)) \<Longrightarrow> permitted num m s p c"
  "c \<in> set (snd (creLifecycle num m s p)) \<Longrightarrow> permitted num m s p c"
  by (auto simp: simulateWorkflow_def creStatus_def creBuild_def creDeployWorkflow_def creLifecycle_def Let_def
      split: if_splits sum.splits option.splits)

lemma ledger_approve_calls: "c \<in> set (snd (ledger_approve sha num m actionType p)) \<Longrightarrow> \<exists>digest. c = LedgerApprove actionType digest"
  by (auto simp: ledger_approve_def Let_def split: option.splits)

lemma ledger_prompt_simps [simp]:
  "ap_projectId (ledger_prompt num m s op p) = bs_projectId s" "ap_what (ledger_prompt num m s op p) = text_field num p ''actionType''"
  "ap_amountUsdCents (ledger_prompt num m s op p) = amount_of p"
  by (simp_all add: ledger_prompt_def)

lemma ledger_permitted: "c \<in> set (snd (ledgerAction sha num m s op p)) \<Longrightarrow> permitted num m s p c"
  by (auto simp: ledgerAction_def Let_def split: if_splits sum.splits option.splits dest!: ledger_approve_calls
      intro!: exI [of _ "ledger_prompt num m s op p"])

lemma perform_permitted: "c \<in> set (snd (perform sha num m s op p)) \<Longrightarrow> permitted num m s p c"
  by (auto simp: perform_def api_permitted cre_permitted ledger_permitted split: if_splits)

lemma handle_cases:
  obtains (refused) "fst (handle hmac sha num m signed b) = b" "snd (snd (handle hmac sha num m signed b)) = []"
    "\<not> (br_operationType (sr_request signed) \<in> set BRIDGE_OPERATIONS - set FORBIDDEN_OPERATIONS \<and>
       (\<exists>b' s. authenticate hmac sha num (ma_now m) signed b = (b', Inr s)))"
  | (accepted) s where "br_operationType (sr_request signed) \<in> set BRIDGE_OPERATIONS - set FORBIDDEN_OPERATIONS"
    "authenticate hmac sha num (ma_now m) signed b = (fst (handle hmac sha num m signed b), Inr s)"
    "snd (snd (handle hmac sha num m signed b)) =
       (if br_operationType (sr_request signed) \<in> set (bp_allowedOperations (bs_permissions s)) \<and> bs_projectId s \<in> set (bp_allowedProjects (bs_permissions s))
        then snd (perform sha num m s (br_operationType (sr_request signed)) (sr_payload signed)) else [])"
proof -
  let ?op = "br_operationType (sr_request signed)"
  obtain b' r where auth: "authenticate hmac sha num (ma_now m) signed b = (b', r)" by (cases "authenticate hmac sha num (ma_now m) signed b")
  show thesis
  proof (cases "?op \<in> set BRIDGE_OPERATIONS - set FORBIDDEN_OPERATIONS \<and> (\<exists>s. r = Inr s)")
    case True
    then obtain s where "r = Inr s" by blast
    with True auth show thesis by (intro accepted [of s]) (simp_all add: handle_def Let_def)
  next
    case False
    then show thesis using auth authenticate_refused [of hmac sha num "ma_now m" signed b b']
      by (intro refused) (cases r; auto simp: handle_def Let_def)+
  qed
qed

text \<open>
  C13: Nothing happens on the user's machine but what the session permits. Whenever the bridge makes any call,
  the request names a session that exists, is not revoked and not expired; it is signed with that session's key,
  for its user and its project, within its times, with the payload that was signed and a nonce not seen before;
  the operation is one of the vocabulary and one the session allows, on an allowed project; and the call itself
  is permitted: the credential, the API operation and a contained URL, the workflow, a registry that is not onchain
  with a file whose hash is the approved one, a Ledger action, which above the limit a person has approved.
\<close>

theorem bridge_calls_are_permitted:
  assumes "c \<in> set (snd (snd (handle hmac sha num m signed b)))"
  shows "\<exists>s. map_of (lb_sessions b) (br_bridgeId (sr_request signed)) = Some s \<and> authentic hmac sha num (ma_now m) signed s \<and>
    br_nonce (sr_request signed) \<notin> set (seen_nonces b (br_bridgeId (sr_request signed))) \<and>
    br_operationType (sr_request signed) \<in> set BRIDGE_OPERATIONS - set FORBIDDEN_OPERATIONS \<and>
    br_operationType (sr_request signed) \<in> set (bp_allowedOperations (bs_permissions s)) \<and>
    bs_projectId s \<in> set (bp_allowedProjects (bs_permissions s)) \<and> permitted num m s (sr_payload signed) c"
proof (cases rule: handle_cases [of hmac sha num m signed b])
  case refused
  with assms show ?thesis by simp
next
  case (accepted s)
  with assms show ?thesis using perform_permitted [of c sha num m s]
    by (intro exI [of _ s]) (auto simp: authenticate_iff split: if_splits)
qed

section \<open>Single use\<close>

datatype bridge_op = Handle machine signedBridgeRequest | Revoke string int

fun bridge_step :: "(string \<Rightarrow> string \<Rightarrow> string) \<Rightarrow> (string \<Rightarrow> string) \<Rightarrow> (jsnum \<Rightarrow> string) \<Rightarrow> bridge_op \<Rightarrow> localBridge \<Rightarrow> localBridge" where
  "bridge_step hmac sha num (Handle m signed) b = fst (handle hmac sha num m signed b)"
| "bridge_step hmac sha num (Revoke i t) b = revoke i t b"

text \<open>A request is accepted when it reaches the permissions of its session.\<close>

fun accepts :: "(string \<Rightarrow> string \<Rightarrow> string) \<Rightarrow> (string \<Rightarrow> string) \<Rightarrow> (jsnum \<Rightarrow> string) \<Rightarrow> bridge_op \<Rightarrow> localBridge \<Rightarrow> bool" where
  "accepts hmac sha num (Handle m signed) b \<longleftrightarrow> br_operationType (sr_request signed) \<in> set BRIDGE_OPERATIONS - set FORBIDDEN_OPERATIONS \<and>
     succeeds (snd (authenticate hmac sha num (ma_now m) signed b))"
| "accepts hmac sha num (Revoke i t) b \<longleftrightarrow> False"

fun op_nonce :: "bridge_op \<Rightarrow> string \<times> string" where
  "op_nonce (Handle m signed) = (br_bridgeId (sr_request signed), br_nonce (sr_request signed))"
| "op_nonce (Revoke i t) = (i, [])"

lemma seen_nonces_set: "seen_nonces (b\<lparr>lb_nonces := map_set i ns (lb_nonces b)\<rparr>) j = (if j = i then ns else seen_nonces b j)"
  by (simp add: seen_nonces_def map_of_map_set)

interpretation nonces: single_use "accepts hmac sha num" "bridge_step hmac sha num" op_nonce "\<lambda>b. {(i, n). n \<in> set (seen_nonces b i)}"
  for hmac sha num
proof
  fix op b
  show "{(i, n). n \<in> set (seen_nonces b i)} \<subseteq> {(i, n). n \<in> set (seen_nonces (bridge_step hmac sha num op b) i)}"
  proof (cases op)
    case (Handle m signed)
    then show ?thesis
      by (cases rule: handle_cases [of hmac sha num m signed b]) (auto simp: authenticate_iff seen_nonces_set)
  next
    case (Revoke i t)
    then show ?thesis by (auto simp: revoke_def seen_nonces_def split: option.splits)
  qed
  assume acc: "accepts hmac sha num op b"
  then obtain m signed b' s where op: "op = Handle m signed" and auth: "authenticate hmac sha num (ma_now m) signed b = (b', Inr s)"
    and in_vocabulary: "br_operationType (sr_request signed) \<in> set BRIDGE_OPERATIONS - set FORBIDDEN_OPERATIONS"
    by (cases op) (auto simp: succeeds_iff prod_eq_iff)
  then show "op_nonce op \<notin> {(i, n). n \<in> set (seen_nonces b i)}" by (auto simp: authenticate_iff)
  show "op_nonce op \<in> {(i, n). n \<in> set (seen_nonces (bridge_step hmac sha num op b) i)}"
  proof (cases rule: handle_cases [of hmac sha num m signed b])
    case refused
    then show ?thesis using auth in_vocabulary by blast
  next
    case (accepted s)
    then show ?thesis by (simp add: op authenticate_iff seen_nonces_set)
  qed
qed

text \<open>Pairing codes.\<close>

type_synonym pair_call = "string \<times> string \<times> (nat \<Rightarrow> int) \<times> string \<times> bridgePermissions \<times> int"

definition pair_step :: "pair_call \<Rightarrow> localBridge \<Rightarrow> localBridge \<times> (bridgeReason + bridgeSession)" where
  "pair_step q b = (case q of (i, k, now, code, perms, ttl) \<Rightarrow> pair i k now code perms ttl b)"

definition pair_code :: "pair_call \<Rightarrow> string" where
  "pair_code q = (case q of (i, k, now, code, perms, ttl) \<Rightarrow> code)"

interpretation pairings: single_use "\<lambda>q b. succeeds (snd (pair_step q b))" "\<lambda>q b. fst (pair_step q b)" pair_code
    "\<lambda>b. {code. \<exists>p. map_of (lb_pairings b) code = Some p \<and> pc_usedAtMs p \<noteq> None}"
  by unfold_locales
    (auto simp: pair_step_def pair_code_def pair_def Let_def map_of_map_set split: prod.splits option.splits if_splits)

text \<open>
  C14: No request is accepted twice and no pairing code opens a second session: in any sequence of requests and
  revocations the accepted requests have different nonces within their session, and in any sequence of pairings
  the successful ones have different codes.
\<close>

theorem requests_and_codes_are_single_use:
  "distinct (map op_nonce (begun (accepts hmac sha num) (bridge_step hmac sha num) ops b)) \<and>
   distinct (map pair_code (begun (\<lambda>q b. succeeds (snd (pair_step q b))) (\<lambda>q b. fst (pair_step q b)) pairs b))"
  using nonces.begun_once pairings.begun_once by blast

text \<open>A revoked session stays revoked, so that none of its requests is accepted again.\<close>

lemma revoked_stays:
  assumes "map_of (lb_sessions b) i = Some s" and "bs_revokedAtMs s \<noteq> None"
  shows "\<exists>s'. map_of (lb_sessions (bridge_step hmac sha num op b)) i = Some s' \<and> bs_revokedAtMs s' \<noteq> None"
proof (cases op)
  case (Handle m signed)
  then show ?thesis using assms by (cases rule: handle_cases [of hmac sha num m signed b]) (auto simp: authenticate_iff)
next
  case (Revoke j t)
  then show ?thesis using assms by (auto simp: revoke_def map_of_map_set split: option.splits)
qed

lemma revoked_session_is_silent:
  assumes "map_of (lb_sessions b) i = Some s" and "bs_revokedAtMs s \<noteq> None"
    and "op \<in> set (begun (accepts hmac sha num) (bridge_step hmac sha num) ops b)"
  shows "fst (op_nonce op) \<noteq> i"
  using assms
proof (induction ops arbitrary: b s)
  case (Cons o' ops)
  obtain s' where s': "map_of (lb_sessions (bridge_step hmac sha num o' b)) i = Some s'" "bs_revokedAtMs s' \<noteq> None"
    using revoked_stays [OF Cons.prems(1,2)] by blast
  have "fst (op_nonce o') \<noteq> i" if acc: "accepts hmac sha num o' b"
  proof (cases o')
    case (Handle m signed)
    with acc obtain b' t where "authenticate hmac sha num (ma_now m) signed b = (b', Inr t)" by (auto simp: succeeds_iff prod_eq_iff)
    then show ?thesis using Cons.prems(1,2) by (auto simp: Handle authenticate_iff authentic_def)
  next
    case (Revoke j t)
    with acc show ?thesis by simp
  qed
  then show ?case using Cons.IH [OF s'] Cons.prems(3) by (auto split: if_splits)
qed simp

section \<open>What a signature covers\<close>

lemma signingInput_inject:
  assumes "number_text num" and "signingInput num r = signingInput num r'"
  shows "r = r'"
proof -
  let ?ks = "[''protocolVersion'', ''requestId'', ''bridgeId'', ''userId'', ''projectId'', ''operationType'', ''payloadHash'', ''issuedAtMs'', ''expiresAtMs'', ''nonce'']"
  let ?vs = "\<lambda>r. [JStr (br_protocolVersion r), JStr (br_requestId r), JStr (br_bridgeId r), JStr (br_userId r), JStr (br_projectId r),
      JStr (br_operationType r), JStr (br_payloadHash r), j_int (br_issuedAtMs r), j_int (br_expiresAtMs r), JStr (br_nonce r)]"
  have fin: "json_finite (j_record ?ks (?vs r))" for r by (simp add: j_record_def)
  from assms(2) have "walk (j_record ?ks (?vs r)) = walk (j_record ?ks (?vs r'))"
    unfolding signingInput_def by (rule canonicalize_injective [OF assms(1) fin fin])
  then have "map walk (?vs r) = map walk (?vs r')" by (subst (asm) walk_record_iff) simp_all
  then show ?thesis by (cases r; cases r') simp
qed

text \<open>
  One signature covers one request. If a signature verifies for two requests with the same key, the two requests
  are the same in every field, and payloads that are accepted with them are the same up to the order of keys. The
  MAC and the hash are assumed not to collide on the two texts at hand.
\<close>

theorem signature_covers_one_request:
  assumes "number_text num"
    and "verifySignature hmac num r key signature" and "verifySignature hmac num r' key signature"
    and "inj_on (\<lambda>t. hex_bytes (hmac key t)) {signingInput num r, signingInput num r'}"
    and "payloadHash sha num p = br_payloadHash r" and "payloadHash sha num p' = br_payloadHash r'"
    and "inj_on sha {canonicalize num (JObj p), canonicalize num (JObj p')}" and "json_finite (JObj p)" and "json_finite (JObj p')"
  shows "r = r' \<and> walk (JObj p) = walk (JObj p')"
proof
  have a: "hex_bytes signature = hex_bytes (hmac key (signingInput num r))" and b: "hex_bytes signature = hex_bytes (hmac key (signingInput num r'))"
    using assms(2,3) unfolding verifySignature_def Let_def by blast+
  from a [symmetric] b have "hex_bytes (hmac key (signingInput num r)) = hex_bytes (hmac key (signingInput num r'))" by (rule trans)
  then have "signingInput num r = signingInput num r'" by (rule inj_onD [OF assms(4)]) simp_all
  then show same: "r = r'" by (rule signingInput_inject [OF assms(1)])
  have "payloadHash sha num p = payloadHash sha num p'" unfolding assms(5,6) same ..
  then have "sha (canonicalize num (JObj p)) = sha (canonicalize num (JObj p'))" by (simp add: payloadHash_def)
  then have "canonicalize num (JObj p) = canonicalize num (JObj p')" by (rule inj_onD [OF assms(7)]) simp_all
  then show "walk (JObj p) = walk (JObj p')" by (rule canonicalize_injective [OF assms(1,8,9)])
qed

text \<open>
  The limit above which a person must approve reads a number only. If the payload gives the amount as a text,
  or not at all, an allowed Ledger action goes to the device without asking anyone, whatever the limit is; given as a number above
  the limit, the same action is refused when nobody can be asked.
\<close>

theorem amount_as_text_avoids_approval:
  assumes "field p ''amountUsdCents'' = JStr amount" and "field q ''amountUsdCents'' = JNum n"
    and "text_field num p ''actionType'' \<in> set (bp_allowedLedgerActionTypes (bs_permissions s))"
    and "text_field num q ''actionType'' \<in> set (bp_allowedLedgerActionTypes (bs_permissions s))"
    and "js_less (bp_humanApprovalAboveUsdCents (bs_permissions s)) n" and "ma_ledger m = Some approve" and "ma_askHuman m = None"
  shows "snd (ledgerAction sha num m s op p) = [LedgerApprove (text_field num p ''actionType'') (sha (stringify num (JObj p)))] \<and>
    ledgerAction sha num m s op q = (Failed APPROVAL_REQUIRED, [])"
  using assms by (simp add: ledgerAction_def amount_of_def ledger_approve_def Let_def)

section \<open>A paired bridge\<close>

definition sample_permissions :: bridgePermissions where
  "sample_permissions = DENY_ALL\<lparr>bp_allowedProjects := [''project''], bp_allowedOperations := [''cre.status'', ''ledger.approveContextLockAction''],
    bp_allowedLedgerActionTypes := [''transfer''], bp_humanApprovalAboveUsdCents := Fin 1000\<rparr>"

definition sample_session :: bridgeSession where
  "sample_session = \<lparr>bs_bridgeId = ''bridge_1'', bs_userId = ''user'', bs_projectId = ''project'', bs_key = ''key'', bs_createdAtMs = 1000,
    bs_expiresAtMs = 100000, bs_revokedAtMs = None, bs_permissions = sample_permissions\<rparr>"

definition paired_bridge :: localBridge where
  "paired_bridge = fst (pair ''bridge_1'' ''key'' (\<lambda>_. 1000) ''CODE'' sample_permissions 99000
     (fst (createPairingCode ''CODE'' 500 ''user'' ''project'' 300000 new_bridge)))"

lemma paired_session: "map_of (lb_sessions paired_bridge) ''bridge_1'' = Some sample_session" "seen_nonces paired_bridge i = []"
  by (simp_all add: paired_bridge_def pair_def createPairingCode_def new_bridge_def Let_def sample_session_def seen_nonces_def)

definition sample_hash :: "string \<Rightarrow> string" where
  "sample_hash t = replicate 64 (CHR ''a'')"

definition sample_signed :: signedBridgeRequest where
  "sample_signed =
    \<lparr>sr_request = \<lparr>br_protocolVersion = BRIDGE_PROTOCOL_VERSION, br_requestId = ''request_1'', br_bridgeId = ''bridge_1'', br_userId = ''user'',
       br_projectId = ''project'', br_operationType = ''cre.status'', br_payloadHash = ''sha256:'' @ sample_hash [], br_issuedAtMs = 1500,
       br_expiresAtMs = 9000, br_nonce = ''0123456789abcdef''\<rparr>,
     sr_payload = [], sr_signature = ''ff''\<rparr>"

definition sample_machine :: machine where
  "sample_machine =
    \<lparr>ma_now = 2000, ma_laterMs = 2000, ma_platform = sample_platform,
     ma_egress = \<lparr>ep_allowedHosts = [], ep_allowedPorts = [], ep_maxRedirects = 0, ep_resolve = (\<lambda>_. Inl ''offline'')\<rparr>,
     ma_performApiCall = None, ma_runCreWorkflow = None,
     ma_creDeploy = Some \<lparr>cd_status = Inl ''not connected'', cd_build = (\<lambda>_. Inl ''no''), cd_deploy = (\<lambda>_ _ _. Inl ''no''),
       cd_lifecycle = (\<lambda>_ _. Inl ''no''), cd_hashFile = (\<lambda>_. Inl ''no'')\<rparr>,
     ma_ledger = Some (\<lambda>_ _. Inr (True, ''sig'')), ma_askHuman = None\<rparr>"

lemma sample_authentic: "authentic (\<lambda>_ _. ''ff'') sample_hash sample_num 2000 sample_signed sample_session"
proof -
  have "list_all is_lower_hex (replicate 64 (CHR ''a''))" "startsWith (''sha256:'' @ x) ''sha256:''" "drop 7 (''sha256:'' @ x) = x"
    "BRIDGE_PROTOCOL_VERSION \<noteq> []" for x :: string
    by (simp_all add: list_all_iff char_class_defs startsWith_def eval_nat_numeral BRIDGE_PROTOCOL_VERSION_def)
  then show ?thesis
    by (simp add: authentic_def request_parses_def sample_signed_def sample_session_def verifySignature_def payloadHash_def sample_hash_def Let_def)
qed

lemma sample_handled: "snd (snd (handle (\<lambda>_ _. ''ff'') sample_hash sample_num sample_machine sample_signed paired_bridge)) = [CreStatus]"
proof -
  have "br_operationType (sr_request sample_signed) = ''cre.status''" "br_bridgeId (sr_request sample_signed) = ''bridge_1''"
    by (simp_all add: sample_signed_def)
  moreover have "ma_now sample_machine = 2000" by (simp add: sample_machine_def)
  ultimately obtain b' where "authenticate (\<lambda>_ _. ''ff'') sample_hash sample_num (ma_now sample_machine) sample_signed paired_bridge = (b', Inr sample_session)"
    using sample_authentic by (auto simp: authenticate_iff paired_session)
  then show ?thesis using \<open>br_operationType (sr_request sample_signed) = ''cre.status''\<close>
    by (simp add: handle_def Let_def FORBIDDEN_OPERATIONS_def BRIDGE_OPERATIONS_def sample_session_def sample_permissions_def perform_def
        creStatus_def sample_machine_def)
qed

theorem bridge_calls_are_permitted_witness:
  "\<exists>s. map_of (lb_sessions paired_bridge) ''bridge_1'' = Some s \<and> authentic (\<lambda>_ _. ''ff'') sample_hash sample_num 2000 sample_signed s"
  using bridge_calls_are_permitted [of CreStatus "\<lambda>_ _. ''ff''" sample_hash sample_num sample_machine sample_signed paired_bridge] sample_handled
  by (auto simp: sample_signed_def sample_machine_def)

theorem signature_covers_one_request_witness:
  "verifySignature (\<lambda>_ _. ''ff'') sample_num (sr_request sample_signed) ''key'' ''ff'' \<and>
   sr_request sample_signed = sr_request sample_signed \<and> walk (JObj []) = walk (JObj [])"
proof -
  have v: "verifySignature (\<lambda>_ _. ''ff'') sample_num (sr_request sample_signed) ''key'' ''ff''" by (simp add: verifySignature_def Let_def)
  have p: "payloadHash sample_hash sample_num [] = br_payloadHash (sr_request sample_signed)" by (simp add: payloadHash_def sample_signed_def sample_hash_def)
  from signature_covers_one_request [OF sample_number_text v v _ p p] v show ?thesis by simp
qed

theorem amount_as_text_avoids_approval_witness:
  "snd (ledgerAction sample_hash sample_num sample_machine sample_session ''ledger.approveContextLockAction'' [(''amountUsdCents'', JStr ''1000000''), (''actionType'', JStr ''transfer'')]) =
     [LedgerApprove ''transfer'' (sample_hash (stringify sample_num (JObj [(''amountUsdCents'', JStr ''1000000''), (''actionType'', JStr ''transfer'')])))] \<and>
   ledgerAction sample_hash sample_num sample_machine sample_session ''ledger.approveContextLockAction'' [(''amountUsdCents'', JNum (Fin 1000000)), (''actionType'', JStr ''transfer'')] =
     (Failed APPROVAL_REQUIRED, [])"
  using amount_as_text_avoids_approval [of "[(''amountUsdCents'', JStr ''1000000''), (''actionType'', JStr ''transfer'')]" "''1000000''"
      "[(''amountUsdCents'', JNum (Fin 1000000)), (''actionType'', JStr ''transfer'')]" "Fin 1000000" sample_num sample_session sample_machine
      "\<lambda>_ _. Inr (True, ''sig'')" sample_hash "''ledger.approveContextLockAction''"]
  by (simp add: field_def text_field_def sample_session_def sample_permissions_def sample_machine_def)

end
