(* ===== verification/Policy.thy ===== *)
theory Policy
  imports Prelude
begin

text \<open>
  The deterministic policy decision function (\<open>packages/policy/src/index.ts\<close>), which the broker,
  the Studio and the confidential workflow all run. A \<open>number\<close> of the source is a \<open>jsnum\<close>, so a
  missing or malformed value (NaN, an infinity) is in the domain of the model; a \<open>bigint\<close> is an
  \<open>int\<close>. The main results: a complete characterisation of ALLOW, equality with an ordered rule
  table, the verdict growing with the amount, and what a NaN threshold does.
\<close>

section \<open>Data\<close>

datatype verdict = ALLOW | ESCALATE | DENY

datatype reason_code =
    ALLOW_POLICY_MATCH
  | DENY_AGENT_NOT_AUTHORIZED
  | DENY_TARGET_NOT_ALLOWED
  | DENY_ACTION_NOT_ALLOWED
  | DENY_AMOUNT_TOO_HIGH
  | DENY_CONTEXT_STALE
  | DENY_SLIPPAGE
  | DENY_VOLATILITY
  | DENY_LIQUIDITY
  | DENY_POLICY_DISABLED
  | DENY_MALFORMED_CONTEXT
  | ESCALATE_AMOUNT
  | ESCALATE_RISK
  | ESCALATE_POLICY_RULE

record private_policy =
  pp_policyId :: string
  pp_policyVersion :: jsnum
  pp_enabled :: bool
  pp_autoLimit :: int
  pp_escalationLimit :: int
  pp_maxSlippageBps :: jsnum
  pp_maxVolatilityBps :: jsnum
  pp_minLiquidity :: int
  pp_targetEthAllocationBps :: jsnum
  pp_rebalanceDriftBps :: jsnum
  pp_minHealthFactorBps :: jsnum
  pp_targetHealthFactorBps :: jsnum
  pp_proprietaryRiskThreshold :: jsnum
  pp_canary :: string
  pp_allowedActionKinds :: "string list"
  pp_allowedTargets :: "string list"
  pp_authorizedAgentIdentityHashes :: "string list"

record evaluation_request =
  er_requestHash :: string
  er_agentIdentityHash :: string
  er_ensNode :: string
  er_agent :: string
  er_chainId :: int
  er_target :: string
  er_value :: int
  er_calldataHash :: string
  er_selector :: string
  er_decodedRecipient :: string
  er_decodedAmount :: int
  er_intentHash :: string
  er_policyId :: string
  er_policyVersion :: jsnum
  er_actionKind :: string

record market_context =
  mc_observedAtUnix :: jsnum
  mc_slippageBps :: jsnum
  mc_volatilityBps :: jsnum
  mc_liquidity :: int
  mc_healthFactorBps :: jsnum

datatype risk_band = LOW | MEDIUM | HIGH

record policy_decision =
  pd_verdict :: verdict
  pd_reasonCode :: reason_code
  pd_riskBand :: risk_band
  pd_ttlSeconds :: int

definition MAX_CONTEXT_AGE_SECONDS :: jsnum where
  "MAX_CONTEXT_AGE_SECONDS = Fin 120"

definition DEFAULT_TTL_SECONDS :: int where
  "DEFAULT_TTL_SECONDS = 60"

section \<open>The decision\<close>

text \<open>The composite score of the last gate.\<close>

definition policy_risk :: "private_policy \<Rightarrow> market_context \<Rightarrow> int \<Rightarrow> jsnum" where
  "policy_risk policy ctx amount =
    js_floor (js_add
      (js_scale (1 / 4) (js_add (js_scale 3 (mc_slippageBps ctx)) (mc_volatilityBps ctx)))
      (js_scale 10 (Fin (of_int
        (bigint_div amount (if 0 < pp_autoLimit policy then pp_autoLimit policy else 1))))))"

definition evaluatePolicy ::
  "evaluation_request \<Rightarrow> private_policy \<Rightarrow> market_context \<Rightarrow> jsnum \<Rightarrow> policy_decision" where
  "evaluatePolicy req policy ctx nowUnix =
    (if \<not> pp_enabled policy
     then \<lparr>pd_verdict = DENY, pd_reasonCode = DENY_POLICY_DISABLED, pd_riskBand = HIGH, pd_ttlSeconds = 0\<rparr>
     else if \<not> isFinite (mc_slippageBps ctx) \<or> \<not> isFinite (mc_volatilityBps ctx) \<or>
             \<not> isFinite (mc_healthFactorBps ctx) \<or> \<not> isFinite (mc_observedAtUnix ctx) \<or>
             js_less (mc_slippageBps ctx) (Fin 0) \<or> js_less (mc_volatilityBps ctx) (Fin 0) \<or>
             mc_liquidity ctx < 0 \<or> js_less (mc_healthFactorBps ctx) (Fin 0)
     then \<lparr>pd_verdict = DENY, pd_reasonCode = DENY_MALFORMED_CONTEXT, pd_riskBand = HIGH, pd_ttlSeconds = 0\<rparr>
     else if js_less MAX_CONTEXT_AGE_SECONDS (js_sub nowUnix (mc_observedAtUnix ctx)) \<or>
             js_less (js_add nowUnix (Fin 30)) (mc_observedAtUnix ctx)
     then \<lparr>pd_verdict = DENY, pd_reasonCode = DENY_CONTEXT_STALE, pd_riskBand = HIGH, pd_ttlSeconds = 0\<rparr>
     else if toLowerCase (er_agentIdentityHash req) \<notin> set (map toLowerCase (pp_authorizedAgentIdentityHashes policy))
     then \<lparr>pd_verdict = DENY, pd_reasonCode = DENY_AGENT_NOT_AUTHORIZED, pd_riskBand = HIGH, pd_ttlSeconds = 0\<rparr>
     else if er_actionKind req \<notin> set (pp_allowedActionKinds policy)
     then \<lparr>pd_verdict = DENY, pd_reasonCode = DENY_ACTION_NOT_ALLOWED, pd_riskBand = HIGH, pd_ttlSeconds = 0\<rparr>
     else if toLowerCase (er_target req) \<notin> set (map toLowerCase (pp_allowedTargets policy))
     then \<lparr>pd_verdict = DENY, pd_reasonCode = DENY_TARGET_NOT_ALLOWED, pd_riskBand = HIGH, pd_ttlSeconds = 0\<rparr>
     else if er_policyId req \<noteq> pp_policyId policy \<or> \<not> js_eq (er_policyVersion req) (pp_policyVersion policy)
     then \<lparr>pd_verdict = DENY, pd_reasonCode = DENY_POLICY_DISABLED, pd_riskBand = HIGH, pd_ttlSeconds = 0\<rparr>
     else let amount = er_decodedAmount req in
     if pp_escalationLimit policy < amount
     then \<lparr>pd_verdict = DENY, pd_reasonCode = DENY_AMOUNT_TOO_HIGH, pd_riskBand = HIGH, pd_ttlSeconds = 0\<rparr>
     else if mc_liquidity ctx < pp_minLiquidity policy
     then \<lparr>pd_verdict = DENY, pd_reasonCode = DENY_LIQUIDITY, pd_riskBand = HIGH, pd_ttlSeconds = 0\<rparr>
     else if js_less (pp_maxSlippageBps policy) (mc_slippageBps ctx)
     then \<lparr>pd_verdict = DENY, pd_reasonCode = DENY_SLIPPAGE, pd_riskBand = HIGH, pd_ttlSeconds = 0\<rparr>
     else if js_less (pp_maxVolatilityBps policy) (mc_volatilityBps ctx)
     then \<lparr>pd_verdict = ESCALATE, pd_reasonCode = ESCALATE_RISK, pd_riskBand = HIGH, pd_ttlSeconds = DEFAULT_TTL_SECONDS\<rparr>
     else if js_less (Fin 0) (mc_healthFactorBps ctx) \<and>
             js_less (mc_healthFactorBps ctx) (pp_minHealthFactorBps policy)
     then \<lparr>pd_verdict = ESCALATE, pd_reasonCode = ESCALATE_RISK, pd_riskBand = HIGH, pd_ttlSeconds = DEFAULT_TTL_SECONDS\<rparr>
     else if pp_autoLimit policy < amount
     then \<lparr>pd_verdict = ESCALATE, pd_reasonCode = ESCALATE_AMOUNT, pd_riskBand = MEDIUM, pd_ttlSeconds = DEFAULT_TTL_SECONDS\<rparr>
     else if js_less (pp_proprietaryRiskThreshold policy) (policy_risk policy ctx amount)
     then \<lparr>pd_verdict = ESCALATE, pd_reasonCode = ESCALATE_POLICY_RULE, pd_riskBand = MEDIUM, pd_ttlSeconds = DEFAULT_TTL_SECONDS\<rparr>
     else \<lparr>pd_verdict = ALLOW, pd_reasonCode = ALLOW_POLICY_MATCH, pd_riskBand = LOW, pd_ttlSeconds = DEFAULT_TTL_SECONDS\<rparr>)"

definition verdictToUint :: "verdict \<Rightarrow> int" where
  "verdictToUint v = (if v = ALLOW then 1 else if v = ESCALATE then 2 else 3)"

section \<open>Specification vocabulary\<close>

text \<open>What the three groups of gates ask, stated on their own.\<close>

definition well_formed_context :: "market_context \<Rightarrow> bool" where
  "well_formed_context ctx \<longleftrightarrow>
     (\<exists>s v h t. mc_slippageBps ctx = Fin s \<and> mc_volatilityBps ctx = Fin v \<and>
        mc_healthFactorBps ctx = Fin h \<and> mc_observedAtUnix ctx = Fin t \<and>
        0 \<le> s \<and> 0 \<le> v \<and> 0 \<le> h) \<and> 0 \<le> mc_liquidity ctx"

definition fresh_context :: "market_context \<Rightarrow> jsnum \<Rightarrow> bool" where
  "fresh_context ctx now \<longleftrightarrow>
     \<not> js_less (Fin 120) (js_sub now (mc_observedAtUnix ctx)) \<and>
     \<not> js_less (js_add now (Fin 30)) (mc_observedAtUnix ctx)"

definition structurally_authorized :: "evaluation_request \<Rightarrow> private_policy \<Rightarrow> bool" where
  "structurally_authorized req policy \<longleftrightarrow>
     pp_enabled policy \<and>
     toLowerCase (er_agentIdentityHash req) \<in> toLowerCase ` set (pp_authorizedAgentIdentityHashes policy) \<and>
     er_actionKind req \<in> set (pp_allowedActionKinds policy) \<and>
     toLowerCase (er_target req) \<in> toLowerCase ` set (pp_allowedTargets policy) \<and>
     er_policyId req = pp_policyId policy \<and> js_eq (er_policyVersion req) (pp_policyVersion policy)"

definition never_overridable :: "evaluation_request \<Rightarrow> private_policy \<Rightarrow> market_context \<Rightarrow> jsnum \<Rightarrow> bool" where
  "never_overridable req policy ctx now \<longleftrightarrow>
     \<not> structurally_authorized req policy \<or> \<not> well_formed_context ctx \<or> \<not> fresh_context ctx now \<or>
     pp_escalationLimit policy < er_decodedAmount req \<or> mc_liquidity ctx < pp_minLiquidity policy \<or>
     js_less (pp_maxSlippageBps policy) (mc_slippageBps ctx)"

definition needs_human :: "evaluation_request \<Rightarrow> private_policy \<Rightarrow> market_context \<Rightarrow> bool" where
  "needs_human req policy ctx \<longleftrightarrow>
     js_less (pp_maxVolatilityBps policy) (mc_volatilityBps ctx) \<or>
     js_less (Fin 0) (mc_healthFactorBps ctx) \<and> js_less (mc_healthFactorBps ctx) (pp_minHealthFactorBps policy) \<or>
     pp_autoLimit policy < er_decodedAmount req \<or>
     js_less (pp_proprietaryRiskThreshold policy) (policy_risk policy ctx (er_decodedAmount req))"

text \<open>Severity of a verdict: ALLOW below ESCALATE below DENY.\<close>

fun severity :: "verdict \<Rightarrow> nat" where
  "severity ALLOW = 0"
| "severity ESCALATE = 1"
| "severity DENY = 2"

instantiation verdict :: linorder
begin

definition less_eq_verdict :: "verdict \<Rightarrow> verdict \<Rightarrow> bool" where
  "less_eq_verdict a b \<longleftrightarrow> severity a \<le> severity b"

definition less_verdict :: "verdict \<Rightarrow> verdict \<Rightarrow> bool" where
  "less_verdict a b \<longleftrightarrow> severity a < severity b"

instance
proof
  fix a b :: verdict
  show "a \<le> b \<Longrightarrow> b \<le> a \<Longrightarrow> a = b"
    by (cases a; cases b) (auto simp: less_eq_verdict_def)
qed (auto simp: less_eq_verdict_def less_verdict_def)

end

lemma malformed_iff:
  "(\<not> isFinite (mc_slippageBps ctx) \<or> \<not> isFinite (mc_volatilityBps ctx) \<or>
    \<not> isFinite (mc_healthFactorBps ctx) \<or> \<not> isFinite (mc_observedAtUnix ctx) \<or>
    js_less (mc_slippageBps ctx) (Fin 0) \<or> js_less (mc_volatilityBps ctx) (Fin 0) \<or>
    mc_liquidity ctx < 0 \<or> js_less (mc_healthFactorBps ctx) (Fin 0)) \<longleftrightarrow> \<not> well_formed_context ctx"
  by (cases "mc_slippageBps ctx"; cases "mc_volatilityBps ctx"; cases "mc_healthFactorBps ctx";
      cases "mc_observedAtUnix ctx") (auto simp: well_formed_context_def not_less)

lemma verdict_cases:
  "pd_verdict (evaluatePolicy req policy ctx now) =
     (if never_overridable req policy ctx now then DENY
      else if needs_human req policy ctx then ESCALATE else ALLOW)"
  unfolding evaluatePolicy_def malformed_iff never_overridable_def structurally_authorized_def
    needs_human_def fresh_context_def MAX_CONTEXT_AGE_SECONDS_def Let_def
  by simp

lemma policy_risk_Fin:
  assumes "well_formed_context ctx"
  obtains q :: rat where "\<And>amount. policy_risk policy ctx amount =
    Fin (of_int \<lfloor>q + 10 * of_int (bigint_div amount (if 0 < pp_autoLimit policy then pp_autoLimit policy else 1))\<rfloor>)"
proof -
  from assms obtain s v where "mc_slippageBps ctx = Fin s" "mc_volatilityBps ctx = Fin v"
    by (auto simp: well_formed_context_def)
  then show ?thesis
    by (intro that [of "(3 * s + v) / 4"]) (simp add: policy_risk_def)
qed

lemma policy_risk_mono:
  assumes wf: "well_formed_context ctx" and le: "a \<le> b"
    and high: "js_less t (policy_risk policy ctx a)"
  shows "js_less t (policy_risk policy ctx b)"
proof -
  let ?d = "if 0 < pp_autoLimit policy then pp_autoLimit policy else 1"
  obtain q :: rat where risk: "\<And>amount. policy_risk policy ctx amount =
      Fin (of_int \<lfloor>q + 10 * of_int (bigint_div amount ?d)\<rfloor>)"
    using policy_risk_Fin [OF wf] by blast
  have "bigint_div a ?d \<le> bigint_div b ?d"
    using le by (intro bigint_div_mono) auto
  then have "(of_int (bigint_div a ?d) :: rat) \<le> of_int (bigint_div b ?d)"
    by simp
  then have "\<lfloor>q + 10 * of_int (bigint_div a ?d)\<rfloor> \<le> \<lfloor>q + 10 * of_int (bigint_div b ?d)\<rfloor>"
    by (intro floor_mono) linarith
  then have "(of_int \<lfloor>q + 10 * of_int (bigint_div a ?d)\<rfloor> :: rat) \<le> of_int \<lfloor>q + 10 * of_int (bigint_div b ?d)\<rfloor>"
    by (rule of_int_le_iff [THEN iffD2])
  with high show ?thesis unfolding risk by (cases t) auto
qed

lemma evaluatePolicy_ttl:
  "pd_ttlSeconds (evaluatePolicy req policy ctx now) =
     (if pd_verdict (evaluatePolicy req policy ctx now) = DENY then 0 else 60)"
  by (simp add: evaluatePolicy_def Let_def DEFAULT_TTL_SECONDS_def)

section \<open>Properties\<close>

text \<open>
  C35: The decision function computes the three-valued specification: DENY exactly when a condition
  holds that no human may override (unauthorized agent, action, target or policy version, malformed
  or stale context, amount above the escalation limit, liquidity below the floor, slippage above the
  maximum); otherwise ESCALATE exactly when a risk gate or the autonomous limit asks for a human;
  ALLOW otherwise. In particular an ESCALATE for the amount never masks a structural DENY.
\<close>

theorem evaluatePolicy_verdict_spec:
  "pd_verdict (evaluatePolicy req policy ctx now) =
     (if structurally_authorized req policy \<and> well_formed_context ctx \<and> fresh_context ctx now \<and>
         er_decodedAmount req \<le> pp_escalationLimit policy \<and> pp_minLiquidity policy \<le> mc_liquidity ctx \<and>
         \<not> js_less (pp_maxSlippageBps policy) (mc_slippageBps ctx)
      then (if needs_human req policy ctx then ESCALATE else ALLOW)
      else DENY)"
  unfolding verdict_cases never_overridable_def by (auto simp: not_less)

text \<open>
  An ALLOW under finite thresholds bounds everything that will execute: the decoded amount is at
  most both limits, the observed slippage and volatility are finite, non-negative and at most their
  maxima, the liquidity is at least the floor, and the context is at most 120 seconds old and at most
  30 seconds in the future.
\<close>

theorem allow_bounds:
  assumes allow: "pd_verdict (evaluatePolicy req policy ctx (Fin now)) = ALLOW"
    and slip: "pp_maxSlippageBps policy = Fin maxSlip" and vol: "pp_maxVolatilityBps policy = Fin maxVol"
  shows "er_decodedAmount req \<le> pp_autoLimit policy \<and> er_decodedAmount req \<le> pp_escalationLimit policy \<and>
    pp_minLiquidity policy \<le> mc_liquidity ctx \<and>
    (\<exists>s v t. mc_slippageBps ctx = Fin s \<and> 0 \<le> s \<and> s \<le> maxSlip \<and>
       mc_volatilityBps ctx = Fin v \<and> 0 \<le> v \<and> v \<le> maxVol \<and>
       mc_observedAtUnix ctx = Fin t \<and> now - 120 \<le> t \<and> t \<le> now + 30)"
proof -
  from allow have ok: "\<not> never_overridable req policy ctx (Fin now)" "\<not> needs_human req policy ctx"
    unfolding verdict_cases by (auto split: if_splits)
  then have wf: "well_formed_context ctx" and fresh: "fresh_context ctx (Fin now)"
    by (auto simp: never_overridable_def)
  from wf obtain s v h t where ctx: "mc_slippageBps ctx = Fin s" "mc_volatilityBps ctx = Fin v"
      "mc_healthFactorBps ctx = Fin h" "mc_observedAtUnix ctx = Fin t" "0 \<le> s" "0 \<le> v"
    by (auto simp: well_formed_context_def)
  from ok fresh ctx slip vol show ?thesis
    by (auto simp: never_overridable_def needs_human_def fresh_context_def not_less)
qed

text \<open>
  With everything else fixed, a larger decoded amount never gets a milder verdict, in the order
  ALLOW, ESCALATE, DENY; this includes the composite risk score, whose quotient grows with the amount.
\<close>

theorem verdict_mono_amount:
  assumes "a \<le> b"
  shows "pd_verdict (evaluatePolicy (req\<lparr>er_decodedAmount := a\<rparr>) policy ctx now) \<le>
         pd_verdict (evaluatePolicy (req\<lparr>er_decodedAmount := b\<rparr>) policy ctx now)"
proof -
  let ?ra = "req\<lparr>er_decodedAmount := a\<rparr>" and ?rb = "req\<lparr>er_decodedAmount := b\<rparr>"
  have "never_overridable ?ra policy ctx now \<Longrightarrow> never_overridable ?rb policy ctx now"
    using assms by (auto simp: never_overridable_def structurally_authorized_def)
  moreover have "needs_human ?ra policy ctx \<Longrightarrow> \<not> never_overridable ?rb policy ctx now \<Longrightarrow> needs_human ?rb policy ctx"
    using assms policy_risk_mono [of ctx a b]
    by (auto simp: needs_human_def never_overridable_def)
  ultimately show ?thesis
    by (auto simp: verdict_cases less_eq_verdict_def)
qed

text \<open>
  Reason code, risk band and lifetime agree with the verdict: a DENY has a DENY reason, band HIGH
  and lifetime 0; an ALLOW has reason ALLOW_POLICY_MATCH and band LOW; only an ALLOW or an ESCALATE
  lives for the default 60 seconds. The reason DENY_VOLATILITY is never produced.
\<close>

theorem decision_consistent:
  fixes req policy ctx now
  defines "d \<equiv> evaluatePolicy req policy ctx now"
  shows "(pd_verdict d = DENY \<longleftrightarrow> pd_ttlSeconds d = 0) \<and> pd_ttlSeconds d \<in> {0, 60} \<and>
    (pd_verdict d = DENY \<longleftrightarrow> pd_reasonCode d \<in>
       {DENY_AGENT_NOT_AUTHORIZED, DENY_TARGET_NOT_ALLOWED, DENY_ACTION_NOT_ALLOWED, DENY_AMOUNT_TOO_HIGH,
        DENY_CONTEXT_STALE, DENY_SLIPPAGE, DENY_LIQUIDITY, DENY_POLICY_DISABLED, DENY_MALFORMED_CONTEXT}) \<and>
    (pd_verdict d = ESCALATE \<longleftrightarrow> pd_reasonCode d \<in> {ESCALATE_AMOUNT, ESCALATE_RISK, ESCALATE_POLICY_RULE}) \<and>
    (pd_verdict d = ALLOW \<longleftrightarrow> pd_reasonCode d = ALLOW_POLICY_MATCH) \<and>
    (pd_verdict d = ALLOW \<longleftrightarrow> pd_riskBand d = LOW) \<and> pd_reasonCode d \<noteq> DENY_VOLATILITY"
  unfolding d_def evaluatePolicy_def by (simp add: Let_def DEFAULT_TTL_SECONDS_def)

text \<open>
  A threshold that is not a number switches its gate off. When the slippage, volatility, health
  factor and risk thresholds are NaN, which is what \<open>Number(undefined)\<close> gives for a field the private
  policy omits, every structurally authorized request within the amount and liquidity limits is
  allowed, whatever slippage, volatility and health factor were observed.
\<close>

theorem nan_thresholds_fail_open:
  assumes "pp_maxSlippageBps policy = NaN" "pp_maxVolatilityBps policy = NaN"
    and "pp_minHealthFactorBps policy = NaN" "pp_proprietaryRiskThreshold policy = NaN"
    and "structurally_authorized req policy" "well_formed_context ctx" "fresh_context ctx now"
    and "er_decodedAmount req \<le> pp_autoLimit policy" "er_decodedAmount req \<le> pp_escalationLimit policy"
    and "pp_minLiquidity policy \<le> mc_liquidity ctx"
  shows "pd_verdict (evaluatePolicy req policy ctx now) = ALLOW"
proof -
  have "\<not> js_less x NaN" for x by (cases x) auto
  with assms show ?thesis
    by (auto simp: verdict_cases never_overridable_def needs_human_def)
qed

section \<open>Witnesses\<close>

definition sample_policy :: private_policy where
  "sample_policy =
    \<lparr>pp_policyId = ''treasury'', pp_policyVersion = Fin 1, pp_enabled = True,
     pp_autoLimit = 1000, pp_escalationLimit = 10000, pp_maxSlippageBps = Fin 100,
     pp_maxVolatilityBps = Fin 500, pp_minLiquidity = 5000, pp_targetEthAllocationBps = Fin 5000,
     pp_rebalanceDriftBps = Fin 500, pp_minHealthFactorBps = Fin 15000,
     pp_targetHealthFactorBps = Fin 20000, pp_proprietaryRiskThreshold = Fin 200,
     pp_canary = ''canary'', pp_allowedActionKinds = [''MOCK_TRANSFER''],
     pp_allowedTargets = [''0xAB''], pp_authorizedAgentIdentityHashes = [''0xCD'']\<rparr>"

definition sample_request :: evaluation_request where
  "sample_request =
    \<lparr>er_requestHash = ''0x01'', er_agentIdentityHash = ''0xcd'', er_ensNode = ''0x02'',
     er_agent = ''0x03'', er_chainId = 11155111, er_target = ''0xab'', er_value = 0,
     er_calldataHash = ''0x04'', er_selector = ''0x05'', er_decodedRecipient = ''0x06'',
     er_decodedAmount = 500, er_intentHash = ''0x07'', er_policyId = ''treasury'',
     er_policyVersion = Fin 1, er_actionKind = ''MOCK_TRANSFER''\<rparr>"

definition sample_context :: market_context where
  "sample_context =
    \<lparr>mc_observedAtUnix = Fin 1000, mc_slippageBps = Fin 40, mc_volatilityBps = Fin 120,
     mc_liquidity = 9000, mc_healthFactorBps = Fin 18000\<rparr>"

lemma sample_allowed:
  "pd_verdict (evaluatePolicy sample_request sample_policy sample_context (Fin 1060)) = ALLOW"
  by code_simp

theorem allow_bounds_witness:
  "er_decodedAmount sample_request \<le> pp_autoLimit sample_policy"
proof -
  have "pp_maxSlippageBps sample_policy = Fin 100" "pp_maxVolatilityBps sample_policy = Fin 500"
    by (simp_all add: sample_policy_def)
  from allow_bounds [OF sample_allowed this] show ?thesis by blast
qed

theorem verdict_mono_amount_witness:
  "pd_verdict (evaluatePolicy (sample_request\<lparr>er_decodedAmount := 500\<rparr>) sample_policy sample_context (Fin 1060)) \<le>
   pd_verdict (evaluatePolicy (sample_request\<lparr>er_decodedAmount := 5000\<rparr>) sample_policy sample_context (Fin 1060)) \<and>
   pd_verdict (evaluatePolicy (sample_request\<lparr>er_decodedAmount := 5000\<rparr>) sample_policy sample_context (Fin 1060)) = ESCALATE"
proof
  show "pd_verdict (evaluatePolicy (sample_request\<lparr>er_decodedAmount := 500\<rparr>) sample_policy sample_context (Fin 1060)) \<le>
   pd_verdict (evaluatePolicy (sample_request\<lparr>er_decodedAmount := 5000\<rparr>) sample_policy sample_context (Fin 1060))"
    by (rule verdict_mono_amount) simp
qed code_simp

theorem nan_thresholds_fail_open_witness:
  "pd_verdict (evaluatePolicy sample_request
     (sample_policy\<lparr>pp_maxSlippageBps := NaN, pp_maxVolatilityBps := NaN, pp_minHealthFactorBps := NaN,
        pp_proprietaryRiskThreshold := NaN\<rparr>)
     (sample_context\<lparr>mc_slippageBps := Fin 10000, mc_volatilityBps := Fin 1000000\<rparr>) (Fin 1060)) = ALLOW"
proof (rule nan_thresholds_fail_open)
  show "well_formed_context (sample_context\<lparr>mc_slippageBps := Fin 10000, mc_volatilityBps := Fin 1000000\<rparr>)"
    by (simp add: well_formed_context_def sample_context_def)
  show "structurally_authorized sample_request
     (sample_policy\<lparr>pp_maxSlippageBps := NaN, pp_maxVolatilityBps := NaN, pp_minHealthFactorBps := NaN,
        pp_proprietaryRiskThreshold := NaN\<rparr>)"
    by code_simp
qed (simp_all add: sample_policy_def sample_request_def sample_context_def fresh_context_def)

end
