(* ===== verification/Protocol.thy ===== *)
theory Protocol
  imports Prelude "HOL-Library.Countable"
begin

text \<open>
  The capability schema and its hashes (\<open>packages/protocol/src/capability.ts\<close>) and the reason-code
  taxonomy with the Sepolia guard (\<open>packages/protocol/src/errors.ts\<close>). Hashing and ABI encoding are
  done by the package viem, which is a parameter of the model: a record \<open>viem\<close> of the functions the
  sources call. Hex text stands for bytes, so letter case is presentation only.
\<close>

section \<open>Data\<close>

type_synonym hex = string

record capability =
  cap_version :: int
  cap_agentIdentityHash :: hex
  cap_agent :: hex
  cap_chainId :: int
  cap_executor :: hex
  cap_target :: hex
  cap_value :: int
  cap_calldataHash :: hex
  cap_intentHash :: hex
  cap_policyHash :: hex
  cap_authorizationId :: hex
  cap_contextCommitment :: hex
  cap_issuedAt :: int
  cap_expiresAt :: int
  cap_nonce :: int

definition CAPABILITY_VERSION :: int where
  "CAPABILITY_VERSION = 1"

text \<open>Field name and EIP-712 type, in schema order.\<close>

definition CAPABILITY_TYPES :: "(string \<times> string) list" where
  "CAPABILITY_TYPES =
    [(''version'', ''uint8''), (''agentIdentityHash'', ''bytes32''), (''agent'', ''address''),
     (''chainId'', ''uint256''), (''executor'', ''address''), (''target'', ''address''),
     (''value'', ''uint256''), (''calldataHash'', ''bytes32''), (''intentHash'', ''bytes32''),
     (''policyHash'', ''bytes32''), (''authorizationId'', ''bytes32''),
     (''contextCommitment'', ''bytes32''), (''issuedAt'', ''uint64''), (''expiresAt'', ''uint64''),
     (''nonce'', ''uint256'')]"

definition CAPABILITY_TYPE_STRING :: string where
  "CAPABILITY_TYPE_STRING =
    ''Capability(uint8 version,bytes32 agentIdentityHash,address agent,uint256 chainId,address executor,'' @
    ''address target,uint256 value,bytes32 calldataHash,bytes32 intentHash,bytes32 policyHash,'' @
    ''bytes32 authorizationId,bytes32 contextCommitment,uint64 issuedAt,uint64 expiresAt,uint256 nonce)''"

definition REQUEST_TYPE_STRING :: string where
  "REQUEST_TYPE_STRING =
    ''EvaluationRequest(bytes32 agentIdentityHash,address agent,uint256 chainId,address executor,'' @
    ''address target,uint256 value,bytes32 calldataHash,bytes32 intentHash,bytes32 policyHash)''"

section \<open>The hashing package\<close>

text \<open>An ABI value: an integer, or hex bytes.\<close>

type_synonym abi_val = "int + hex"

record eip_domain =
  dom_name :: string
  dom_version :: string
  dom_chainId :: int
  dom_verifyingContract :: hex

record viem =
  keccak_text :: "string \<Rightarrow> hex" \<comment> \<open>keccak256 of the bytes of a text\<close>
  keccak_hex :: "hex \<Rightarrow> hex" \<comment> \<open>keccak256 of the bytes a hex text denotes\<close>
  encodeAbiParameters :: "string list \<Rightarrow> abi_val list \<Rightarrow> hex"
  hashTypedData :: "eip_domain \<Rightarrow> (string \<times> string) list \<Rightarrow> string \<Rightarrow> capability \<Rightarrow> hex"
  isAddress :: "string \<Rightarrow> bool" \<comment> \<open>with \<open>strict: false\<close>\<close>
  getAddress :: "string \<Rightarrow> hex"
  encodeFunctionData :: "string \<Rightarrow> abi_val list \<Rightarrow> hex" \<comment> \<open>function name and arguments\<close>
  decodeFunctionData :: "hex \<Rightarrow> (string \<times> abi_val list) option" \<comment> \<open>None when it throws\<close>
  labelhash :: "string \<Rightarrow> int"
  namehash :: "string \<Rightarrow> hex"

section \<open>Hashes of a capability\<close>

definition CAPABILITY_TYPEHASH :: "viem \<Rightarrow> hex" where
  "CAPABILITY_TYPEHASH v = keccak_text v CAPABILITY_TYPE_STRING"

definition REQUEST_TYPEHASH :: "viem \<Rightarrow> hex" where
  "REQUEST_TYPEHASH v = keccak_text v REQUEST_TYPE_STRING"

definition domain :: "int \<Rightarrow> hex \<Rightarrow> eip_domain" where
  "domain chainId executor =
    \<lparr>dom_name = ''ContextLock'', dom_version = ''1'', dom_chainId = chainId,
     dom_verifyingContract = executor\<rparr>"

definition domainSeparator :: "viem \<Rightarrow> int \<Rightarrow> hex \<Rightarrow> hex" where
  "domainSeparator v chainId executor =
    keccak_hex v (encodeAbiParameters v
      [''bytes32'', ''bytes32'', ''bytes32'', ''uint256'', ''address'']
      [Inr (keccak_text v ''EIP712Domain(string name,string version,uint256 chainId,address verifyingContract)''),
       Inr (keccak_text v ''ContextLock''), Inr (keccak_text v ''1''), Inl chainId, Inr executor])"

definition hashStruct_types :: "string list" where
  "hashStruct_types =
    [''bytes32'', ''uint8'', ''bytes32'', ''address'', ''uint256'', ''address'', ''address'', ''uint256'',
     ''bytes32'', ''bytes32'', ''bytes32'', ''bytes32'', ''bytes32'', ''uint64'', ''uint64'', ''uint256'']"

definition hashStruct_values :: "viem \<Rightarrow> capability \<Rightarrow> abi_val list" where
  "hashStruct_values v cap =
    [Inr (CAPABILITY_TYPEHASH v), Inl (cap_version cap), Inr (cap_agentIdentityHash cap), Inr (cap_agent cap),
     Inl (cap_chainId cap), Inr (cap_executor cap), Inr (cap_target cap), Inl (cap_value cap),
     Inr (cap_calldataHash cap), Inr (cap_intentHash cap), Inr (cap_policyHash cap),
     Inr (cap_authorizationId cap), Inr (cap_contextCommitment cap), Inl (cap_issuedAt cap),
     Inl (cap_expiresAt cap), Inl (cap_nonce cap)]"

definition hashStruct :: "viem \<Rightarrow> capability \<Rightarrow> hex" where
  "hashStruct v cap = keccak_hex v (encodeAbiParameters v hashStruct_types (hashStruct_values v cap))"

definition capabilityDigest :: "viem \<Rightarrow> capability \<Rightarrow> hex" where
  "capabilityDigest v cap =
    hashTypedData v (domain (cap_chainId cap) (cap_executor cap)) CAPABILITY_TYPES ''Capability'' cap"

definition requestHash_types :: "string list" where
  "requestHash_types =
    [''bytes32'', ''bytes32'', ''address'', ''uint256'', ''address'', ''address'', ''uint256'', ''bytes32'',
     ''bytes32'', ''bytes32'']"

definition requestHash_values :: "viem \<Rightarrow> capability \<Rightarrow> abi_val list" where
  "requestHash_values v cap =
    [Inr (REQUEST_TYPEHASH v), Inr (cap_agentIdentityHash cap), Inr (cap_agent cap), Inl (cap_chainId cap),
     Inr (cap_executor cap), Inr (cap_target cap), Inl (cap_value cap), Inr (cap_calldataHash cap),
     Inr (cap_intentHash cap), Inr (cap_policyHash cap)]"

definition requestHash :: "viem \<Rightarrow> capability \<Rightarrow> hex" where
  "requestHash v cap = keccak_hex v (encodeAbiParameters v requestHash_types (requestHash_values v cap))"

section \<open>Reason codes and operational errors (errors.ts)\<close>

datatype ctx_reason =
    IDENTITY_NOT_FOUND
  | IDENTITY_EXPIRED
  | IDENTITY_REBOUND
  | IDENTITY_UNAVAILABLE
  | POLICY_DISABLED
  | POLICY_ACTION_DENIED
  | POLICY_TARGET_DENIED
  | POLICY_VALUE_EXCEEDS_CAP
  | CRE_PENDING
  | CRE_DENIED
  | CRE_ESCALATE
  | CRE_STALE
  | CRE_UNAVAILABLE
  | CAP_BAD_SIG
  | CAP_EXPIRED
  | CAP_NONCE_USED
  | CAP_CALL_MISMATCH
  | LEDGER_REJECTED
  | LEDGER_UNAVAILABLE
  | CHAIN_RPC_FAILURE
  | CHAIN_WRONG_NETWORK
  | INTERNAL_STORAGE
  | INTERNAL_INVARIANT
  | API_VALIDATION
  | API_ARBITRARY_CALLDATA_REJECTED

fun ctx_code :: "ctx_reason \<Rightarrow> string" where
  "ctx_code IDENTITY_NOT_FOUND = ''CTX_IDENTITY_NOT_FOUND''"
| "ctx_code IDENTITY_EXPIRED = ''CTX_IDENTITY_EXPIRED''"
| "ctx_code IDENTITY_REBOUND = ''CTX_IDENTITY_REBOUND''"
| "ctx_code IDENTITY_UNAVAILABLE = ''CTX_IDENTITY_UNAVAILABLE''"
| "ctx_code POLICY_DISABLED = ''CTX_POLICY_DISABLED''"
| "ctx_code POLICY_ACTION_DENIED = ''CTX_POLICY_ACTION_DENIED''"
| "ctx_code POLICY_TARGET_DENIED = ''CTX_POLICY_TARGET_DENIED''"
| "ctx_code POLICY_VALUE_EXCEEDS_CAP = ''CTX_POLICY_VALUE_EXCEEDS_CAP''"
| "ctx_code CRE_PENDING = ''CTX_CRE_PENDING''"
| "ctx_code CRE_DENIED = ''CTX_CRE_DENIED''"
| "ctx_code CRE_ESCALATE = ''CTX_CRE_ESCALATE''"
| "ctx_code CRE_STALE = ''CTX_CRE_STALE''"
| "ctx_code CRE_UNAVAILABLE = ''CTX_CRE_UNAVAILABLE''"
| "ctx_code CAP_BAD_SIG = ''CTX_CAP_BAD_SIG''"
| "ctx_code CAP_EXPIRED = ''CTX_CAP_EXPIRED''"
| "ctx_code CAP_NONCE_USED = ''CTX_CAP_NONCE_USED''"
| "ctx_code CAP_CALL_MISMATCH = ''CTX_CAP_CALL_MISMATCH''"
| "ctx_code LEDGER_REJECTED = ''CTX_LEDGER_REJECTED''"
| "ctx_code LEDGER_UNAVAILABLE = ''CTX_LEDGER_UNAVAILABLE''"
| "ctx_code CHAIN_RPC_FAILURE = ''CTX_CHAIN_RPC_FAILURE''"
| "ctx_code CHAIN_WRONG_NETWORK = ''CTX_CHAIN_WRONG_NETWORK''"
| "ctx_code INTERNAL_STORAGE = ''CTX_INTERNAL_STORAGE''"
| "ctx_code INTERNAL_INVARIANT = ''CTX_INTERNAL_INVARIANT''"
| "ctx_code API_VALIDATION = ''CTX_API_VALIDATION''"
| "ctx_code API_ARBITRARY_CALLDATA_REJECTED = ''CTX_API_ARBITRARY_CALLDATA_REJECTED''"

text \<open>The two error classes: a policy denial is a decision, an operational error is not.\<close>

datatype operational_error = OperationalError (oe_code: ctx_reason)

datatype policy_denial = PolicyDenial (pden_code: ctx_reason)

definition SEPOLIA_CHAIN_ID :: int where
  "SEPOLIA_CHAIN_ID = 11155111"

definition assertSepolia :: "int \<Rightarrow> operational_error + unit" where
  "assertSepolia chainId =
    (if chainId \<noteq> SEPOLIA_CHAIN_ID then Inl (OperationalError CHAIN_WRONG_NETWORK) else Inr ())"

section \<open>What the package documents\<close>

text \<open>Bytes are equal when their hex texts agree up to letter case.\<close>

definition abi_norm :: "abi_val \<Rightarrow> abi_val" where
  "abi_norm x = map_sum id toLowerCase x"

text \<open>\<open>0x\<close> followed by \<open>n\<close> hex digits.\<close>

definition is_hex_of :: "nat \<Rightarrow> hex \<Rightarrow> bool" where
  "is_hex_of n h = (startsWith h ''0x'' \<and> length h = n + 2 \<and> list_all is_hex (drop 2 h))"

text \<open>A value fits an ABI type: an integer in range, or hex bytes of the right length.\<close>

fun abi_fits :: "string \<Rightarrow> abi_val \<Rightarrow> bool" where
  "abi_fits t (Inl i) =
     (0 \<le> i \<and> (t = ''uint8'' \<and> i < 2 ^ 8 \<or> t = ''uint64'' \<and> i < 2 ^ 64 \<or> t = ''uint256'' \<and> i < 2 ^ 256))"
| "abi_fits t (Inr h) = (t = ''bytes32'' \<and> is_hex_of 64 h \<or> t = ''address'' \<and> is_hex_of 40 h)"

text \<open>
  ABI encoding of values that fit their static types: two encodings agree exactly when the values
  denote the same integers and bytes. A text's keccak hash is 32 bytes.
\<close>

definition abi_faithful :: "viem \<Rightarrow> bool" where
  "abi_faithful v \<longleftrightarrow>
    (\<forall>ts xs ys. list_all2 abi_fits ts xs \<and> list_all2 abi_fits ts ys \<longrightarrow>
       (encodeAbiParameters v ts xs = encodeAbiParameters v ts ys \<longleftrightarrow> map abi_norm xs = map abi_norm ys)) \<and>
    (\<forall>s. is_hex_of 64 (keccak_text v s))"

text \<open>The ranges of the schema.\<close>

definition capability_wf :: "capability \<Rightarrow> bool" where
  "capability_wf c \<longleftrightarrow>
     0 \<le> cap_version c \<and> cap_version c < 2 ^ 8 \<and> is_hex_of 64 (cap_agentIdentityHash c) \<and>
     is_hex_of 40 (cap_agent c) \<and> 0 \<le> cap_chainId c \<and> cap_chainId c < 2 ^ 256 \<and>
     is_hex_of 40 (cap_executor c) \<and> is_hex_of 40 (cap_target c) \<and>
     0 \<le> cap_value c \<and> cap_value c < 2 ^ 256 \<and> is_hex_of 64 (cap_calldataHash c) \<and>
     is_hex_of 64 (cap_intentHash c) \<and> is_hex_of 64 (cap_policyHash c) \<and>
     is_hex_of 64 (cap_authorizationId c) \<and> is_hex_of 64 (cap_contextCommitment c) \<and>
     0 \<le> cap_issuedAt c \<and> cap_issuedAt c < 2 ^ 64 \<and> 0 \<le> cap_expiresAt c \<and> cap_expiresAt c < 2 ^ 64 \<and>
     0 \<le> cap_nonce c \<and> cap_nonce c < 2 ^ 256"

text \<open>Two byte strings that do not collide under the hash.\<close>

definition no_collision :: "viem \<Rightarrow> hex \<Rightarrow> hex \<Rightarrow> bool" where
  "no_collision v x y \<longleftrightarrow> (keccak_hex v x = keccak_hex v y \<longrightarrow> x = y)"

text \<open>EIP-712 \<open>encodeType\<close>: the primary type's name and its fields in order.\<close>

definition encodeType :: "string \<Rightarrow> (string \<times> string) list \<Rightarrow> string" where
  "encodeType nm fs = nm @ ''('' @ join '','' (map (\<lambda>(n, t). t @ '' '' @ n) fs) @ '')''"

text \<open>The fields that identify a request, and all fields, up to hex case.\<close>

definition same_request :: "capability \<Rightarrow> capability \<Rightarrow> bool" where
  "same_request a b \<longleftrightarrow>
     toLowerCase (cap_agentIdentityHash a) = toLowerCase (cap_agentIdentityHash b) \<and>
     toLowerCase (cap_agent a) = toLowerCase (cap_agent b) \<and> cap_chainId a = cap_chainId b \<and>
     toLowerCase (cap_executor a) = toLowerCase (cap_executor b) \<and>
     toLowerCase (cap_target a) = toLowerCase (cap_target b) \<and> cap_value a = cap_value b \<and>
     toLowerCase (cap_calldataHash a) = toLowerCase (cap_calldataHash b) \<and>
     toLowerCase (cap_intentHash a) = toLowerCase (cap_intentHash b) \<and>
     toLowerCase (cap_policyHash a) = toLowerCase (cap_policyHash b)"

definition same_capability :: "capability \<Rightarrow> capability \<Rightarrow> bool" where
  "same_capability a b \<longleftrightarrow>
     same_request a b \<and> cap_version a = cap_version b \<and>
     toLowerCase (cap_authorizationId a) = toLowerCase (cap_authorizationId b) \<and>
     toLowerCase (cap_contextCommitment a) = toLowerCase (cap_contextCommitment b) \<and>
     cap_issuedAt a = cap_issuedAt b \<and> cap_expiresAt a = cap_expiresAt b \<and> cap_nonce a = cap_nonce b"

section \<open>Properties\<close>

lemma abi_norm_simps [simp]:
  "abi_norm (Inl i) = Inl i"
  "abi_norm (Inr h) = Inr (toLowerCase h)"
  by (simp_all add: abi_norm_def)

lemma keccak_encode_eq:
  assumes "abi_faithful v" and "list_all2 abi_fits ts xs" and "list_all2 abi_fits ts ys"
    and "no_collision v (encodeAbiParameters v ts xs) (encodeAbiParameters v ts ys)"
  shows "keccak_hex v (encodeAbiParameters v ts xs) = keccak_hex v (encodeAbiParameters v ts ys) \<longleftrightarrow>
         map abi_norm xs = map abi_norm ys"
proof -
  have "encodeAbiParameters v ts xs = encodeAbiParameters v ts ys \<longleftrightarrow> map abi_norm xs = map abi_norm ys"
    using assms(1-3) by (simp add: abi_faithful_def)
  moreover have "keccak_hex v (encodeAbiParameters v ts xs) = keccak_hex v (encodeAbiParameters v ts ys) \<longleftrightarrow>
      encodeAbiParameters v ts xs = encodeAbiParameters v ts ys"
    using assms(4) by (auto simp: no_collision_def)
  ultimately show ?thesis by simp
qed

lemma hash_values_fit:
  assumes "abi_faithful v" and "capability_wf c"
  shows "list_all2 abi_fits requestHash_types (requestHash_values v c)"
    and "list_all2 abi_fits hashStruct_types (hashStruct_values v c)"
  using assms
  by (simp_all add: abi_faithful_def capability_wf_def requestHash_types_def requestHash_values_def
      hashStruct_types_def hashStruct_values_def REQUEST_TYPEHASH_def CAPABILITY_TYPEHASH_def)

text \<open>
  C36: The request hash binds exactly the nine fields that identify a transaction request: two
  capabilities have the same request hash if and only if those fields agree, so nonce, expiry,
  authorization id and context commitment never change it, and any other target, value, calldata
  hash, agent, chain, executor, intent or policy always does (barring a hash collision).
\<close>

theorem requestHash_binds:
  assumes "abi_faithful v" and "capability_wf a" and "capability_wf b"
    and "no_collision v (encodeAbiParameters v requestHash_types (requestHash_values v a))
           (encodeAbiParameters v requestHash_types (requestHash_values v b))"
  shows "requestHash v a = requestHash v b \<longleftrightarrow> same_request a b"
  unfolding requestHash_def
  by (subst keccak_encode_eq [OF assms(1) hash_values_fit(1) [OF assms(1,2)] hash_values_fit(1) [OF assms(1,3)] assms(4)])
    (auto simp: requestHash_values_def requestHash_types_def same_request_def)

text \<open>
  The struct hash binds all fifteen fields of the capability: it agrees on two capabilities if
  and only if every field agrees.
\<close>

theorem hashStruct_binds:
  assumes "abi_faithful v" and "capability_wf a" and "capability_wf b"
    and "no_collision v (encodeAbiParameters v hashStruct_types (hashStruct_values v a))
           (encodeAbiParameters v hashStruct_types (hashStruct_values v b))"
  shows "hashStruct v a = hashStruct v b \<longleftrightarrow> same_capability a b"
  unfolding hashStruct_def
  by (subst keccak_encode_eq [OF assms(1) hash_values_fit(2) [OF assms(1,2)] hash_values_fit(2) [OF assms(1,3)] assms(4)])
    (auto simp: hashStruct_values_def hashStruct_types_def same_capability_def same_request_def)

text \<open>
  The type string that is hashed is the EIP-712 encoding of the typed-data schema that is
  signed, field by field and in order, and the ABI types of the struct hash are the type hash
  followed by the types of that schema.
\<close>

theorem capability_schema_consistent:
  "CAPABILITY_TYPE_STRING = encodeType ''Capability'' CAPABILITY_TYPES \<and>
   hashStruct_types = ''bytes32'' # map snd CAPABILITY_TYPES \<and>
   REQUEST_TYPE_STRING = encodeType ''EvaluationRequest''
     (filter (\<lambda>(n, t). n \<notin> set [''version'', ''authorizationId'', ''contextCommitment'', ''issuedAt'', ''expiresAt'', ''nonce''])
        CAPABILITY_TYPES)"
  by (simp add: CAPABILITY_TYPE_STRING_def REQUEST_TYPE_STRING_def encodeType_def CAPABILITY_TYPES_def
      hashStruct_types_def)

section \<open>Witnesses\<close>

text \<open>A concrete package: an injective encoding of the normalised values, and hashes of the right shape.\<close>

definition hex_fill :: "nat \<Rightarrow> char \<Rightarrow> hex" where
  "hex_fill n c = ''0x'' @ replicate n c"

definition sample_viem :: viem where
  "sample_viem =
    \<lparr>keccak_text = (\<lambda>s. hex_fill 64 (CHR ''e'')), keccak_hex = (\<lambda>s. s),
     encodeAbiParameters = (\<lambda>ts xs. replicate (to_nat (map abi_norm xs)) (CHR ''0'')),
     hashTypedData = (\<lambda>d ts p c. cap_target c @ cap_authorizationId c),
     isAddress = is_hex_of 40, getAddress = (\<lambda>a. a),
     encodeFunctionData = (\<lambda>f xs. f), decodeFunctionData = (\<lambda>h. None),
     labelhash = (\<lambda>s. int (length s)), namehash = (\<lambda>s. hex_fill 64 (CHR ''4''))\<rparr>"

definition sample_cap :: capability where
  "sample_cap =
    \<lparr>cap_version = 1, cap_agentIdentityHash = hex_fill 64 (CHR ''C''), cap_agent = hex_fill 40 (CHR ''3''),
     cap_chainId = 11155111, cap_executor = hex_fill 40 (CHR ''8''), cap_target = hex_fill 40 (CHR ''A''),
     cap_value = 0, cap_calldataHash = hex_fill 64 (CHR ''4''), cap_intentHash = hex_fill 64 (CHR ''7''),
     cap_policyHash = hex_fill 64 (CHR ''9''), cap_authorizationId = hex_fill 64 (CHR ''a''),
     cap_contextCommitment = hex_fill 64 (CHR ''b''), cap_issuedAt = 1000, cap_expiresAt = 1060,
     cap_nonce = 7\<rparr>"

lemma is_hex_of_fill: "is_hex c \<Longrightarrow> is_hex_of n (hex_fill n c)"
  by (simp add: is_hex_of_def hex_fill_def startsWith_def list_all_iff)

lemma toLowerCase_fill: "toLowerCase (hex_fill n c) = hex_fill n (lower_char c)"
proof -
  have "map lower_char ''0x'' = ''0x''" by code_simp
  then show ?thesis by (simp add: toLowerCase_def hex_fill_def)
qed

lemma hex_fill_eq: "0 < n \<Longrightarrow> hex_fill n c = hex_fill n d \<longleftrightarrow> c = d"
  by (cases n) (auto simp: hex_fill_def)

lemma lower_sample: "lower_char (CHR ''A'') = CHR ''a''" "lower_char (CHR ''b'') = CHR ''b''"
  by code_simp+

lemma sample_hex [simp]:
  "is_hex (CHR ''e'')" "is_hex (CHR ''C'')" "is_hex (CHR ''3'')" "is_hex (CHR ''8'')" "is_hex (CHR ''A'')"
  "is_hex (CHR ''4'')" "is_hex (CHR ''7'')" "is_hex (CHR ''9'')" "is_hex (CHR ''a'')" "is_hex (CHR ''b'')"
  by (simp_all add: char_class_defs)

lemma sample_abi_faithful: "abi_faithful sample_viem"
proof -
  have "replicate m c = replicate n c \<longleftrightarrow> m = n" for m n and c :: char
    by (metis length_replicate)
  then show ?thesis
    by (simp add: abi_faithful_def sample_viem_def is_hex_of_fill)
qed

lemma sample_no_collision: "no_collision sample_viem x y"
  by (simp add: no_collision_def sample_viem_def)

lemma sample_cap_wf: "capability_wf sample_cap"
  by (simp add: capability_wf_def sample_cap_def is_hex_of_fill)

lemma sample_cap_variants:
  "capability_wf (sample_cap\<lparr>cap_nonce := 8, cap_expiresAt := 9999\<rparr>)"
  "capability_wf (sample_cap\<lparr>cap_target := hex_fill 40 (CHR ''b'')\<rparr>)"
  "capability_wf (sample_cap\<lparr>cap_nonce := 8\<rparr>)"
  by (simp_all add: capability_wf_def sample_cap_def is_hex_of_fill)

theorem requestHash_binds_witness:
  "requestHash sample_viem sample_cap = requestHash sample_viem (sample_cap\<lparr>cap_nonce := 8, cap_expiresAt := 9999\<rparr>) \<and>
   requestHash sample_viem sample_cap \<noteq> requestHash sample_viem (sample_cap\<lparr>cap_target := hex_fill 40 (CHR ''b'')\<rparr>)"
proof -
  have "same_request sample_cap (sample_cap\<lparr>cap_nonce := 8, cap_expiresAt := 9999\<rparr>)"
    and "\<not> same_request sample_cap (sample_cap\<lparr>cap_target := hex_fill 40 (CHR ''b'')\<rparr>)"
    by (simp_all add: same_request_def sample_cap_def toLowerCase_fill hex_fill_eq lower_sample)
  with requestHash_binds [OF sample_abi_faithful sample_cap_wf sample_cap_variants(1) sample_no_collision]
    requestHash_binds [OF sample_abi_faithful sample_cap_wf sample_cap_variants(2) sample_no_collision]
  show ?thesis by blast
qed

theorem hashStruct_binds_witness:
  "hashStruct sample_viem sample_cap \<noteq> hashStruct sample_viem (sample_cap\<lparr>cap_nonce := 8\<rparr>)"
proof -
  have "\<not> same_capability sample_cap (sample_cap\<lparr>cap_nonce := 8\<rparr>)"
    by (simp add: same_capability_def sample_cap_def)
  with hashStruct_binds [OF sample_abi_faithful sample_cap_wf sample_cap_variants(3) sample_no_collision]
  show ?thesis by blast
qed

end
