(* ===== verification/Adapters.thy ===== *)
theory Adapters
  imports Protocol
begin

text \<open>
  The typed transaction adapters (\<open>packages/adapters/src/index.ts\<close>): the agent supplies semantic
  parameters, the adapter validates them and produces the calldata and the human-facing summary
  from the same values. There is one registered adapter, \<open>MOCK_TRANSFER\<close>. A lookup in the registry
  object sees its own properties only.
\<close>

section \<open>Parameters\<close>

definition MOCK_TRANSFER :: string where
  "MOCK_TRANSFER = ''MOCK_TRANSFER''"

definition actionKindHash :: "viem \<Rightarrow> string \<Rightarrow> hex" where
  "actionKindHash v kind = keccak_text v kind"

definition ZERO_ADDRESS :: hex where
  "ZERO_ADDRESS = ''0x0000000000000000000000000000000000000000''"

definition addressSchema :: "viem \<Rightarrow> string \<Rightarrow> hex option" where
  "addressSchema v s = (if isAddress v s then Some (getAddress v s) else None)"

definition recipientSchema :: "viem \<Rightarrow> string \<Rightarrow> hex option" where
  "recipientSchema v s =
    (case addressSchema v s of
       None \<Rightarrow> None
     | Some a \<Rightarrow> if toLowerCase a \<noteq> ZERO_ADDRESS then Some a else None)"

definition baseUnitsSchema :: "string \<Rightarrow> bool" where
  "baseUnitsSchema s = (all_digits s \<and> 0 < parse_nat s \<and> parse_nat s \<le> 2 ^ 128)"

record mock_transfer_params =
  mt_recipient :: hex
  mt_amount :: string

text \<open>A strict object: exactly the two keys, both strings.\<close>

definition mockTransferParams :: "viem \<Rightarrow> json \<Rightarrow> mock_transfer_params option" where
  "mockTransferParams v j =
    (case j of
       JObj kvs \<Rightarrow>
         (if set (map fst kvs) \<subseteq> {''recipient'', ''amount''}
          then case (map_of kvs ''recipient'', map_of kvs ''amount'') of
                 (Some (JStr r), Some (JStr a)) \<Rightarrow>
                   (case recipientSchema v r of
                      None \<Rightarrow> None
                    | Some rec \<Rightarrow>
                        if baseUnitsSchema a then Some \<lparr>mt_recipient = rec, mt_amount = a\<rparr> else None)
               | _ \<Rightarrow> None
          else None)
     | _ \<Rightarrow> None)"

section \<open>Candidate transactions\<close>

record candidate_transaction =
  tx_chainId :: int
  tx_target :: hex
  tx_value :: int
  tx_calldata :: hex
  tx_calldataHash :: hex
  tx_actionKind :: string
  tx_actionKindHash :: hex
  tx_semanticSummary :: "(string \<times> string) list"

text \<open>\<open>mockTransferAdapter.build\<close>.\<close>

definition mockTransfer_build :: "viem \<Rightarrow> mock_transfer_params \<Rightarrow> int \<Rightarrow> hex \<Rightarrow> candidate_transaction" where
  "mockTransfer_build v params chainId target =
    (let recipient = mt_recipient params;
         amount = int (parse_nat (mt_amount params));
         calldata = encodeFunctionData v ''transferTo'' [Inr recipient, Inl amount]
     in \<lparr>tx_chainId = chainId, tx_target = target, tx_value = 0, tx_calldata = calldata,
         tx_calldataHash = keccak_hex v calldata, tx_actionKind = MOCK_TRANSFER,
         tx_actionKindHash = actionKindHash v MOCK_TRANSFER,
         tx_semanticSummary =
           [(''action'', ''Transfer treasury units''), (''recipient'', recipient),
            (''amount'', show_int amount), (''target'', target), (''value'', ''0'')]\<rparr>)"

text \<open>An adapter: its schema and its builder.\<close>

record transaction_adapter =
  ta_actionKind :: string
  ta_schema :: "json \<Rightarrow> mock_transfer_params option"
  ta_build :: "mock_transfer_params \<Rightarrow> int \<Rightarrow> hex \<Rightarrow> candidate_transaction"

definition mockTransferAdapter :: "viem \<Rightarrow> transaction_adapter" where
  "mockTransferAdapter v =
    \<lparr>ta_actionKind = MOCK_TRANSFER, ta_schema = mockTransferParams v, ta_build = mockTransfer_build v\<rparr>"

definition adapter_registry :: "viem \<Rightarrow> (string \<times> transaction_adapter) list" where
  "adapter_registry v = [(MOCK_TRANSFER, mockTransferAdapter v)]"

text \<open>\<open>getAdapter\<close>: None is the \<open>UnknownActionKindError\<close>.\<close>

definition getAdapter :: "viem \<Rightarrow> string \<Rightarrow> transaction_adapter option" where
  "getAdapter v kind = map_of (adapter_registry v) kind"

definition supportedActionKinds :: "viem \<Rightarrow> string list" where
  "supportedActionKinds v = map fst (adapter_registry v)"

section \<open>Properties\<close>

lemma getAdapter_Some: "getAdapter v kind = Some a \<longleftrightarrow> kind = MOCK_TRANSFER \<and> a = mockTransferAdapter v"
  by (auto simp: getAdapter_def adapter_registry_def)

lemma mockTransferParams_Some:
  assumes "mockTransferParams v j = Some p"
  shows "toLowerCase (mt_recipient p) \<noteq> ZERO_ADDRESS" and "baseUnitsSchema (mt_amount p)"
    and "\<exists>s. isAddress v s \<and> mt_recipient p = getAddress v s"
  using assms
  by (auto simp: mockTransferParams_def recipientSchema_def addressSchema_def
      split: json.splits option.splits if_splits)

lemma mockTransfer_build_simps [simp]:
  "tx_value (mockTransfer_build v p c t) = 0"
  "tx_target (mockTransfer_build v p c t) = t"
  "tx_chainId (mockTransfer_build v p c t) = c"
  "tx_calldata (mockTransfer_build v p c t) =
     encodeFunctionData v ''transferTo'' [Inr (mt_recipient p), Inl (int (parse_nat (mt_amount p)))]"
  "tx_calldataHash (mockTransfer_build v p c t) = keccak_hex v (tx_calldata (mockTransfer_build v p c t))"
  by (simp_all add: mockTransfer_build_def Let_def)

text \<open>
  Whatever adapter an agent names and whatever parameters it supplies, a transaction that is
  built carries no native value, calls the policy's target on the configured chain, encodes a
  transfer to a recipient that is not the zero address of a positive amount of at most \<open>2 ^ 128\<close>
  base units, and its summary shows the same recipient, amount and target that the calldata encodes.
\<close>

theorem adapter_output_safe:
  assumes "getAdapter v kind = Some a" and "ta_schema a j = Some p"
  shows "\<exists>r n. tx_calldata (ta_build a p c t) = encodeFunctionData v ''transferTo'' [Inr r, Inl n] \<and>
     toLowerCase r \<noteq> ZERO_ADDRESS \<and> 0 < n \<and> n \<le> 2 ^ 128 \<and>
     map_of (tx_semanticSummary (ta_build a p c t)) ''recipient'' = Some r \<and>
     map_of (tx_semanticSummary (ta_build a p c t)) ''amount'' = Some (show_int n) \<and>
     map_of (tx_semanticSummary (ta_build a p c t)) ''target'' = Some (tx_target (ta_build a p c t)) \<and>
     tx_value (ta_build a p c t) = 0 \<and> tx_target (ta_build a p c t) = t \<and> tx_chainId (ta_build a p c t) = c"
proof -
  from assms have build: "ta_build a = mockTransfer_build v" and p: "mockTransferParams v j = Some p"
    by (simp_all add: getAdapter_Some mockTransferAdapter_def)
  let ?n = "int (parse_nat (mt_amount p))"
  have "0 < ?n" "?n \<le> 2 ^ 128"
    using mockTransferParams_Some(2) [OF p] by (auto simp: baseUnitsSchema_def)
  moreover have "toLowerCase (mt_recipient p) \<noteq> ZERO_ADDRESS"
    by (rule mockTransferParams_Some(1) [OF p])
  moreover have "tx_semanticSummary (mockTransfer_build v p c t) =
      [(''action'', ''Transfer treasury units''), (''recipient'', mt_recipient p),
       (''amount'', show_int ?n), (''target'', t), (''value'', ''0'')]"
    by (simp add: mockTransfer_build_def Let_def)
  ultimately show ?thesis
    unfolding build by (intro exI [of _ "mt_recipient p"] exI [of _ ?n]) simp
qed

theorem adapter_output_safe_witness:
  "\<exists>a p r n. getAdapter sample_viem ''MOCK_TRANSFER'' = Some a \<and>
     ta_schema a (JObj [(''recipient'', JStr (hex_fill 40 (CHR ''b''))), (''amount'', JStr ''250'')]) = Some p \<and>
     tx_calldata (ta_build a p 11155111 (hex_fill 40 (CHR ''A''))) =
       encodeFunctionData sample_viem ''transferTo'' [Inr r, Inl n] \<and> 0 < n"
proof -
  let ?a = "mockTransferAdapter sample_viem"
  let ?j = "JObj [(''recipient'', JStr (hex_fill 40 (CHR ''b''))), (''amount'', JStr ''250'')]"
  let ?p = "\<lparr>mt_recipient = hex_fill 40 (CHR ''b''), mt_amount = ''250''\<rparr>"
  have a: "getAdapter sample_viem ''MOCK_TRANSFER'' = Some ?a"
    by (simp add: getAdapter_Some MOCK_TRANSFER_def)
  have "isAddress sample_viem (hex_fill 40 (CHR ''b''))" and
    "toLowerCase (hex_fill 40 (CHR ''b'')) \<noteq> ZERO_ADDRESS" and "baseUnitsSchema ''250''"
    by (simp add: sample_viem_def is_hex_of_fill, code_simp,
        simp add: baseUnitsSchema_def all_digits_def char_class_defs parse_nat_def digit_value_def)
  then have p: "ta_schema ?a ?j = Some ?p"
    by (simp add: mockTransferAdapter_def mockTransferParams_def recipientSchema_def addressSchema_def)
      (simp add: sample_viem_def)
  from adapter_output_safe [OF a p, of 11155111 "hex_fill 40 (CHR ''A'')"] a p show ?thesis by blast
qed

end
