(* ===== verification/Request_State.thy ===== *)
theory Request_State
  imports Prelude
begin

text \<open>
  The capability-request state machine (\<open>apps/broker/src/state-machine.ts\<close>): the transition table
  and its predicates, interpreted as a \<open>ranked_table\<close>.
\<close>

datatype request_state =
    RECEIVED
  | IDENTITY_VALIDATED
  | POLICY_EVALUATING
  | DENIED
  | ESCALATION_REQUIRED
  | AUTHORIZED
  | CAPABILITY_ISSUED
  | SUBMITTED
  | EXECUTED
  | REVERTED
  | EXPIRED
  | FAILED

fun TRANSITIONS :: "request_state \<Rightarrow> request_state list" where
  "TRANSITIONS RECEIVED = [IDENTITY_VALIDATED, DENIED, FAILED]"
| "TRANSITIONS IDENTITY_VALIDATED = [POLICY_EVALUATING, DENIED, FAILED]"
| "TRANSITIONS POLICY_EVALUATING = [AUTHORIZED, ESCALATION_REQUIRED, DENIED, FAILED]"
| "TRANSITIONS AUTHORIZED = [CAPABILITY_ISSUED, EXPIRED, FAILED]"
| "TRANSITIONS ESCALATION_REQUIRED = [EXPIRED, FAILED]"
| "TRANSITIONS CAPABILITY_ISSUED = [SUBMITTED, EXPIRED]"
| "TRANSITIONS SUBMITTED = [EXECUTED, REVERTED]"
| "TRANSITIONS DENIED = []"
| "TRANSITIONS EXECUTED = []"
| "TRANSITIONS REVERTED = []"
| "TRANSITIONS EXPIRED = []"
| "TRANSITIONS FAILED = []"

datatype invalid_transition = InvalidTransitionError request_state request_state

definition canTransition :: "request_state \<Rightarrow> request_state \<Rightarrow> bool" where
  "canTransition s t = (t \<in> set (TRANSITIONS s))"

definition assertTransition :: "request_state \<Rightarrow> request_state \<Rightarrow> invalid_transition + unit" where
  "assertTransition s t = (if \<not> canTransition s t then Inl (InvalidTransitionError s t) else Inr ())"

definition isTerminal :: "request_state \<Rightarrow> bool" where
  "isTerminal s = (length (TRANSITIONS s) = 0)"

definition mayExecute :: "request_state \<Rightarrow> bool" where
  "mayExecute s = (s = CAPABILITY_ISSUED \<or> s = SUBMITTED)"

text \<open>Longest distance to a terminal state.\<close>

fun request_rank :: "request_state \<Rightarrow> nat" where
  "request_rank RECEIVED = 6"
| "request_rank IDENTITY_VALIDATED = 5"
| "request_rank POLICY_EVALUATING = 4"
| "request_rank AUTHORIZED = 3"
| "request_rank CAPABILITY_ISSUED = 2"
| "request_rank SUBMITTED = 1"
| "request_rank ESCALATION_REQUIRED = 1"
| "request_rank s = 0"

interpretation req: ranked_table canTransition isTerminal request_rank
proof
  show "isTerminal s \<longleftrightarrow> (\<forall>t. \<not> canTransition s t)" for s
    by (cases "TRANSITIONS s") (auto simp: isTerminal_def canTransition_def)
  show "canTransition s t \<Longrightarrow> request_rank t < request_rank s" for s t
    by (cases s) (auto simp: canTransition_def)
qed

lemma into_issued: "canTransition s CAPABILITY_ISSUED \<Longrightarrow> s = AUTHORIZED"
  by (cases s) (auto simp: canTransition_def)

lemma into_authorized: "canTransition s AUTHORIZED \<Longrightarrow> s = POLICY_EVALUATING"
  by (cases s) (auto simp: canTransition_def)

lemma mayExecute_closed_back:
  "canTransition s t \<Longrightarrow> mayExecute t \<Longrightarrow> mayExecute s \<or> s = AUTHORIZED"
  by (cases s) (auto simp: canTransition_def mayExecute_def)

text \<open>
  A denied request and an escalated request are never walked forward into an executable state,
  by any sequence of permitted transitions: DENIED is terminal, and every state reachable from
  ESCALATION_REQUIRED is non-executable.
\<close>

theorem denied_never_executable:
  assumes "canTransition\<^sup>*\<^sup>* s t" and "s = DENIED \<or> s = ESCALATION_REQUIRED"
  shows "\<not> mayExecute t \<and> t \<noteq> AUTHORIZED \<and> t \<noteq> EXECUTED \<and> (s = DENIED \<longrightarrow> t = DENIED)"
proof -
  have "t \<in> {DENIED, ESCALATION_REQUIRED, EXPIRED, FAILED}"
  proof (rule req.closed_run [OF assms(1)])
    show "s \<in> {DENIED, ESCALATION_REQUIRED, EXPIRED, FAILED}" using assms(2) by auto
    show "y \<in> {DENIED, ESCALATION_REQUIRED, EXPIRED, FAILED}"
      if "x \<in> {DENIED, ESCALATION_REQUIRED, EXPIRED, FAILED}" "canTransition x y" for x y
      using that by (auto simp: canTransition_def)
  qed
  moreover have "t = DENIED" if "s = DENIED"
    using req.terminal_run [OF assms(1)] that by (simp add: isTerminal_def)
  ultimately show ?thesis by (auto simp: mayExecute_def)
qed

theorem denied_never_executable_witness:
  "canTransition\<^sup>*\<^sup>* ESCALATION_REQUIRED EXPIRED \<and> \<not> mayExecute EXPIRED"
proof -
  have "canTransition ESCALATION_REQUIRED EXPIRED" by (simp add: canTransition_def)
  then have run: "canTransition\<^sup>*\<^sup>* ESCALATION_REQUIRED EXPIRED" by blast
  with denied_never_executable [OF run] show ?thesis by blast
qed

text \<open>
  Every request run is short and ends: no state recurs, a run has at most six moves, from every
  state a terminal state is reachable, and an executable state is entered only after the request was
  AUTHORIZED, which is entered only from POLICY_EVALUATING.
\<close>

theorem request_runs:
  "\<not> canTransition\<^sup>+\<^sup>+ s s \<and> (\<exists>t. canTransition\<^sup>*\<^sup>* s t \<and> isTerminal t) \<and>
   (successively canTransition (s # ts) \<longrightarrow> length ts \<le> 6) \<and>
   (canTransition\<^sup>*\<^sup>* RECEIVED t \<and> mayExecute t \<longrightarrow>
      canTransition\<^sup>*\<^sup>* RECEIVED POLICY_EVALUATING \<and> canTransition\<^sup>*\<^sup>* POLICY_EVALUATING AUTHORIZED \<and>
      canTransition\<^sup>*\<^sup>* AUTHORIZED t)"
proof (intro conjI impI)
  show "\<not> canTransition\<^sup>+\<^sup>+ s s" by (rule req.no_cycle)
  show "\<exists>t. canTransition\<^sup>*\<^sup>* s t \<and> isTerminal t" by (rule req.reaches_terminal)
  show "length ts \<le> 6" if "successively canTransition (s # ts)"
    using req.run_bound [OF that] by (cases s) auto
next
  assume run: "canTransition\<^sup>*\<^sup>* RECEIVED t \<and> mayExecute t"
  have auth: "canTransition\<^sup>*\<^sup>* AUTHORIZED t \<and> canTransition\<^sup>*\<^sup>* RECEIVED AUTHORIZED"
    using conjunct1 [OF run] conjunct2 [OF run]
  proof (induction rule: rtranclp_induct)
    case base
    then show ?case by (simp add: mayExecute_def)
  next
    case (step y z)
    from mayExecute_closed_back [OF step.hyps(2) step.prems] show ?case
    proof
      assume "mayExecute y"
      with step show ?thesis by (meson rtranclp.rtrancl_into_rtrancl)
    next
      assume "y = AUTHORIZED"
      with step.hyps show ?thesis by blast
    qed
  qed
  from req.gate [OF conjunct2 [OF auth] _ into_authorized] have
    gate: "canTransition\<^sup>*\<^sup>* RECEIVED POLICY_EVALUATING \<and> canTransition POLICY_EVALUATING AUTHORIZED"
    by simp
  then show "canTransition\<^sup>*\<^sup>* RECEIVED POLICY_EVALUATING" "canTransition\<^sup>*\<^sup>* POLICY_EVALUATING AUTHORIZED"
    by blast+
  show "canTransition\<^sup>*\<^sup>* AUTHORIZED t" using auth by blast
qed

theorem request_runs_witness:
  "successively canTransition [RECEIVED, IDENTITY_VALIDATED, DENIED] \<and> length [IDENTITY_VALIDATED, DENIED] \<le> 6"
proof -
  have "successively canTransition [RECEIVED, IDENTITY_VALIDATED, DENIED]"
    by (simp add: canTransition_def)
  with request_runs [of RECEIVED "[IDENTITY_VALIDATED, DENIED]" RECEIVED] show ?thesis by blast
qed

end
