(* ===== verification/Providers.thy ===== *)
theory Providers
  imports Network Policy Adapters
begin

text \<open>
  The replaceable dependency boundaries of the broker (\<open>apps/broker/src/providers\<close>): the interfaces
  (\<open>interfaces.ts\<close>), the live ENSv2 identity provider (\<open>ens-live.ts\<close>), the CRE policy evaluator
  (\<open>cre-evaluator.ts\<close>) and the deterministic stubs (\<open>stubs.ts\<close>). Chain reads and writes are
  parameters: \<open>None\<close> or \<open>False\<close> is a call that throws. Each interface is a locale, interpreted on
  the providers that implement it.
\<close>

section \<open>Interfaces\<close>

text \<open>What a call can throw. \<open>OtherError\<close> is any error the callers do not classify.\<close>

datatype thrown =
    Denial policy_denial
  | Operational operational_error
  | Guard network_guard_error
  | SqliteConstraint
  | OtherError

record agent_identity =
  ai_ensName :: string
  ai_node :: hex
  ai_agent :: hex
  ai_bindingVersion :: int
  ai_agentIdentityHash :: hex
  ai_source :: string

record evaluation_input =
  ei_requestId :: string
  ei_requestHash :: hex
  ei_calldata :: hex
  ei_identity :: agent_identity
  ei_policyHash :: hex
  ei_target :: hex
  ei_value :: int
  ei_calldataHash :: hex
  ei_intentHash :: hex
  ei_actionKind :: string
  ei_amount :: int

record evaluation_result =
  ev_authorizationId :: hex
  ev_requestHash :: hex
  ev_verdict :: verdict
  ev_reasonCode :: string
  ev_contextCommitment :: hex
  ev_evaluatedAt :: int
  ev_approvedUntil :: int
  ev_source :: string

datatype approval_result =
    APPROVED hex hex
  | REJECTED string
  | UNAVAILABLE string

section \<open>Live ENS identities (ens-live.ts)\<close>

text \<open>The registry reads of one call, each of which may fail.\<close>

record ens_chain =
  ec_getChainId :: "int option"
  ec_getTokenId :: "int \<Rightarrow> int option"
  ec_ownerOf :: "int \<Rightarrow> hex option"
  ec_getExpiry :: "int \<Rightarrow> int option"

definition computeIdentityHash :: "viem \<Rightarrow> hex \<Rightarrow> int \<Rightarrow> hex \<Rightarrow> hex \<Rightarrow> int \<Rightarrow> int \<Rightarrow> hex" where
  "computeIdentityHash v registry labelId nameOwner agent tokenId bindingVersion =
    keccak_hex v (encodeAbiParameters v
      [''address'', ''uint256'', ''address'', ''address'', ''uint256'', ''uint64'']
      [Inr registry, Inl labelId, Inr nameOwner, Inr agent, Inl tokenId, Inl bindingVersion])"

text \<open>The reads inside the \<open>try\<close>: chain id, the Sepolia guard, token id, owner, expiry.\<close>

definition ens_reads :: "ens_chain \<Rightarrow> int \<Rightarrow> (int \<times> hex \<times> int) option" where
  "ens_reads chain labelId =
    (case ec_getChainId chain of
       None \<Rightarrow> None
     | Some chainId \<Rightarrow>
         (case assertSepolia chainId of
            Inl _ \<Rightarrow> None
          | Inr _ \<Rightarrow>
              (case ec_getTokenId chain labelId of
                 None \<Rightarrow> None
               | Some tokenId \<Rightarrow>
                   (case ec_ownerOf chain tokenId of
                      None \<Rightarrow> None
                    | Some nameOwner \<Rightarrow>
                        (case ec_getExpiry chain labelId of
                           None \<Rightarrow> None
                         | Some expiry \<Rightarrow> Some (tokenId, nameOwner, expiry))))))"

definition liveResolve ::
  "viem \<Rightarrow> (string \<rightharpoonup> hex) \<Rightarrow> int \<Rightarrow> hex \<Rightarrow> ens_chain \<Rightarrow> int \<Rightarrow> string \<Rightarrow> thrown + agent_identity" where
  "liveResolve v agentForName bindingVersion registry chain nowSeconds ensName =
    (case agentForName (toLowerCase ensName) of
       None \<Rightarrow> Inl (Operational (OperationalError IDENTITY_NOT_FOUND))
     | Some expectedAgent \<Rightarrow>
         if expectedAgent = [] then Inl (Operational (OperationalError IDENTITY_NOT_FOUND))
         else
         (let label = takeWhile (\<lambda>c. c \<noteq> CHR ''.'') ensName;
              labelId = labelhash v label
          in case ens_reads chain labelId of
               None \<Rightarrow> Inl (Operational (OperationalError IDENTITY_UNAVAILABLE))
             | Some (tokenId, nameOwner, expiry) \<Rightarrow>
                 if nameOwner = ZERO_ADDRESS
                 then Inl (Operational (OperationalError IDENTITY_NOT_FOUND))
                 else if expiry \<le> nowSeconds
                 then Inl (Operational (OperationalError IDENTITY_EXPIRED))
                 else Inr
                   \<lparr>ai_ensName = ensName, ai_node = namehash v ensName, ai_agent = expectedAgent,
                    ai_bindingVersion = bindingVersion,
                    ai_agentIdentityHash =
                      computeIdentityHash v registry labelId nameOwner expectedAgent tokenId bindingVersion,
                    ai_source = ''ensv2-sepolia''\<rparr>))"

section \<open>Stubs (stubs.ts)\<close>

definition deriveAgentIdentityHash :: "viem \<Rightarrow> hex \<Rightarrow> hex \<Rightarrow> int \<Rightarrow> hex \<Rightarrow> hex" where
  "deriveAgentIdentityHash v node agent bindingVersion registryIdentity =
    keccak_hex v (encodeAbiParameters v [''bytes32'', ''address'', ''uint64'', ''bytes32'']
      [Inr node, Inr agent, Inl bindingVersion, Inr registryIdentity])"

definition STUB_REGISTRY_IDENTITY :: "viem \<Rightarrow> hex" where
  "STUB_REGISTRY_IDENTITY v = keccak_text v ''contextlock-stub-registry''"

record stub_ens =
  se_bindings :: "string \<rightharpoonup> hex \<times> int"
  se_resolutionBroken :: bool

definition stub_bind :: "string \<Rightarrow> hex \<Rightarrow> int \<Rightarrow> stub_ens \<Rightarrow> stub_ens" where
  "stub_bind ensName agent bindingVersion s =
    s\<lparr>se_bindings := (se_bindings s)(toLowerCase ensName \<mapsto> (agent, bindingVersion))\<rparr>"

definition stub_revoke :: "string \<Rightarrow> stub_ens \<Rightarrow> stub_ens" where
  "stub_revoke ensName s = s\<lparr>se_bindings := (se_bindings s)(toLowerCase ensName := None)\<rparr>"

definition stubResolve :: "viem \<Rightarrow> stub_ens \<Rightarrow> string \<Rightarrow> thrown + agent_identity" where
  "stubResolve v s ensName =
    (if se_resolutionBroken s then Inl (Operational (OperationalError IDENTITY_UNAVAILABLE))
     else case se_bindings s (toLowerCase ensName) of
       None \<Rightarrow> Inl (Operational (OperationalError IDENTITY_NOT_FOUND))
     | Some (agent, bindingVersion) \<Rightarrow>
         (let node = namehash v ensName
          in Inr \<lparr>ai_ensName = ensName, ai_node = node, ai_agent = agent, ai_bindingVersion = bindingVersion,
                  ai_agentIdentityHash = deriveAgentIdentityHash v node agent bindingVersion (STUB_REGISTRY_IDENTITY v),
                  ai_source = ''stub''\<rparr>))"

text \<open>\<open>verdict\<close> as the text the stub interpolates.\<close>

fun verdict_text :: "verdict \<Rightarrow> string" where
  "verdict_text ALLOW = ''ALLOW''"
| "verdict_text ESCALATE = ''ESCALATE''"
| "verdict_text DENY = ''DENY''"

definition stubEvaluate ::
  "viem \<Rightarrow> int \<Rightarrow> int \<Rightarrow> int \<Rightarrow> int \<Rightarrow> evaluation_input \<Rightarrow> thrown + evaluation_result" where
  "stubEvaluate v autonomousLimit escalateLimit ttlSeconds now input =
    (let vr = (if ei_amount input \<le> autonomousLimit then (ALLOW, ''WITHIN_AUTONOMOUS_LIMIT'')
               else if ei_amount input \<le> escalateLimit then (ESCALATE, ctx_code CRE_ESCALATE)
               else (DENY, ctx_code CRE_DENIED))
     in Inr
       \<lparr>ev_authorizationId = keccak_text v (''auth:'' @ ei_requestId input),
        ev_requestHash = keccak_hex v (encodeAbiParameters v [''bytes32'', ''address'', ''uint256'', ''bytes32'']
          [Inr (ai_agentIdentityHash (ei_identity input)), Inr (ei_target input), Inl (ei_value input),
           Inr (ei_calldataHash input)]),
        ev_verdict = fst vr, ev_reasonCode = snd vr,
        ev_contextCommitment = keccak_text v (''ctx:'' @ ei_requestId input @ '':'' @ verdict_text (fst vr)),
        ev_evaluatedAt = now, ev_approvedUntil = now + ttlSeconds, ev_source = ''stub''\<rparr>)"

definition stubWithSecret ::
  "(string \<rightharpoonup> string) \<Rightarrow> bool \<Rightarrow> string \<Rightarrow> (string \<Rightarrow> thrown + 'r) \<Rightarrow> thrown + 'r" where
  "stubWithSecret secrets unavailable secretId use =
    (if unavailable then Inl (Operational (OperationalError LEDGER_UNAVAILABLE))
     else case secrets secretId of
       None \<Rightarrow> Inl (Operational (OperationalError LEDGER_UNAVAILABLE))
     | Some s \<Rightarrow> use s)"

datatype stub_approval_mode = APPROVE | REJECT | NO_DEVICE

definition stubRequestApproval :: "stub_approval_mode \<Rightarrow> thrown + approval_result" where
  "stubRequestApproval mode =
    (if mode = NO_DEVICE then Inr (UNAVAILABLE ''No approval device configured in Phase 2'')
     else if mode = REJECT then Inr (REJECTED ''Phase 2 stub does not auto-approve'')
     else Inl (Operational (OperationalError LEDGER_UNAVAILABLE)))"

section \<open>The CRE evaluator (cre-evaluator.ts)\<close>

datatype cre_evaluator_mode = cre_live | cre_workflow_local

text \<open>Reason codes of the policy package as the text that is stored.\<close>

fun policy_reason_text :: "reason_code \<Rightarrow> string" where
  "policy_reason_text ALLOW_POLICY_MATCH = ''ALLOW_POLICY_MATCH''"
| "policy_reason_text DENY_AGENT_NOT_AUTHORIZED = ''DENY_AGENT_NOT_AUTHORIZED''"
| "policy_reason_text DENY_TARGET_NOT_ALLOWED = ''DENY_TARGET_NOT_ALLOWED''"
| "policy_reason_text DENY_ACTION_NOT_ALLOWED = ''DENY_ACTION_NOT_ALLOWED''"
| "policy_reason_text DENY_AMOUNT_TOO_HIGH = ''DENY_AMOUNT_TOO_HIGH''"
| "policy_reason_text DENY_CONTEXT_STALE = ''DENY_CONTEXT_STALE''"
| "policy_reason_text DENY_SLIPPAGE = ''DENY_SLIPPAGE''"
| "policy_reason_text DENY_VOLATILITY = ''DENY_VOLATILITY''"
| "policy_reason_text DENY_LIQUIDITY = ''DENY_LIQUIDITY''"
| "policy_reason_text DENY_POLICY_DISABLED = ''DENY_POLICY_DISABLED''"
| "policy_reason_text DENY_MALFORMED_CONTEXT = ''DENY_MALFORMED_CONTEXT''"
| "policy_reason_text ESCALATE_AMOUNT = ''ESCALATE_AMOUNT''"
| "policy_reason_text ESCALATE_RISK = ''ESCALATE_RISK''"
| "policy_reason_text ESCALATE_POLICY_RULE = ''ESCALATE_POLICY_RULE''"

text \<open>
  The effects of one evaluation: the gateway announcement, the context feed, the delivery of the
  report to the consumer and the consumer's authorization id. \<open>ce_num\<close> is the decimal text of a
  number.
\<close>

record cre_env =
  ce_announce :: "abi_val list \<Rightarrow> bool"
  ce_fetchContext :: "market_context option"
  ce_deliver :: "hex \<Rightarrow> bool"
  ce_authorizationId :: "hex \<Rightarrow> hex \<Rightarrow> int \<Rightarrow> hex option"
  ce_nowUnix :: int
  ce_num :: "jsnum \<Rightarrow> string"

definition show_bool :: "bool \<Rightarrow> string" where
  "show_bool b = (if b then ''true'' else ''false'')"

definition policyCommitment :: "viem \<Rightarrow> (jsnum \<Rightarrow> string) \<Rightarrow> private_policy \<Rightarrow> hex" where
  "policyCommitment v num p =
    keccak_text v (join ''|''
      [pp_policyId p, num (pp_policyVersion p), show_bool (pp_enabled p), show_int (pp_autoLimit p),
       show_int (pp_escalationLimit p), num (pp_maxSlippageBps p), num (pp_maxVolatilityBps p),
       show_int (pp_minLiquidity p), num (pp_targetEthAllocationBps p), num (pp_rebalanceDriftBps p),
       num (pp_minHealthFactorBps p), num (pp_targetHealthFactorBps p), num (pp_proprietaryRiskThreshold p)])"

definition commitContext :: "viem \<Rightarrow> (jsnum \<Rightarrow> string) \<Rightarrow> market_context \<Rightarrow> hex" where
  "commitContext v num ctx =
    keccak_text v (''ctx:'' @ num (mc_observedAtUnix ctx) @ '':'' @ num (mc_slippageBps ctx) @ '':'' @
      num (mc_volatilityBps ctx) @ '':'' @ show_int (mc_liquidity ctx) @ '':'' @ num (mc_healthFactorBps ctx))"

text \<open>The action decoded from the calldata: selector, recipient and amount.\<close>

definition decode_action :: "viem \<Rightarrow> hex \<Rightarrow> (string \<times> hex \<times> int) option" where
  "decode_action v calldata =
    (case decodeFunctionData v calldata of
       Some (fn, [Inr recipient, Inl amount]) \<Rightarrow>
         if fn \<noteq> ''transferTo'' then None else Some (take 10 calldata, recipient, amount)
     | _ \<Rightarrow> None)"

text \<open>\<open>BigInt(number)\<close> throws unless the number is an integer.\<close>

definition is_integral :: "jsnum \<Rightarrow> bool" where
  "is_integral x = (case x of Fin q \<Rightarrow> of_int \<lfloor>q\<rfloor> = q | _ \<Rightarrow> False)"

definition cre_request ::
  "viem \<Rightarrow> private_policy \<Rightarrow> evaluation_input \<Rightarrow> string \<times> hex \<times> int \<Rightarrow> evaluation_request" where
  "cre_request v policy input d =
    \<lparr>er_requestHash = ei_requestHash input,
     er_agentIdentityHash = ai_agentIdentityHash (ei_identity input),
     er_ensNode = ai_node (ei_identity input), er_agent = ai_agent (ei_identity input),
     er_chainId = 11155111, er_target = ei_target input, er_value = ei_value input,
     er_calldataHash = ei_calldataHash input, er_selector = fst d, er_decodedRecipient = fst (snd d),
     er_decodedAmount = snd (snd d), er_intentHash = ei_intentHash input,
     er_policyId = pp_policyId policy, er_policyVersion = pp_policyVersion policy,
     er_actionKind = keccak_text v (ei_actionKind input)\<rparr>"

text \<open>The arguments of \<open>requestEvaluation\<close>.\<close>

definition announce_args :: "viem \<Rightarrow> private_policy \<Rightarrow> evaluation_input \<Rightarrow> abi_val list" where
  "announce_args v policy input =
    [Inr (ai_agentIdentityHash (ei_identity input)), Inr (ai_agent (ei_identity input)),
     Inr (ai_node (ei_identity input)), Inr (ei_target input), Inl (ei_value input),
     Inr (ei_calldata input), Inr (ei_intentHash input), Inr (pp_policyId policy),
     Inl (case pp_policyVersion policy of Fin q \<Rightarrow> \<lfloor>q\<rfloor> | _ \<Rightarrow> 0), Inr (keccak_text v (ei_actionKind input))]"

definition creEvaluate ::
  "viem \<Rightarrow> cre_evaluator_mode \<Rightarrow> private_policy \<Rightarrow> cre_env \<Rightarrow> evaluation_input \<Rightarrow> thrown + evaluation_result" where
  "creEvaluate v mode policy env input =
    (if mode = cre_live then Inl (Operational (OperationalError CRE_UNAVAILABLE))
     else case decode_action v (ei_calldata input) of
       None \<Rightarrow> Inl (Operational (OperationalError CRE_UNAVAILABLE))
     | Some d \<Rightarrow>
         if \<not> is_integral (pp_policyVersion policy) \<or> \<not> ce_announce env (announce_args v policy input) then Inl OtherError
         else case ce_fetchContext env of
           None \<Rightarrow> Inl OtherError
         | Some ctx \<Rightarrow>
             (let nowUnix = ce_nowUnix env;
                  decision = evaluatePolicy (cre_request v policy input d) policy ctx (Fin (of_int nowUnix));
                  commitment = policyCommitment v (ce_num env) policy;
                  contextCommitment = commitContext v (ce_num env) ctx;
                  validUntil = nowUnix + (if pd_ttlSeconds decision = 0 then 60 else pd_ttlSeconds decision);
                  report = encodeAbiParameters v
                    [''bytes32'', ''bytes32'', ''bytes32'', ''uint8'', ''bytes32'', ''uint64'', ''uint64'']
                    [Inr (ei_requestHash input), Inr commitment, Inr contextCommitment,
                     Inl (verdictToUint (pd_verdict decision)),
                     Inr (keccak_text v (policy_reason_text (pd_reasonCode decision))),
                     Inl nowUnix, Inl validUntil]
              in if \<not> ce_deliver env report then Inl OtherError
                 else case ce_authorizationId env (ei_requestHash input) commitment nowUnix of
                   None \<Rightarrow> Inl OtherError
                 | Some authorizationId \<Rightarrow>
                     Inr \<lparr>ev_authorizationId = authorizationId, ev_requestHash = ei_requestHash input,
                          ev_verdict = pd_verdict decision,
                          ev_reasonCode = policy_reason_text (pd_reasonCode decision),
                          ev_contextCommitment = contextCommitment, ev_evaluatedAt = nowUnix,
                          ev_approvedUntil = validUntil, ev_source = ''cre-workflow-local''\<rparr>))"

section \<open>Contracts\<close>

text \<open>
  An identity provider names what it was asked for, and fails with an operational error only: an
  outage is never a decision.
\<close>

locale ens_identity_provider =
  fixes resolve :: "string \<Rightarrow> thrown + agent_identity"
  assumes resolve_name: "resolve n = Inr i \<Longrightarrow> ai_ensName i = n"
    and resolve_fails_operational: "resolve n = Inl e \<Longrightarrow> \<exists>c. e = Operational (OperationalError c)"

text \<open>An evaluator's verdict is valid for a non-empty window.\<close>

locale policy_evaluator =
  fixes evaluate :: "evaluation_input \<Rightarrow> thrown + evaluation_result"
  assumes evaluate_window: "evaluate i = Inr r \<Longrightarrow> ev_evaluatedAt r < ev_approvedUntil r"

text \<open>An evaluator bound to the request: its result carries the hash it was asked about.\<close>

locale bound_policy_evaluator = policy_evaluator +
  assumes evaluate_binds: "evaluate i = Inr r \<Longrightarrow> ev_requestHash r = ei_requestHash i"

interpretation live: ens_identity_provider "liveResolve v agentForName bindingVersion registry chain now"
  for v agentForName bindingVersion registry chain now
  by unfold_locales (auto simp: liveResolve_def Let_def split: option.splits if_splits)

interpretation stub: ens_identity_provider "stubResolve v s"
  for v s
  by unfold_locales (auto simp: stubResolve_def Let_def split: option.splits if_splits)

lemma cre_window: "creEvaluate v mode policy env input = Inr r \<Longrightarrow> ev_approvedUntil r = ev_evaluatedAt r + 60"
  by (auto simp: creEvaluate_def Let_def evaluatePolicy_ttl split: option.splits if_splits)

lemma cre_binds: "creEvaluate v mode policy env input = Inr r \<Longrightarrow> ev_requestHash r = ei_requestHash input"
  by (auto simp: creEvaluate_def Let_def split: option.splits if_splits)

interpretation cre: bound_policy_evaluator "creEvaluate v mode policy env"
  for v mode policy env
  by unfold_locales (auto dest: cre_window cre_binds)

interpretation stubEval: policy_evaluator "stubEvaluate v autonomousLimit escalateLimit (int (Suc n)) now"
  for v autonomousLimit escalateLimit n now
  by unfold_locales (auto simp: stubEvaluate_def Let_def)

section \<open>Properties\<close>

text \<open>
  The live provider returns an identity only from current registry state: the chain read is
  Sepolia, the name has a non-zero owner and has not expired, and the identity hash is computed from
  exactly the owner, token and agent of these reads. Every failure is an operational error, so an
  outage is never reported as a decision.
\<close>

theorem live_resolve_current:
  "(case liveResolve v agentForName bindingVersion registry chain now n of
      Inr i \<Rightarrow> ai_ensName i = n \<and> ec_getChainId chain = Some SEPOLIA_CHAIN_ID \<and>
        agentForName (toLowerCase n) = Some (ai_agent i) \<and>
        (\<exists>tokenId nameOwner expiry.
           ec_getTokenId chain (labelhash v (takeWhile (\<lambda>c. c \<noteq> CHR ''.'') n)) = Some tokenId \<and>
           ec_ownerOf chain tokenId = Some nameOwner \<and> nameOwner \<noteq> ZERO_ADDRESS \<and>
           ec_getExpiry chain (labelhash v (takeWhile (\<lambda>c. c \<noteq> CHR ''.'') n)) = Some expiry \<and> now < expiry \<and>
           ai_agentIdentityHash i = computeIdentityHash v registry
             (labelhash v (takeWhile (\<lambda>c. c \<noteq> CHR ''.'') n)) nameOwner (ai_agent i) tokenId bindingVersion)
    | Inl e \<Rightarrow> \<exists>c. e = Operational (OperationalError c))"
proof (cases "liveResolve v agentForName bindingVersion registry chain now n")
  case (Inl e)
  with live.resolve_fails_operational [OF Inl] show ?thesis by simp
next
  case (Inr i)
  then show ?thesis
    by (auto simp: liveResolve_def ens_reads_def assertSepolia_def Let_def split: option.splits if_splits)
qed

text \<open>
  The stub identity provider behaves as a map keyed by lower-cased names: a bound name resolves
  in any letter case to its agent, a revoked name stops resolving at once, and neither operation
  affects other names.
\<close>

theorem stub_bind_revoke:
  assumes "\<not> se_resolutionBroken s"
  shows "(\<exists>i. stubResolve v (stub_bind n agent bv s) n = Inr i \<and> ai_agent i = agent \<and> ai_bindingVersion i = bv) \<and>
    (toLowerCase m = toLowerCase n \<longrightarrow>
       stubResolve v (stub_revoke n s) m = Inl (Operational (OperationalError IDENTITY_NOT_FOUND))) \<and>
    (toLowerCase m \<noteq> toLowerCase n \<longrightarrow>
       stubResolve v (stub_revoke n s) m = stubResolve v s m \<and>
       stubResolve v (stub_bind n agent bv s) m = stubResolve v s m)"
  using assms by (simp add: stubResolve_def stub_bind_def stub_revoke_def Let_def)

theorem stub_bind_revoke_witness:
  "stubResolve sample_viem
     (stub_revoke ''agent.eth'' (stub_bind ''agent.eth'' ''0x01'' 1 \<lparr>se_bindings = Map.empty, se_resolutionBroken = False\<rparr>))
     ''AGENT.eth'' = Inl (Operational (OperationalError IDENTITY_NOT_FOUND))"
proof -
  have eq: "toLowerCase ''AGENT.eth'' = toLowerCase ''agent.eth''" by code_simp
  have "\<not> se_resolutionBroken (stub_bind ''agent.eth'' ''0x01'' 1 \<lparr>se_bindings = Map.empty, se_resolutionBroken = False\<rparr>)"
    by (simp add: stub_bind_def)
  from stub_bind_revoke [OF this, of sample_viem "''agent.eth''" "''0x01''" 1 "''AGENT.eth''"] eq
  show ?thesis by blast
qed

lemma evaluation_ignores_amount [simp]:
  "announce_args v policy (input\<lparr>ei_amount := n\<rparr>) = announce_args v policy input"
  "cre_request v policy (input\<lparr>ei_amount := n\<rparr>) = cre_request v policy input"
  by (auto simp: announce_args_def cre_request_def fun_eq_iff split: prod.splits)

text \<open>
  The amount the agent declared has no influence on an evaluation: the evaluator's result, on
  every branch including errors, is the same for any declared amount, and a returned verdict is the
  policy's verdict on the amount decoded from the calldata that will execute.
\<close>

theorem declared_amount_irrelevant:
  "creEvaluate v mode policy env (input\<lparr>ei_amount := n\<rparr>) = creEvaluate v mode policy env input \<and>
   (\<forall>r. creEvaluate v mode policy env input = Inr r \<longrightarrow>
      (\<exists>d ctx. decode_action v (ei_calldata input) = Some d \<and> ce_fetchContext env = Some ctx \<and>
         ev_verdict r = pd_verdict (evaluatePolicy ((cre_request v policy input d)\<lparr>er_decodedAmount := snd (snd d)\<rparr>)
            policy ctx (Fin (of_int (ce_nowUnix env))))))"
proof
  show "creEvaluate v mode policy env (input\<lparr>ei_amount := n\<rparr>) = creEvaluate v mode policy env input"
    by (simp add: creEvaluate_def Let_def split: option.split)
  show "\<forall>r. creEvaluate v mode policy env input = Inr r \<longrightarrow>
      (\<exists>d ctx. decode_action v (ei_calldata input) = Some d \<and> ce_fetchContext env = Some ctx \<and>
         ev_verdict r = pd_verdict (evaluatePolicy ((cre_request v policy input d)\<lparr>er_decodedAmount := snd (snd d)\<rparr>)
            policy ctx (Fin (of_int (ce_nowUnix env)))))"
    by (auto simp: creEvaluate_def Let_def cre_request_def split: option.splits if_splits)
qed

text \<open>A package whose calldata decodes, and an environment in which the evaluation completes.\<close>

definition eval_viem :: viem where
  "eval_viem = sample_viem\<lparr>decodeFunctionData := (\<lambda>h. Some (''transferTo'', [Inr ''0x06'', Inl 500])),
     keccak_text := (\<lambda>s. s)\<rparr>"

definition eval_env :: cre_env where
  "eval_env =
    \<lparr>ce_announce = (\<lambda>_. True), ce_fetchContext = Some sample_context, ce_deliver = (\<lambda>_. True),
     ce_authorizationId = (\<lambda>r p t. Some ''0xa0''), ce_nowUnix = 1060, ce_num = (\<lambda>_. ''n'')\<rparr>"

definition eval_identity :: agent_identity where
  "eval_identity =
    \<lparr>ai_ensName = ''agent.eth'', ai_node = ''0x02'', ai_agent = ''0x03'', ai_bindingVersion = 1,
     ai_agentIdentityHash = ''0xcd'', ai_source = ''stub''\<rparr>"

definition eval_input :: evaluation_input where
  "eval_input =
    \<lparr>ei_requestId = ''r1'', ei_requestHash = ''0x01'', ei_calldata = ''0x05'', ei_identity = eval_identity,
     ei_policyHash = ''0x09'', ei_target = ''0xab'', ei_value = 0, ei_calldataHash = ''0x04'',
     ei_intentHash = ''0x07'', ei_actionKind = ''MOCK_TRANSFER'', ei_amount = 500\<rparr>"

lemma eval_request:
  "cre_request eval_viem sample_policy eval_input (''0x05'', ''0x06'', 500) =
     sample_request\<lparr>er_selector := ''0x05''\<rparr>"
  by (simp add: cre_request_def eval_viem_def sample_policy_def eval_input_def eval_identity_def sample_request_def)

lemma eval_allows:
  "\<exists>r. creEvaluate eval_viem cre_workflow_local sample_policy eval_env eval_input = Inr r \<and> ev_verdict r = ALLOW"
proof -
  have dec: "decode_action eval_viem (ei_calldata eval_input) = Some (''0x05'', ''0x06'', 500)"
    by (simp add: decode_action_def eval_viem_def eval_input_def)
  have int: "is_integral (pp_policyVersion sample_policy)"
    by (simp add: is_integral_def sample_policy_def)
  have "evaluatePolicy (sample_request\<lparr>er_selector := ''0x05''\<rparr>) sample_policy sample_context (Fin 1060) =
      evaluatePolicy sample_request sample_policy sample_context (Fin 1060)"
    by (simp add: evaluatePolicy_def)
  with dec int show ?thesis
    by (simp add: creEvaluate_def Let_def eval_request eval_env_def sample_allowed)
qed

theorem declared_amount_irrelevant_witness:
  "creEvaluate eval_viem cre_workflow_local sample_policy eval_env (eval_input\<lparr>ei_amount := 1\<rparr>) =
   creEvaluate eval_viem cre_workflow_local sample_policy eval_env eval_input \<and>
   (\<exists>r. creEvaluate eval_viem cre_workflow_local sample_policy eval_env eval_input = Inr r)"
  using declared_amount_irrelevant [where v = eval_viem and mode = cre_workflow_local and policy = sample_policy
      and env = eval_env and input = eval_input and n = 1] eval_allows
  by blast

text \<open>
  Every verdict the evaluator returns, DENY included, is recorded as valid for exactly 60
  seconds: the lifetime 0 the policy gives a DENY is replaced by the default.
\<close>

theorem cre_result_window:
  "creEvaluate v mode policy env input = Inr r \<Longrightarrow>
     ev_evaluatedAt r = ce_nowUnix env \<and> ev_approvedUntil r = ce_nowUnix env + 60 \<and>
     ev_requestHash r = ei_requestHash input"
  using cre_window [of v mode policy env input r] cre_binds [of v mode policy env input r]
  by (auto simp: creEvaluate_def Let_def split: option.splits if_splits)

theorem cre_result_window_witness:
  "\<exists>r. creEvaluate eval_viem cre_workflow_local sample_policy eval_env eval_input = Inr r \<and> ev_approvedUntil r = 1120"
proof -
  obtain r where r: "creEvaluate eval_viem cre_workflow_local sample_policy eval_env eval_input = Inr r"
    using eval_allows by blast
  with cre_result_window [OF r] show ?thesis by (simp add: eval_env_def)
qed

text \<open>
  The policy commitment does not cover the policy's allow lists: replacing the authorized agents,
  allowed targets, allowed action kinds or the canary leaves the commitment unchanged, although a
  request denied under one list can be allowed under the other.
\<close>

theorem commitment_ignores_allowlists:
  "policyCommitment v num (p\<lparr>pp_allowedTargets := ts, pp_authorizedAgentIdentityHashes := as,
      pp_allowedActionKinds := ks, pp_canary := c\<rparr>) = policyCommitment v num p \<and>
   pd_verdict (evaluatePolicy sample_request sample_policy sample_context (Fin 1060)) = ALLOW \<and>
   pd_verdict (evaluatePolicy sample_request (sample_policy\<lparr>pp_allowedTargets := []\<rparr>) sample_context (Fin 1060)) = DENY"
proof (intro conjI)
  show "pd_verdict (evaluatePolicy sample_request sample_policy sample_context (Fin 1060)) = ALLOW"
    by (rule sample_allowed)
  show "pd_verdict (evaluatePolicy sample_request (sample_policy\<lparr>pp_allowedTargets := []\<rparr>) sample_context (Fin 1060)) = DENY"
    by (simp add: verdict_cases never_overridable_def structurally_authorized_def)
qed (simp add: policyCommitment_def)

end
