(* ===== verification/Broker_Db.thy ===== *)
theory Broker_Db
  imports Providers
begin

text \<open>
  The broker's storage (\<open>apps/broker/src/db.ts\<close>): the four tables of \<open>migrate\<close> as lists of rows in
  insertion order, the inserts with their primary-key, unique and foreign-key constraints, the
  updates the broker issues and the audit log. An insert that violates a constraint is \<open>None\<close>. The
  columns \<open>created_at\<close> and \<open>updated_at\<close> are not kept, nor are \<open>observed_tx_hash\<close> and
  \<open>execution_tx_hash\<close>, which nothing writes. \<open>detail\<close> is kept as the value that is serialized.
\<close>

section \<open>Tables\<close>

text \<open>The values the broker writes into \<open>capability_requests.status\<close>.\<close>

datatype row_status = PENDING | ALLOWED | ESCALATED | DENIED | FAILED

record request_row =
  rr_id :: string
  rr_idempotency_key :: string
  rr_agent_ens_name :: string
  rr_agent_address :: hex
  rr_agent_identity_hash :: "hex option"
  rr_policy_hash :: hex
  rr_action_kind :: string
  rr_intent_hash :: hex
  rr_target :: hex
  rr_value :: string
  rr_calldata :: hex
  rr_calldata_hash :: hex
  rr_amount :: string
  rr_status :: row_status
  rr_reason_code :: "string option"
  rr_identity_source :: "string option"

record auth_row =
  ar_authorization_id :: hex
  ar_request_id :: string
  ar_request_hash :: hex
  ar_verdict :: verdict
  ar_reason_code :: string
  ar_context_commitment :: hex
  ar_evaluated_at :: int
  ar_approved_until :: int
  ar_source :: string

record cap_row =
  cr_digest :: hex
  cr_request_id :: string
  cr_nonce :: string
  cr_issued_at :: int
  cr_expires_at :: int
  cr_status :: string

datatype audit_type =
    REQUEST_RECEIVED | REQUEST_REJECTED_VALIDATION | IDEMPOTENT_REPLAY | ENS_IDENTITY_VALIDATED
  | ENS_IDENTITY_FAILED | POLICY_CHECK_PASSED | POLICY_CHECK_FAILED | EVALUATION_REQUESTED
  | AUTHORIZATION_OBSERVED | AUTHORIZATION_RECORDED_ONCHAIN | CAPABILITY_MINTED
  | ESCALATION_CREATED | AUDIT_DENIED | OPERATIONAL_FAILURE

record audit_row =
  au_id :: nat
  au_request_id :: "string option"
  au_type :: audit_type
  au_detail :: json

record db =
  db_requests :: "request_row list"
  db_auths :: "auth_row list"
  db_caps :: "cap_row list"
  db_audit :: "audit_row list"

definition empty_db :: db where
  "empty_db = \<lparr>db_requests = [], db_auths = [], db_caps = [], db_audit = []\<rparr>"

section \<open>Statements\<close>

text \<open>\<open>audit\<close>: rows are never deleted, so \<open>AUTOINCREMENT\<close> counts them from one.\<close>

definition audit :: "db \<Rightarrow> string option \<Rightarrow> audit_type \<Rightarrow> json \<Rightarrow> db" where
  "audit d requestId type detail =
    d\<lparr>db_audit := db_audit d @
        [\<lparr>au_id = Suc (length (db_audit d)), au_request_id = requestId, au_type = type, au_detail = detail\<rparr>]\<rparr>"

definition select_by_key :: "db \<Rightarrow> string \<Rightarrow> request_row option" where
  "select_by_key d key = find (\<lambda>r. rr_idempotency_key r = key) (db_requests d)"

definition select_by_id :: "db \<Rightarrow> string \<Rightarrow> request_row option" where
  "select_by_id d i = find (\<lambda>r. rr_id r = i) (db_requests d)"

definition select_auth :: "db \<Rightarrow> string \<Rightarrow> auth_row option" where
  "select_auth d i = find (\<lambda>a. ar_request_id a = i) (db_auths d)"

definition insert_request :: "db \<Rightarrow> request_row \<Rightarrow> db option" where
  "insert_request d r =
    (if rr_id r \<in> set (map rr_id (db_requests d)) \<or>
        rr_idempotency_key r \<in> set (map rr_idempotency_key (db_requests d)) then None
     else Some (d\<lparr>db_requests := db_requests d @ [r]\<rparr>))"

definition insert_auth :: "db \<Rightarrow> auth_row \<Rightarrow> db option" where
  "insert_auth d a =
    (if ar_authorization_id a \<in> set (map ar_authorization_id (db_auths d)) \<or>
        ar_request_id a \<notin> set (map rr_id (db_requests d)) then None
     else Some (d\<lparr>db_auths := db_auths d @ [a]\<rparr>))"

definition insert_cap :: "db \<Rightarrow> cap_row \<Rightarrow> db option" where
  "insert_cap d c =
    (if cr_digest c \<in> set (map cr_digest (db_caps d)) \<or>
        cr_request_id c \<notin> set (map rr_id (db_requests d)) then None
     else Some (d\<lparr>db_caps := db_caps d @ [c]\<rparr>))"

text \<open>\<open>UPDATE capability_requests SET \<dots> WHERE id = ?\<close>.\<close>

definition update_request :: "string \<Rightarrow> (request_row \<Rightarrow> request_row) \<Rightarrow> db \<Rightarrow> db" where
  "update_request i f d = d\<lparr>db_requests := map (\<lambda>r. if rr_id r = i then f r else r) (db_requests d)\<rparr>"

definition setStatus :: "db \<Rightarrow> string \<Rightarrow> row_status \<Rightarrow> string \<Rightarrow> db" where
  "setStatus d i status reasonCode =
    update_request i (\<lambda>r. r\<lparr>rr_status := status, rr_reason_code := Some reasonCode\<rparr>) d"

definition set_identity :: "db \<Rightarrow> string \<Rightarrow> agent_identity \<Rightarrow> db" where
  "set_identity d i ident =
    update_request i (\<lambda>r. r\<lparr>rr_agent_address := ai_agent ident,
      rr_agent_identity_hash := Some (ai_agentIdentityHash ident),
      rr_identity_source := Some (ai_source ident)\<rparr>) d"

section \<open>Well-formed databases\<close>

text \<open>The declared constraints, and an audit log whose ids count from one.\<close>

definition db_wf :: "db \<Rightarrow> bool" where
  "db_wf d \<longleftrightarrow>
     distinct (map rr_id (db_requests d)) \<and> distinct (map rr_idempotency_key (db_requests d)) \<and>
     distinct (map ar_authorization_id (db_auths d)) \<and> distinct (map cr_digest (db_caps d)) \<and>
     (\<forall>a \<in> set (db_auths d). ar_request_id a \<in> rr_id ` set (db_requests d)) \<and>
     (\<forall>c \<in> set (db_caps d). cr_request_id c \<in> rr_id ` set (db_requests d)) \<and>
     map au_id (db_audit d) = [1..<Suc (length (db_audit d))]"

lemma audit_simps [simp]:
  "db_requests (audit d i t j) = db_requests d" "db_auths (audit d i t j) = db_auths d"
  "db_caps (audit d i t j) = db_caps d"
  "db_audit (audit d i t j) = db_audit d @ [\<lparr>au_id = Suc (length (db_audit d)), au_request_id = i, au_type = t, au_detail = j\<rparr>]"
  by (simp_all add: audit_def)

lemma update_request_simps [simp]:
  "db_auths (update_request i f d) = db_auths d" "db_caps (update_request i f d) = db_caps d"
  "db_audit (update_request i f d) = db_audit d"
  "db_requests (update_request i f d) = map (\<lambda>r. if rr_id r = i then f r else r) (db_requests d)"
  by (simp_all add: update_request_def)

lemma map_key_update:
  assumes "\<And>r. k (f r) = k r"
  shows "map k (map (\<lambda>r. if P r then f r else r) rs) = map k rs"
  using assms by (induction rs) auto

lemma setStatus_keys [simp]:
  "map rr_id (db_requests (setStatus d i st c)) = map rr_id (db_requests d)"
  "map rr_idempotency_key (db_requests (setStatus d i st c)) = map rr_idempotency_key (db_requests d)"
  "db_auths (setStatus d i st c) = db_auths d" "db_caps (setStatus d i st c) = db_caps d"
  "db_audit (setStatus d i st c) = db_audit d"
  by (simp_all add: setStatus_def)

lemma set_identity_keys [simp]:
  "map rr_id (db_requests (set_identity d i a)) = map rr_id (db_requests d)"
  "map rr_idempotency_key (db_requests (set_identity d i a)) = map rr_idempotency_key (db_requests d)"
  "db_auths (set_identity d i a) = db_auths d" "db_caps (set_identity d i a) = db_caps d"
  "db_audit (set_identity d i a) = db_audit d"
  by (simp_all add: set_identity_def)

text \<open>Every statement keeps the database well formed.\<close>

lemma audit_wf: "db_wf d \<Longrightarrow> db_wf (audit d i t j)"
  by (simp add: db_wf_def)

lemma insert_request_wf: "db_wf d \<Longrightarrow> insert_request d r = Some d' \<Longrightarrow> db_wf d'"
  by (auto simp: db_wf_def insert_request_def split: if_splits)

lemma insert_auth_wf: "db_wf d \<Longrightarrow> insert_auth d a = Some d' \<Longrightarrow> db_wf d'"
  by (auto simp: db_wf_def insert_auth_def split: if_splits)

lemma insert_cap_wf: "db_wf d \<Longrightarrow> insert_cap d c = Some d' \<Longrightarrow> db_wf d'"
  by (auto simp: db_wf_def insert_cap_def split: if_splits)

lemma update_id_image [simp]:
  "rr_id ` set (db_requests (setStatus d i st c)) = rr_id ` set (db_requests d)"
  "rr_id ` set (db_requests (set_identity d i a)) = rr_id ` set (db_requests d)"
  using setStatus_keys(1) [of d i st c] set_identity_keys(1) [of d i a] by (metis list.set_map)+

lemma setStatus_wf: "db_wf d \<Longrightarrow> db_wf (setStatus d i st c)"
  by (simp add: db_wf_def)

lemma set_identity_wf: "db_wf d \<Longrightarrow> db_wf (set_identity d i a)"
  by (simp add: db_wf_def)

lemma empty_db_wf: "db_wf empty_db"
  by (simp add: db_wf_def empty_db_def)

lemmas updates_wf = audit_wf setStatus_wf set_identity_wf
lemmas inserts_wf = insert_request_wf insert_auth_wf insert_cap_wf

end
