(* ===== verification/Broker.thy ===== *)
theory Broker
  imports Broker_Db
begin

text \<open>
  The broker (\<open>apps/broker/src/broker.ts\<close>). \<open>createRequest\<close> is an asynchronous method: it runs
  without interruption between its three \<open>await\<close>s (the identity provider, the evaluator, the
  signer). Each such segment is one definition, which returns the new state and either a returned
  record, a thrown error, or the task that waits for the next answer. State changes made before an
  error are kept, as in the code. \<open>createRequest\<close> is their composition for a request that is not
  interleaved with others; \<open>Broker_Steps\<close> has the interleaved runs.
\<close>

section \<open>Configuration and requests\<close>

record public_policy =
  pub_policyId :: string
  pub_policyHash :: hex
  pub_enabled :: bool
  pub_allowedActionKinds :: "string list"
  pub_allowedTargets :: "hex list"
  pub_maxValueHardCap :: int
  pub_target :: hex

text \<open>The issuer's private key is behind the signing parameter of \<open>createRequest\<close>.\<close>

record broker_config =
  bc_chainId :: int
  bc_executor :: hex
  bc_capabilityTtlSeconds :: int
  bc_policies :: "string \<rightharpoonup> public_policy"

record create_request_input =
  ci_agentEnsName :: string
  ci_actionKind :: string
  ci_adapterParams :: json
  ci_policyId :: string
  ci_idempotencyKey :: string

record request_record =
  rq_requestId :: string
  rq_status :: row_status
  rq_reasonCode :: string
  rq_capability :: "capability option"
  rq_signature :: "hex option"
  rq_calldata :: "hex option"
  rq_actionKindHash :: "hex option"
  rq_capabilityDigest :: "hex option"
  rq_authorizationId :: "hex option"
  rq_approvedUntil :: "string option"
  rq_identitySource :: "string option"
  rq_evaluationSource :: "string option"

record broker_state =
  bs_db :: db
  bs_nonceCounter :: int

text \<open>The local variables of \<open>createRequest\<close> that live across an \<open>await\<close>.\<close>

record pending_request =
  pr_requestId :: string
  pr_input :: create_request_input
  pr_policy :: public_policy
  pr_tx :: candidate_transaction
  pr_amount :: int
  pr_intentHash :: hex

datatype task =
    Resolving pending_request
  | Evaluating pending_request agent_identity
  | Signing pending_request agent_identity evaluation_result capability

fun task_pending :: "task \<Rightarrow> pending_request" where
  "task_pending (Resolving p) = p"
| "task_pending (Evaluating p i) = p"
| "task_pending (Signing p i e c) = p"

datatype outcome =
    Returned request_record
  | Threw thrown
  | Awaits task

section \<open>Reads\<close>

definition getPolicy :: "broker_config \<Rightarrow> string \<Rightarrow> public_policy option" where
  "getPolicy cfg policyId = bc_policies cfg policyId"

definition getRequest :: "db \<Rightarrow> string \<Rightarrow> request_record option" where
  "getRequest d requestId =
    (case select_by_id d requestId of
       None \<Rightarrow> None
     | Some r \<Rightarrow>
         (let a = select_auth d requestId
          in Some \<lparr>rq_requestId = rr_id r, rq_status = rr_status r,
               rq_reasonCode = (case rr_reason_code r of None \<Rightarrow> ''PENDING'' | Some c \<Rightarrow> c),
               rq_capability = None, rq_signature = None, rq_calldata = None, rq_actionKindHash = None,
               rq_capabilityDigest = None,
               rq_authorizationId = map_option ar_authorization_id a,
               rq_approvedUntil = map_option (\<lambda>a. show_int (ar_approved_until a)) a,
               rq_identitySource =
                 (case rr_identity_source r of None \<Rightarrow> None | Some s \<Rightarrow> if s = [] then None else Some s),
               rq_evaluationSource =
                 (case a of None \<Rightarrow> None | Some a' \<Rightarrow> if ar_source a' = [] then None else Some (ar_source a'))\<rparr>))"

text \<open>The audit rows of one request in order, or the latest 200, newest first.\<close>

definition getAudit :: "db \<Rightarrow> string option \<Rightarrow> audit_row list" where
  "getAudit d requestId =
    (case requestId of
       Some i \<Rightarrow> if i = [] then take 200 (rev (db_audit d))
                 else filter (\<lambda>a. au_request_id a = Some i) (db_audit d)
     | None \<Rightarrow> take 200 (rev (db_audit d)))"

section \<open>From the call to the first await\<close>

definition str_obj :: "(string \<times> string) list \<Rightarrow> json" where
  "str_obj kvs = JObj (map (\<lambda>(k, x). (k, JStr x)) kvs)"

text \<open>The checks before the row exists: policy, action kind, adapter, parameters, fence, target, cap.\<close>

definition prepare_request ::
  "viem \<Rightarrow> broker_config \<Rightarrow> create_request_input
    \<Rightarrow> thrown + (public_policy \<times> candidate_transaction \<times> int)" where
  "prepare_request v cfg input =
    (case bc_policies cfg (ci_policyId input) of
       None \<Rightarrow> Inl (Denial (PolicyDenial POLICY_DISABLED))
     | Some policy \<Rightarrow>
         if \<not> pub_enabled policy then Inl (Denial (PolicyDenial POLICY_DISABLED))
         else if ci_actionKind input \<notin> set (pub_allowedActionKinds policy)
         then Inl (Denial (PolicyDenial POLICY_ACTION_DENIED))
         else (case getAdapter v (ci_actionKind input) of
           None \<Rightarrow> Inl (Denial (PolicyDenial POLICY_ACTION_DENIED))
         | Some adapter \<Rightarrow>
             (case ta_schema adapter (ci_adapterParams input) of
                None \<Rightarrow> Inl (Denial (PolicyDenial API_VALIDATION))
              | Some parsed \<Rightarrow>
                  (case fenceWriteByChain RELAYER (bc_chainId cfg) None None of
                     Inl e \<Rightarrow> Inl (Guard e)
                   | Inr _ \<Rightarrow>
                       (let tx = ta_build adapter parsed (bc_chainId cfg) (pub_target policy);
                            amount = int (parse_nat (mt_amount parsed))
                        in if tx_target tx \<notin> set (pub_allowedTargets policy)
                           then Inl (Denial (PolicyDenial POLICY_TARGET_DENIED))
                           else if pub_maxValueHardCap policy < tx_value tx
                           then Inl (Denial (PolicyDenial POLICY_VALUE_EXCEEDS_CAP))
                           else Inr (policy, tx, amount))))))"

definition intent_hash :: "viem \<Rightarrow> string \<Rightarrow> candidate_transaction \<Rightarrow> hex" where
  "intent_hash v actionKind tx =
    keccak_text v (actionKind @ '':'' @ stringify_strings (tx_semanticSummary tx))"

definition new_row :: "string \<Rightarrow> create_request_input \<Rightarrow> public_policy \<Rightarrow> candidate_transaction \<Rightarrow> int \<Rightarrow> hex \<Rightarrow> request_row" where
  "new_row requestId input policy tx amount intentHash =
    \<lparr>rr_id = requestId, rr_idempotency_key = ci_idempotencyKey input,
     rr_agent_ens_name = ci_agentEnsName input, rr_agent_address = [], rr_agent_identity_hash = None,
     rr_policy_hash = pub_policyHash policy, rr_action_kind = ci_actionKind input,
     rr_intent_hash = intentHash, rr_target = tx_target tx, rr_value = show_int (tx_value tx),
     rr_calldata = tx_calldata tx, rr_calldata_hash = tx_calldataHash tx, rr_amount = show_int amount,
     rr_status = PENDING, rr_reason_code = None, rr_identity_source = None\<rparr>"

definition received_detail :: "create_request_input \<Rightarrow> candidate_transaction \<Rightarrow> json" where
  "received_detail input tx =
    JObj [(''agentEnsName'', JStr (ci_agentEnsName input)), (''actionKind'', JStr (ci_actionKind input)),
          (''summary'', str_obj (tx_semanticSummary tx))]"

definition begin_request ::
  "viem \<Rightarrow> broker_config \<Rightarrow> string \<Rightarrow> create_request_input \<Rightarrow> broker_state \<Rightarrow> broker_state \<times> outcome" where
  "begin_request v cfg uuid input s =
    (case select_by_key (bs_db s) (ci_idempotencyKey input) of
       Some existing \<Rightarrow>
         (let d = audit (bs_db s) (Some (rr_id existing)) IDEMPOTENT_REPLAY
                    (str_obj [(''idempotencyKey'', ci_idempotencyKey input)])
          in (s\<lparr>bs_db := d\<rparr>,
              case getRequest d (rr_id existing) of None \<Rightarrow> Threw OtherError | Some r \<Rightarrow> Returned r))
     | None \<Rightarrow>
         (case prepare_request v cfg input of
            Inl e \<Rightarrow> (s, Threw e)
          | Inr (policy, tx, amount) \<Rightarrow>
              (let intentHash = intent_hash v (ci_actionKind input) tx
               in case insert_request (bs_db s) (new_row uuid input policy tx amount intentHash) of
                    None \<Rightarrow> (s, Threw SqliteConstraint)
                  | Some d \<Rightarrow>
                      (s\<lparr>bs_db := audit d (Some uuid) REQUEST_RECEIVED (received_detail input tx)\<rparr>,
                       Awaits (Resolving
                         \<lparr>pr_requestId = uuid, pr_input = input, pr_policy = policy, pr_tx = tx,
                          pr_amount = amount, pr_intentHash = intentHash\<rparr>)))))"

section \<open>The identity has been resolved, or not\<close>

definition identity_failure_code :: "thrown \<Rightarrow> ctx_reason" where
  "identity_failure_code e = (case e of Operational oe \<Rightarrow> oe_code oe | _ \<Rightarrow> IDENTITY_NOT_FOUND)"

definition identity_settled ::
  "pending_request \<Rightarrow> thrown + agent_identity \<Rightarrow> broker_state \<Rightarrow> broker_state \<times> outcome" where
  "identity_settled p answer s =
    (case answer of
       Inl e \<Rightarrow>
         (let code = ctx_code (identity_failure_code e);
              d = audit (bs_db s) (Some (pr_requestId p)) ENS_IDENTITY_FAILED (str_obj [(''code'', code)])
          in (s\<lparr>bs_db := setStatus d (pr_requestId p) FAILED code\<rparr>, Threw e))
     | Inr identity \<Rightarrow>
         (let d1 = audit (bs_db s) (Some (pr_requestId p)) ENS_IDENTITY_VALIDATED
                (str_obj [(''ensName'', ai_ensName identity), (''node'', ai_node identity),
                          (''agent'', ai_agent identity),
                          (''bindingVersion'', show_int (ai_bindingVersion identity)),
                          (''source'', ai_source identity)]);
              d2 = set_identity d1 (pr_requestId p) identity;
              d3 = audit d2 (Some (pr_requestId p)) EVALUATION_REQUESTED
                (str_obj [(''amount'', show_int (pr_amount p))])
          in (s\<lparr>bs_db := d3\<rparr>, Awaits (Evaluating p identity))))"

section \<open>The evaluator has answered, or not\<close>

definition ZERO_HASH :: hex where
  "ZERO_HASH = ''0x0000000000000000000000000000000000000000000000000000000000000000''"

text \<open>The call as a capability with the authorization fields and times blank.\<close>

definition blank_capability :: "broker_config \<Rightarrow> pending_request \<Rightarrow> agent_identity \<Rightarrow> capability" where
  "blank_capability cfg p identity =
    \<lparr>cap_version = 1, cap_agentIdentityHash = ai_agentIdentityHash identity, cap_agent = ai_agent identity,
     cap_chainId = bc_chainId cfg, cap_executor = bc_executor cfg, cap_target = tx_target (pr_tx p),
     cap_value = tx_value (pr_tx p), cap_calldataHash = tx_calldataHash (pr_tx p),
     cap_intentHash = pr_intentHash p, cap_policyHash = pub_policyHash (pr_policy p),
     cap_authorizationId = ZERO_HASH, cap_contextCommitment = ZERO_HASH,
     cap_issuedAt = 0, cap_expiresAt = 0, cap_nonce = 0\<rparr>"

definition evaluation_request_of ::
  "viem \<Rightarrow> broker_config \<Rightarrow> pending_request \<Rightarrow> agent_identity \<Rightarrow> evaluation_input" where
  "evaluation_request_of v cfg p identity =
    \<lparr>ei_requestId = pr_requestId p, ei_requestHash = requestHash v (blank_capability cfg p identity),
     ei_calldata = tx_calldata (pr_tx p), ei_identity = identity,
     ei_policyHash = pub_policyHash (pr_policy p), ei_target = tx_target (pr_tx p),
     ei_value = tx_value (pr_tx p), ei_calldataHash = tx_calldataHash (pr_tx p),
     ei_intentHash = pr_intentHash p, ei_actionKind = ci_actionKind (pr_input p),
     ei_amount = pr_amount p\<rparr>"

definition auth_row_of :: "string \<Rightarrow> evaluation_result \<Rightarrow> auth_row" where
  "auth_row_of requestId e =
    \<lparr>ar_authorization_id = ev_authorizationId e, ar_request_id = requestId,
     ar_request_hash = ev_requestHash e, ar_verdict = ev_verdict e, ar_reason_code = ev_reasonCode e,
     ar_context_commitment = ev_contextCommitment e, ar_evaluated_at = ev_evaluatedAt e,
     ar_approved_until = ev_approvedUntil e, ar_source = ev_source e\<rparr>"

definition nextNonce :: "int \<Rightarrow> broker_state \<Rightarrow> int \<times> broker_state" where
  "nextNonce nowMs s =
    (let n = bs_nonceCounter s + 1 in (nowMs * 1000 + n, s\<lparr>bs_nonceCounter := n\<rparr>))"

definition minted_capability ::
  "broker_config \<Rightarrow> pending_request \<Rightarrow> agent_identity \<Rightarrow> evaluation_result \<Rightarrow> int \<Rightarrow> int \<Rightarrow> capability" where
  "minted_capability cfg p identity e issuedAt nonce =
    (blank_capability cfg p identity)
      \<lparr>cap_authorizationId := ev_authorizationId e, cap_contextCommitment := ev_contextCommitment e,
       cap_issuedAt := issuedAt, cap_expiresAt := issuedAt + bc_capabilityTtlSeconds cfg, cap_nonce := nonce\<rparr>"

text \<open>A DENY or ESCALATE verdict: the audit event, the status, the stored record.\<close>

definition settle_without_authority ::
  "string \<Rightarrow> audit_type \<Rightarrow> row_status \<Rightarrow> string \<Rightarrow> broker_state \<Rightarrow> broker_state \<times> outcome" where
  "settle_without_authority requestId event status reasonCode s =
    (let d = setStatus (audit (bs_db s) (Some requestId) event (str_obj [(''reasonCode'', reasonCode)]))
               requestId status reasonCode
     in (s\<lparr>bs_db := d\<rparr>, case getRequest d requestId of None \<Rightarrow> Threw OtherError | Some r \<Rightarrow> Returned r))"

definition evaluation_settled ::
  "broker_config \<Rightarrow> int \<Rightarrow> int \<Rightarrow> pending_request \<Rightarrow> agent_identity \<Rightarrow> thrown + evaluation_result
    \<Rightarrow> broker_state \<Rightarrow> broker_state \<times> outcome" where
  "evaluation_settled cfg nowMs nonceMs p identity answer s =
    (case answer of
       Inl e \<Rightarrow> (s, Threw e)
     | Inr evaluation \<Rightarrow>
         (case insert_auth (bs_db s) (auth_row_of (pr_requestId p) evaluation) of
            None \<Rightarrow> (s, Threw SqliteConstraint)
          | Some d \<Rightarrow>
              (let s1 = s\<lparr>bs_db := audit d (Some (pr_requestId p)) AUTHORIZATION_OBSERVED
                     (str_obj [(''authorizationId'', ev_authorizationId evaluation),
                               (''verdict'', verdict_text (ev_verdict evaluation)),
                               (''source'', ev_source evaluation)])\<rparr>
               in case ev_verdict evaluation of
                    DENY \<Rightarrow> settle_without_authority (pr_requestId p) AUDIT_DENIED DENIED (ev_reasonCode evaluation) s1
                  | ESCALATE \<Rightarrow> settle_without_authority (pr_requestId p) ESCALATION_CREATED ESCALATED (ev_reasonCode evaluation) s1
                  | ALLOW \<Rightarrow>
                      (let issuedAt = nowMs div 1000;
                           (nonce, s2) = nextNonce nonceMs s1
                       in (s2, Awaits (Signing p identity evaluation
                                 (minted_capability cfg p identity evaluation issuedAt nonce)))))))"

section \<open>The capability has been signed, or not\<close>

definition cap_row_of :: "viem \<Rightarrow> string \<Rightarrow> capability \<Rightarrow> cap_row" where
  "cap_row_of v requestId cap =
    \<lparr>cr_digest = capabilityDigest v cap, cr_request_id = requestId, cr_nonce = show_int (cap_nonce cap),
     cr_issued_at = cap_issuedAt cap, cr_expires_at = cap_expiresAt cap, cr_status = ''MINTED''\<rparr>"

definition minted_record ::
  "viem \<Rightarrow> pending_request \<Rightarrow> agent_identity \<Rightarrow> evaluation_result \<Rightarrow> capability \<Rightarrow> hex \<Rightarrow> request_record" where
  "minted_record v p identity e cap signature =
    \<lparr>rq_requestId = pr_requestId p, rq_status = ALLOWED, rq_reasonCode = ev_reasonCode e,
     rq_capability = Some cap, rq_signature = Some signature, rq_calldata = Some (tx_calldata (pr_tx p)),
     rq_actionKindHash = Some (tx_actionKindHash (pr_tx p)),
     rq_capabilityDigest = Some (capabilityDigest v cap),
     rq_authorizationId = Some (ev_authorizationId e),
     rq_approvedUntil = Some (show_int (ev_approvedUntil e)),
     rq_identitySource = Some (ai_source identity), rq_evaluationSource = Some (ev_source e)\<rparr>"

definition signature_settled ::
  "viem \<Rightarrow> pending_request \<Rightarrow> agent_identity \<Rightarrow> evaluation_result \<Rightarrow> capability \<Rightarrow> thrown + hex
    \<Rightarrow> broker_state \<Rightarrow> broker_state \<times> outcome" where
  "signature_settled v p identity evaluation cap answer s =
    (case answer of
       Inl e \<Rightarrow> (s, Threw e)
     | Inr signature \<Rightarrow>
         (case insert_cap (bs_db s) (cap_row_of v (pr_requestId p) cap) of
            None \<Rightarrow> (s, Threw SqliteConstraint)
          | Some d \<Rightarrow>
              (let d1 = audit d (Some (pr_requestId p)) CAPABILITY_MINTED
                     (str_obj [(''digest'', capabilityDigest v cap), (''nonce'', show_int (cap_nonce cap)),
                               (''expiresAt'', show_int (cap_expiresAt cap)),
                               (''onChainRequestHash'', requestHash v cap)]);
                   d2 = setStatus d1 (pr_requestId p) ALLOWED (ev_reasonCode evaluation)
               in (s\<lparr>bs_db := d2\<rparr>, Returned (minted_record v p identity evaluation cap signature)))))"

section \<open>The whole method\<close>

text \<open>
  The effects of one call: the random id, the two clock reads of the mint, and the answers of the
  providers and the signer.
\<close>

record broker_env =
  be_uuid :: string
  be_nowMs :: int
  be_nonceMs :: int
  be_resolve :: "string \<Rightarrow> thrown + agent_identity"
  be_evaluate :: "evaluation_input \<Rightarrow> thrown + evaluation_result"
  be_sign :: "eip_domain \<Rightarrow> capability \<Rightarrow> thrown + hex"

definition resume :: "viem \<Rightarrow> broker_config \<Rightarrow> broker_env \<Rightarrow> task \<Rightarrow> broker_state \<Rightarrow> broker_state \<times> outcome" where
  "resume v cfg env t s =
    (case t of
       Resolving p \<Rightarrow> identity_settled p (be_resolve env (ci_agentEnsName (pr_input p))) s
     | Evaluating p identity \<Rightarrow>
         evaluation_settled cfg (be_nowMs env) (be_nonceMs env) p identity
           (be_evaluate env (evaluation_request_of v cfg p identity)) s
     | Signing p identity evaluation cap \<Rightarrow>
         signature_settled v p identity evaluation cap
           (be_sign env (domain (cap_chainId cap) (cap_executor cap)) cap) s)"

definition and_then :: "broker_state \<times> outcome \<Rightarrow> (task \<Rightarrow> broker_state \<Rightarrow> broker_state \<times> outcome) \<Rightarrow> broker_state \<times> outcome" where
  "and_then r f = (case r of (s, Awaits t) \<Rightarrow> f t s | _ \<Rightarrow> r)"

definition createRequest ::
  "viem \<Rightarrow> broker_config \<Rightarrow> broker_env \<Rightarrow> create_request_input \<Rightarrow> broker_state \<Rightarrow> broker_state \<times> outcome" where
  "createRequest v cfg env input s =
    and_then (and_then (and_then (begin_request v cfg (be_uuid env) input s)
      (resume v cfg env)) (resume v cfg env)) (resume v cfg env)"

end
