(* ===== verification/Broker_Steps.thy ===== *)
theory Broker_Steps
  imports Broker "HOL-Library.Multiset"
begin

text \<open>
  Interleaved runs of the broker. \<open>createRequest\<close> yields to the event loop at each \<open>await\<close>, so
  requests interleave at segment boundaries: a state is the broker's state and the tasks in flight,
  and a step starts a request or resumes one task with some answer. The invariant is stated per
  request id on the rows that carry it, so that a segment is checked on its own id and leaves every
  other id alone.
\<close>

section \<open>Steps and runs\<close>

type_synonym broker_run = "broker_state \<times> task list"

datatype broker_event = Begin string create_request_input | Resume task broker_env

fun add_task :: "outcome \<Rightarrow> task list \<Rightarrow> task list" where
  "add_task (Awaits t) ts = t # ts"
| "add_task _ ts = ts"

inductive bstep :: "viem \<Rightarrow> broker_config \<Rightarrow> broker_run \<Rightarrow> broker_event \<Rightarrow> broker_run \<Rightarrow> bool"
  for v cfg where
  start: "begin_request v cfg uuid input s = (s', r) \<Longrightarrow> bstep v cfg (s, ts) (Begin uuid input) (s', add_task r ts)"
| continue: "t \<in> set ts \<Longrightarrow> resume v cfg env t s = (s', r) \<Longrightarrow>
    bstep v cfg (s, ts) (Resume t env) (s', add_task r (remove1 t ts))"

inductive_cases bstepE: "bstep v cfg (s, ts) e (s', ts')"

inductive bruns :: "viem \<Rightarrow> broker_config \<Rightarrow> broker_run \<Rightarrow> broker_event list \<Rightarrow> broker_run \<Rightarrow> bool"
  for v cfg c0 where
  nil: "bruns v cfg c0 [] c0"
| snoc: "bruns v cfg c0 es c \<Longrightarrow> bstep v cfg c e c' \<Longrightarrow> bruns v cfg c0 (es @ [e]) c'"

definition initial_run :: broker_run where
  "initial_run = (\<lparr>bs_db = empty_db, bs_nonceCounter = 0\<rparr>, [])"

section \<open>The rows of one request\<close>

type_synonym view = "request_row list \<times> auth_row list \<times> cap_row list"

definition view :: "db \<Rightarrow> string \<Rightarrow> view" where
  "view d i = (filter (\<lambda>r. rr_id r = i) (db_requests d), filter (\<lambda>a. ar_request_id a = i) (db_auths d),
     filter (\<lambda>c. cr_request_id c = i) (db_caps d))"

text \<open>Which authorizations and capabilities a request may have in each status.\<close>

fun row_ok :: "row_status \<Rightarrow> auth_row list \<Rightarrow> cap_row list \<Rightarrow> bool" where
  "row_ok PENDING as cs \<longleftrightarrow> cs = [] \<and> length as \<le> 1"
| "row_ok ALLOWED as cs \<longleftrightarrow> length cs = 1 \<and> map ar_verdict as = [ALLOW]"
| "row_ok ESCALATED as cs \<longleftrightarrow> cs = [] \<and> map ar_verdict as = [ESCALATE]"
| "row_ok DENIED as cs \<longleftrightarrow> cs = [] \<and> map ar_verdict as = [DENY]"
| "row_ok FAILED as cs \<longleftrightarrow> cs = [] \<and> as = []"

fun view_ok :: "view \<Rightarrow> bool" where
  "view_ok ([], as, cs) \<longleftrightarrow> as = [] \<and> cs = []"
| "view_ok ([r], as, cs) \<longleftrightarrow> row_ok (rr_status r) as cs"
| "view_ok _ \<longleftrightarrow> False"

definition task_id :: "task \<Rightarrow> string" where
  "task_id t = pr_requestId (task_pending t)"

text \<open>A task in flight owns a pending row; a signing task has its ALLOW authorization recorded.\<close>

fun task_ok :: "task \<Rightarrow> view \<Rightarrow> bool" where
  "task_ok t ([r], as, cs) \<longleftrightarrow> rr_status r = PENDING \<and> cs = [] \<and>
     (case t of Signing p i e c \<Rightarrow> map ar_verdict as = [ALLOW] | _ \<Rightarrow> as = [])"
| "task_ok t _ \<longleftrightarrow> False"

definition broker_inv :: "broker_run \<Rightarrow> bool" where
  "broker_inv = (\<lambda>(s, ts). db_wf (bs_db s) \<and> (\<forall>j. view_ok (view (bs_db s) j)) \<and>
     distinct (map task_id ts) \<and> (\<forall>t \<in> set ts. task_ok t (view (bs_db s) (task_id t))))"

lemma task_id_simps [simp]:
  "task_id (Resolving p) = pr_requestId p" "task_id (Evaluating p i) = pr_requestId p"
  "task_id (Signing p i e c) = pr_requestId p"
  by (simp_all add: task_id_def)

lemma task_okE:
  assumes "task_ok t w"
  obtains r as where "w = ([r], as, [])" "rr_status r = PENDING"
    "case t of Signing p i e c \<Rightarrow> map ar_verdict as = [ALLOW] | _ \<Rightarrow> as = []"
  using assms by (cases "(t, w)" rule: task_ok.cases) auto

lemma view_okE:
  assumes "view_ok w"
  obtains "w = ([], [], [])" | r as cs where "w = ([r], as, cs)" "row_ok (rr_status r) as cs"
  using assms by (cases w rule: view_ok.cases) auto

section \<open>What each statement does to the rows of a request\<close>

lemma view_audit [simp]: "view (audit d i t j) k = view d k"
  by (simp add: view_def)

lemma filter_update:
  assumes "\<And>r. rr_id (f r) = rr_id r"
  shows "filter (\<lambda>r. rr_id r = j) (map (\<lambda>r. if rr_id r = i then f r else r) rs) =
    (if j = i then map f (filter (\<lambda>r. rr_id r = j) rs) else filter (\<lambda>r. rr_id r = j) rs)"
  using assms by (induction rs) auto

lemma view_setStatus:
  "view (setStatus d i st c) j =
    (if j = i then (map (\<lambda>r. r\<lparr>rr_status := st, rr_reason_code := Some c\<rparr>) (fst (view d j)), snd (view d j))
     else view d j)"
  by (simp add: view_def setStatus_def filter_update)

lemma view_set_identity:
  "view (set_identity d i a) j =
    (if j = i then (map (\<lambda>r. r\<lparr>rr_agent_address := ai_agent a, rr_agent_identity_hash := Some (ai_agentIdentityHash a),
       rr_identity_source := Some (ai_source a)\<rparr>) (fst (view d j)), snd (view d j))
     else view d j)"
  by (simp add: view_def set_identity_def filter_update)

lemma view_insert_request:
  assumes "insert_request d r = Some d'"
  shows "view d' j = (if j = rr_id r then ([r], snd (view d j)) else view d j)" and "fst (view d (rr_id r)) = []"
  using assms by (auto simp: view_def insert_request_def filter_empty_conv image_iff split: if_splits) metis+

lemma view_insert_auth:
  "insert_auth d a = Some d' \<Longrightarrow> view d' j =
    (if j = ar_request_id a then (fst (view d j), fst (snd (view d j)) @ [a], snd (snd (view d j))) else view d j)"
  by (auto simp: view_def insert_auth_def split: if_splits)

lemma view_insert_cap:
  "insert_cap d c = Some d' \<Longrightarrow> view d' j =
    (if j = cr_request_id c then (fst (view d j), fst (snd (view d j)), snd (snd (view d j)) @ [c]) else view d j)"
  by (auto simp: view_def insert_cap_def split: if_splits)

lemmas view_updates = view_setStatus view_set_identity

lemma auth_row_of_simps [simp]:
  "ar_request_id (auth_row_of i e) = i" "ar_verdict (auth_row_of i e) = ev_verdict e"
  by (simp_all add: auth_row_of_def)

lemma cap_row_of_simps [simp]: "cr_request_id (cap_row_of v i c) = i"
  by (simp add: cap_row_of_def)

section \<open>Segments\<close>

text \<open>What a segment for the request \<open>i\<close> promises: the other ids are untouched.\<close>

definition segment_ok :: "string \<Rightarrow> db \<Rightarrow> broker_state \<times> outcome \<Rightarrow> bool" where
  "segment_ok i d res \<longleftrightarrow> (let d' = bs_db (fst res) in
     db_wf d' \<and> (\<forall>j. j \<noteq> i \<longrightarrow> view d' j = view d j) \<and> view_ok (view d' i) \<and>
     (\<forall>t. snd res = Awaits t \<longrightarrow> task_id t = i \<and> task_ok t (view d' i)))"

lemma identity_segment:
  assumes "db_wf (bs_db s)" "task_ok (Resolving p) (view (bs_db s) (pr_requestId p))"
  shows "segment_ok (pr_requestId p) (bs_db s) (identity_settled p answer s)"
  using assms
  by (auto simp: identity_settled_def segment_ok_def Let_def view_updates updates_wf
      split: sum.splits elim!: task_okE)

lemma settle_segment:
  assumes "db_wf (bs_db s)" and "view (bs_db s) i = ([r], as, [])" and "row_ok st as []" "st \<noteq> PENDING"
  shows "segment_ok i (bs_db s) (settle_without_authority i ev st c s)"
  using assms
  by (auto simp: settle_without_authority_def segment_ok_def Let_def view_updates updates_wf
      split: option.splits)

lemma segment_ok_mono:
  assumes "segment_ok i d1 res" and "\<And>j. j \<noteq> i \<Longrightarrow> view d1 j = view d j"
  shows "segment_ok i d res"
  using assms by (simp add: segment_ok_def Let_def)

lemma evaluation_segment:
  assumes wf: "db_wf (bs_db s)" and ok: "task_ok (Evaluating p ident) (view (bs_db s) (pr_requestId p))"
  shows "segment_ok (pr_requestId p) (bs_db s) (evaluation_settled cfg nowMs nonceMs p ident answer s)"
proof -
  let ?i = "pr_requestId p"
  from ok obtain r where w: "view (bs_db s) ?i = ([r], [], [])" and st: "rr_status r = PENDING"
    by (auto elim: task_okE)
  have idle: "segment_ok ?i (bs_db s) (s, Threw e)" for e
    using wf w st by (simp add: segment_ok_def)
  show ?thesis
  proof (cases answer)
    case (Inl e)
    with idle show ?thesis by (simp add: evaluation_settled_def)
  next
    case (Inr ev)
    show ?thesis
    proof (cases "insert_auth (bs_db s) (auth_row_of ?i ev)")
      case None
      with Inr idle show ?thesis by (simp add: evaluation_settled_def)
    next
      case (Some d)
      let ?s1 = "s\<lparr>bs_db := audit d (Some ?i) AUTHORIZATION_OBSERVED
         (str_obj [(''authorizationId'', ev_authorizationId ev), (''verdict'', verdict_text (ev_verdict ev)),
            (''source'', ev_source ev)])\<rparr>"
      have wf1: "db_wf (bs_db ?s1)"
        using insert_auth_wf [OF wf Some] by (simp add: audit_wf)
      have w1: "view (bs_db ?s1) ?i = ([r], [auth_row_of ?i ev], [])"
        and frame: "\<And>j. j \<noteq> ?i \<Longrightarrow> view (bs_db ?s1) j = view (bs_db s) j"
        using view_insert_auth [OF Some] w by simp_all
      have settle: "segment_ok ?i (bs_db s) (settle_without_authority ?i a st c ?s1)"
        if "row_ok st [auth_row_of ?i ev] []" "st \<noteq> PENDING" for a st c
        using settle_segment [OF wf1 w1 that] frame by (rule segment_ok_mono)
      show ?thesis
      proof (cases "ev_verdict ev")
        case ALLOW
        with Inr Some wf1 w1 frame st show ?thesis
          by (simp add: evaluation_settled_def segment_ok_def nextNonce_def Let_def)
      qed (use Inr Some settle in \<open>simp_all add: evaluation_settled_def Let_def\<close>)
    qed
  qed
qed

lemma signature_segment:
  assumes "db_wf (bs_db s)" "task_ok (Signing p ident ev cap) (view (bs_db s) (pr_requestId p))"
  shows "segment_ok (pr_requestId p) (bs_db s) (signature_settled v p ident ev cap answer s)"
proof (cases "\<exists>sg d. answer = Inr sg \<and> insert_cap (bs_db s) (cap_row_of v (pr_requestId p) cap) = Some d")
  case True
  then obtain sg d where sg: "answer = Inr sg"
    and d: "insert_cap (bs_db s) (cap_row_of v (pr_requestId p) cap) = Some d" by blast
  from insert_cap_wf [OF assms(1) d] view_insert_cap [OF d] assms(2) sg d show ?thesis
    by (auto simp: signature_settled_def segment_ok_def Let_def view_updates updates_wf elim!: task_okE)
next
  case False
  then have "\<exists>e. signature_settled v p ident ev cap answer s = (s, Threw e)"
    by (auto simp: signature_settled_def split: sum.splits option.splits)
  with assms show ?thesis
    by (auto simp: segment_ok_def elim!: task_okE)
qed

text \<open>Resuming a task is a segment for its own request.\<close>

lemma resume_segment:
  assumes "db_wf (bs_db s)" and "task_ok t (view (bs_db s) (task_id t))"
  shows "segment_ok (task_id t) (bs_db s) (resume v cfg env t s)"
  using assms by (cases t) (simp_all add: resume_def identity_segment evaluation_segment signature_segment)

text \<open>Starting a request: a replay or a refusal touches no row, otherwise a fresh pending row appears.\<close>

lemma begin_cases:
  assumes "begin_request v cfg uuid input s = (s', r)"
  obtains (replay) row where "select_by_key (bs_db s) (ci_idempotencyKey input) = Some row"
      "s' = s\<lparr>bs_db := audit (bs_db s) (Some (rr_id row)) IDEMPOTENT_REPLAY
          (str_obj [(''idempotencyKey'', ci_idempotencyKey input)])\<rparr>"
      "\<And>t. r \<noteq> Awaits t"
  | (refused) e where "select_by_key (bs_db s) (ci_idempotencyKey input) = None" "s' = s" "r = Threw e"
  | (started) policy tx amount d p where "select_by_key (bs_db s) (ci_idempotencyKey input) = None"
      "prepare_request v cfg input = Inr (policy, tx, amount)"
      "insert_request (bs_db s) (new_row uuid input policy tx amount (intent_hash v (ci_actionKind input) tx)) = Some d"
      "s' = s\<lparr>bs_db := audit d (Some uuid) REQUEST_RECEIVED (received_detail input tx)\<rparr>"
      "p = \<lparr>pr_requestId = uuid, pr_input = input, pr_policy = policy, pr_tx = tx,
          pr_amount = amount, pr_intentHash = intent_hash v (ci_actionKind input) tx\<rparr>"
      "r = Awaits (Resolving p)"
proof (cases "select_by_key (bs_db s) (ci_idempotencyKey input)")
  case (Some row)
  with assms have "\<And>t. r \<noteq> Awaits t"
    by (auto simp: begin_request_def Let_def split: option.splits)
  with Some assms show ?thesis
    by (intro replay [of row]) (auto simp: begin_request_def Let_def)
next
  case None
  show ?thesis
  proof (cases "prepare_request v cfg input")
    case (Inl e)
    with None assms show ?thesis by (intro refused [of e]) (auto simp: begin_request_def)
  next
    case (Inr x)
    obtain policy tx amount where x: "x = (policy, tx, amount)" by (cases x)
    show ?thesis
    proof (cases "insert_request (bs_db s) (new_row uuid input policy tx amount (intent_hash v (ci_actionKind input) tx))")
      case insert_none: None
      with None Inr x assms show ?thesis by (intro refused [of SqliteConstraint]) (auto simp: begin_request_def)
    next
      case (Some d)
      with None Inr x assms show ?thesis
        by (intro started [of policy tx amount d]) (auto simp: begin_request_def)
    qed
  qed
qed

lemma new_row_simps [simp]:
  "rr_id (new_row i input policy tx amount h) = i" "rr_status (new_row i input policy tx amount h) = PENDING"
  "rr_idempotency_key (new_row i input policy tx amount h) = ci_idempotencyKey input"
  by (simp_all add: new_row_def)

lemma begin_inv:
  assumes "begin_request v cfg uuid input s = (s', r)" and inv: "broker_inv (s, ts)"
  shows "broker_inv (s', add_task r ts)"
  using assms(1)
proof (cases rule: begin_cases)
  case (replay row)
  then have "add_task r ts = ts" by (cases r) auto
  with replay inv show ?thesis by (simp add: broker_inv_def audit_wf)
next
  case (refused e)
  with inv show ?thesis by simp
next
  case (started policy tx amount d p)
  have empty: "view (bs_db s) uuid = ([], [], [])"
  proof -
    have "view_ok (view (bs_db s) uuid)" using inv by (simp add: broker_inv_def)
    then show ?thesis
      using view_insert_request(2) [OF started(3)] by (auto elim: view_okE)
  qed
  have w: "view d j = (if j = uuid then ([new_row uuid input policy tx amount (intent_hash v (ci_actionKind input) tx)], [], [])
      else view (bs_db s) j)" for j
    using view_insert_request(1) [OF started(3), of j] empty by simp
  have "task_id t \<noteq> uuid" if "t \<in> set ts" for t
  proof
    assume "task_id t = uuid"
    moreover have "task_ok t (view (bs_db s) (task_id t))"
      using that inv by (simp add: broker_inv_def)
    ultimately show False by (simp add: empty)
  qed
  with started inv w insert_request_wf [OF _ started(3)] show ?thesis
    by (auto simp: broker_inv_def audit_wf)
qed

lemma remove1_key:
  assumes "distinct (map f xs)" "x \<in> set xs"
  shows "distinct (map f (remove1 x xs))" "f x \<notin> f ` set (remove1 x xs)" "set (remove1 x xs) \<subseteq> set xs"
  using assms by (induction xs) (auto dest: notin_set_remove1 simp: image_iff; metis)+

lemma resume_inv:
  assumes inv: "broker_inv (s, ts)" and t: "t \<in> set ts" and step: "resume v cfg env t s = (s', r)"
  shows "broker_inv (s', add_task r (remove1 t ts))"
proof -
  from inv t have "segment_ok (task_id t) (bs_db s) (resume v cfg env t s)"
    by (intro resume_segment) (auto simp: broker_inv_def)
  then have wf: "db_wf (bs_db s')" and frame: "\<And>j. j \<noteq> task_id t \<Longrightarrow> view (bs_db s') j = view (bs_db s) j"
    and here: "view_ok (view (bs_db s') (task_id t))"
    and new: "\<And>u. r = Awaits u \<Longrightarrow> task_id u = task_id t \<and> task_ok u (view (bs_db s') (task_id t))"
    by (auto simp: step segment_ok_def Let_def)
  have dist: "distinct (map task_id ts)" using inv by (simp add: broker_inv_def)
  note rest = remove1_key [OF dist t]
  have others: "task_ok u (view (bs_db s') (task_id u))" if "u \<in> set (remove1 t ts)" for u
  proof -
    have "task_id u \<noteq> task_id t" using rest(2) that by (metis imageI)
    moreover have "task_ok u (view (bs_db s) (task_id u))"
      using rest(3) that inv by (auto simp: broker_inv_def)
    ultimately show ?thesis by (simp add: frame)
  qed
  have views: "view_ok (view (bs_db s') j)" for j
    using here frame [of j] inv by (cases "j = task_id t") (auto simp: broker_inv_def)
  show ?thesis
    using wf views others rest(1,2) new by (cases r) (auto simp: broker_inv_def)
qed

lemma bstep_inv: "bstep v cfg c e c' \<Longrightarrow> broker_inv c \<Longrightarrow> broker_inv c'"
  by (induction rule: bstep.induct) (auto intro: begin_inv resume_inv)

lemma view_empty_db [simp]: "view empty_db j = ([], [], [])"
  by (simp add: view_def empty_db_def)

lemma broker_inv_initial: "broker_inv initial_run"
  by (simp add: broker_inv_def initial_run_def empty_db_wf)

lemma bruns_inv: "bruns v cfg initial_run es c \<Longrightarrow> broker_inv c"
  by (induction rule: bruns.induct) (auto intro: bstep_inv broker_inv_initial)

section \<open>Rows that no task owns never change\<close>

definition unowned :: "broker_run \<Rightarrow> request_row \<Rightarrow> bool" where
  "unowned c r \<longleftrightarrow> r \<in> set (db_requests (bs_db (fst c))) \<and> rr_id r \<notin> task_id ` set (snd c)"

lemma view_mem:
  "r \<in> set (db_requests d) \<longleftrightarrow> r \<in> set (fst (view d (rr_id r)))"
  "a \<in> set (db_auths d) \<longleftrightarrow> a \<in> set (fst (snd (view d (ar_request_id a))))"
  "c \<in> set (db_caps d) \<longleftrightarrow> c \<in> set (snd (snd (view d (cr_request_id c))))"
  by (simp_all add: view_def)

lemma unowned_begin:
  assumes "begin_request v cfg uuid input s = (s', res)" and "unowned (s, ts) r"
  shows "unowned (s', add_task res ts) r"
  using assms(1)
proof (cases rule: begin_cases)
  case (replay row)
  then have "add_task res ts = ts" by (cases res) auto
  with replay assms(2) show ?thesis by (simp add: unowned_def)
next
  case (refused e)
  with assms(2) show ?thesis by simp
next
  case (started policy tx amount d p)
  then have "rr_id r \<noteq> uuid" and "r \<in> set (db_requests d)"
    using assms(2) by (auto simp: unowned_def insert_request_def split: if_splits)
  with started assms(2) show ?thesis by (simp add: unowned_def)
qed

lemma unowned_resume:
  assumes inv: "broker_inv (s, ts)" and t: "t \<in> set ts" and step: "resume v cfg env t s = (s', res)"
    and r: "unowned (s, ts) r"
  shows "unowned (s', add_task res (remove1 t ts)) r"
proof -
  from inv t have seg: "segment_ok (task_id t) (bs_db s) (resume v cfg env t s)"
    by (intro resume_segment) (auto simp: broker_inv_def)
  have ne: "rr_id r \<noteq> task_id t" using r t by (auto simp: unowned_def)
  with seg have same: "view (bs_db s') (rr_id r) = view (bs_db s) (rr_id r)"
    by (simp add: segment_ok_def Let_def step)
  have "set (add_task res (remove1 t ts)) \<subseteq> {u. task_id u = task_id t} \<union> set ts"
    using seg by (cases res) (auto simp: segment_ok_def Let_def step dest: notin_set_remove1)
  with r ne same show ?thesis
    by (auto simp: unowned_def view_mem(1))
qed

lemma bstep_unowned: "bstep v cfg c e c' \<Longrightarrow> broker_inv c \<Longrightarrow> unowned c r \<Longrightarrow> unowned c' r"
  by (induction rule: bstep.induct) (auto intro: unowned_begin unowned_resume)

lemma bruns_unowned:
  assumes "bruns v cfg c es c'" and "broker_inv c" and "unowned c r"
  shows "unowned c' r \<and> broker_inv c'"
  using assms by (induction rule: bruns.induct) (auto intro: bstep_unowned bstep_inv)

lemma settled_unowned:
  assumes "broker_inv (s, ts)" and "r \<in> set (db_requests (bs_db s))" and "rr_status r \<noteq> PENDING"
  shows "unowned (s, ts) r"
proof -
  have "task_id t \<noteq> rr_id r" if "t \<in> set ts" for t
  proof
    assume eq: "task_id t = rr_id r"
    have "task_ok t (view (bs_db s) (rr_id r))"
      using assms(1) that eq by (auto simp: broker_inv_def)
    then show False
      using assms(2,3) by (auto simp: view_mem(1) elim: task_okE)
  qed
  with assms(2) show ?thesis by (force simp: unowned_def)
qed

section \<open>The audit log only grows\<close>

definition extends_log :: "db \<Rightarrow> db \<Rightarrow> bool" where
  "extends_log d d' \<longleftrightarrow> (\<exists>xs. db_audit d' = db_audit d @ xs)"

lemma extends_log_refl [simp]: "extends_log d d"
  by (simp add: extends_log_def)

lemma extends_log_trans: "extends_log d d' \<Longrightarrow> extends_log d' d'' \<Longrightarrow> extends_log d d''"
  by (auto simp: extends_log_def)

lemma insert_log:
  "insert_request d r = Some d' \<Longrightarrow> db_audit d' = db_audit d"
  "insert_auth d a = Some d' \<Longrightarrow> db_audit d' = db_audit d"
  "insert_cap d c = Some d' \<Longrightarrow> db_audit d' = db_audit d"
  by (auto simp: insert_request_def insert_auth_def insert_cap_def split: if_splits)

lemma resume_log: "resume v cfg env t s = (s', r) \<Longrightarrow> extends_log (bs_db s) (bs_db s')"
  by (cases t) (auto simp: resume_def identity_settled_def evaluation_settled_def signature_settled_def
      settle_without_authority_def nextNonce_def Let_def extends_log_def dest: insert_log
      split: sum.splits option.splits verdict.splits)

lemma begin_log: "begin_request v cfg uuid input s = (s', r) \<Longrightarrow> extends_log (bs_db s) (bs_db s')"
  by (cases rule: begin_cases, assumption) (auto simp: extends_log_def dest: insert_log)

lemma bstep_log: "bstep v cfg c e c' \<Longrightarrow> extends_log (bs_db (fst c)) (bs_db (fst c'))"
  by (induction rule: bstep.induct) (auto intro: begin_log resume_log)

lemma bruns_log: "bruns v cfg c es c' \<Longrightarrow> extends_log (bs_db (fst c)) (bs_db (fst c'))"
  by (induction rule: bruns.induct) (auto intro: extends_log_trans bstep_log)

section \<open>Nonces\<close>

text \<open>The clock readings that went into nonces, and the nonces issued so far.\<close>

fun nonce_read :: "broker_event \<Rightarrow> int list" where
  "nonce_read (Resume (Evaluating p i) env) = [be_nonceMs env]"
| "nonce_read _ = []"

fun task_nonce :: "task \<Rightarrow> string list" where
  "task_nonce (Signing p i e c) = [show_int (cap_nonce c)]"
| "task_nonce _ = []"

definition nonces :: "broker_run \<Rightarrow> string multiset" where
  "nonces c = mset (concat (map task_nonce (snd c))) + mset (map cr_nonce (db_caps (bs_db (fst c))))"

text \<open>Every nonce issued is at most a clock reading that was taken, scaled, plus the counter.\<close>

definition nonces_below :: "int list \<Rightarrow> int \<Rightarrow> string multiset \<Rightarrow> bool" where
  "nonces_below reads counter N \<longleftrightarrow> (\<forall>x \<in># N. \<exists>m. x = show_int m \<and> (\<exists>t \<in> set reads. m \<le> t * 1000 + counter)) \<and>
     (\<forall>x. count N x \<le> 1)"

lemma nonces_below_subset: "nonces_below reads n N \<Longrightarrow> M \<subseteq># N \<Longrightarrow> nonces_below reads n M"
  unfolding nonces_below_def by (meson mset_subset_eqD order_trans subseteq_mset_def)

lemma nonces_below_fresh:
  assumes below: "nonces_below reads n N" and later: "\<forall>t \<in> set reads. t \<le> now"
  shows "nonces_below (reads @ [now]) (n + 1) (add_mset (show_int (now * 1000 + (n + 1))) N)"
proof -
  have "m \<le> now * 1000 + n" if "\<exists>t \<in> set reads. m \<le> t * 1000 + n" for m
    using that later by force
  then have new: "show_int (now * 1000 + (n + 1)) \<notin># N"
    using below by (force simp: nonces_below_def)
  have "m \<le> t * 1000 + (n + 1)" if "m \<le> t * 1000 + n" for m t :: int
    using that by simp
  with below new show ?thesis
    by (fastforce simp: nonces_below_def not_in_iff)
qed

lemma distinct_if_counts: "(\<And>x. count (mset xs) x \<le> 1) \<Longrightarrow> distinct xs"
proof (induction xs)
  case (Cons a xs)
  have "count (mset xs) x \<le> 1" for x
    using Cons.prems [of x] by (rule order_trans [rotated]) simp
  moreover have "a \<notin> set xs"
    using Cons.prems [of a] by (auto simp: count_eq_zero_iff)
  ultimately show ?case using Cons.IH by simp
qed simp

lemma nonces_remove:
  assumes "t \<in> set ts"
  shows "mset (concat (map task_nonce ts)) = mset (task_nonce t) + mset (concat (map task_nonce (remove1 t ts)))"
  using assms by (induction ts) (auto simp: ac_simps)

lemma insert_caps:
  "insert_request d r = Some d' \<Longrightarrow> db_caps d' = db_caps d"
  "insert_auth d a = Some d' \<Longrightarrow> db_caps d' = db_caps d"
  "insert_cap d c = Some d' \<Longrightarrow> db_caps d' = db_caps d @ [c]"
  by (auto simp: insert_request_def insert_auth_def insert_cap_def split: if_splits)

text \<open>A segment either issues one new nonce, or only moves or drops one.\<close>

lemma resume_nonces:
  assumes "t \<in> set ts" and "resume v cfg env t s = (s', r)"
  shows "(\<exists>p i. t = Evaluating p i \<and> bs_nonceCounter s' = bs_nonceCounter s + 1 \<and>
       nonces (s', add_task r (remove1 t ts)) =
         add_mset (show_int (be_nonceMs env * 1000 + (bs_nonceCounter s + 1))) (nonces (s, ts))) \<or>
    (bs_nonceCounter s' = bs_nonceCounter s \<and> nonces (s', add_task r (remove1 t ts)) \<subseteq># nonces (s, ts))"
proof (cases t)
  case (Resolving p)
  with assms show ?thesis
    by (auto simp: nonces_remove nonces_def resume_def identity_settled_def Let_def split: sum.splits)
next
  case (Evaluating p i)
  with assms show ?thesis
    by (auto simp: nonces_remove nonces_def resume_def evaluation_settled_def settle_without_authority_def
        minted_capability_def nextNonce_def Let_def insert_caps split: sum.splits option.splits verdict.splits)
next
  case (Signing p i e c)
  with assms show ?thesis
    by (auto simp: nonces_remove nonces_def resume_def signature_settled_def Let_def insert_caps cap_row_of_def
        split: sum.splits option.splits)
qed

lemma begin_nonces:
  assumes "begin_request v cfg uuid input s = (s', r)"
  shows "bs_nonceCounter s' = bs_nonceCounter s \<and> nonces (s', add_task r ts) = nonces (s, ts)"
  using assms
proof (cases rule: begin_cases)
  case (replay row)
  then have "add_task r ts = ts" by (cases r) auto
  with replay show ?thesis by (simp add: nonces_def)
qed (auto simp: nonces_def insert_caps)

lemma bruns_nonces:
  assumes "bruns v cfg initial_run es c" and "sorted (concat (map nonce_read es))"
  shows "nonces_below (concat (map nonce_read es)) (bs_nonceCounter (fst c)) (nonces c)"
  using assms
proof (induction rule: bruns.induct)
  case nil
  then show ?case by (simp add: nonces_below_def nonces_def initial_run_def empty_db_def)
next
  case (snoc es c e c')
  from snoc.prems have sorted: "sorted (concat (map nonce_read es))"
    and later: "\<forall>x \<in> set (nonce_read e). \<forall>t \<in> set (concat (map nonce_read es)). t \<le> x"
    by (auto simp: sorted_append)
  note IH = snoc.IH [OF sorted]
  have more: "nonces_below (reads @ more) n N" if "nonces_below reads n N" for reads more n N
    using that unfolding nonces_below_def by (metis Un_iff set_append)
  from snoc.hyps(2) show ?case
  proof cases
    case (start uuid input s s' r ts)
    with IH begin_nonces [OF start(4), of ts] show ?thesis by simp
  next
    case (continue t ts env s s' r)
    from resume_nonces [OF continue(4,5)] show ?thesis
    proof
      assume "\<exists>p i. t = Evaluating p i \<and> bs_nonceCounter s' = bs_nonceCounter s + 1 \<and>
         nonces (s', add_task r (remove1 t ts)) =
           add_mset (show_int (be_nonceMs env * 1000 + (bs_nonceCounter s + 1))) (nonces (s, ts))"
      with continue IH later nonces_below_fresh [of "concat (map nonce_read es)" "bs_nonceCounter s" "nonces (s, ts)" "be_nonceMs env"]
      show ?thesis by auto
    next
      assume "bs_nonceCounter s' = bs_nonceCounter s \<and> nonces (s', add_task r (remove1 t ts)) \<subseteq># nonces (s, ts)"
      with continue IH show ?thesis by (auto intro!: more elim: nonces_below_subset)
    qed
  qed
qed

end
