(* ===== verification/Broker_Props.thy ===== *)
theory Broker_Props
  imports Broker_Steps
begin

text \<open>
  What the broker guarantees: about one call of \<open>createRequest\<close>, and about every interleaving of
  calls. The last section interprets the write fence and uses the provider contracts.
\<close>

section \<open>One call\<close>

lemma and_then_Returned:
  "and_then r f = (s', Returned x) \<longleftrightarrow> r = (s', Returned x) \<or> (\<exists>s t. r = (s, Awaits t) \<and> f t s = (s', Returned x))"
  by (auto simp: and_then_def split: prod.splits outcome.splits)

lemma and_then_simps [simp]:
  "and_then (s, Awaits t) f = f t s" "and_then (s, Returned x) f = (s, Returned x)"
  "and_then (s, Threw e) f = (s, Threw e)"
  by (simp_all add: and_then_def)

lemma getRequest_audit [simp]: "getRequest (audit d i t j) = getRequest d"
  by (simp add: getRequest_def select_by_id_def select_auth_def Let_def fun_eq_iff split: option.split)

lemma getRequest_no_capability: "getRequest d i = Some r \<Longrightarrow> rq_capability r = None \<and> rq_requestId r = i"
  by (auto simp: getRequest_def select_by_id_def Let_def find_Some_iff split: option.splits)

lemma settle_no_capability:
  "settle_without_authority i ev st c s = (s', Returned r) \<Longrightarrow> rq_capability r = None"
  by (auto simp: settle_without_authority_def Let_def split: option.splits dest: getRequest_no_capability)

lemma begin_no_capability:
  assumes "begin_request v cfg uuid input s = (s', Returned r)"
  shows "rq_capability r = None"
proof (cases "select_by_key (bs_db s) (ci_idempotencyKey input)")
  case (Some row)
  with assms show ?thesis
    by (auto simp: begin_request_def Let_def split: option.splits dest: getRequest_no_capability)
next
  case None
  with assms show ?thesis
    by (cases "prepare_request v cfg input") (auto simp: begin_request_def Let_def split: option.splits)
qed

lemma settle_outcome:
  obtains s' r where "settle_without_authority i ev st c s = (s', Returned r)"
  | s' where "settle_without_authority i ev st c s = (s', Threw OtherError)"
  by (cases "getRequest (setStatus (audit (bs_db s) (Some i) ev (str_obj [(''reasonCode'', c)])) i st c) i")
    (auto simp: settle_without_authority_def Let_def)

lemma evaluation_outcome:
  assumes res: "evaluation_settled cfg nowMs nonceMs p ident answer s = (s', res)"
  obtains e where "res = Threw e"
  | r where "res = Returned r" "rq_capability r = None"
  | e n where "answer = Inr e" "ev_verdict e = ALLOW"
      "res = Awaits (Signing p ident e (minted_capability cfg p ident e (nowMs div 1000) n))"
      "auth_row_of (pr_requestId p) e \<in> set (db_auths (bs_db s'))"
proof (cases answer)
  case (Inl e)
  with res that(1) show thesis by (auto simp: evaluation_settled_def)
next
  case (Inr e)
  show thesis
  proof (cases "insert_auth (bs_db s) (auth_row_of (pr_requestId p) e)")
    case None
    with res Inr that(1) show thesis by (auto simp: evaluation_settled_def)
  next
    case (Some d)
    have settled: thesis if "settle_without_authority i ev st c s1 = (s', res)" for i ev st c s1
      by (rule settle_outcome [of i ev st c s1]) (use that \<open>\<And>e. res = Threw e \<Longrightarrow> thesis\<close>
          \<open>\<And>r. res = Returned r \<Longrightarrow> rq_capability r = None \<Longrightarrow> thesis\<close> settle_no_capability in auto)
    from Some have mem: "auth_row_of (pr_requestId p) e \<in> set (db_auths d)"
      by (auto simp: insert_auth_def split: if_splits)
    show thesis
    proof (cases "ev_verdict e")
      case ALLOW
      with res Inr Some mem that(3) show thesis
        by (auto simp: evaluation_settled_def nextNonce_def Let_def)
    qed (use res Inr Some settled in \<open>simp_all add: evaluation_settled_def Let_def\<close>)
  qed
qed

text \<open>A record with a capability comes from the last segment, after every earlier one succeeded.\<close>

lemma createRequest_minted:
  assumes "createRequest v cfg env input s = (s', Returned r)" and "rq_capability r = Some cap"
  obtains policy tx amount p identity e n sg s2 where
    "prepare_request v cfg input = Inr (policy, tx, amount)"
    "p = \<lparr>pr_requestId = be_uuid env, pr_input = input, pr_policy = policy, pr_tx = tx,
          pr_amount = amount, pr_intentHash = intent_hash v (ci_actionKind input) tx\<rparr>"
    "be_resolve env (ci_agentEnsName input) = Inr identity"
    "be_evaluate env (evaluation_request_of v cfg p identity) = Inr e" "ev_verdict e = ALLOW"
    "cap = minted_capability cfg p identity e (be_nowMs env div 1000) n"
    "be_sign env (domain (cap_chainId cap) (cap_executor cap)) cap = Inr sg"
    "signature_settled v p identity e cap (Inr sg) s2 = (s', Returned r)"
    "auth_row_of (be_uuid env) e \<in> set (db_auths (bs_db s2))"
proof -
  obtain s1 o1 where b: "begin_request v cfg (be_uuid env) input s = (s1, o1)"
    by (cases "begin_request v cfg (be_uuid env) input s")
  from b show thesis
  proof (cases rule: begin_cases)
    case (replay row)
    then have "o1 = Returned r"
      using assms(1) b by (cases o1) (auto simp: createRequest_def)
    with b assms(2) show thesis by (auto dest: begin_no_capability)
  next
    case (refused e)
    with assms b show thesis by (simp add: createRequest_def)
  next
    case (started policy tx amount d p)
    show thesis
    proof (cases "be_resolve env (ci_agentEnsName input)")
      case (Inl e)
      with assms b started show thesis
        by (simp add: createRequest_def resume_def identity_settled_def Let_def)
    next
      case (Inr identity)
      obtain s2 where s2: "identity_settled p (Inr identity) s1 = (s2, Awaits (Evaluating p identity))"
        by (simp add: identity_settled_def Let_def)
      define res where "res = evaluation_settled cfg (be_nowMs env) (be_nonceMs env) p identity
          (be_evaluate env (evaluation_request_of v cfg p identity)) s2"
      have all: "and_then res (resume v cfg env) = (s', Returned r)"
        using assms(1) b started Inr s2 by (simp add: createRequest_def resume_def res_def)
      obtain s3 e n where e: "be_evaluate env (evaluation_request_of v cfg p identity) = Inr e" "ev_verdict e = ALLOW"
        and res: "res = (s3, Awaits (Signing p identity e (minted_capability cfg p identity e (be_nowMs env div 1000) n)))"
        and auth: "auth_row_of (be_uuid env) e \<in> set (db_auths (bs_db s3))"
      proof -
        obtain s3 out where out: "res = (s3, out)" by (cases res)
        from out [unfolded res_def] show thesis
          by (cases rule: evaluation_outcome) (use out all assms(2) started(5) that in auto)
      qed
      define c where "c = minted_capability cfg p identity e (be_nowMs env div 1000) n"
      from all res obtain sg where sg: "be_sign env (domain (cap_chainId c) (cap_executor c)) c = Inr sg"
        and last: "signature_settled v p identity e c (Inr sg) s3 = (s', Returned r)"
        by (auto simp: resume_def c_def signature_settled_def split: sum.splits)
      have "c = cap"
        using last assms(2) by (auto simp: signature_settled_def minted_record_def Let_def split: option.splits)
      with that started(2,5) Inr e sg last auth c_def show thesis by metis
    qed
  qed
qed

section \<open>A concrete broker\<close>

definition sample_public_policy :: public_policy where
  "sample_public_policy =
    \<lparr>pub_policyId = ''treasury'', pub_policyHash = hex_fill 64 (CHR ''9''), pub_enabled = True,
     pub_allowedActionKinds = [''MOCK_TRANSFER''], pub_allowedTargets = [hex_fill 40 (CHR ''A'')],
     pub_maxValueHardCap = 0, pub_target = hex_fill 40 (CHR ''A'')\<rparr>"

definition sample_config :: broker_config where
  "sample_config =
    \<lparr>bc_chainId = 11155111, bc_executor = hex_fill 40 (CHR ''8''), bc_capabilityTtlSeconds = 120,
     bc_policies = [''treasury'' \<mapsto> sample_public_policy]\<rparr>"

definition sample_input :: create_request_input where
  "sample_input =
    \<lparr>ci_agentEnsName = ''agent.eth'', ci_actionKind = ''MOCK_TRANSFER'',
     ci_adapterParams = JObj [(''recipient'', JStr (hex_fill 40 (CHR ''b''))), (''amount'', JStr ''250'')],
     ci_policyId = ''treasury'', ci_idempotencyKey = ''key-0001''\<rparr>"

definition sample_evaluation :: "verdict \<Rightarrow> evaluation_input \<Rightarrow> evaluation_result" where
  "sample_evaluation vd i =
    \<lparr>ev_authorizationId = ''0xa0'', ev_requestHash = ei_requestHash i, ev_verdict = vd,
     ev_reasonCode = ''R'', ev_contextCommitment = ''0xc0'', ev_evaluatedAt = 1000,
     ev_approvedUntil = 1060, ev_source = ''test''\<rparr>"

definition sample_env :: broker_env where
  "sample_env =
    \<lparr>be_uuid = ''u1'', be_nowMs = 1000500, be_nonceMs = 1000501,
     be_resolve = (\<lambda>n. Inr (eval_identity\<lparr>ai_ensName := n\<rparr>)),
     be_evaluate = (\<lambda>i. Inr (sample_evaluation ALLOW i)), be_sign = (\<lambda>d c. Inr ''0x51'')\<rparr>"

definition sample_params :: mock_transfer_params where
  "sample_params = \<lparr>mt_recipient = hex_fill 40 (CHR ''b''), mt_amount = ''250''\<rparr>"

definition sample_tx :: candidate_transaction where
  "sample_tx = mockTransfer_build sample_viem sample_params 11155111 (hex_fill 40 (CHR ''A''))"

lemma sample_prepare:
  "prepare_request sample_viem sample_config sample_input = Inr (sample_public_policy, sample_tx, 250)"
proof -
  have params: "mockTransferParams sample_viem (ci_adapterParams sample_input) = Some sample_params"
  proof -
    have "isAddress sample_viem (hex_fill 40 (CHR ''b''))"
      by (simp add: sample_viem_def is_hex_of_fill)
    moreover have "toLowerCase (hex_fill 40 (CHR ''b'')) \<noteq> ZERO_ADDRESS" by code_simp
    moreover have "baseUnitsSchema ''250''"
      by (simp add: baseUnitsSchema_def all_digits_def char_class_defs parse_nat_def digit_value_def)
    ultimately show ?thesis
      by (simp add: sample_input_def sample_params_def mockTransferParams_def recipientSchema_def addressSchema_def)
        (simp add: sample_viem_def)
  qed
  have "getAdapter sample_viem ''MOCK_TRANSFER'' = Some (mockTransferAdapter sample_viem)"
    by (simp add: getAdapter_Some MOCK_TRANSFER_def)
  moreover have "fenceWriteByChain RELAYER 11155111 None None = Inr ()"
    by (simp add: fence_by_chain_passes)
  moreover have "parse_nat (mt_amount sample_params) = 250"
    by (simp add: sample_params_def parse_nat_def digit_value_def)
  ultimately show ?thesis
    using params
    by (simp add: prepare_request_def sample_config_def sample_public_policy_def sample_tx_def
        mockTransferAdapter_def) (simp add: sample_input_def sample_public_policy_def)
qed

definition sample_pending :: pending_request where
  "sample_pending = \<lparr>pr_requestId = ''u1'', pr_input = sample_input, pr_policy = sample_public_policy,
     pr_tx = sample_tx, pr_amount = 250, pr_intentHash = intent_hash sample_viem ''MOCK_TRANSFER'' sample_tx\<rparr>"

definition sample_row :: request_row where
  "sample_row = new_row ''u1'' sample_input sample_public_policy sample_tx 250
     (intent_hash sample_viem ''MOCK_TRANSFER'' sample_tx)"

definition sample_started :: broker_state where
  "sample_started = \<lparr>bs_db = audit (empty_db\<lparr>db_requests := [sample_row]\<rparr>) (Some ''u1'') REQUEST_RECEIVED
     (received_detail sample_input sample_tx), bs_nonceCounter = 0\<rparr>"

definition sample_evaluating :: task where
  "sample_evaluating = Evaluating sample_pending (eval_identity\<lparr>ai_ensName := ''agent.eth''\<rparr>)"

lemma sample_begin:
  "begin_request sample_viem sample_config ''u1'' sample_input (fst initial_run) =
     (sample_started, Awaits (Resolving sample_pending))"
proof -
  have kind: "ci_actionKind sample_input = ''MOCK_TRANSFER''" by (simp add: sample_input_def)
  show ?thesis
    by (simp add: begin_request_def sample_prepare initial_run_def select_by_key_def empty_db_def
        insert_request_def kind sample_pending_def sample_row_def sample_started_def Let_def)
qed

lemma sample_resolved:
  obtains d where "resume sample_viem sample_config sample_env (Resolving sample_pending) sample_started =
     (\<lparr>bs_db = d, bs_nonceCounter = 0\<rparr>, Awaits sample_evaluating)"
    "db_auths d = []" "db_caps d = []" "map rr_id (db_requests d) = [''u1'']"
proof -
  have name: "ci_agentEnsName (pr_input sample_pending) = ''agent.eth''"
    by (simp add: sample_pending_def sample_input_def)
  show thesis
    by (rule that, simp add: resume_def name identity_settled_def sample_env_def Let_def sample_started_def
          sample_evaluating_def, simp_all add: set_identity_def update_request_def
          sample_pending_def sample_row_def empty_db_def audit_def)
qed

lemma sample_evaluated:
  assumes "db_auths d = []" "map rr_id (db_requests d) = [''u1'']"
  obtains d2 i e cap where "resume sample_viem sample_config sample_env sample_evaluating \<lparr>bs_db = d, bs_nonceCounter = 0\<rparr> =
     (\<lparr>bs_db = d2, bs_nonceCounter = 1\<rparr>, Awaits (Signing sample_pending i e cap))"
    "db_caps d2 = db_caps d" "map rr_id (db_requests d2) = [''u1'']"
proof -
  have eval: "be_evaluate sample_env = (\<lambda>i. Inr (sample_evaluation ALLOW i))" and
    pid: "pr_requestId sample_pending = ''u1''"
    by (simp_all add: sample_env_def sample_pending_def)
  have vd: "ev_verdict (sample_evaluation ALLOW i) = ALLOW" for i by (simp add: sample_evaluation_def)
  have ids: "rr_id ` set (db_requests d) = {''u1''}"
    using arg_cong [OF assms(2), of set] by simp
  show thesis
    by (rule that, simp add: resume_def sample_evaluating_def evaluation_settled_def eval vd
        insert_auth_def assms(1) ids pid Let_def nextNonce_def, simp_all add: assms(2))
qed

lemma sample_signed:
  assumes "db_caps d = []" "map rr_id (db_requests d) = [''u1'']"
  obtains s' r where "resume sample_viem sample_config sample_env (Signing sample_pending i e cap) \<lparr>bs_db = d, bs_nonceCounter = n\<rparr> =
     (s', Returned r)" "rq_capability r = Some cap" "\<exists>row. row \<in> set (db_requests (bs_db s')) \<and> rr_status row = ALLOWED"
proof -
  have sign: "be_sign sample_env = (\<lambda>d c. Inr ''0x51'')" and pid: "pr_requestId sample_pending = ''u1''"
    by (simp_all add: sample_env_def sample_pending_def)
  from assms(2) obtain row where row: "db_requests d = [row]" "rr_id row = ''u1''" by auto
  show thesis
    by (rule that, simp add: resume_def signature_settled_def sign insert_cap_def assms(1) row pid Let_def,
        simp add: minted_record_def, simp add: setStatus_def update_request_def row)
qed

lemma sample_chain:
  obtains s2 s3 s4 i e cap r where
    "resume sample_viem sample_config sample_env (Resolving sample_pending) sample_started = (s2, Awaits sample_evaluating)"
    "resume sample_viem sample_config sample_env sample_evaluating s2 = (s3, Awaits (Signing sample_pending i e cap))"
    "resume sample_viem sample_config sample_env (Signing sample_pending i e cap) s3 = (s4, Returned r)"
    "rq_capability r = Some cap" "\<exists>row. row \<in> set (db_requests (bs_db s4)) \<and> rr_status row = ALLOWED"
proof -
  obtain d where 1: "resume sample_viem sample_config sample_env (Resolving sample_pending) sample_started =
     (\<lparr>bs_db = d, bs_nonceCounter = 0\<rparr>, Awaits sample_evaluating)"
    "db_auths d = []" "db_caps d = []" "map rr_id (db_requests d) = [''u1'']"
    by (rule sample_resolved)
  obtain d2 i e cap where 2: "resume sample_viem sample_config sample_env sample_evaluating \<lparr>bs_db = d, bs_nonceCounter = 0\<rparr> =
     (\<lparr>bs_db = d2, bs_nonceCounter = 1\<rparr>, Awaits (Signing sample_pending i e cap))"
    "db_caps d2 = db_caps d" "map rr_id (db_requests d2) = [''u1'']"
    by (rule sample_evaluated [OF 1(2,4)])
  have "db_caps d2 = []" using 2(2) 1(3) by simp
  from this 2(3) show thesis
    by (rule sample_signed [of d2 i e cap 1]) (rule that [OF 1(1) 2(1)])
qed

lemma sample_minted:
  obtains s' r cap where
    "createRequest sample_viem sample_config sample_env sample_input (fst initial_run) = (s', Returned r)"
    "rq_capability r = Some cap"
proof -
  have uuid: "be_uuid sample_env = ''u1''" by (simp add: sample_env_def)
  show thesis
    by (rule sample_chain, rule that, simp add: createRequest_def uuid sample_begin)
qed

section \<open>Properties of one call\<close>

text \<open>
  C1: A record that carries a capability is returned only when an enabled policy lists the action
  kind and the target, the chain is an execution network, the identity resolved and the evaluator
  said ALLOW for the very hash the executor recomputes from the capability; the capability calls the
  allow-listed target with no native value, its calldata hash is the hash of the returned calldata,
  it lives exactly the configured lifetime, and the signature is over this capability.
\<close>

theorem minted_capability_is_bound:
  assumes run: "createRequest v cfg env input s = (s', Returned r)" and cap: "rq_capability r = Some cap"
  shows "\<exists>policy identity ei e.
    bc_policies cfg (ci_policyId input) = Some policy \<and> pub_enabled policy \<and>
    ci_actionKind input \<in> set (pub_allowedActionKinds policy) \<and>
    cap_target cap \<in> set (pub_allowedTargets policy) \<and> cap_policyHash cap = pub_policyHash policy \<and>
    bc_chainId cfg \<in> {11155111, 84532, 31337} \<and> cap_chainId cap = bc_chainId cfg \<and>
    be_resolve env (ci_agentEnsName input) = Inr identity \<and> cap_agent cap = ai_agent identity \<and>
    be_evaluate env ei = Inr e \<and> ev_verdict e = ALLOW \<and> requestHash v cap = ei_requestHash ei \<and>
    cap_authorizationId cap = ev_authorizationId e \<and>
    cap_value cap = 0 \<and> rq_calldata r = Some (ei_calldata ei) \<and> cap_calldataHash cap = keccak_hex v (ei_calldata ei) \<and>
    cap_issuedAt cap = be_nowMs env div 1000 \<and>
    cap_expiresAt cap = cap_issuedAt cap + bc_capabilityTtlSeconds cfg \<and>
    (\<exists>sg. rq_signature r = Some sg \<and> be_sign env (domain (cap_chainId cap) (cap_executor cap)) cap = Inr sg) \<and>
    rq_capabilityDigest r = Some (capabilityDigest v cap) \<and> rq_status r = ALLOWED"
  using run cap
proof (cases rule: createRequest_minted)
  case (1 policy tx amount p identity e n sg s2)
  from 1(1) obtain parsed where policy: "bc_policies cfg (ci_policyId input) = Some policy" "pub_enabled policy"
    "ci_actionKind input \<in> set (pub_allowedActionKinds policy)"
    and tx: "tx = mockTransfer_build v parsed (bc_chainId cfg) (pub_target policy)"
    and target: "tx_target tx \<in> set (pub_allowedTargets policy)"
    and fence: "fenceWriteByChain RELAYER (bc_chainId cfg) None None = Inr ()"
    by (auto simp: prepare_request_def Let_def getAdapter_Some mockTransferAdapter_def
        split: option.splits if_splits sum.splits)
  let ?ei = "evaluation_request_of v cfg p identity"
  have r: "r = minted_record v p identity e cap sg"
    using 1(8) by (auto simp: signature_settled_def Let_def split: option.splits)
  have "requestHash v cap = ei_requestHash ?ei"
    by (simp add: 1(6) minted_capability_def evaluation_request_of_def requestHash_def requestHash_values_def)
  with policy target fence 1 tx r show ?thesis
    by (intro exI [of _ policy] exI [of _ identity] exI [of _ ?ei] exI [of _ e])
      (simp add: minted_capability_def blank_capability_def evaluation_request_of_def minted_record_def
        fence_by_chain_passes)
qed

theorem minted_capability_is_bound_witness:
  "\<exists>s' r cap. createRequest sample_viem sample_config sample_env sample_input (fst initial_run) = (s', Returned r) \<and>
     rq_capability r = Some cap \<and> cap_value cap = 0 \<and> cap_expiresAt cap = cap_issuedAt cap + 120"
proof -
  obtain s' r cap where m: "createRequest sample_viem sample_config sample_env sample_input (fst initial_run) = (s', Returned r)"
    "rq_capability r = Some cap" by (rule sample_minted)
  from minted_capability_is_bound [OF m] m show ?thesis by (auto simp: sample_config_def)
qed

lemma select_by_key_Some:
  assumes "db_wf d" and "select_by_key d key = Some row"
  shows "row \<in> set (db_requests d)" "rr_idempotency_key row = key" "select_by_id d (rr_id row) = Some row"
proof -
  show row: "row \<in> set (db_requests d)" "rr_idempotency_key row = key"
    using assms(2) by (auto simp: select_by_key_def find_Some_iff)
  show "select_by_id d (rr_id row) = Some row"
    using assms(1) row by (simp add: select_by_id_def db_wf_def find_distinct)
qed

lemma replay_returns:
  assumes "db_wf (bs_db s)" and "select_by_key (bs_db s) (ci_idempotencyKey input) = Some row"
  shows "\<exists>r. createRequest v cfg env input s =
      (s\<lparr>bs_db := audit (bs_db s) (Some (rr_id row)) IDEMPOTENT_REPLAY
           (str_obj [(''idempotencyKey'', ci_idempotencyKey input)])\<rparr>, Returned r) \<and>
    getRequest (bs_db s) (rr_id row) = Some r \<and> rq_status r = rr_status row \<and> rq_capability r = None"
proof -
  note row = select_by_key_Some [OF assms]
  obtain r where r: "getRequest (bs_db s) (rr_id row) = Some r" and st: "rq_status r = rr_status row"
    using row(3) by (simp add: getRequest_def Let_def)
  with assms(2) show ?thesis
    by (simp add: createRequest_def begin_request_def Let_def getRequest_no_capability [OF r])
qed

text \<open>
  A second request with a known idempotency key returns the record of the first one and changes
  nothing but the audit log, whatever else the second request says: no row, authorization,
  capability or nonce is added, and no capability is handed out again.
\<close>

theorem idempotent_replay:
  assumes "db_wf (bs_db s)" and "select_by_key (bs_db s) (ci_idempotencyKey input) = Some row"
  shows "\<exists>r. createRequest v cfg env input s =
      (s\<lparr>bs_db := audit (bs_db s) (Some (rr_id row)) IDEMPOTENT_REPLAY
           (str_obj [(''idempotencyKey'', ci_idempotencyKey input)])\<rparr>, Returned r) \<and>
    getRequest (bs_db s) (rr_id row) = Some r \<and> rq_status r = rr_status row \<and> rq_capability r = None"
  using assms by (rule replay_returns)

theorem idempotent_replay_witness:
  "\<exists>r. createRequest sample_viem sample_config sample_env sample_input
     \<lparr>bs_db = empty_db\<lparr>db_requests := [sample_row]\<rparr>, bs_nonceCounter = 0\<rparr> =
     (\<lparr>bs_db = audit (empty_db\<lparr>db_requests := [sample_row]\<rparr>) (Some ''u1'') IDEMPOTENT_REPLAY
         (str_obj [(''idempotencyKey'', ''key-0001'')]), bs_nonceCounter = 0\<rparr>, Returned r) \<and> rq_status r = PENDING"
proof -
  let ?s = "\<lparr>bs_db = empty_db\<lparr>db_requests := [sample_row]\<rparr>, bs_nonceCounter = 0\<rparr>"
  have key: "ci_idempotencyKey sample_input = ''key-0001''" by (simp add: sample_input_def)
  have "db_wf (bs_db ?s)"
    by (simp add: db_wf_def empty_db_def)
  moreover have "select_by_key (bs_db ?s) (ci_idempotencyKey sample_input) = Some sample_row"
    by (simp add: select_by_key_def sample_row_def)
  ultimately show ?thesis
    using idempotent_replay [of ?s sample_input sample_row sample_viem sample_config sample_env]
    by (auto simp: key sample_row_def)
qed

section \<open>Properties of every interleaving\<close>

lemma view_ok_reachable:
  assumes "bruns v cfg initial_run es (s, ts)"
  shows "view_ok (view (bs_db s) j)"
  using bruns_inv [OF assms] by (simp add: broker_inv_def)

text \<open>Some interleaving in which a capability is minted: the single call, step by step.\<close>

lemma segments_are_steps:
  assumes "resume v cfg env t s = (s', r)"
  shows "bstep v cfg (s, t # ts) (Resume t env) (s', add_task r ts)"
  using continue [of t "t # ts" v cfg env s s' r] assms by simp

lemma bruns_single: "bstep v cfg c e c' \<Longrightarrow> bruns v cfg c [e] c'"
  using bruns.snoc [OF bruns.nil, of v cfg c e c'] by simp

lemma bruns_append: "bruns v cfg c' es' c'' \<Longrightarrow> bruns v cfg c es c' \<Longrightarrow> bruns v cfg c (es @ es') c''"
proof (induction rule: bruns.induct)
  case (snoc es1 c1 e c2)
  from bruns.snoc [OF snoc.IH [OF snoc.prems] snoc.hyps(2)] show ?case by simp
qed simp

lemma and_then_run:
  assumes "bruns v cfg c es (fst r, add_task (snd r) ts)"
  shows "\<exists>es. bruns v cfg c es (fst (and_then r (resume v cfg env)), add_task (snd (and_then r (resume v cfg env))) ts)"
proof (cases r)
  case (Pair s out)
  show ?thesis
  proof (cases out)
    case (Awaits t)
    obtain s' r' where step: "resume v cfg env t s = (s', r')" by (cases "resume v cfg env t s")
    have "bruns v cfg c es (s, t # ts)"
      using assms Pair Awaits by simp
    from bruns.snoc [OF this segments_are_steps [OF step]] show ?thesis
      unfolding Pair Awaits and_then_simps step fst_conv snd_conv by blast
  qed (use assms Pair in auto)
qed

text \<open>A task is at one of three stages, and each resumption moves it to a later one.\<close>

fun stage :: "outcome \<Rightarrow> nat" where
  "stage (Awaits (Resolving p)) = 3"
| "stage (Awaits (Evaluating p i)) = 2"
| "stage (Awaits (Signing p i e c)) = 1"
| "stage _ = 0"

lemma resume_stage: "stage (snd (resume v cfg env t s)) < stage (Awaits t)"
proof (cases t)
  case (Resolving p)
  then show ?thesis by (simp add: resume_def identity_settled_def Let_def split: sum.split)
next
  case (Evaluating p i)
  obtain s' r where res: "evaluation_settled cfg (be_nowMs env) (be_nonceMs env) p i
      (be_evaluate env (evaluation_request_of v cfg p i)) s = (s', r)"
    by (metis surj_pair)
  from res have "stage r < 2" by (cases rule: evaluation_outcome) auto
  with Evaluating res show ?thesis by (simp add: resume_def)
next
  case (Signing p i e c)
  then show ?thesis by (simp add: resume_def signature_settled_def Let_def split: sum.split option.split)
qed

lemma stage_and_then: "stage (snd (and_then r (resume v cfg env))) \<le> stage (snd r) - 1"
proof (cases r)
  case (Pair s out)
  show ?thesis
  proof (cases out)
    case (Awaits t)
    with Pair resume_stage [of v cfg env t s] show ?thesis by simp
  qed (use Pair in auto)
qed

lemma stage_begin: "stage (snd (begin_request v cfg uuid input s)) \<le> 3"
  by (cases "snd (begin_request v cfg uuid input s)" rule: stage.cases) auto

lemma stage_0: "stage r = 0 \<longleftrightarrow> (\<nexists>t. r = Awaits t)"
  by (cases r rule: stage.cases) auto

lemma createRequest_settles: "\<nexists>t. snd (createRequest v cfg env input s) = Awaits t"
proof -
  let ?b = "begin_request v cfg (be_uuid env) input s" and ?f = "resume v cfg env"
  have "stage (snd (and_then ?b ?f)) \<le> 2"
    using stage_and_then [of ?b v cfg env] stage_begin [of v cfg "be_uuid env" input s] by linarith
  then have "stage (snd (and_then (and_then ?b ?f) ?f)) \<le> 1"
    using stage_and_then [of "and_then ?b ?f" v cfg env] by linarith
  then have "stage (snd (and_then (and_then (and_then ?b ?f) ?f) ?f)) = 0"
    using stage_and_then [of "and_then (and_then ?b ?f) ?f" v cfg env] by linarith
  then show ?thesis by (simp add: createRequest_def stage_0)
qed

lemma createRequest_run: "\<exists>es. bruns v cfg (s, ts) es (fst (createRequest v cfg env input s), ts)"
proof -
  obtain s1 r1 where b: "begin_request v cfg (be_uuid env) input s = (s1, r1)"
    by (cases "begin_request v cfg (be_uuid env) input s")
  have begins: "bruns v cfg (s, ts) [Begin (be_uuid env) input] (fst (s1, r1), add_task (snd (s1, r1)) ts)"
    using bruns_single [OF start [OF b]] by simp
  note settles = createRequest_settles [of v cfg env input s]
  from and_then_run [OF begins, of env] obtain es1 where
    "bruns v cfg (s, ts) es1 (fst (and_then (s1, r1) (resume v cfg env)), add_task (snd (and_then (s1, r1) (resume v cfg env))) ts)"
    by blast
  from and_then_run [OF this, of env] obtain es2 where
    "bruns v cfg (s, ts) es2 (fst (and_then (and_then (s1, r1) (resume v cfg env)) (resume v cfg env)),
       add_task (snd (and_then (and_then (s1, r1) (resume v cfg env)) (resume v cfg env))) ts)"
    by blast
  from and_then_run [OF this, of env] obtain es3 where
    "bruns v cfg (s, ts) es3 (fst (createRequest v cfg env input s), add_task (snd (createRequest v cfg env input s)) ts)"
    unfolding createRequest_def b by blast
  with settles show ?thesis by (cases "snd (createRequest v cfg env input s)") auto
qed


lemma sample_run:
  obtains es s' row where "bruns sample_viem sample_config initial_run es (s', [])"
    "row \<in> set (db_requests (bs_db s'))" "rr_status row = ALLOWED" "concat (map nonce_read es) = [1000501]"
proof -
  have init: "initial_run = (fst initial_run, [])" by (simp add: initial_run_def)
  have reads: "be_nonceMs sample_env = 1000501" by (simp add: sample_env_def)
  have first: "bruns sample_viem sample_config initial_run [Begin ''u1'' sample_input] (sample_started, [Resolving sample_pending])"
    using bruns_single [OF start [OF sample_begin, of "[]"]] init by simp
  obtain s2 s3 s4 i e cap r where
    2: "resume sample_viem sample_config sample_env (Resolving sample_pending) sample_started = (s2, Awaits sample_evaluating)" and
    3: "resume sample_viem sample_config sample_env sample_evaluating s2 = (s3, Awaits (Signing sample_pending i e cap))" and
    4: "resume sample_viem sample_config sample_env (Signing sample_pending i e cap) s3 = (s4, Returned r)" and
    row: "\<exists>row. row \<in> set (db_requests (bs_db s4)) \<and> rr_status row = ALLOWED"
    by (rule sample_chain)
  from bruns.snoc [OF first segments_are_steps [OF 2]]
  have "bruns sample_viem sample_config initial_run
     ([Begin ''u1'' sample_input] @ [Resume (Resolving sample_pending) sample_env]) (s2, [sample_evaluating])"
    by simp
  from bruns.snoc [OF this, of "Resume sample_evaluating sample_env" "(s3, [Signing sample_pending i e cap])"]
    segments_are_steps [OF 3, of "[]"]
  have "bruns sample_viem sample_config initial_run ([Begin ''u1'' sample_input,
     Resume (Resolving sample_pending) sample_env, Resume sample_evaluating sample_env]) (s3, [Signing sample_pending i e cap])"
    by simp
  from bruns.snoc [OF this segments_are_steps [OF 4]] row reads show thesis
    by (elim exE conjE) (rule that, auto simp: sample_evaluating_def)
qed

text \<open>
  C2: In every interleaving of requests, with any answers of the providers: a capability exists only
  for a request whose status is ALLOWED and whose one recorded verdict is ALLOW, an ALLOWED request
  has exactly one capability, and DENIED, ESCALATED, FAILED and PENDING requests have none.
\<close>

theorem authority_in_every_interleaving:
  assumes "bruns v cfg initial_run es (s, ts)"
  shows "(\<forall>c \<in> set (db_caps (bs_db s)). \<exists>r \<in> set (db_requests (bs_db s)).
      rr_id r = cr_request_id c \<and> rr_status r = ALLOWED) \<and>
    (\<forall>r \<in> set (db_requests (bs_db s)). let cs = filter (\<lambda>c. cr_request_id c = rr_id r) (db_caps (bs_db s));
        vs = map ar_verdict (filter (\<lambda>a. ar_request_id a = rr_id r) (db_auths (bs_db s))) in
      (case rr_status r of
         ALLOWED \<Rightarrow> length cs = 1 \<and> vs = [ALLOW]
       | ESCALATED \<Rightarrow> cs = [] \<and> vs = [ESCALATE]
       | DENIED \<Rightarrow> cs = [] \<and> vs = [DENY]
       | FAILED \<Rightarrow> cs = [] \<and> vs = []
       | PENDING \<Rightarrow> cs = [] \<and> length vs \<le> 1))"
proof (intro conjI ballI)
  note ok = view_ok_reachable [OF assms]
  fix c assume "c \<in> set (db_caps (bs_db s))"
  then have mem: "c \<in> set (snd (snd (view (bs_db s) (cr_request_id c))))" by (simp add: view_mem)
  from ok [of "cr_request_id c"] show "\<exists>r \<in> set (db_requests (bs_db s)). rr_id r = cr_request_id c \<and> rr_status r = ALLOWED"
  proof (cases rule: view_okE)
    case (2 r as cs)
    then have "r \<in> set (fst (view (bs_db s) (cr_request_id c)))" by simp
    then have "r \<in> set (db_requests (bs_db s))" "rr_id r = cr_request_id c" by (auto simp: view_def)
    moreover have "rr_status r = ALLOWED"
      using 2 mem by (cases "rr_status r") auto
    ultimately show ?thesis by blast
  qed (use mem in simp)
next
  note ok = view_ok_reachable [OF assms]
  fix r assume "r \<in> set (db_requests (bs_db s))"
  then have mem: "r \<in> set (fst (view (bs_db s) (rr_id r)))" by (simp add: view_mem)
  have filters: "filter (\<lambda>c. cr_request_id c = rr_id r) (db_caps (bs_db s)) = snd (snd (view (bs_db s) (rr_id r)))"
    "filter (\<lambda>a. ar_request_id a = rr_id r) (db_auths (bs_db s)) = fst (snd (view (bs_db s) (rr_id r)))"
    by (simp_all add: view_def)
  have "row_ok (rr_status r) (fst (snd (view (bs_db s) (rr_id r)))) (snd (snd (view (bs_db s) (rr_id r))))"
    using ok [of "rr_id r"] mem by (cases rule: view_okE) auto
  then show "let cs = filter (\<lambda>c. cr_request_id c = rr_id r) (db_caps (bs_db s));
        vs = map ar_verdict (filter (\<lambda>a. ar_request_id a = rr_id r) (db_auths (bs_db s))) in
      (case rr_status r of
         ALLOWED \<Rightarrow> length cs = 1 \<and> vs = [ALLOW]
       | ESCALATED \<Rightarrow> cs = [] \<and> vs = [ESCALATE]
       | DENIED \<Rightarrow> cs = [] \<and> vs = [DENY]
       | FAILED \<Rightarrow> cs = [] \<and> vs = []
       | PENDING \<Rightarrow> cs = [] \<and> length vs \<le> 1)"
    unfolding filters Let_def by (cases "rr_status r") auto
qed

text \<open>
  C39: A settled request is final: once a request is ALLOWED, ESCALATED, DENIED or FAILED, no
  continuation of any interleaving changes any column of its row, and the audit log of the
  continuation only extends the log there was, its ids counting on from one.
\<close>

theorem settled_requests_are_final:
  assumes "bruns v cfg initial_run es (s, ts)" and "bruns v cfg (s, ts) es' (s', ts')"
    and "r \<in> set (db_requests (bs_db s))" and "rr_status r \<noteq> PENDING"
  shows "r \<in> set (db_requests (bs_db s')) \<and>
    (\<exists>xs. db_audit (bs_db s') = db_audit (bs_db s) @ xs) \<and>
    map au_id (db_audit (bs_db s')) = [1..<Suc (length (db_audit (bs_db s')))]"
proof -
  note inv = bruns_inv [OF assms(1)]
  from bruns_unowned [OF assms(2) inv settled_unowned [OF inv assms(3,4)]]
  have "unowned (s', ts') r" "broker_inv (s', ts')" by auto
  moreover have "extends_log (bs_db s) (bs_db s')" using bruns_log [OF assms(2)] by simp
  ultimately show ?thesis
    by (auto simp: unowned_def extends_log_def broker_inv_def db_wf_def)
qed

text \<open>
  When the evaluator throws, the request is orphaned: its row stays PENDING with no reason code
  in every continuation, and a retry with the same idempotency key only reads it back, so it is
  never evaluated again.
\<close>

theorem evaluator_failure_orphans_request:
  assumes run: "bruns v cfg initial_run es (s, Evaluating p i # ts)"
    and fails: "be_evaluate env (evaluation_request_of v cfg p i) = Inl e"
  shows "\<exists>row. rr_id row = pr_requestId p \<and> rr_status row = PENDING \<and>
    resume v cfg env (Evaluating p i) s = (s, Threw e) \<and>
    (\<forall>es' s' ts'. bruns v cfg (s, ts) es' (s', ts') \<longrightarrow> row \<in> set (db_requests (bs_db s')) \<and>
      (\<forall>env' input. ci_idempotencyKey input = rr_idempotency_key row \<longrightarrow>
        (\<exists>s'' r. createRequest v cfg env' input s' = (s'', Returned r) \<and> rq_status r = PENDING \<and>
           rq_requestId r = pr_requestId p)))"
proof -
  note inv = bruns_inv [OF run]
  have "task_ok (Evaluating p i) (view (bs_db s) (pr_requestId p))"
    using inv by (simp add: broker_inv_def)
  then obtain row where w: "view (bs_db s) (pr_requestId p) = ([row], [], [])" and st: "rr_status row = PENDING"
    by (auto elim: task_okE)
  then have row: "row \<in> set (db_requests (bs_db s))" "rr_id row = pr_requestId p"
    by (auto simp: view_def filter_eq_Cons_iff)
  have inv': "broker_inv (s, ts)" using inv by (simp add: broker_inv_def)
  have un: "unowned (s, ts) row"
    using inv row by (simp add: unowned_def broker_inv_def)
  have "row \<in> set (db_requests (bs_db s')) \<and>
      (\<forall>env' input. ci_idempotencyKey input = rr_idempotency_key row \<longrightarrow>
        (\<exists>s'' r. createRequest v cfg env' input s' = (s'', Returned r) \<and> rq_status r = PENDING \<and>
           rq_requestId r = pr_requestId p))" if "bruns v cfg (s, ts) es' (s', ts')" for es' s' ts'
  proof -
    from bruns_unowned [OF that inv' un] have kept: "row \<in> set (db_requests (bs_db s'))" and wf: "db_wf (bs_db s')"
      by (auto simp: unowned_def broker_inv_def)
    then have found: "select_by_key (bs_db s') (rr_idempotency_key row) = Some row"
      by (simp add: select_by_key_def db_wf_def find_distinct)
    have "\<exists>s'' r. createRequest v cfg env' input s' = (s'', Returned r) \<and> rq_status r = PENDING \<and>
       rq_requestId r = pr_requestId p" if key: "ci_idempotencyKey input = rr_idempotency_key row" for env' input
    proof -
      obtain r where "createRequest v cfg env' input s' = (s'\<lparr>bs_db := audit (bs_db s') (Some (rr_id row)) IDEMPOTENT_REPLAY
           (str_obj [(''idempotencyKey'', ci_idempotencyKey input)])\<rparr>, Returned r)"
        and r: "getRequest (bs_db s') (rr_id row) = Some r" "rq_status r = rr_status row"
        using replay_returns [OF wf found [folded key], of v cfg env'] by (elim exE conjE) (rule that)
      with getRequest_no_capability [OF r(1)] st row(2) show ?thesis by auto
    qed
    with kept show ?thesis by blast
  qed
  then show ?thesis
    using row(2) st
    by (intro exI [of _ row] conjI allI impI) (auto simp: resume_def evaluation_settled_def fails)
qed

text \<open>
  Nonces are never reused: as long as the clock readings that enter nonces do not go back, no
  two capabilities recorded or being signed in any interleaving share a nonce.
\<close>

theorem nonces_are_unique:
  assumes "bruns v cfg initial_run es (s, ts)" and "sorted (concat (map nonce_read es))"
  shows "distinct (concat (map task_nonce ts) @ map cr_nonce (db_caps (bs_db s)))"
proof -
  have "count (nonces (s, ts)) x \<le> 1" for x
    using bruns_nonces [OF assms] by (simp add: nonces_below_def)
  moreover have "nonces (s, ts) = mset (concat (map task_nonce ts) @ map cr_nonce (db_caps (bs_db s)))"
    by (simp add: nonces_def)
  ultimately show ?thesis
    by (intro distinct_if_counts) metis
qed

theorem nonces_are_unique_witness:
  "\<exists>es s'. bruns sample_viem sample_config initial_run es (s', []) \<and> concat (map nonce_read es) = [1000501] \<and>
     distinct (map cr_nonce (db_caps (bs_db s')))"
proof -
  obtain es s' where run: "bruns sample_viem sample_config initial_run es (s', [])"
    and reads: "concat (map nonce_read es) = [1000501]" by (rule sample_run)
  from nonces_are_unique [OF run] reads have "distinct (map cr_nonce (db_caps (bs_db s')))" by simp
  with run reads show ?thesis by blast
qed

theorem authority_in_every_interleaving_witness:
  "\<exists>es s' row c. bruns sample_viem sample_config initial_run es (s', []) \<and> row \<in> set (db_requests (bs_db s')) \<and>
     rr_status row = ALLOWED \<and> filter (\<lambda>c. cr_request_id c = rr_id row) (db_caps (bs_db s')) = [c]"
proof -
  obtain es s' row where run: "bruns sample_viem sample_config initial_run es (s', [])"
    and row: "row \<in> set (db_requests (bs_db s'))" "rr_status row = ALLOWED" by (rule sample_run)
  from authority_in_every_interleaving [OF run] row
  have "length (filter (\<lambda>c. cr_request_id c = rr_id row) (db_caps (bs_db s'))) = 1"
    by (auto simp: Let_def)
  then obtain c where "filter (\<lambda>c. cr_request_id c = rr_id row) (db_caps (bs_db s')) = [c]"
    by (auto simp: length_Suc_conv)
  with run row show ?thesis by blast
qed

theorem settled_requests_are_final_witness:
  "\<exists>es s' row. bruns sample_viem sample_config initial_run es (s', []) \<and> rr_status row = ALLOWED \<and>
     row \<in> set (db_requests (bs_db (fst (createRequest sample_viem sample_config sample_env sample_input s'))))"
proof -
  obtain es s' row where run: "bruns sample_viem sample_config initial_run es (s', [])"
    and row: "row \<in> set (db_requests (bs_db s'))" "rr_status row = ALLOWED" by (rule sample_run)
  obtain es' where "bruns sample_viem sample_config (s', []) es'
     (fst (createRequest sample_viem sample_config sample_env sample_input s'), [])"
    using createRequest_run by blast
  from settled_requests_are_final [OF run this row(1)] run row show ?thesis by auto
qed

theorem evaluator_failure_orphans_request_witness:
  "\<exists>es s row. bruns sample_viem sample_config initial_run es (s, [sample_evaluating]) \<and> rr_status row = PENDING \<and>
     row \<in> set (db_requests (bs_db s)) \<and>
     resume sample_viem sample_config (sample_env\<lparr>be_evaluate := \<lambda>_. Inl OtherError\<rparr>) sample_evaluating s = (s, Threw OtherError)"
proof -
  have init: "initial_run = (fst initial_run, [])" by (simp add: initial_run_def)
  have first: "bruns sample_viem sample_config initial_run [Begin ''u1'' sample_input] (sample_started, [Resolving sample_pending])"
    using bruns_single [OF start [OF sample_begin, of "[]"]] init by simp
  obtain s2 where 2: "resume sample_viem sample_config sample_env (Resolving sample_pending) sample_started = (s2, Awaits sample_evaluating)"
    by (rule sample_chain)
  from bruns.snoc [OF first segments_are_steps [OF 2]]
  have run: "bruns sample_viem sample_config initial_run
     ([Begin ''u1'' sample_input] @ [Resume (Resolving sample_pending) sample_env])
     (s2, Evaluating sample_pending (eval_identity\<lparr>ai_ensName := ''agent.eth''\<rparr>) # [])"
    by (simp add: sample_evaluating_def)
  have "be_evaluate (sample_env\<lparr>be_evaluate := \<lambda>_. Inl OtherError\<rparr>)
     (evaluation_request_of sample_viem sample_config sample_pending (eval_identity\<lparr>ai_ensName := ''agent.eth''\<rparr>)) = Inl OtherError"
    by simp
  from evaluator_failure_orphans_request [OF run this] obtain row where
    "rr_status row = PENDING" "row \<in> set (db_requests (bs_db s2))" and
    "resume sample_viem sample_config (sample_env\<lparr>be_evaluate := \<lambda>_. Inl OtherError\<rparr>)
       (Evaluating sample_pending (eval_identity\<lparr>ai_ensName := ''agent.eth''\<rparr>)) s2 = (s2, Threw OtherError)"
    using bruns.nil [of sample_viem sample_config "(s2, [])"] by blast
  with run show ?thesis unfolding sample_evaluating_def by (intro exI conjI) (assumption+)
qed

section \<open>The broker as a client of its interfaces\<close>

text \<open>The relayer fence: nothing is prepared on a chain outside the execution networks.\<close>

interpretation relayer: fenced_operation "\<lambda>cfg. prepare_request v cfg input" bc_chainId RELAYER
  for v input
proof unfold_locales
  fix cfg y assume "prepare_request v cfg input = Inr y"
  then show "fenceWriteByChain RELAYER (bc_chainId cfg) None None = Inr ()"
    by (auto simp: prepare_request_def Let_def split: option.splits if_splits sum.splits)
qed

text \<open>With an evaluator that binds its result to the request, the recorded authorization is for this capability.\<close>

context bound_policy_evaluator
begin

lemma recorded_for_capability:
  assumes "createRequest v cfg (env\<lparr>be_evaluate := evaluate\<rparr>) input s = (s', Returned r)"
    and "rq_capability r = Some cap"
  shows "\<exists>a \<in> set (db_auths (bs_db s')). ar_request_id a = rq_requestId r \<and> ar_verdict a = ALLOW \<and>
    ar_authorization_id a = cap_authorizationId cap \<and> ar_request_hash a = requestHash v cap \<and>
    ar_evaluated_at a < ar_approved_until a"
  using assms
proof (cases rule: createRequest_minted)
  case (1 policy tx amount p identity e n sg s2)
  have r: "r = minted_record v p identity e cap sg" and auths: "db_auths (bs_db s') = db_auths (bs_db s2)"
    using 1(8) by (auto simp: signature_settled_def insert_cap_def Let_def split: option.splits if_splits)
  have "requestHash v cap = ei_requestHash (evaluation_request_of v cfg p identity)"
    by (simp add: 1(6) minted_capability_def evaluation_request_of_def requestHash_def requestHash_values_def)
  with 1(2,4,5,6,9) r auths evaluate_binds [of _ e] evaluate_window [of _ e] show ?thesis
    by (intro bexI [of _ "auth_row_of (be_uuid env) e"])
      (auto simp: auth_row_of_def minted_record_def minted_capability_def)
qed

end

lemma resume_threw_denial:
  assumes "resume v cfg env t s = (s', Threw (Denial pd))"
  shows "(\<exists>n. be_resolve env n = Inl (Denial pd)) \<or> (\<exists>i. be_evaluate env i = Inl (Denial pd)) \<or>
    (\<exists>d c. be_sign env d c = Inl (Denial pd))"
proof (cases t)
  case (Resolving p)
  with assms show ?thesis by (auto simp: resume_def identity_settled_def Let_def split: sum.splits)
next
  case (Evaluating p i)
  with assms show ?thesis
    by (auto simp: resume_def evaluation_settled_def settle_without_authority_def nextNonce_def Let_def
        split: sum.splits option.splits verdict.splits)
next
  case (Signing p i e c)
  with assms show ?thesis
    by (auto simp: resume_def signature_settled_def Let_def split: sum.splits option.splits)
qed

lemma begin_threw_denial:
  assumes "begin_request v cfg uuid input s = (s', Threw (Denial pd))"
  shows "s' = s \<and> prepare_request v cfg input = Inl (Denial pd)"
proof (cases "select_by_key (bs_db s) (ci_idempotencyKey input)")
  case (Some row)
  with assms show ?thesis by (auto simp: begin_request_def Let_def split: option.splits)
next
  case None
  with assms show ?thesis
    by (cases "prepare_request v cfg input") (auto simp: begin_request_def Let_def split: option.splits)
qed

lemma and_then_threw:
  assumes "and_then r (resume v cfg env) = (s', Threw (Denial pd))"
    and "\<And>n. be_resolve env n \<noteq> Inl (Denial pd)" and "\<And>i. be_evaluate env i \<noteq> Inl (Denial pd)"
    and "\<And>d c. be_sign env d c \<noteq> Inl (Denial pd)"
  shows "r = (s', Threw (Denial pd))"
proof (cases r)
  case (Pair s out)
  show ?thesis
  proof (cases out)
    case (Awaits t)
    with Pair assms show ?thesis by (auto dest: resume_threw_denial)
  qed (use Pair assms in auto)
qed

text \<open>An identity provider that fails only operationally cannot make a call look like a denial.\<close>

context ens_identity_provider
begin

lemma outage_is_not_a_denial:
  assumes "createRequest v cfg (env\<lparr>be_resolve := resolve\<rparr>) input s = (s', Threw (Denial pd))"
    and "\<And>i. be_evaluate env i \<noteq> Inl (Denial pd)" and "\<And>d c. be_sign env d c \<noteq> Inl (Denial pd)"
  shows "s' = s \<and> prepare_request v cfg input = Inl (Denial pd)"
proof -
  let ?env = "env\<lparr>be_resolve := resolve\<rparr>"
  have "be_resolve ?env n \<noteq> Inl (Denial pd)" for n
    using resolve_fails_operational [of n "Denial pd"] by auto
  note threw = and_then_threw [OF _ this]
  have "begin_request v cfg (be_uuid ?env) input s = (s', Threw (Denial pd))"
    by (rule threw, rule threw, rule threw) (use assms in \<open>simp_all add: createRequest_def\<close>)
  then show ?thesis by (rule begin_threw_denial)
qed

end

end
