(* ===== verification/Broker_Api.thy ===== *)
theory Broker_Api
  imports Broker_Props
begin

text \<open>
  The agent-facing HTTP surface (\<open>apps/broker/src/api.ts\<close>): the strict request schema, the
  serialization of big integers, and the handlers with the status code each outcome is mapped to. The
  issue list of a rejected body is the schema library's, a parameter; message prose is not kept.
\<close>

section \<open>Serialization\<close>

datatype js_value =
    VNull
  | VBool bool
  | VNum jsnum
  | VStr string
  | VBig int
  | VArr "js_value list"
  | VObj "(string \<times> js_value) list"

fun serialize :: "js_value \<Rightarrow> json" where
  "serialize VNull = JNull"
| "serialize (VBool b) = JBool b"
| "serialize (VNum n) = JNum n"
| "serialize (VStr s) = JStr s"
| "serialize (VBig i) = JStr (show_int i)"
| "serialize (VArr xs) = JArr (map serialize xs)"
| "serialize (VObj kvs) = JObj (map (\<lambda>(k, x). (k, serialize x)) kvs)"

fun status_text :: "row_status \<Rightarrow> string" where
  "status_text PENDING = ''PENDING''"
| "status_text ALLOWED = ''ALLOWED''"
| "status_text ESCALATED = ''ESCALATED''"
| "status_text DENIED = ''DENIED''"
| "status_text FAILED = ''FAILED''"

definition capability_value :: "capability \<Rightarrow> js_value" where
  "capability_value c =
    VObj [(''version'', VNum (Fin (of_int (cap_version c)))), (''agentIdentityHash'', VStr (cap_agentIdentityHash c)),
      (''agent'', VStr (cap_agent c)), (''chainId'', VBig (cap_chainId c)), (''executor'', VStr (cap_executor c)),
      (''target'', VStr (cap_target c)), (''value'', VBig (cap_value c)),
      (''calldataHash'', VStr (cap_calldataHash c)), (''intentHash'', VStr (cap_intentHash c)),
      (''policyHash'', VStr (cap_policyHash c)), (''authorizationId'', VStr (cap_authorizationId c)),
      (''contextCommitment'', VStr (cap_contextCommitment c)), (''issuedAt'', VBig (cap_issuedAt c)),
      (''expiresAt'', VBig (cap_expiresAt c)), (''nonce'', VBig (cap_nonce c))]"

definition optional_field :: "string \<Rightarrow> ('a \<Rightarrow> js_value) \<Rightarrow> 'a option \<Rightarrow> (string \<times> js_value) list" where
  "optional_field k f x = (case x of None \<Rightarrow> [] | Some y \<Rightarrow> [(k, f y)])"

definition record_value :: "request_record \<Rightarrow> js_value" where
  "record_value r =
    VObj ([(''requestId'', VStr (rq_requestId r)), (''status'', VStr (status_text (rq_status r))),
       (''reasonCode'', VStr (rq_reasonCode r))] @
      optional_field ''capability'' capability_value (rq_capability r) @
      optional_field ''signature'' VStr (rq_signature r) @
      optional_field ''calldata'' VStr (rq_calldata r) @
      optional_field ''actionKindHash'' VStr (rq_actionKindHash r) @
      optional_field ''capabilityDigest'' VStr (rq_capabilityDigest r) @
      optional_field ''authorizationId'' VStr (rq_authorizationId r) @
      optional_field ''approvedUntil'' VStr (rq_approvedUntil r) @
      optional_field ''identitySource'' VStr (rq_identitySource r) @
      optional_field ''evaluationSource'' VStr (rq_evaluationSource r))"

definition policy_value :: "public_policy \<Rightarrow> js_value" where
  "policy_value p =
    VObj [(''policyId'', VStr (pub_policyId p)), (''policyHash'', VStr (pub_policyHash p)),
      (''enabled'', VBool (pub_enabled p)), (''allowedActionKinds'', VArr (map VStr (pub_allowedActionKinds p))),
      (''allowedTargets'', VArr (map VStr (pub_allowedTargets p))),
      (''maxValueHardCap'', VBig (pub_maxValueHardCap p)), (''target'', VStr (pub_target p))]"

section \<open>The request schema\<close>

definition create_keys :: "string list" where
  "create_keys = [''agentEnsName'', ''actionKind'', ''adapterParams'', ''policyId'', ''idempotencyKey'']"

definition bounded :: "nat \<Rightarrow> nat \<Rightarrow> json option \<Rightarrow> string option" where
  "bounded lo hi j =
    (case j of Some (JStr s) \<Rightarrow> if lo \<le> length s \<and> length s \<le> hi then Some s else None | _ \<Rightarrow> None)"

definition createRequestSchema :: "json \<Rightarrow> create_request_input option" where
  "createRequestSchema body =
    (case body of
       JObj kvs \<Rightarrow>
         (if set (map fst kvs) \<subseteq> set create_keys
          then (case (bounded 3 255 (map_of kvs ''agentEnsName''), bounded 1 64 (map_of kvs ''actionKind''),
                      map_of kvs ''adapterParams'', bounded 1 64 (map_of kvs ''policyId''),
                      bounded 8 128 (map_of kvs ''idempotencyKey'')) of
                  (Some n, Some k, Some (JObj ps), Some p, Some i) \<Rightarrow>
                    Some \<lparr>ci_agentEnsName = n, ci_actionKind = k, ci_adapterParams = JObj ps,
                          ci_policyId = p, ci_idempotencyKey = i\<rparr>
                | _ \<Rightarrow> None)
          else None)
     | _ \<Rightarrow> None)"

section \<open>Handlers\<close>

record http_response =
  hr_code :: nat
  hr_body :: json

definition failure_body :: "string option \<Rightarrow> string \<Rightarrow> json" where
  "failure_body status code =
    JObj ((case status of None \<Rightarrow> [] | Some s \<Rightarrow> [(''status'', JStr s)]) @ [(''reasonCode'', JStr code)])"

text \<open>What the \<open>try\<close> and \<open>catch\<close> of the handler make of an outcome.\<close>

definition respond :: "outcome \<Rightarrow> http_response" where
  "respond out =
    (case out of
       Returned r \<Rightarrow> \<lparr>hr_code = (if rq_status r = ALLOWED then 201 else 200), hr_body = serialize (record_value r)\<rparr>
     | Threw (Denial pd) \<Rightarrow> \<lparr>hr_code = 200, hr_body = failure_body (Some ''DENIED'') (ctx_code (pden_code pd))\<rparr>
     | Threw (Operational oe) \<Rightarrow> \<lparr>hr_code = 503, hr_body = failure_body (Some ''FAILED'') (ctx_code (oe_code oe))\<rparr>
     | _ \<Rightarrow> \<lparr>hr_code = 500, hr_body = failure_body (Some ''FAILED'') (ctx_code INTERNAL_INVARIANT)\<rparr>)"

definition post_capability_requests ::
  "(json \<Rightarrow> json) \<Rightarrow> viem \<Rightarrow> broker_config \<Rightarrow> broker_env \<Rightarrow> json \<Rightarrow> broker_state \<Rightarrow> broker_state \<times> http_response" where
  "post_capability_requests issues v cfg env body s =
    (case createRequestSchema body of
       None \<Rightarrow>
         (s\<lparr>bs_db := audit (bs_db s) None REQUEST_REJECTED_VALIDATION (JObj [(''issues'', issues body)])\<rparr>,
          \<lparr>hr_code = 400,
           hr_body = JObj [(''reasonCode'', JStr (ctx_code API_VALIDATION)), (''issues'', issues body)]\<rparr>)
     | Some input \<Rightarrow>
         (let (s', out) = createRequest v cfg env input s in (s', respond out)))"

definition get_capability_request :: "broker_state \<Rightarrow> string \<Rightarrow> http_response" where
  "get_capability_request s i =
    (case getRequest (bs_db s) i of
       None \<Rightarrow> \<lparr>hr_code = 404, hr_body = failure_body None ''CTX_NOT_FOUND''\<rparr>
     | Some r \<Rightarrow> \<lparr>hr_code = 200, hr_body = serialize (record_value r)\<rparr>)"

definition resolveIdentityForApi :: "(string \<Rightarrow> thrown + agent_identity) \<Rightarrow> string \<Rightarrow> thrown + js_value" where
  "resolveIdentityForApi resolve ensName =
    res_bind (resolve ensName) (\<lambda>i. Inr (VObj
      [(''ensName'', VStr (ai_ensName i)), (''node'', VStr (ai_node i)), (''agent'', VStr (ai_agent i)),
       (''bindingVersion'', VStr (show_int (ai_bindingVersion i))),
       (''agentIdentityHash'', VStr (ai_agentIdentityHash i)), (''source'', VStr (ai_source i))]))"

definition get_agent :: "(string \<Rightarrow> thrown + agent_identity) \<Rightarrow> string \<Rightarrow> http_response" where
  "get_agent resolve ensName =
    (case resolveIdentityForApi resolve ensName of
       Inr j \<Rightarrow> \<lparr>hr_code = 200, hr_body = serialize j\<rparr>
     | Inl (Operational oe) \<Rightarrow> \<lparr>hr_code = 503, hr_body = failure_body None (ctx_code (oe_code oe))\<rparr>
     | Inl _ \<Rightarrow> \<lparr>hr_code = 404, hr_body = failure_body None (ctx_code IDENTITY_NOT_FOUND)\<rparr>)"

definition get_policy :: "broker_config \<Rightarrow> string \<Rightarrow> http_response" where
  "get_policy cfg i =
    (case getPolicy cfg i of
       None \<Rightarrow> \<lparr>hr_code = 404, hr_body = failure_body None ''CTX_NOT_FOUND''\<rparr>
     | Some p \<Rightarrow> \<lparr>hr_code = 200, hr_body = serialize (policy_value p)\<rparr>)"

section \<open>Properties\<close>

lemma getRequest_row:
  "getRequest d i = Some r \<Longrightarrow> \<exists>row \<in> set (db_requests d). rr_id row = rq_requestId r \<and> rr_status row = rq_status r"
  by (auto simp: getRequest_def select_by_id_def find_Some_iff Let_def split: option.splits)

text \<open>Where a returned record comes from: the row with its id has its status.\<close>

lemma settle_record_row:
  "settle_without_authority i ev st c s = (s', Returned r) \<Longrightarrow>
     \<exists>row \<in> set (db_requests (bs_db s')). rr_id row = rq_requestId r \<and> rr_status row = rq_status r"
  by (auto simp: settle_without_authority_def Let_def split: option.splits
      dest: getRequest_row)

lemma evaluation_record_row:
  assumes "evaluation_settled cfg nowMs nonceMs p ident answer s = (s', Returned r)"
  shows "\<exists>row \<in> set (db_requests (bs_db s')). rr_id row = rq_requestId r \<and> rr_status row = rq_status r"
  using assms
  by (auto simp: evaluation_settled_def nextNonce_def Let_def split: sum.splits option.splits verdict.splits
      dest: settle_record_row)

lemma signature_record_row:
  assumes "signature_settled v p ident e cap answer s = (s', Returned r)"
  shows "\<exists>row \<in> set (db_requests (bs_db s')). rr_id row = rq_requestId r \<and> rr_status row = rq_status r"
proof -
  from assms obtain sg d where d: "insert_cap (bs_db s) (cap_row_of v (pr_requestId p) cap) = Some d"
    and r: "r = minted_record v p ident e cap sg"
    and s': "db_requests (bs_db s') = db_requests (setStatus d (pr_requestId p) ALLOWED (ev_reasonCode e))"
    by (auto simp: signature_settled_def Let_def setStatus_def split: sum.splits option.splits)
  from d obtain row where "row \<in> set (db_requests d)" "rr_id row = pr_requestId p"
    by (auto simp: insert_cap_def split: if_splits)
  then show ?thesis
    unfolding s'
    by (intro bexI [of _ "row\<lparr>rr_status := ALLOWED, rr_reason_code := Some (ev_reasonCode e)\<rparr>"])
      (auto simp: setStatus_def r minted_record_def)
qed

lemma record_row:
  assumes "createRequest v cfg env input s = (s', Returned r)"
  shows "\<exists>row \<in> set (db_requests (bs_db s')). rr_id row = rq_requestId r \<and> rr_status row = rq_status r"
proof -
  have last: "\<exists>row \<in> set (db_requests (bs_db s')). rr_id row = rq_requestId r \<and> rr_status row = rq_status r"
    if "resume v cfg env t s0 = (s', Returned r)" for t s0
    using that evaluation_record_row signature_record_row
    by (cases t) (auto simp: resume_def identity_settled_def Let_def split: sum.splits)
  have first: "\<exists>row \<in> set (db_requests (bs_db s')). rr_id row = rq_requestId r \<and> rr_status row = rq_status r"
    if b: "begin_request v cfg uuid input s = (s', Returned r)" for uuid
  proof (cases "select_by_key (bs_db s) (ci_idempotencyKey input)")
    case (Some row)
    with b show ?thesis
      by (auto simp: begin_request_def Let_def split: option.splits dest: getRequest_row)
  next
    case None
    with b show ?thesis
      by (cases "prepare_request v cfg input") (auto simp: begin_request_def Let_def split: option.splits)
  qed
  from assms show ?thesis
    unfolding createRequest_def and_then_Returned using last first by blast
qed

text \<open>
  The response tells the truth about the stored state: 201 is sent only for a request whose row
  is ALLOWED, 503 only for an operational failure, never for a decision; a body with a key outside
  the schema (an attempt to supply a target or calldata) is a 400 that touches nothing but the audit
  log, and there is no sixth status code.
\<close>

theorem post_response_is_honest:
  assumes "post_capability_requests issues v cfg env body s = (s', resp)"
  shows "hr_code resp \<in> {200, 201, 400, 500, 503} \<and>
    (hr_code resp = 201 \<longrightarrow> (\<exists>row \<in> set (db_requests (bs_db s')). rr_status row = ALLOWED \<and>
        (\<exists>r. hr_body resp = serialize (record_value r) \<and> rq_requestId r = rr_id row))) \<and>
    (hr_code resp = 503 \<longrightarrow> (\<exists>input oe. createRequestSchema body = Some input \<and>
        createRequest v cfg env input s = (s', Threw (Operational oe)))) \<and>
    ((\<exists>kvs. body = JObj kvs \<and> \<not> set (map fst kvs) \<subseteq> set create_keys) \<longrightarrow>
        hr_code resp = 400 \<and> db_requests (bs_db s') = db_requests (bs_db s) \<and>
        db_auths (bs_db s') = db_auths (bs_db s) \<and> db_caps (bs_db s') = db_caps (bs_db s))"
proof (cases "createRequestSchema body")
  case None
  with assms show ?thesis by (auto simp: post_capability_requests_def)
next
  case (Some input)
  obtain out where c: "createRequest v cfg env input s = (s', out)" and resp: "resp = respond out"
    using assms Some by (auto simp: post_capability_requests_def split: prod.splits)
  have strict: "\<not> (\<exists>kvs. body = JObj kvs \<and> \<not> set (map fst kvs) \<subseteq> set create_keys)"
    using Some by (auto simp: createRequestSchema_def simp del: set_map split: if_splits)
  show ?thesis
  proof (cases out)
    case (Returned r)
    then have code: "hr_code resp = (if rq_status r = ALLOWED then 201 else 200)"
      and sent: "hr_body resp = serialize (record_value r)" by (simp_all add: resp respond_def)
    obtain row where row: "row \<in> set (db_requests (bs_db s'))" "rq_requestId r = rr_id row" "rr_status row = rq_status r"
      using record_row [OF c [unfolded Returned]] by metis
    have "\<exists>row \<in> set (db_requests (bs_db s')). rr_status row = ALLOWED \<and>
        (\<exists>r. hr_body resp = serialize (record_value r) \<and> rq_requestId r = rr_id row)" if "hr_code resp = 201"
      using row that code by (intro bexI [of _ row] conjI exI [of _ r]) (auto simp: sent split: if_splits)
    with code strict show ?thesis by simp
  next
    case (Threw e)
    with c resp strict Some show ?thesis by (cases e) (auto simp: respond_def)
  next
    case (Awaits t)
    with createRequest_settles [of v cfg env input s] c show ?thesis by simp
  qed
qed

theorem post_response_is_honest_witness:
  "hr_code (snd (post_capability_requests (\<lambda>_. JNull) sample_viem sample_config sample_env
     (JObj [(''target'', JStr ''0x00'')]) (fst initial_run))) = 400"
proof -
  let ?r = "post_capability_requests (\<lambda>_. JNull) sample_viem sample_config sample_env
     (JObj [(''target'', JStr ''0x00'')]) (fst initial_run)"
  have "\<not> set (map fst [(''target'', JStr ''0x00'')]) \<subseteq> set create_keys" by (simp add: create_keys_def)
  with post_response_is_honest [of "\<lambda>_. JNull" sample_viem sample_config sample_env
      "JObj [(''target'', JStr ''0x00'')]" "fst initial_run" "fst ?r" "snd ?r"] show ?thesis by simp
qed

context ens_identity_provider
begin

lemma agent_read:
  "hr_code (get_agent resolve n) \<in> {200, 503} \<and> (hr_code (get_agent resolve n) = 200 \<longleftrightarrow> (\<exists>i. resolve n = Inr i \<and> ai_ensName i = n))"
  using resolve_name [of n] resolve_fails_operational [of n]
  by (cases "resolve n") (auto simp: get_agent_def resolveIdentityForApi_def)

end

text \<open>
  Reading an agent through the live provider is 200 with exactly the name that was asked for, or
  503: neither an outage nor an expired or unknown name is ever reported as a 404.
\<close>

theorem agent_read_is_honest:
  "hr_code (get_agent (liveResolve v agentForName bindingVersion registry chain now) n) \<in> {200, 503} \<and>
   (hr_code (get_agent (liveResolve v agentForName bindingVersion registry chain now) n) = 200 \<longleftrightarrow>
     (\<exists>i. liveResolve v agentForName bindingVersion registry chain now n = Inr i \<and> ai_ensName i = n))"
  by (rule live.agent_read)

end
