(* ===== verification/Plan.thy ===== *)
theory Plan
  imports Canonical Network Protocol
begin

text \<open>
  Execution plans (\<open>packages/studio-plan/src\<close>): the plan and its steps (\<open>schema.ts\<close>), the canonical
  hashes and the capability scope (\<open>hash.ts\<close>), the step gate and the derived plan state
  (\<open>machine.ts\<close>) and the cross-chain arrival registry (\<open>arrival.ts\<close>). A field that is absent from
  an object is \<open>None\<close> and has no key in its serialization.
\<close>

section \<open>Plans (schema.ts)\<close>

datatype plan_step_status = PENDING | AUTHORIZED | SUBMITTED | CONFIRMED | WAITING_EXTERNAL | FAILED | TIMED_OUT | SKIPPED

datatype effect_kind = TOKEN_OUT | TOKEN_IN | MESSAGE_SENT | MESSAGE_DELIVERED | APPROVAL_SET

record expected_effect =
  ee_kind :: effect_kind
  ee_chainId :: int
  ee_token :: "string option"
  ee_amount :: "string option"
  ee_party :: "string option"

datatype precondition_kind = STEP_CONFIRMED | ARRIVAL_PROVEN | BALANCE_AT_LEAST | TIME_AFTER

record precondition =
  pc_kind :: precondition_kind
  pc_stepId :: "string option"
  pc_token :: "string option"
  pc_amount :: "string option"
  pc_unixSeconds :: "int option"

datatype disposition = AUTONOMOUS | REQUIRES_HUMAN | DENY

record authorization_requirement =
  areq_disposition :: disposition
  areq_valueUsdCents :: "int option"
  areq_capabilityScope :: "string option"

record plan_step =
  ps_stepId :: string
  ps_chainId :: int
  ps_adapterId :: string
  ps_adapterVersion :: string
  ps_action :: string
  ps_normalizedIntent :: "(string \<times> json) list"
  ps_dependencies :: "string list"
  ps_preconditions :: "precondition list"
  ps_expectedEffects :: "expected_effect list"
  ps_timeoutMs :: int
  ps_authorizationRequirement :: authorization_requirement
  ps_status :: plan_step_status

datatype on_step_failure = HOLD_AND_ESCALATE | RETRY_SAME_STEP | ABORT_REMAINING

record failure_policy =
  fp_onStepFailure :: on_step_failure
  fp_maxRetries :: int
  fp_protocolRefundAvailable :: bool

datatype plan_state =
    PLAN_DRAFT | PLAN_VALIDATED | PLAN_AWAITING_AUTHORIZATION | PLAN_READY | PLAN_STEP_PENDING
  | PLAN_STEP_SUBMITTED | PLAN_STEP_CONFIRMED | PLAN_WAITING_EXTERNAL | PLAN_STEP_FAILED
  | PLAN_TIMED_OUT | PLAN_PARTIAL | PLAN_COMPLETED | PLAN_ABORTED

record execution_plan =
  ep_planId :: string
  ep_revision :: int
  ep_strategyId :: string
  ep_organizationId :: "string option"
  ep_sourceChainId :: int
  ep_steps :: "plan_step list"
  ep_invariants :: "(string \<times> string) list"
  ep_totalMs :: int
  ep_perStepDefaultMs :: int
  ep_failurePolicy :: failure_policy
  ep_requiredStepIds :: "string list"
  ep_state :: plan_state

definition EXECUTION_PLAN_VERSION :: string where
  "EXECUTION_PLAN_VERSION = ''contextlock.execution-plan/v1''"

section \<open>Identities and hashes (hash.ts)\<close>

fun effect_kind_text :: "effect_kind \<Rightarrow> string" where
  "effect_kind_text TOKEN_OUT = ''TOKEN_OUT''"
| "effect_kind_text TOKEN_IN = ''TOKEN_IN''"
| "effect_kind_text MESSAGE_SENT = ''MESSAGE_SENT''"
| "effect_kind_text MESSAGE_DELIVERED = ''MESSAGE_DELIVERED''"
| "effect_kind_text APPROVAL_SET = ''APPROVAL_SET''"

fun precondition_kind_text :: "precondition_kind \<Rightarrow> string" where
  "precondition_kind_text STEP_CONFIRMED = ''STEP_CONFIRMED''"
| "precondition_kind_text ARRIVAL_PROVEN = ''ARRIVAL_PROVEN''"
| "precondition_kind_text BALANCE_AT_LEAST = ''BALANCE_AT_LEAST''"
| "precondition_kind_text TIME_AFTER = ''TIME_AFTER''"

fun disposition_text :: "disposition \<Rightarrow> string" where
  "disposition_text AUTONOMOUS = ''AUTONOMOUS''"
| "disposition_text REQUIRES_HUMAN = ''REQUIRES_HUMAN''"
| "disposition_text DENY = ''DENY''"

fun on_step_failure_text :: "on_step_failure \<Rightarrow> string" where
  "on_step_failure_text HOLD_AND_ESCALATE = ''HOLD_AND_ESCALATE''"
| "on_step_failure_text RETRY_SAME_STEP = ''RETRY_SAME_STEP''"
| "on_step_failure_text ABORT_REMAINING = ''ABORT_REMAINING''"

definition effect_json :: "expected_effect \<Rightarrow> json" where
  "effect_json e =
    JObj ([(''kind'', JStr (effect_kind_text (ee_kind e))), (''chainId'', j_int (ee_chainId e))] @
      j_opt ''token'' JStr (ee_token e) @ j_opt ''amount'' JStr (ee_amount e) @ j_opt ''party'' JStr (ee_party e))"

definition precondition_json :: "precondition \<Rightarrow> json" where
  "precondition_json p =
    JObj ([(''kind'', JStr (precondition_kind_text (pc_kind p)))] @ j_opt ''stepId'' JStr (pc_stepId p) @
      j_opt ''token'' JStr (pc_token p) @ j_opt ''amount'' JStr (pc_amount p) @
      j_opt ''unixSeconds'' j_int (pc_unixSeconds p))"

text \<open>\<open>status\<close> and \<open>capabilityScope\<close> are left out of a step's identity, \<open>state\<close> out of a plan's.\<close>

definition stepIdentity :: "plan_step \<Rightarrow> json" where
  "stepIdentity s =
    JObj [(''stepId'', JStr (ps_stepId s)), (''chainId'', j_int (ps_chainId s)),
      (''adapterId'', JStr (ps_adapterId s)), (''adapterVersion'', JStr (ps_adapterVersion s)),
      (''action'', JStr (ps_action s)), (''normalizedIntent'', JObj (ps_normalizedIntent s)),
      (''dependencies'', JArr (map JStr (ps_dependencies s))),
      (''preconditions'', JArr (map precondition_json (ps_preconditions s))),
      (''expectedEffects'', JArr (map effect_json (ps_expectedEffects s))),
      (''timeoutMs'', j_int (ps_timeoutMs s)),
      (''authorizationRequirement'',
        JObj [(''disposition'', JStr (disposition_text (areq_disposition (ps_authorizationRequirement s)))),
              (''valueUsdCents'', j_nullable j_int (areq_valueUsdCents (ps_authorizationRequirement s)))])]"

definition planIdentity :: "execution_plan \<Rightarrow> json" where
  "planIdentity p =
    JObj [(''schemaVersion'', JStr EXECUTION_PLAN_VERSION), (''planId'', JStr (ep_planId p)),
      (''revision'', j_int (ep_revision p)), (''strategyId'', JStr (ep_strategyId p)),
      (''organizationId'', j_nullable JStr (ep_organizationId p)), (''sourceChainId'', j_int (ep_sourceChainId p)),
      (''invariants'', JArr (map (\<lambda>(i, t). JObj [(''id'', JStr i), (''statement'', JStr t)]) (ep_invariants p))),
      (''timeoutPolicy'', JObj [(''totalMs'', j_int (ep_totalMs p)), (''perStepDefaultMs'', j_int (ep_perStepDefaultMs p))]),
      (''failurePolicy'',
        JObj [(''onStepFailure'', JStr (on_step_failure_text (fp_onStepFailure (ep_failurePolicy p)))),
              (''maxRetries'', j_int (fp_maxRetries (ep_failurePolicy p))),
              (''protocolRefundAvailable'', JBool (fp_protocolRefundAvailable (ep_failurePolicy p)))]),
      (''completionPolicy'', JObj [(''requiredStepIds'', JArr (map JStr (ep_requiredStepIds p)))]),
      (''steps'', JArr (map stepIdentity (ep_steps p)))]"

definition find_step :: "execution_plan \<Rightarrow> string \<Rightarrow> plan_step option" where
  "find_step p i = find (\<lambda>s. ps_stepId s = i) (ep_steps p)"

definition planHash :: "viem \<Rightarrow> (jsnum \<Rightarrow> string) \<Rightarrow> execution_plan \<Rightarrow> hex" where
  "planHash v num p = keccak_text v (canonicalize num (planIdentity p))"

definition step_binding :: "viem \<Rightarrow> (jsnum \<Rightarrow> string) \<Rightarrow> execution_plan \<Rightarrow> plan_step \<Rightarrow> string \<Rightarrow> json" where
  "step_binding v num p s i =
    JObj [(''planHash'', JStr (planHash v num p)), (''stepId'', JStr i), (''step'', stepIdentity s)]"

text \<open>None is the error \<open>PLAN-HASH-NO-STEP\<close>.\<close>

definition stepHash :: "viem \<Rightarrow> (jsnum \<Rightarrow> string) \<Rightarrow> execution_plan \<Rightarrow> string \<Rightarrow> hex option" where
  "stepHash v num p i =
    (case find_step p i of
       None \<Rightarrow> None
     | Some s \<Rightarrow> Some (keccak_text v (canonicalize num (step_binding v num p s i))))"

definition capabilityScopeFor :: "viem \<Rightarrow> (jsnum \<Rightarrow> string) \<Rightarrow> execution_plan \<Rightarrow> string \<Rightarrow> string option" where
  "capabilityScopeFor v num p i =
    (case (find_step p i, stepHash v num p i) of
       (Some s, Some h) \<Rightarrow>
         Some (''contextlock:plan:'' @ planHash v num p @ '':step:'' @ i @ '':chain:'' @
           show_int (ps_chainId s) @ '':hash:'' @ h)
     | _ \<Rightarrow> None)"

section \<open>The step gate and the plan state (machine.ts)\<close>

datatype plan_reason =
    DEPENDENCY_NOT_SATISFIED | STEP_NOT_AUTHORIZED | SCOPE_MISMATCH | PLAN_MUTATED | UNKNOWN_STEP
  | STEP_NOT_PENDING | STEP_TIMED_OUT | HUMAN_APPROVAL_REQUIRED | STEP_DENIED | UNKNOWN_VALUE

datatype plan_error = PlanError plan_reason | PlanGuard network_guard_error | PlanHashError

definition stepOf :: "execution_plan \<Rightarrow> string \<Rightarrow> plan_error + plan_step" where
  "stepOf p i = (case find_step p i of None \<Rightarrow> Inl (PlanError UNKNOWN_STEP) | Some s \<Rightarrow> Inr s)"

definition missing_dependencies :: "execution_plan \<Rightarrow> plan_step \<Rightarrow> string list" where
  "missing_dependencies p s =
    filter (\<lambda>d. case find_step p d of None \<Rightarrow> True | Some dep \<Rightarrow> ps_status dep \<noteq> CONFIRMED) (ps_dependencies s)"

text \<open>The missing dependencies; the empty list is \<open>ok\<close>.\<close>

definition dependenciesSatisfied :: "execution_plan \<Rightarrow> string \<Rightarrow> plan_error + string list" where
  "dependenciesSatisfied p i = res_bind (stepOf p i) (\<lambda>s. Inr (missing_dependencies p s))"

record step_authorization =
  sa_capabilityScope :: string
  sa_humanApproved :: bool

definition assertStepExecutable ::
  "viem \<Rightarrow> (jsnum \<Rightarrow> string) \<Rightarrow> execution_plan \<Rightarrow> string \<Rightarrow> step_authorization \<Rightarrow> int \<Rightarrow> int \<Rightarrow> plan_error + unit" where
  "assertStepExecutable v num p i auth nowMs startedAtMs =
    res_bind (stepOf p i) (\<lambda>step.
      case fenceWriteByChain EXECUTION_PLAN_VALIDATOR (ps_chainId step) None None of
        Inl e \<Rightarrow> Inl (PlanGuard e)
      | Inr _ \<Rightarrow>
          res_bind (ensure (ps_status step = PENDING \<or> ps_status step = AUTHORIZED) (PlanError STEP_NOT_PENDING)) (\<lambda>_.
          res_bind (ensure (missing_dependencies p step = []) (PlanError DEPENDENCY_NOT_SATISFIED)) (\<lambda>_.
          res_bind (ensure (nowMs - startedAtMs \<le> ps_timeoutMs step) (PlanError STEP_TIMED_OUT)) (\<lambda>_.
          let req = ps_authorizationRequirement step in
          res_bind (ensure (areq_disposition req \<noteq> DENY) (PlanError STEP_DENIED)) (\<lambda>_.
          res_bind (ensure (areq_valueUsdCents req \<noteq> None) (PlanError UNKNOWN_VALUE)) (\<lambda>_.
          res_bind (ensure (areq_disposition req \<noteq> REQUIRES_HUMAN \<or> sa_humanApproved auth)
                      (PlanError HUMAN_APPROVAL_REQUIRED)) (\<lambda>_.
          res_bind (ensure (sa_capabilityScope auth \<noteq> []) (PlanError STEP_NOT_AUTHORIZED)) (\<lambda>_.
          case capabilityScopeFor v num p i of
            None \<Rightarrow> Inl PlanHashError
          | Some expected \<Rightarrow>
              if sa_capabilityScope auth \<noteq> expected then
                (if \<exists>s \<in> set (ep_steps p). ps_stepId s \<noteq> i \<and>
                      capabilityScopeFor v num p (ps_stepId s) = Some (sa_capabilityScope auth)
                 then Inl (PlanError SCOPE_MISMATCH) else Inl (PlanError PLAN_MUTATED))
              else Inr ()))))))))"

fun map_result :: "('a \<Rightarrow> 'e + 'b) \<Rightarrow> 'a list \<Rightarrow> 'e + 'b list" where
  "map_result f [] = Inr []"
| "map_result f (x # xs) = res_bind (f x) (\<lambda>y. res_bind (map_result f xs) (\<lambda>ys. Inr (y # ys)))"

definition any_value_moved :: "execution_plan \<Rightarrow> bool" where
  "any_value_moved p \<longleftrightarrow>
     (\<exists>s \<in> set (ep_steps p). ps_status s = CONFIRMED \<and>
        (\<exists>e \<in> set (ps_expectedEffects s). ee_kind e = TOKEN_OUT \<or> ee_kind e = MESSAGE_DELIVERED))"

definition derivePlanState :: "execution_plan \<Rightarrow> plan_error + plan_state" where
  "derivePlanState p =
    res_bind (map_result (stepOf p) (ep_requiredStepIds p)) (\<lambda>required.
      let all = ep_steps p;
          has = (\<lambda>st. \<exists>s \<in> set all. ps_status s = st) in
      Inr (if \<forall>s \<in> set required. ps_status s = CONFIRMED then PLAN_COMPLETED
           else if has FAILED \<or> has TIMED_OUT then
             (if any_value_moved p then PLAN_PARTIAL
              else if has TIMED_OUT \<and> \<not> has FAILED then PLAN_TIMED_OUT else PLAN_STEP_FAILED)
           else if has WAITING_EXTERNAL then PLAN_WAITING_EXTERNAL
           else if has SUBMITTED then PLAN_STEP_SUBMITTED
           else if has CONFIRMED then PLAN_STEP_CONFIRMED
           else if \<forall>s \<in> set all. ps_status s = PENDING
           then (if ep_state p = PLAN_DRAFT then PLAN_DRAFT else PLAN_READY)
           else PLAN_STEP_PENDING))"

definition runnableSteps :: "execution_plan \<Rightarrow> plan_step list" where
  "runnableSteps p =
    filter (\<lambda>s. (ps_status s = PENDING \<or> ps_status s = AUTHORIZED) \<and>
      dependenciesSatisfied p (ps_stepId s) = Inr []) (ep_steps p)"

section \<open>Cross-chain arrivals (arrival.ts)\<close>

datatype arrival_reason =
    DUPLICATE | WRONG_SOURCE_CHAIN | WRONG_SENDER | WRONG_DESTINATION | WRONG_RECEIVER | TOKEN_MISMATCH
  | AMOUNT_MISMATCH | UNKNOWN_PLAN | ARRIVAL_UNKNOWN_STEP | STEP_HASH_MISMATCH | ARRIVAL_DEPENDENCY_NOT_SATISFIED

record wire =
  wi_sourceChainSelector :: string
  wi_sender :: string
  wi_destinationChainId :: int
  wi_receiver :: string
  wi_token :: string
  wi_amount :: string

record arrival_expectation =
  ae_planHash :: hex
  ae_stepId :: string
  ae_stepHash :: hex
  ae_sourceChainId :: int
  ae_wire :: wire

record observed_arrival =
  oa_messageId :: string
  oa_planHash :: hex
  oa_stepId :: string
  oa_stepHash :: hex
  oa_wire :: wire

datatype arrival_outcome = Accepted string | Refused arrival_reason

text \<open>The registry: the expectation each message id satisfied.\<close>

type_synonym arrival_registry = "string \<rightharpoonup> hex \<times> string"

definition eq_ci :: "string \<Rightarrow> string \<Rightarrow> bool" where
  "eq_ci a b \<longleftrightarrow> toLowerCase a = toLowerCase b"

definition expectationFor :: "viem \<Rightarrow> (jsnum \<Rightarrow> string) \<Rightarrow> execution_plan \<Rightarrow> string \<Rightarrow> wire \<Rightarrow> arrival_expectation option" where
  "expectationFor v num p i w =
    (case stepHash v num p i of
       None \<Rightarrow> None
     | Some h \<Rightarrow> Some \<lparr>ae_planHash = planHash v num p, ae_stepId = i, ae_stepHash = h,
                      ae_sourceChainId = ep_sourceChainId p, ae_wire = w\<rparr>)"

definition record_arrival ::
  "arrival_expectation \<Rightarrow> observed_arrival \<Rightarrow> arrival_registry \<Rightarrow> arrival_registry \<times> arrival_outcome" where
  "record_arrival e ob seen =
    (let w = ae_wire e; u = oa_wire ob in
     if seen (oa_messageId ob) \<noteq> None then (seen, Refused DUPLICATE)
     else if oa_planHash ob \<noteq> ae_planHash e then (seen, Refused UNKNOWN_PLAN)
     else if oa_stepId ob \<noteq> ae_stepId e then (seen, Refused ARRIVAL_UNKNOWN_STEP)
     else if oa_stepHash ob \<noteq> ae_stepHash e then (seen, Refused STEP_HASH_MISMATCH)
     else if wi_sourceChainSelector u \<noteq> wi_sourceChainSelector w then (seen, Refused WRONG_SOURCE_CHAIN)
     else if \<not> eq_ci (wi_sender u) (wi_sender w) then (seen, Refused WRONG_SENDER)
     else if wi_destinationChainId u \<noteq> wi_destinationChainId w then (seen, Refused WRONG_DESTINATION)
     else if \<not> eq_ci (wi_receiver u) (wi_receiver w) then (seen, Refused WRONG_RECEIVER)
     else if \<not> eq_ci (wi_token u) (wi_token w) then (seen, Refused TOKEN_MISMATCH)
     else if wi_amount u \<noteq> wi_amount w then (seen, Refused AMOUNT_MISMATCH)
     else (seen(oa_messageId ob \<mapsto> (oa_planHash ob, oa_stepId ob)), Accepted (oa_messageId ob)))"

text \<open>A sequence of arrivals: the outcomes in order.\<close>

fun record_all :: "(arrival_expectation \<times> observed_arrival) list \<Rightarrow> arrival_registry \<Rightarrow> arrival_registry \<times> arrival_outcome list" where
  "record_all [] seen = (seen, [])"
| "record_all ((e, ob) # rest) seen =
    (let (seen', out) = record_arrival e ob seen; (seen'', outs) = record_all rest seen' in (seen'', out # outs))"

section \<open>What a hash fixes\<close>

text \<open>Steps and plans that agree on everything but progress; intents up to the order of keys.\<close>

definition same_step :: "plan_step \<Rightarrow> plan_step \<Rightarrow> bool" where
  "same_step s t \<longleftrightarrow>
     ps_stepId s = ps_stepId t \<and> ps_chainId s = ps_chainId t \<and> ps_adapterId s = ps_adapterId t \<and>
     ps_adapterVersion s = ps_adapterVersion t \<and> ps_action s = ps_action t \<and>
     walk (JObj (ps_normalizedIntent s)) = walk (JObj (ps_normalizedIntent t)) \<and>
     ps_dependencies s = ps_dependencies t \<and> ps_preconditions s = ps_preconditions t \<and>
     ps_expectedEffects s = ps_expectedEffects t \<and> ps_timeoutMs s = ps_timeoutMs t \<and>
     areq_disposition (ps_authorizationRequirement s) = areq_disposition (ps_authorizationRequirement t) \<and>
     areq_valueUsdCents (ps_authorizationRequirement s) = areq_valueUsdCents (ps_authorizationRequirement t)"

definition same_plan :: "execution_plan \<Rightarrow> execution_plan \<Rightarrow> bool" where
  "same_plan p q \<longleftrightarrow>
     ep_planId p = ep_planId q \<and> ep_revision p = ep_revision q \<and> ep_strategyId p = ep_strategyId q \<and>
     ep_organizationId p = ep_organizationId q \<and> ep_sourceChainId p = ep_sourceChainId q \<and>
     list_all2 same_step (ep_steps p) (ep_steps q) \<and> ep_invariants p = ep_invariants q \<and>
     ep_totalMs p = ep_totalMs q \<and> ep_perStepDefaultMs p = ep_perStepDefaultMs q \<and>
     ep_failurePolicy p = ep_failurePolicy q \<and> ep_requiredStepIds p = ep_requiredStepIds q"

lemma effect_kind_text_inject [simp]: "effect_kind_text a = effect_kind_text b \<longleftrightarrow> a = b"
  by (cases a; cases b) simp_all

lemma precondition_kind_text_inject [simp]: "precondition_kind_text a = precondition_kind_text b \<longleftrightarrow> a = b"
  by (cases a; cases b) simp_all

lemma disposition_text_inject [simp]: "disposition_text a = disposition_text b \<longleftrightarrow> a = b"
  by (cases a; cases b) simp_all

lemma on_step_failure_text_inject [simp]: "on_step_failure_text a = on_step_failure_text b \<longleftrightarrow> a = b"
  by (cases a; cases b) simp_all

lemma effect_json_inject:
  assumes "walk (effect_json e) = walk (effect_json f)"
  shows "e = f"
proof -
  have d: "distinct (map fst ([(''kind'', a), (''chainId'', b)] @
      j_opt ''token'' JStr (ee_token g) @ j_opt ''amount'' JStr (ee_amount g) @ j_opt ''party'' JStr (ee_party g)))" for a b g
    by (auto simp: j_opt_def split: option.splits)
  note fields = walk_object_fields [OF assms [unfolded effect_json_def] d d]
  have "ee_kind e = ee_kind f" using fields [of "''kind''"] by (simp add: map_add_def)
  moreover have "ee_chainId e = ee_chainId f" using fields [of "''chainId''"] by (simp add: map_add_def)
  moreover have "ee_token e = ee_token f" using fields [of "''token''"] by (intro map_option_walk_inject [of JStr]) (auto simp: map_add_def split: option.splits)
  moreover have "ee_amount e = ee_amount f" using fields [of "''amount''"] by (intro map_option_walk_inject [of JStr]) (auto simp: map_add_def split: option.splits)
  moreover have "ee_party e = ee_party f" using fields [of "''party''"] by (intro map_option_walk_inject [of JStr]) (auto simp: map_add_def split: option.splits)
  ultimately show ?thesis by simp
qed

lemma precondition_json_inject:
  assumes "walk (precondition_json e) = walk (precondition_json f)"
  shows "e = f"
proof -
  have d: "distinct (map fst ([(''kind'', a)] @ j_opt ''stepId'' JStr (pc_stepId g) @ j_opt ''token'' JStr (pc_token g) @
      j_opt ''amount'' JStr (pc_amount g) @ j_opt ''unixSeconds'' j_int (pc_unixSeconds g)))" for a g
    by (auto simp: j_opt_def split: option.splits)
  note fields = walk_object_fields [OF assms [unfolded precondition_json_def] d d]
  have "pc_kind e = pc_kind f" using fields [of "''kind''"] by (simp add: map_add_def)
  moreover have "pc_stepId e = pc_stepId f" using fields [of "''stepId''"] by (intro map_option_walk_inject [of JStr]) (auto simp: map_add_def split: option.splits)
  moreover have "pc_token e = pc_token f" using fields [of "''token''"] by (intro map_option_walk_inject [of JStr]) (auto simp: map_add_def split: option.splits)
  moreover have "pc_amount e = pc_amount f" using fields [of "''amount''"] by (intro map_option_walk_inject [of JStr]) (auto simp: map_add_def split: option.splits)
  moreover have "pc_unixSeconds e = pc_unixSeconds f"
    using fields [of "''unixSeconds''"] by (intro map_option_walk_inject [of j_int]) (auto simp: map_add_def split: option.splits)
  ultimately show ?thesis by simp
qed

text \<open>A step's identity, sorted, determines the step up to progress.\<close>

lemma stepIdentity_binds:
  assumes "walk (stepIdentity s) = walk (stepIdentity t)"
  shows "same_step s t"
proof -
  note field = field_eq [OF assms [unfolded stepIdentity_def]]
  note fields = walk_object_fields [OF assms [unfolded stepIdentity_def]]
  have auth: "walk (JObj [(''disposition'', JStr (disposition_text (areq_disposition (ps_authorizationRequirement s)))),
        (''valueUsdCents'', j_nullable j_int (areq_valueUsdCents (ps_authorizationRequirement s)))]) =
      walk (JObj [(''disposition'', JStr (disposition_text (areq_disposition (ps_authorizationRequirement t)))),
        (''valueUsdCents'', j_nullable j_int (areq_valueUsdCents (ps_authorizationRequirement t)))])"
    by (rule field [of "''authorizationRequirement''"]) simp_all
  have lists: "walk (JArr (map precondition_json (ps_preconditions s))) = walk (JArr (map precondition_json (ps_preconditions t)))"
    "walk (JArr (map effect_json (ps_expectedEffects s))) = walk (JArr (map effect_json (ps_expectedEffects t)))"
    by (rule field [of "''preconditions''"]; simp) (rule field [of "''expectedEffects''"]; simp)
  then have "ps_preconditions s = ps_preconditions t" "ps_expectedEffects s = ps_expectedEffects t"
    by (auto intro: walked_list_inject [of precondition_json, OF precondition_json_inject]
        walked_list_inject [of effect_json, OF effect_json_inject])
  moreover have "walk (JObj (ps_normalizedIntent s)) = walk (JObj (ps_normalizedIntent t))"
    by (rule field [of "''normalizedIntent''"]) simp_all
  moreover have "areq_disposition (ps_authorizationRequirement s) = areq_disposition (ps_authorizationRequirement t)"
    using walk_object_fields [OF auth, of "''disposition''"] by simp
  moreover have "areq_valueUsdCents (ps_authorizationRequirement s) = areq_valueUsdCents (ps_authorizationRequirement t)"
    using walk_object_fields [OF auth, of "''valueUsdCents''"] by simp
  ultimately show ?thesis
    using fields [of "''stepId''"] fields [of "''chainId''"] fields [of "''adapterId''"] fields [of "''adapterVersion''"]
      fields [of "''action''"] fields [of "''dependencies''"] fields [of "''timeoutMs''"]
    by (simp add: same_step_def)
qed

lemma planIdentity_binds:
  assumes "walk (planIdentity p) = walk (planIdentity q)"
  shows "same_plan p q"
proof -
  note field = field_eq [OF assms [unfolded planIdentity_def]]
  note fields = walk_object_fields [OF assms [unfolded planIdentity_def]]
  have steps: "walk (JArr (map stepIdentity (ep_steps p))) = walk (JArr (map stepIdentity (ep_steps q)))"
    by (rule field [of "''steps''"]) simp_all
  then have "map (walk \<circ> stepIdentity) (ep_steps p) = map (walk \<circ> stepIdentity) (ep_steps q)" by simp
  then have "list_all2 same_step (ep_steps p) (ep_steps q)"
    by (auto simp: list_all2_conv_all_nth list_eq_iff_nth_eq intro: stepIdentity_binds)
  moreover have "ep_totalMs p = ep_totalMs q \<and> ep_perStepDefaultMs p = ep_perStepDefaultMs q"
  proof -
    have w: "walk (JObj [(''totalMs'', j_int (ep_totalMs p)), (''perStepDefaultMs'', j_int (ep_perStepDefaultMs p))]) =
        walk (JObj [(''totalMs'', j_int (ep_totalMs q)), (''perStepDefaultMs'', j_int (ep_perStepDefaultMs q))])"
      by (rule field [of "''timeoutPolicy''"]) simp_all
    show ?thesis using walk_object_fields [OF w, of "''totalMs''"] walk_object_fields [OF w, of "''perStepDefaultMs''"] by simp
  qed
  moreover have "ep_failurePolicy p = ep_failurePolicy q"
  proof -
    have w: "walk (JObj [(''onStepFailure'', JStr (on_step_failure_text (fp_onStepFailure (ep_failurePolicy p)))),
          (''maxRetries'', j_int (fp_maxRetries (ep_failurePolicy p))),
          (''protocolRefundAvailable'', JBool (fp_protocolRefundAvailable (ep_failurePolicy p)))]) =
        walk (JObj [(''onStepFailure'', JStr (on_step_failure_text (fp_onStepFailure (ep_failurePolicy q)))),
          (''maxRetries'', j_int (fp_maxRetries (ep_failurePolicy q))),
          (''protocolRefundAvailable'', JBool (fp_protocolRefundAvailable (ep_failurePolicy q)))])"
      by (rule field [of "''failurePolicy''"]) simp_all
    show ?thesis
      using walk_object_fields [OF w, of "''onStepFailure''"] walk_object_fields [OF w, of "''maxRetries''"]
        walk_object_fields [OF w, of "''protocolRefundAvailable''"] by simp
  qed
  moreover have "ep_requiredStepIds p = ep_requiredStepIds q"
    using fields [of "''completionPolicy''"] by simp
  moreover have "ep_invariants p = ep_invariants q"
  proof -
    let ?f = "\<lambda>(i, t). JObj [(''id'', JStr i), (''statement'', JStr t)]"
    have "walk (JArr (map ?f (ep_invariants p))) = walk (JArr (map ?f (ep_invariants q)))"
      by (rule field [of "''invariants''"]) simp_all
    moreover have "a = b" if "walk (?f a) = walk (?f b)" for a b
      using walk_object_fields [OF that [unfolded split_beta], of "''id''"] walk_object_fields [OF that [unfolded split_beta], of "''statement''"]
      by (simp add: prod_eq_iff)
    ultimately show ?thesis by (intro walked_list_inject [of ?f]) auto
  qed
  ultimately show ?thesis
    using fields [of "''planId''"] fields [of "''revision''"] fields [of "''strategyId''"] fields [of "''organizationId''"]
      fields [of "''sourceChainId''"]
    by (simp add: same_plan_def)
qed

section \<open>Properties\<close>

definition plan_finite :: "execution_plan \<Rightarrow> bool" where
  "plan_finite p \<longleftrightarrow> (\<forall>s \<in> set (ep_steps p). json_finite (JObj (ps_normalizedIntent s)))"

lemma stepIdentity_finite: "json_finite (JObj (ps_normalizedIntent s)) \<Longrightarrow> json_finite (stepIdentity s)"
  by (auto simp: stepIdentity_def precondition_json_def effect_json_def j_opt_def split: option.splits)

lemma planIdentity_finite: "plan_finite p \<Longrightarrow> json_finite (planIdentity p)"
  by (auto simp: planIdentity_def plan_finite_def stepIdentity_finite)

lemma stepIdentity_same: "same_step s t \<Longrightarrow> walk (stepIdentity s) = walk (stepIdentity t)"
  unfolding stepIdentity_def walk.simps(2) by (simp add: same_step_def)

lemma planIdentity_same:
  assumes "same_plan p q"
  shows "walk (planIdentity p) = walk (planIdentity q)"
proof -
  have "map (walk \<circ> stepIdentity) (ep_steps p) = map (walk \<circ> stepIdentity) (ep_steps q)"
    using assms stepIdentity_same
    by (auto simp: same_plan_def list_all2_conv_all_nth list_eq_iff_nth_eq)
  with assms show ?thesis
    unfolding planIdentity_def walk.simps(2) by (simp add: same_plan_def)
qed

text \<open>
  C37: A plan hash is the identity of what would execute, no more and no less: if the hash function
  does not collide on the two texts, two plans have the same hash if and only if they agree on every
  field but progress (step status, minted scopes, plan state). So running a plan never invalidates
  its own approval, and any other change does.
\<close>

theorem plan_hash_is_identity:
  assumes "number_text num" "plan_finite p" "plan_finite q"
    and "inj_on (keccak_text v) {canonicalize num (planIdentity p), canonicalize num (planIdentity q)}"
  shows "planHash v num p = planHash v num q \<longleftrightarrow> same_plan p q"
proof
  assume eq: "planHash v num p = planHash v num q"
  have "canonicalize num (planIdentity p) = canonicalize num (planIdentity q)"
    by (rule inj_onD [OF assms(4) eq [unfolded planHash_def]]) simp_all
  from canonicalize_injective [OF assms(1) planIdentity_finite [OF assms(2)] planIdentity_finite [OF assms(3)] this]
  show "same_plan p q" by (rule planIdentity_binds)
next
  assume "same_plan p q"
  then show "planHash v num p = planHash v num q"
    by (simp add: planHash_def canonicalize_def planIdentity_same)
qed

text \<open>The texts of a plan that are hashed.\<close>

definition plan_texts :: "viem \<Rightarrow> (jsnum \<Rightarrow> string) \<Rightarrow> execution_plan \<Rightarrow> string set" where
  "plan_texts v num p = insert (canonicalize num (planIdentity p))
     ((\<lambda>s. canonicalize num (step_binding v num p s (ps_stepId s))) ` set (ep_steps p))"

lemma find_step_Some: "find_step p i = Some s \<Longrightarrow> s \<in> set (ep_steps p) \<and> ps_stepId s = i"
  by (auto simp: find_step_def find_Some_iff)

lemma equal_suffix: "xs @ h = ys @ k \<Longrightarrow> length h = length k \<Longrightarrow> h = k"
  by (simp add: append_eq_append_conv)

lemma scope_parts:
  assumes width: "\<And>t. length (keccak_text v t) = 66"
    and "capabilityScopeFor v num p a = Some x" "capabilityScopeFor v num q b = Some x"
  shows "planHash v num p = planHash v num q \<and> stepHash v num p a = stepHash v num q b"
proof -
  obtain s h where p: "find_step p a = Some s" "stepHash v num p a = Some h"
    "x = ''contextlock:plan:'' @ planHash v num p @ '':step:'' @ a @ '':chain:'' @ show_int (ps_chainId s) @ '':hash:'' @ h"
    using assms(2) by (auto simp: capabilityScopeFor_def split: option.splits)
  obtain t k where q: "find_step q b = Some t" "stepHash v num q b = Some k"
    "x = ''contextlock:plan:'' @ planHash v num q @ '':step:'' @ b @ '':chain:'' @ show_int (ps_chainId t) @ '':hash:'' @ k"
    using assms(3) by (auto simp: capabilityScopeFor_def split: option.splits)
  have len: "length (planHash v num p) = 66" "length (planHash v num q) = 66" "length h = 66" "length k = 66"
    using p q width by (auto simp: planHash_def stepHash_def)
  have "take 66 (drop 17 x) = planHash v num p" "take 66 (drop 17 x) = planHash v num q"
    by (simp add: p(3) len, simp add: q(3) len)
  moreover have "h = k"
  proof (rule equal_suffix)
    show "(''contextlock:plan:'' @ planHash v num p @ '':step:'' @ a @ '':chain:'' @ show_int (ps_chainId s) @ '':hash:'') @ h =
        (''contextlock:plan:'' @ planHash v num q @ '':step:'' @ b @ '':chain:'' @ show_int (ps_chainId t) @ '':hash:'') @ k"
      using p(3) q(3) by simp
  qed (simp add: len)
  ultimately show ?thesis using p q by metis
qed

lemma scope_binds:
  assumes num: "number_text num" and width: "\<And>t. length (keccak_text v t) = 66" and fin: "plan_finite p" "plan_finite q"
    and inj: "inj_on (keccak_text v) (plan_texts v num p \<union> plan_texts v num q)"
    and scopes: "capabilityScopeFor v num p a = Some x" "capabilityScopeFor v num q b = Some x"
  shows "a = b \<and> same_plan p q"
proof -
  note parts = scope_parts [OF width scopes]
  have "canonicalize num (planIdentity p) = canonicalize num (planIdentity q)"
    by (rule inj_onD [OF inj parts [THEN conjunct1, unfolded planHash_def]]) (simp_all add: plan_texts_def)
  from canonicalize_injective [OF num planIdentity_finite [OF fin(1)] planIdentity_finite [OF fin(2)] this]
  have same: "same_plan p q" by (rule planIdentity_binds)
  obtain s t where s: "find_step p a = Some s" and t: "find_step q b = Some t"
    using scopes by (auto simp: capabilityScopeFor_def split: option.splits)
  note mem = find_step_Some [OF s] find_step_Some [OF t]
  let ?S = "step_binding v num p s a" and ?T = "step_binding v num q t b"
  have "keccak_text v (canonicalize num ?S) = keccak_text v (canonicalize num ?T)"
    using parts s t by (simp add: stepHash_def)
  moreover have "canonicalize num ?S \<in> plan_texts v num p" "canonicalize num ?T \<in> plan_texts v num q"
    using mem by (auto simp: plan_texts_def)
  ultimately have "canonicalize num ?S = canonicalize num ?T"
    using inj by (auto dest: inj_onD)
  moreover have "json_finite ?S" "json_finite ?T"
    using fin mem by (auto simp: step_binding_def plan_finite_def intro!: stepIdentity_finite)
  ultimately have "walk ?S = walk ?T" using canonicalize_injective [OF num] by blast
  from walk_object_fields [OF this [unfolded step_binding_def], of "''stepId''"] have "a = b" by simp
  with same show ?thesis by simp
qed

lemma step_executable_iff:
  "assertStepExecutable v num p i auth nowMs startedAtMs = Inr () \<longleftrightarrow>
     (\<exists>s. find_step p i = Some s \<and> ps_chainId s \<in> {11155111, 84532, 31337} \<and>
       ps_status s \<in> {PENDING, AUTHORIZED} \<and>
       (\<forall>d \<in> set (ps_dependencies s). \<exists>dep. find_step p d = Some dep \<and> ps_status dep = CONFIRMED) \<and>
       nowMs - startedAtMs \<le> ps_timeoutMs s \<and>
       areq_disposition (ps_authorizationRequirement s) \<noteq> DENY \<and>
       areq_valueUsdCents (ps_authorizationRequirement s) \<noteq> None \<and>
       (areq_disposition (ps_authorizationRequirement s) = REQUIRES_HUMAN \<longrightarrow> sa_humanApproved auth) \<and>
       capabilityScopeFor v num p i = Some (sa_capabilityScope auth))"
proof (cases "find_step p i")
  case None
  then show ?thesis by (simp add: assertStepExecutable_def stepOf_def)
next
  case (Some s)
  have deps: "missing_dependencies p s = [] \<longleftrightarrow>
      (\<forall>d \<in> set (ps_dependencies s). \<exists>dep. find_step p d = Some dep \<and> ps_status dep = CONFIRMED)"
    by (auto simp: missing_dependencies_def filter_empty_conv split: option.splits)
  have scope: "capabilityScopeFor v num p i = Some x \<Longrightarrow> x \<noteq> []" for x
    by (auto simp: capabilityScopeFor_def split: option.splits)
  show ?thesis
  proof (cases "fenceWriteByChain EXECUTION_PLAN_VALIDATOR (ps_chainId s) None None")
    case (Inl e)
    then have "ps_chainId s \<notin> {11155111, 84532, 31337}"
      using fence_by_chain_passes [of EXECUTION_PLAN_VALIDATOR "ps_chainId s" None None] by auto
    with Some Inl show ?thesis by (simp add: assertStepExecutable_def stepOf_def)
  next
    case (Inr u)
    then have "ps_chainId s \<in> {11155111, 84532, 31337}"
      using fence_by_chain_passes [of EXECUTION_PLAN_VALIDATOR "ps_chainId s" None None] by auto
    with Some Inr scope show ?thesis
      by (auto simp: assertStepExecutable_def stepOf_def res_bind_Inr_iff Let_def deps split: option.splits if_splits)
  qed
qed

interpretation plan_fence: fenced_operation "\<lambda>p. assertStepExecutable v num p i auth nowMs startedAtMs"
  "\<lambda>p. case find_step p i of None \<Rightarrow> 0 | Some s \<Rightarrow> ps_chainId s" EXECUTION_PLAN_VALIDATOR
  for v num i auth nowMs startedAtMs
  by unfold_locales (auto simp: step_executable_iff fence_by_chain_passes)

text \<open>
  A step executes exactly when it is pending or authorized on an execution network, every
  dependency is CONFIRMED (submitted is not arrived), its time has not run out, it is not denied, its
  value is known, a required human approval is there, and the presented scope is the one the current
  plan derives for this very step.
\<close>

theorem step_gate_exact:
  "assertStepExecutable v num p i auth nowMs startedAtMs = Inr () \<longleftrightarrow>
     (\<exists>s. find_step p i = Some s \<and> ps_chainId s \<in> {11155111, 84532, 31337} \<and>
       ps_status s \<in> {PENDING, AUTHORIZED} \<and>
       (\<forall>d \<in> set (ps_dependencies s). \<exists>dep. find_step p d = Some dep \<and> ps_status dep = CONFIRMED) \<and>
       nowMs - startedAtMs \<le> ps_timeoutMs s \<and>
       areq_disposition (ps_authorizationRequirement s) \<noteq> DENY \<and>
       areq_valueUsdCents (ps_authorizationRequirement s) \<noteq> None \<and>
       (areq_disposition (ps_authorizationRequirement s) = REQUIRES_HUMAN \<longrightarrow> sa_humanApproved auth) \<and>
       capabilityScopeFor v num p i = Some (sa_capabilityScope auth))"
  by (rule step_executable_iff)

text \<open>
  A step capability is not portable: if the hash function is 32 bytes wide and does not collide
  on the texts of the two plans, an authorization accepted for a step of one plan is accepted for
  a step of another only if it is the same step id and the plans agree on everything that executes.
\<close>

theorem step_capability_not_portable:
  assumes "number_text num" "\<And>t. length (keccak_text v t) = 66" "plan_finite p" "plan_finite q"
    and "inj_on (keccak_text v) (plan_texts v num p \<union> plan_texts v num q)"
    and "assertStepExecutable v num p a auth now start = Inr ()"
    and "assertStepExecutable v num q b auth now' start' = Inr ()"
  shows "a = b \<and> same_plan p q"
  using scope_binds [OF assms(1-5)] assms(6,7) by (auto simp: step_executable_iff)

lemma map_result_Inr: "map_result f xs = Inr ys \<longleftrightarrow> length ys = length xs \<and> (\<forall>i < length xs. f (xs ! i) = Inr (ys ! i))"
proof (induction xs arbitrary: ys)
  case (Cons x xs)
  then show ?case
    by (cases ys) (auto simp: res_bind_Inr_iff nth_Cons split: nat.splits)
qed auto

lemma map_result_total: "(\<forall>x \<in> set xs. \<exists>y. f x = Inr y) \<Longrightarrow> \<exists>ys. map_result f xs = Inr ys"
  by (induction xs) auto

text \<open>
  The headline of a plan matches its steps: when every required step exists the state is defined,
  it is COMPLETED exactly when every required step is CONFIRMED, and a plan that already moved value
  and then had a step fail or time out is PARTIAL, never reported as merely failed or timed out.
\<close>

theorem plan_state_is_honest:
  assumes "\<forall>i \<in> set (ep_requiredStepIds p). find_step p i \<noteq> None"
  shows "\<exists>st. derivePlanState p = Inr st \<and>
    (st = PLAN_COMPLETED \<longleftrightarrow> (\<forall>i \<in> set (ep_requiredStepIds p). \<exists>s. find_step p i = Some s \<and> ps_status s = CONFIRMED)) \<and>
    (st \<in> {PLAN_STEP_FAILED, PLAN_TIMED_OUT} \<longrightarrow> \<not> any_value_moved p) \<and>
    (st \<in> {PLAN_PARTIAL, PLAN_STEP_FAILED, PLAN_TIMED_OUT} \<longrightarrow>
       (\<exists>s \<in> set (ep_steps p). ps_status s \<in> {FAILED, TIMED_OUT}))"
proof -
  obtain req where req: "map_result (stepOf p) (ep_requiredStepIds p) = Inr req"
  proof -
    have "\<forall>i \<in> set (ep_requiredStepIds p). \<exists>s. stepOf p i = Inr s"
      using assms by (auto simp: stepOf_def)
    from map_result_total [OF this] show thesis using that by blast
  qed
  then have nth: "length req = length (ep_requiredStepIds p)"
    "\<And>k. k < length (ep_requiredStepIds p) \<Longrightarrow> find_step p (ep_requiredStepIds p ! k) = Some (req ! k)"
    by (auto simp: map_result_Inr stepOf_def split: option.splits)
  have all: "(\<forall>s \<in> set req. ps_status s = CONFIRMED) \<longleftrightarrow>
      (\<forall>i \<in> set (ep_requiredStepIds p). \<exists>s. find_step p i = Some s \<and> ps_status s = CONFIRMED)"
    using nth by (auto simp: all_set_conv_all_nth)
  show ?thesis
    by (auto simp: derivePlanState_def req Let_def simp flip: all)
qed

definition arrival_matches :: "arrival_expectation \<Rightarrow> observed_arrival \<Rightarrow> bool" where
  "arrival_matches e ob \<longleftrightarrow>
     oa_planHash ob = ae_planHash e \<and> oa_stepId ob = ae_stepId e \<and> oa_stepHash ob = ae_stepHash e \<and>
     wi_sourceChainSelector (oa_wire ob) = wi_sourceChainSelector (ae_wire e) \<and>
     wi_destinationChainId (oa_wire ob) = wi_destinationChainId (ae_wire e) \<and>
     wi_amount (oa_wire ob) = wi_amount (ae_wire e) \<and>
     toLowerCase (wi_sender (oa_wire ob)) = toLowerCase (wi_sender (ae_wire e)) \<and>
     toLowerCase (wi_receiver (oa_wire ob)) = toLowerCase (wi_receiver (ae_wire e)) \<and>
     toLowerCase (wi_token (oa_wire ob)) = toLowerCase (wi_token (ae_wire e))"

lemma record_arrival_cases:
  "(arrival_matches e ob \<and> seen (oa_messageId ob) = None \<and>
      record_arrival e ob seen = (seen(oa_messageId ob \<mapsto> (oa_planHash ob, oa_stepId ob)), Accepted (oa_messageId ob))) \<or>
   (\<not> (arrival_matches e ob \<and> seen (oa_messageId ob) = None) \<and> (\<exists>r. record_arrival e ob seen = (seen, Refused r)))"
  by (cases "seen (oa_messageId ob)") (auto simp: record_arrival_def arrival_matches_def eq_ci_def Let_def)

definition accepted_ids :: "arrival_outcome list \<Rightarrow> string list" where
  "accepted_ids outs = concat (map (\<lambda>x. case x of Accepted m \<Rightarrow> [m] | Refused r \<Rightarrow> []) outs)"

lemma record_all_fresh:
  "record_all xs seen = (seen', outs) \<Longrightarrow>
     distinct (accepted_ids outs) \<and> set (accepted_ids outs) \<inter> dom seen = {} \<and> length outs = length xs \<and>
     dom seen' = dom seen \<union> set (accepted_ids outs) \<and>
     (\<forall>k < length xs. \<forall>m. outs ! k = Accepted m \<longrightarrow> m = oa_messageId (snd (xs ! k)) \<and> arrival_matches (fst (xs ! k)) (snd (xs ! k)))"
proof (induction xs arbitrary: seen outs)
  case Nil
  then show ?case by (simp add: accepted_ids_def)
next
  case (Cons x xs)
  obtain e ob where x: "x = (e, ob)" by (cases x)
  obtain s1 out where r: "record_arrival e ob seen = (s1, out)" by (cases "record_arrival e ob seen")
  obtain outs' where rest: "record_all xs s1 = (seen', outs')" and outs: "outs = out # outs'"
    using Cons.prems by (auto simp: x r split: prod.splits)
  note IH = Cons.IH [OF rest]
  from record_arrival_cases [of e ob seen] show ?case
  proof
    assume "arrival_matches e ob \<and> seen (oa_messageId ob) = None \<and>
      record_arrival e ob seen = (seen(oa_messageId ob \<mapsto> (oa_planHash ob, oa_stepId ob)), Accepted (oa_messageId ob))"
    with r IH outs x show ?thesis
      by (auto simp: accepted_ids_def nth_Cons dom_def split: nat.splits)
  next
    assume "\<not> (arrival_matches e ob \<and> seen (oa_messageId ob) = None) \<and> (\<exists>r. record_arrival e ob seen = (seen, Refused r))"
    with r IH outs x show ?thesis
      by (auto simp: accepted_ids_def nth_Cons split: nat.splits)
  qed
qed

text \<open>
  One cross-chain message funds one execution: in any sequence of arrivals no message id is
  accepted twice, and an accepted message matches the plan's own expectation on plan, step, step
  content, source chain, destination chain and amount exactly, and on sender, receiver and token up
  to letter case.
\<close>

theorem arrivals_fund_once:
  assumes "record_all xs Map.empty = (seen, outs)"
  shows "distinct (accepted_ids outs) \<and> dom seen = set (accepted_ids outs) \<and> length outs = length xs \<and>
    (\<forall>k < length xs. \<forall>m. outs ! k = Accepted m \<longrightarrow>
       m = oa_messageId (snd (xs ! k)) \<and> arrival_matches (fst (xs ! k)) (snd (xs ! k)))"
  using record_all_fresh [OF assms] by simp

section \<open>Witnesses\<close>

definition sample_step :: plan_step where
  "sample_step =
    \<lparr>ps_stepId = ''bridge'', ps_chainId = 11155111, ps_adapterId = ''ccip'', ps_adapterVersion = ''1.0.0'',
     ps_action = ''send'', ps_normalizedIntent = [(''amount'', JStr ''500'')], ps_dependencies = [],
     ps_preconditions = [], ps_expectedEffects = [], ps_timeoutMs = 60000,
     ps_authorizationRequirement =
       \<lparr>areq_disposition = AUTONOMOUS, areq_valueUsdCents = Some 50000, areq_capabilityScope = None\<rparr>,
     ps_status = PENDING\<rparr>"

definition sample_plan :: execution_plan where
  "sample_plan =
    \<lparr>ep_planId = ''plan-1'', ep_revision = 1, ep_strategyId = ''s'', ep_organizationId = None,
     ep_sourceChainId = 11155111, ep_steps = [sample_step], ep_invariants = [], ep_totalMs = 120000,
     ep_perStepDefaultMs = 60000,
     ep_failurePolicy = \<lparr>fp_onStepFailure = HOLD_AND_ESCALATE, fp_maxRetries = 0, fp_protocolRefundAvailable = False\<rparr>,
     ep_requiredStepIds = [''bridge''], ep_state = PLAN_READY\<rparr>"

text \<open>A hash of the right width that tells the plan text from the step text.\<close>

definition plan_viem :: viem where
  "plan_viem = sample_viem\<lparr>keccak_text :=
     (\<lambda>t. if t = canonicalize sample_num (planIdentity sample_plan) then hex_fill 64 (CHR ''a'') else hex_fill 64 (CHR ''b''))\<rparr>"

lemma plan_viem_width: "length (keccak_text plan_viem t) = 66"
  by (simp add: plan_viem_def hex_fill_def)

lemma sample_plan_finite: "plan_finite sample_plan"
  by (simp add: plan_finite_def sample_plan_def sample_step_def)

lemma step_text_not_plan_text:
  assumes "json_finite (stepIdentity s)"
  shows "canonicalize sample_num (step_binding v num p s i) \<noteq> canonicalize sample_num (planIdentity sample_plan)"
proof
  assume "canonicalize sample_num (step_binding v num p s i) = canonicalize sample_num (planIdentity sample_plan)"
  moreover have "json_finite (step_binding v num p s i)" using assms by (simp add: step_binding_def)
  ultimately have "walk (step_binding v num p s i) = walk (planIdentity sample_plan)"
    using canonicalize_injective [OF sample_number_text] planIdentity_finite [OF sample_plan_finite] by blast
  from walk_object_fields [OF this [unfolded step_binding_def planIdentity_def], of "''step''"] show False by simp
qed

lemma sample_texts_injective:
  "inj_on (keccak_text plan_viem) (plan_texts plan_viem sample_num sample_plan)"
proof -
  let ?T = "canonicalize sample_num (planIdentity sample_plan)"
  let ?U = "canonicalize sample_num (step_binding plan_viem sample_num sample_plan sample_step ''bridge'')"
  have "json_finite (stepIdentity sample_step)"
    by (rule stepIdentity_finite) (simp add: sample_step_def)
  then have ne: "?U \<noteq> ?T" by (rule step_text_not_plan_text)
  have texts: "plan_texts plan_viem sample_num sample_plan = {?T, ?U}"
    by (simp add: plan_texts_def) (simp add: sample_plan_def sample_step_def)
  have "keccak_text plan_viem ?T \<noteq> keccak_text plan_viem ?U"
    using ne by (simp add: plan_viem_def hex_fill_eq)
  then show ?thesis unfolding texts by (auto simp: inj_on_def)
qed

lemma sample_step_executable:
  "\<exists>auth. assertStepExecutable plan_viem sample_num sample_plan ''bridge'' auth 0 0 = Inr ()"
proof -
  have find: "find_step sample_plan ''bridge'' = Some sample_step"
    by (simp add: find_step_def sample_plan_def sample_step_def)
  then obtain x where "capabilityScopeFor plan_viem sample_num sample_plan ''bridge'' = Some x"
    by (simp add: capabilityScopeFor_def stepHash_def)
  with find have "assertStepExecutable plan_viem sample_num sample_plan ''bridge'' \<lparr>sa_capabilityScope = x, sa_humanApproved = False\<rparr> 0 0 = Inr ()"
    unfolding step_executable_iff by (simp add: sample_step_def)
  then show ?thesis ..
qed

theorem step_gate_exact_witness:
  "\<exists>auth. assertStepExecutable plan_viem sample_num sample_plan ''bridge'' auth 0 0 = Inr () \<and>
     capabilityScopeFor plan_viem sample_num sample_plan ''bridge'' = Some (sa_capabilityScope auth)"
proof -
  obtain auth where run: "assertStepExecutable plan_viem sample_num sample_plan ''bridge'' auth 0 0 = Inr ()"
    using sample_step_executable by blast
  from step_gate_exact [THEN iffD1, OF run] run show ?thesis by blast
qed

theorem step_capability_not_portable_witness:
  "\<exists>auth. assertStepExecutable plan_viem sample_num sample_plan ''bridge'' auth 0 0 = Inr () \<and> same_plan sample_plan sample_plan"
proof -
  obtain auth where run: "assertStepExecutable plan_viem sample_num sample_plan ''bridge'' auth 0 0 = Inr ()"
    using sample_step_executable by blast
  have "inj_on (keccak_text plan_viem) (plan_texts plan_viem sample_num sample_plan \<union> plan_texts plan_viem sample_num sample_plan)"
    using sample_texts_injective by simp
  from step_capability_not_portable [OF sample_number_text plan_viem_width sample_plan_finite sample_plan_finite this run run] run
  show ?thesis by blast
qed

theorem plan_hash_is_identity_witness:
  "planHash plan_viem sample_num sample_plan \<noteq> planHash plan_viem sample_num (sample_plan\<lparr>ep_revision := 2\<rparr>) \<and>
   planHash plan_viem sample_num sample_plan = planHash plan_viem sample_num (sample_plan\<lparr>ep_state := PLAN_PARTIAL\<rparr>)"
proof -
  let ?q = "sample_plan\<lparr>ep_revision := 2\<rparr>" and ?r = "sample_plan\<lparr>ep_state := PLAN_PARTIAL\<rparr>"
  have inj: "inj_on (keccak_text plan_viem) {canonicalize sample_num (planIdentity sample_plan), canonicalize sample_num (planIdentity q)}" for q
    by (auto simp: inj_on_def plan_viem_def hex_fill_eq)
  have fin: "plan_finite ?q" "plan_finite ?r" using sample_plan_finite by (simp_all add: plan_finite_def)
  have "list_all2 same_step (ep_steps sample_plan) (ep_steps sample_plan)"
    by (simp add: list_all2_same same_step_def)
  then have "same_plan sample_plan ?r" by (simp add: same_plan_def)
  moreover have "\<not> same_plan sample_plan ?q" by (simp add: same_plan_def sample_plan_def)
  ultimately show ?thesis
    using plan_hash_is_identity [OF sample_number_text sample_plan_finite fin(1) inj]
      plan_hash_is_identity [OF sample_number_text sample_plan_finite fin(2) inj] by blast
qed

theorem plan_state_is_honest_witness:
  "\<exists>st. derivePlanState (sample_plan\<lparr>ep_steps := [sample_step\<lparr>ps_status := CONFIRMED\<rparr>]\<rparr>) = Inr st \<and> st = PLAN_COMPLETED"
proof -
  let ?p = "sample_plan\<lparr>ep_steps := [sample_step\<lparr>ps_status := CONFIRMED\<rparr>]\<rparr>"
  have req: "ep_requiredStepIds ?p = [''bridge'']" and
    find: "find_step ?p ''bridge'' = Some (sample_step\<lparr>ps_status := CONFIRMED\<rparr>)"
    by (simp add: sample_plan_def, simp add: find_step_def sample_step_def)
  with plan_state_is_honest [of ?p] show ?thesis by (auto simp del: execution_plan.simps)
qed

definition sample_wire :: wire where
  "sample_wire = \<lparr>wi_sourceChainSelector = ''1'', wi_sender = ''0xAA'', wi_destinationChainId = 84532,
     wi_receiver = ''0xbb'', wi_token = ''0xcc'', wi_amount = ''500''\<rparr>"

theorem arrivals_fund_once_witness:
  "\<exists>seen outs. record_all [(\<lparr>ae_planHash = ''0x1'', ae_stepId = ''a'', ae_stepHash = ''0x2'', ae_sourceChainId = 1, ae_wire = sample_wire\<rparr>,
      \<lparr>oa_messageId = ''m'', oa_planHash = ''0x1'', oa_stepId = ''a'', oa_stepHash = ''0x2'', oa_wire = sample_wire\<rparr>),
     (\<lparr>ae_planHash = ''0x1'', ae_stepId = ''a'', ae_stepHash = ''0x2'', ae_sourceChainId = 1, ae_wire = sample_wire\<rparr>,
      \<lparr>oa_messageId = ''m'', oa_planHash = ''0x1'', oa_stepId = ''a'', oa_stepHash = ''0x2'', oa_wire = sample_wire\<rparr>)] Map.empty = (seen, outs) \<and>
     outs = [Accepted ''m'', Refused DUPLICATE] \<and> dom seen = {''m''}"
proof -
  let ?e = "\<lparr>ae_planHash = ''0x1'', ae_stepId = ''a'', ae_stepHash = ''0x2'', ae_sourceChainId = 1, ae_wire = sample_wire\<rparr>"
  let ?o = "\<lparr>oa_messageId = ''m'', oa_planHash = ''0x1'', oa_stepId = ''a'', oa_stepHash = ''0x2'', oa_wire = sample_wire\<rparr>"
  obtain seen where run: "record_all [(?e, ?o), (?e, ?o)] Map.empty = (seen, [Accepted ''m'', Refused DUPLICATE])"
    by (simp add: record_arrival_def eq_ci_def Let_def)
  from arrivals_fund_once [OF run] run show ?thesis by (auto simp: accepted_ids_def)
qed

end
