(* ===== verification/Org.thy ===== *)
theory Org
  imports Prelude "HOL-Library.List_Lexorder" "HOL-Library.Char_ord"
begin

text \<open>
  Organizations of agents (\<open>packages/studio-org/src\<close>): the blueprint of \<open>schema.ts\<close>, the validator of
  \<open>validator.ts\<close>, the blast radius of \<open>blast.ts\<close> and the message gate of \<open>messaging.ts\<close>. The zod parser
  is the parameter \<open>safeParse\<close>. An issue keeps its code, severity and path; the prose is left out. The
  order of \<open>localeCompare\<close> is given by a parameter \<open>collate\<close> that maps a string to its sort key.

  The validator is proved to accept exactly the organizations that satisfy a declarative statement of
  separation, and an accepted organization contains every compromise: no agent's authority reaches
  another agent.
\<close>

section \<open>The blueprint\<close>

datatype executionClass = NONE | READ_ONLY | EXECUTE

record orgAgent =
  oa_id :: string
  oa_displayName :: string
  oa_ensLabel :: string
  oa_ensName :: string
  oa_executionClass :: executionClass
  oa_executionCapabilities :: "string list"
  oa_dataCapabilities :: "string list"
  oa_autonomousMaxUsdCents :: "int option"
  oa_escalationMaxUsdCents :: "int option"
  oa_dailyMaxUsdCents :: "int option"
  oa_deniedActions :: "string list"
  oa_executionDomain :: string
  oa_policyId :: string

datatype resource_kind = Treasury | DataSource | Credential

record sharedResource =
  sr_id :: string
  sr_kind :: resource_kind
  sr_description :: string
  sr_agentIds :: "string list"

record aggregateLimit =
  al_id :: string
  al_maxUsdCents :: int
  al_windowMs :: int
  al_description :: string

datatype message_kind = Observation | Request | Status

record communicationRule =
  co_from :: string
  co_to :: string
  co_messageKinds :: "message_kind list"

text \<open>\<open>schemaVersion\<close> and \<open>delegationEnabled\<close> are literals: they have one value each.\<close>

record organization =
  og_orgId :: string
  og_revision :: int
  og_rootEns :: string
  og_agentNamespace :: string
  og_agents :: "orgAgent list"
  og_sharedResources :: "sharedResource list"
  og_aggregateLimits :: "aggregateLimit list"
  og_communicationRules :: "communicationRule list"
  og_delegationEnabled :: bool

definition buildEnsName :: "string \<Rightarrow> string \<Rightarrow> string" where
  "buildEnsName label namespace = label @ ''.'' @ namespace"

section \<open>The validator\<close>

datatype org_severity = CRITICAL | HIGH | MEDIUM | LOW | INFO

record orgIssue =
  oi_code :: string
  oi_severity :: org_severity
  oi_path :: string

record orgValidationResult =
  ov_ok :: bool
  ov_buildable :: bool
  ov_issues :: "orgIssue list"

definition issue :: "string \<Rightarrow> org_severity \<Rightarrow> string \<Rightarrow> orgIssue" where
  "issue code sev path = \<lparr>oi_code = code, oi_severity = sev, oi_path = path\<rparr>"

text \<open>\<open>VALUE_MOVING.test\<close>: one of the words occurs, whatever its case.\<close>

definition VALUE_MOVING :: "string list" where
  "VALUE_MOVING = [''withdraw'', ''borrow'', ''transfer'', ''send'', ''swap'', ''approve'', ''repay'', ''supply'', ''execute'']"

definition value_moving :: "string \<Rightarrow> bool" where
  "value_moving c = list_ex (contains (toLowerCase c)) VALUE_MOVING"

text \<open>The four maps of the agent loop, from a value to the index of the agent that used it first.\<close>

record seen =
  seen_id :: "string \<rightharpoonup> nat"
  seen_ens :: "string \<rightharpoonup> nat"
  seen_domain :: "string \<rightharpoonup> nat"
  seen_policy :: "string \<rightharpoonup> nat"

definition note_seen :: "string \<Rightarrow> nat \<Rightarrow> (string \<rightharpoonup> nat) \<Rightarrow> (string \<rightharpoonup> nat)" where
  "note_seen k i m = (if m k \<noteq> None then m else m(k \<mapsto> i))"

definition agent_path :: "nat \<Rightarrow> string \<Rightarrow> string" where
  "agent_path i field = ''agents['' @ show_nat i @ '']'' @ field"

definition limit_issues :: "nat \<Rightarrow> orgAgent \<Rightarrow> orgIssue list" where
  "limit_issues i a =
    (if oa_executionClass a = EXECUTE then
       map (\<lambda>(field, v). issue ''ORG-V-UNKNOWN-LIMIT'' HIGH (agent_path i (''.'' @ field)))
         (filter (\<lambda>(field, v). v = None)
           [(''autonomousMaxUsdCents'', oa_autonomousMaxUsdCents a),
            (''escalationMaxUsdCents'', oa_escalationMaxUsdCents a),
            (''dailyMaxUsdCents'', oa_dailyMaxUsdCents a)]) @
       (case (oa_autonomousMaxUsdCents a, oa_escalationMaxUsdCents a) of
          (Some auto, Some esc) \<Rightarrow>
            if esc < auto then [issue ''ORG-V-BAND-INVERTED'' HIGH (agent_path i ''.escalationMaxUsdCents'')] else []
        | _ \<Rightarrow> []) @
       (case (oa_dailyMaxUsdCents a, oa_autonomousMaxUsdCents a) of
          (Some daily, Some auto) \<Rightarrow>
            if daily < auto then [issue ''ORG-V-DAILY-BELOW-SINGLE'' MEDIUM (agent_path i ''.dailyMaxUsdCents'')] else []
        | _ \<Rightarrow> [])
     else [])"

definition agent_issues :: "organization \<Rightarrow> seen \<Rightarrow> nat \<Rightarrow> orgAgent \<Rightarrow> orgIssue list" where
  "agent_issues org s i a =
    (if seen_id s (oa_id a) \<noteq> None then [issue ''ORG-V-DUP-AGENT-ID'' CRITICAL (agent_path i ''.id'')] else []) @
    (if oa_ensName a \<noteq> buildEnsName (oa_ensLabel a) (og_agentNamespace org)
     then [issue ''ORG-V-ENS-MISMATCH'' HIGH (agent_path i ''.ensName'')] else []) @
    (if oa_ensName a = og_rootEns org \<or> oa_ensName a = og_agentNamespace org
     then [issue ''ORG-V-ROOT-IDENTITY'' CRITICAL (agent_path i ''.ensName'')] else []) @
    (if seen_ens s (oa_ensName a) \<noteq> None then [issue ''ORG-V-DUP-ENS'' CRITICAL (agent_path i ''.ensName'')] else []) @
    (if seen_policy s (oa_policyId a) \<noteq> None
     then [issue ''ORG-V-SHARED-POLICY'' CRITICAL (agent_path i ''.policyId'')] else []) @
    (if seen_domain s (oa_executionDomain a) \<noteq> None
     then [issue ''ORG-V-SHARED-DOMAIN'' CRITICAL (agent_path i ''.executionDomain'')] else []) @
    (if oa_executionClass a \<noteq> EXECUTE \<and> 0 < length (oa_executionCapabilities a)
     then [issue ''ORG-V-NONEXEC-HAS-EXECUTION'' CRITICAL (agent_path i ''.executionCapabilities'')] else []) @
    (if oa_executionClass a \<noteq> EXECUTE \<and> 0 < length (filter value_moving (oa_dataCapabilities a))
     then [issue ''ORG-V-VALUE-CAP-MISCLASSED'' HIGH (agent_path i ''.dataCapabilities'')] else []) @
    limit_issues i a"

definition agent_seen :: "seen \<Rightarrow> nat \<Rightarrow> orgAgent \<Rightarrow> seen" where
  "agent_seen s i a =
    \<lparr>seen_id = note_seen (oa_id a) i (seen_id s), seen_ens = note_seen (oa_ensName a) i (seen_ens s),
     seen_domain = note_seen (oa_executionDomain a) i (seen_domain s),
     seen_policy = note_seen (oa_policyId a) i (seen_policy s)\<rparr>"

fun all_agent_issues :: "organization \<Rightarrow> seen \<Rightarrow> nat \<Rightarrow> orgAgent list \<Rightarrow> orgIssue list" where
  "all_agent_issues org s i [] = []"
| "all_agent_issues org s i (a # as) = agent_issues org s i a @ all_agent_issues org (agent_seen s i a) (Suc i) as"

definition nothing_seen :: seen where
  "nothing_seen = \<lparr>seen_id = (\<lambda>_. None), seen_ens = (\<lambda>_. None), seen_domain = (\<lambda>_. None), seen_policy = (\<lambda>_. None)\<rparr>"

definition resource_issues :: "string set \<Rightarrow> nat \<Rightarrow> sharedResource \<Rightarrow> orgIssue list" where
  "resource_issues ids i r =
    map (\<lambda>_. issue ''ORG-V-RESOURCE-UNKNOWN-AGENT'' HIGH (''sharedResources['' @ show_nat i @ ''].agentIds''))
      (filter (\<lambda>x. x \<notin> ids) (sr_agentIds r)) @
    (if sr_kind r = Credential \<and> 1 < length (sr_agentIds r)
     then [issue ''ORG-V-SHARED-CREDENTIAL'' CRITICAL (''sharedResources['' @ show_nat i @ '']'')] else [])"

definition executingAgents :: "organization \<Rightarrow> orgAgent list" where
  "executingAgents org = filter (\<lambda>a. oa_executionClass a = EXECUTE) (og_agents org)"

definition aggregate_issues :: "organization \<Rightarrow> orgIssue list" where
  "aggregate_issues org =
    (let treasuries = filter (\<lambda>r. sr_kind r = Treasury) (og_sharedResources org);
         executors = filter (\<lambda>a. oa_executionClass a = EXECUTE) (og_agents org);
         dailyCaps = map oa_dailyMaxUsdCents executors in
     (if 0 < length treasuries \<and> length (og_aggregateLimits org) = 0 \<and> 1 < length executors
      then [issue ''ORG-V-AGGREGATE-MISSING'' CRITICAL ''aggregateLimits''] else []) @
     (if list_all (\<lambda>v. v \<noteq> None) dailyCaps then
        let sum = sum_list (map the dailyCaps) in
        map (\<lambda>(i, lim). issue ''ORG-V-AGGREGATE-VACUOUS'' MEDIUM (''aggregateLimits['' @ show_nat i @ ''].maxUsdCents''))
          (filter (\<lambda>(i, lim). sum \<le> al_maxUsdCents lim \<and> 1 < length executors) (enumerate 0 (og_aggregateLimits org)))
      else []))"

definition rule_issues :: "string set \<Rightarrow> nat \<Rightarrow> communicationRule \<Rightarrow> orgIssue list" where
  "rule_issues ids i c =
    map (\<lambda>(field, x). issue ''ORG-V-COMM-UNKNOWN-AGENT'' HIGH (''communicationRules['' @ show_nat i @ ''].'' @ field))
      (filter (\<lambda>(field, x). x \<notin> ids) [(''from'', co_from c), (''to'', co_to c)]) @
    (if co_from c = co_to c then [issue ''ORG-V-COMM-SELF'' LOW (''communicationRules['' @ show_nat i @ '']'')] else [])"

definition org_issues :: "organization \<Rightarrow> orgIssue list" where
  "org_issues org =
    (let ids = set (map oa_id (og_agents org)) in
     (if \<not> endsWith (og_agentNamespace org) (''.'' @ og_rootEns org)
      then [issue ''ORG-V-NAMESPACE-ROOT'' HIGH ''agentNamespace''] else []) @
     all_agent_issues org nothing_seen 0 (og_agents org) @
     concat (map (\<lambda>(i, r). resource_issues ids i r) (enumerate 0 (og_sharedResources org))) @
     aggregate_issues org @
     concat (map (\<lambda>(i, c). rule_issues ids i c) (enumerate 0 (og_communicationRules org))))"

definition validateOrganization :: "('u \<Rightarrow> string list list + organization) \<Rightarrow> 'u \<Rightarrow> orgValidationResult" where
  "validateOrganization safeParse input =
    (case safeParse input of
       Inl paths \<Rightarrow> \<lparr>ov_ok = False, ov_buildable = False,
         ov_issues = map (\<lambda>p. issue ''ORG-SCHEMA'' CRITICAL (join ''.'' p)) paths\<rparr>
     | Inr org \<Rightarrow>
         let issues = org_issues org;
             critical = list_ex (\<lambda>i. oi_severity i = CRITICAL) issues;
             high = list_ex (\<lambda>i. oi_severity i = HIGH) issues in
         \<lparr>ov_ok = (length issues = 0), ov_buildable = (\<not> critical \<and> \<not> high), ov_issues = issues\<rparr>)"

section \<open>Blast radius\<close>

datatype reach_via = SHARED_POLICY | SHARED_DOMAIN | SHARED_CREDENTIAL

text \<open>The lines of \<open>containedBy\<close>; the aggregate line shows the cap and its window.\<close>

datatype containment = NoExecution | NothingShared | AggregateCap int int | MessagesPowerless | NoDelegation

record blastRadius =
  br_compromisedAgentId :: string
  br_directCapabilities :: "string list"
  br_maxAutonomousUsdCents :: "int option"
  br_maxWindowUsdCents :: "int option"
  br_authorityReachesAgents :: "(string \<times> reach_via) list"
  br_canMessageAgents :: "string list"
  br_containedBy :: "containment list"

definition tightest :: "organization \<Rightarrow> aggregateLimit option" where
  "tightest org = (case sort_key al_maxUsdCents (og_aggregateLimits org) of [] \<Rightarrow> None | l # _ \<Rightarrow> Some l)"

definition bindingWindowCap :: "organization \<Rightarrow> orgAgent \<Rightarrow> int option" where
  "bindingWindowCap org agent =
    (case oa_dailyMaxUsdCents agent of
       None \<Rightarrow> map_option al_maxUsdCents (tightest org)
     | Some daily \<Rightarrow> Some (case tightest org of None \<Rightarrow> daily | Some agg \<Rightarrow> min daily (al_maxUsdCents agg)))"

definition shared_reach :: "orgAgent \<Rightarrow> orgAgent \<Rightarrow> (string \<times> reach_via) list" where
  "shared_reach agent other =
    (if oa_id other = oa_id agent then []
     else if oa_policyId other = oa_policyId agent then [(oa_id other, SHARED_POLICY)]
     else if oa_executionDomain other = oa_executionDomain agent then [(oa_id other, SHARED_DOMAIN)] else [])"

definition credential_reach :: "orgAgent \<Rightarrow> sharedResource \<Rightarrow> (string \<times> reach_via) list \<Rightarrow> (string \<times> reach_via) list" where
  "credential_reach agent r reaches =
    (if sr_kind r \<noteq> Credential \<or> oa_id agent \<notin> set (sr_agentIds r) then reaches
     else foldl (\<lambda>rs other. if other = oa_id agent then rs
                            else if \<not> list_ex (\<lambda>x. fst x = other) rs then rs @ [(other, SHARED_CREDENTIAL)] else rs)
            reaches (sr_agentIds r))"

definition authority_reaches :: "organization \<Rightarrow> orgAgent \<Rightarrow> (string \<times> reach_via) list" where
  "authority_reaches org agent =
    foldl (\<lambda>rs r. credential_reach agent r rs) (concat (map (shared_reach agent) (og_agents org))) (og_sharedResources org)"

definition containedBy :: "organization \<Rightarrow> orgAgent \<Rightarrow> containment list" where
  "containedBy org agent =
    (if oa_executionClass agent \<noteq> EXECUTE then [NoExecution] else []) @
    (if length (authority_reaches org agent) = 0 then [NothingShared] else []) @
    (case tightest org of None \<Rightarrow> [] | Some agg \<Rightarrow> [AggregateCap (al_maxUsdCents agg) (al_windowMs agg)]) @
    [MessagesPowerless] @
    (if \<not> og_delegationEnabled org then [NoDelegation] else [])"

text \<open>An unknown agent throws; the error carries the id.\<close>

definition computeBlastRadius :: "(string \<Rightarrow> nat list) \<Rightarrow> organization \<Rightarrow> string \<Rightarrow> string + blastRadius" where
  "computeBlastRadius collate org compromisedAgentId =
    (case find (\<lambda>a. oa_id a = compromisedAgentId) (og_agents org) of
       None \<Rightarrow> Inl compromisedAgentId
     | Some agent \<Rightarrow> Inr
         \<lparr>br_compromisedAgentId = compromisedAgentId,
          br_directCapabilities = (if oa_executionClass agent = EXECUTE then oa_executionCapabilities agent else []),
          br_maxAutonomousUsdCents = (if oa_executionClass agent = EXECUTE then oa_autonomousMaxUsdCents agent else Some 0),
          br_maxWindowUsdCents = (if oa_executionClass agent = EXECUTE then bindingWindowCap org agent else Some 0),
          br_authorityReachesAgents = sort_key (\<lambda>x. collate (fst x)) (authority_reaches org agent),
          br_canMessageAgents = sort (map co_to (filter (\<lambda>r. co_from r = oa_id agent) (og_communicationRules org))),
          br_containedBy = containedBy org agent\<rparr>)"

section \<open>Messages\<close>

datatype org_message_reason = NO_RULE | UNKNOWN_SENDER | UNKNOWN_RECIPIENT | KIND_NOT_PERMITTED | SENDER_REVOKED

record interAgentMessage =
  im_from :: string
  im_to :: string
  im_kind :: message_kind
  im_body :: string

datatype trust_class = USER_UNTRUSTED

record deliveredMessage =
  dl_from :: string
  dl_kind :: message_kind
  dl_body :: string
  dl_conveysAuthority :: bool
  dl_trustClass :: trust_class

definition deliverMessage :: "organization \<Rightarrow> interAgentMessage \<Rightarrow> (string \<Rightarrow> bool) \<Rightarrow> org_message_reason + deliveredMessage" where
  "deliverMessage org msg isRevoked =
    (if \<not> list_ex (\<lambda>a. oa_id a = im_from msg) (og_agents org) then Inl UNKNOWN_SENDER
     else if \<not> list_ex (\<lambda>a. oa_id a = im_to msg) (og_agents org) then Inl UNKNOWN_RECIPIENT
     else if isRevoked (im_from msg) then Inl SENDER_REVOKED
     else case find (\<lambda>r. co_from r = im_from msg \<and> co_to r = im_to msg) (og_communicationRules org) of
            None \<Rightarrow> Inl NO_RULE
          | Some rule \<Rightarrow>
              if im_kind msg \<notin> set (co_messageKinds rule) then Inl KIND_NOT_PERMITTED
              else Inr \<lparr>dl_from = im_from msg, dl_kind = im_kind msg, dl_body = im_body msg,
                        dl_conveysAuthority = False, dl_trustClass = USER_UNTRUSTED\<rparr>)"

section \<open>Separation, stated declaratively\<close>

definition severe :: "orgIssue \<Rightarrow> bool" where
  "severe i = (oi_severity i = CRITICAL \<or> oi_severity i = HIGH)"

text \<open>What one agent must satisfy by itself.\<close>

definition sound_agent :: "organization \<Rightarrow> orgAgent \<Rightarrow> bool" where
  "sound_agent org a \<longleftrightarrow>
    oa_ensName a = buildEnsName (oa_ensLabel a) (og_agentNamespace org) \<and>
    oa_ensName a \<noteq> og_rootEns org \<and> oa_ensName a \<noteq> og_agentNamespace org \<and>
    (oa_executionClass a \<noteq> EXECUTE \<longrightarrow>
       oa_executionCapabilities a = [] \<and> (\<forall>c \<in> set (oa_dataCapabilities a). \<not> value_moving c)) \<and>
    (oa_executionClass a = EXECUTE \<longrightarrow>
       (\<exists>auto esc daily. oa_autonomousMaxUsdCents a = Some auto \<and> oa_escalationMaxUsdCents a = Some esc \<and>
          oa_dailyMaxUsdCents a = Some daily \<and> auto \<le> esc))"

text \<open>The agents are distinct principals, and what is shared is declared, known and capped.\<close>

definition separated :: "organization \<Rightarrow> bool" where
  "separated org \<longleftrightarrow>
    endsWith (og_agentNamespace org) (''.'' @ og_rootEns org) \<and>
    distinct (map oa_id (og_agents org)) \<and> distinct (map oa_ensName (og_agents org)) \<and>
    distinct (map oa_policyId (og_agents org)) \<and> distinct (map oa_executionDomain (og_agents org)) \<and>
    (\<forall>a \<in> set (og_agents org). sound_agent org a) \<and>
    (\<forall>r \<in> set (og_sharedResources org). set (sr_agentIds r) \<subseteq> oa_id ` set (og_agents org) \<and>
       (sr_kind r = Credential \<longrightarrow> length (sr_agentIds r) \<le> 1)) \<and>
    (1 < length (executingAgents org) \<and> (\<exists>r \<in> set (og_sharedResources org). sr_kind r = Treasury) \<longrightarrow>
       og_aggregateLimits org \<noteq> []) \<and>
    (\<forall>c \<in> set (og_communicationRules org). {co_from c, co_to c} \<subseteq> oa_id ` set (og_agents org))"

section \<open>Lemmas on the validator\<close>

named_theorems severity_simps \<open>which issues of a list are severe\<close>

lemma severe_issue [simp]: "severe (issue c s p) \<longleftrightarrow> s = CRITICAL \<or> s = HIGH"
  by (simp add: severe_def issue_def)

lemma dom_note_seen [simp]: "dom (note_seen k i m) = insert k (dom m)"
  by (auto simp: note_seen_def)

lemma list_ex_concat_enumerate:
  assumes "\<And>i x. list_ex P (f i x) \<longleftrightarrow> Q x"
  shows "list_ex P (concat (map (\<lambda>(i, x). f i x) (enumerate n xs))) \<longleftrightarrow> (\<exists>x \<in> set xs. Q x)"
  by (induction xs arbitrary: n) (simp_all add: assms)

lemma severe_limits [severity_simps]:
  "list_ex severe (limit_issues i a) \<longleftrightarrow> oa_executionClass a = EXECUTE \<and>
    \<not> (\<exists>auto esc daily. oa_autonomousMaxUsdCents a = Some auto \<and> oa_escalationMaxUsdCents a = Some esc \<and>
        oa_dailyMaxUsdCents a = Some daily \<and> auto \<le> esc)"
  by (cases "oa_autonomousMaxUsdCents a"; cases "oa_escalationMaxUsdCents a"; cases "oa_dailyMaxUsdCents a")
    (auto simp: limit_issues_def)

lemma severe_agent [severity_simps]:
  "list_ex severe (agent_issues org s i a) \<longleftrightarrow>
    \<not> (sound_agent org a \<and> oa_id a \<notin> dom (seen_id s) \<and> oa_ensName a \<notin> dom (seen_ens s) \<and>
       oa_policyId a \<notin> dom (seen_policy s) \<and> oa_executionDomain a \<notin> dom (seen_domain s))"
  unfolding agent_issues_def list_ex_append severe_limits sound_agent_def
  by (simp add: filter_empty_conv domIff del: not_None_eq)

lemma severe_agents:
  "\<not> list_ex severe (all_agent_issues org s i as) \<longleftrightarrow>
    (\<forall>a \<in> set as. sound_agent org a) \<and>
    distinct (map oa_id as) \<and> set (map oa_id as) \<inter> dom (seen_id s) = {} \<and>
    distinct (map oa_ensName as) \<and> set (map oa_ensName as) \<inter> dom (seen_ens s) = {} \<and>
    distinct (map oa_policyId as) \<and> set (map oa_policyId as) \<inter> dom (seen_policy s) = {} \<and>
    distinct (map oa_executionDomain as) \<and> set (map oa_executionDomain as) \<inter> dom (seen_domain s) = {}"
proof (induction as arbitrary: s i)
  case (Cons a as)
  have fresh: "distinct (map f (a # as)) \<and> set (map f (a # as)) \<inter> D = {} \<longleftrightarrow>
    f a \<notin> D \<and> distinct (map f as) \<and> set (map f as) \<inter> insert (f a) D = {}" for f :: "orgAgent \<Rightarrow> string" and D
    by auto
  have seen: "dom (seen_id (agent_seen s i a)) = insert (oa_id a) (dom (seen_id s))"
    "dom (seen_ens (agent_seen s i a)) = insert (oa_ensName a) (dom (seen_ens s))"
    "dom (seen_policy (agent_seen s i a)) = insert (oa_policyId a) (dom (seen_policy s))"
    "dom (seen_domain (agent_seen s i a)) = insert (oa_executionDomain a) (dom (seen_domain s))"
    by (simp_all add: agent_seen_def)
  show ?case
    unfolding all_agent_issues.simps list_ex_append de_Morgan_disj Cons.IH severe_agent not_not seen
    unfolding conj_assoc [symmetric] list.set(2) ball_simps
    using fresh [of oa_id "dom (seen_id s)"] fresh [of oa_ensName "dom (seen_ens s)"]
      fresh [of oa_policyId "dom (seen_policy s)"] fresh [of oa_executionDomain "dom (seen_domain s)"] by argo
qed simp

lemma severe_resource [severity_simps]:
  "list_ex severe (resource_issues ids i r) \<longleftrightarrow>
    \<not> (set (sr_agentIds r) \<subseteq> ids \<and> (sr_kind r = Credential \<longrightarrow> length (sr_agentIds r) \<le> 1))"
  unfolding resource_issues_def list_ex_append list_ex_map_filter by (auto simp: not_le)

lemma severe_aggregate [severity_simps]:
  "list_ex severe (aggregate_issues org) \<longleftrightarrow>
    1 < length (executingAgents org) \<and> (\<exists>r \<in> set (og_sharedResources org). sr_kind r = Treasury) \<and>
    og_aggregateLimits org = []"
  by (auto simp: aggregate_issues_def executingAgents_def Let_def list_ex_iff filter_empty_conv)

lemma severe_rule [severity_simps]: "list_ex severe (rule_issues ids i c) \<longleftrightarrow> \<not> {co_from c, co_to c} \<subseteq> ids"
  by (auto simp: rule_issues_def)

lemma severe_org: "\<not> list_ex severe (org_issues org) \<longleftrightarrow> separated org"
proof -
  let ?ids = "set (map oa_id (og_agents org))"
  have "list_ex severe (concat (map (\<lambda>(i, r). resource_issues ?ids i r) (enumerate 0 (og_sharedResources org)))) \<longleftrightarrow>
      (\<exists>r \<in> set (og_sharedResources org). \<not> (set (sr_agentIds r) \<subseteq> ?ids \<and> (sr_kind r = Credential \<longrightarrow> length (sr_agentIds r) \<le> 1)))"
    and "list_ex severe (concat (map (\<lambda>(i, c). rule_issues ?ids i c) (enumerate 0 (og_communicationRules org)))) \<longleftrightarrow>
      (\<exists>c \<in> set (og_communicationRules org). \<not> {co_from c, co_to c} \<subseteq> ?ids)"
    by (rule list_ex_concat_enumerate, rule severity_simps)+
  then show ?thesis
    unfolding org_issues_def separated_def Let_def list_ex_append de_Morgan_disj severe_agents severe_aggregate
    by (auto simp: nothing_seen_def)
qed

lemma buildable_iff:
  "ov_buildable (validateOrganization safeParse input) \<longleftrightarrow> (\<exists>org. safeParse input = Inr org \<and> separated org)"
proof (cases "safeParse input")
  case (Inr org)
  have "list_ex severe (org_issues org) \<longleftrightarrow>
    list_ex (\<lambda>i. oi_severity i = CRITICAL) (org_issues org) \<or> list_ex (\<lambda>i. oi_severity i = HIGH) (org_issues org)"
    by (auto simp: severe_def list_ex_iff)
  with severe_org [of org] Inr show ?thesis by (simp add: validateOrganization_def Let_def)
qed (simp add: validateOrganization_def)

section \<open>Lemmas on the blast radius\<close>

lemma tightest_least: "tightest org = Some l \<Longrightarrow> l \<in> set (og_aggregateLimits org) \<and> (\<forall>k \<in> set (og_aggregateLimits org). al_maxUsdCents l \<le> al_maxUsdCents k)"
proof -
  assume "tightest org = Some l"
  then obtain ls where ls: "sort_key al_maxUsdCents (og_aggregateLimits org) = l # ls"
    by (auto simp: tightest_def split: list.splits)
  then have "set (l # ls) = set (og_aggregateLimits org)" by (metis set_sort)
  moreover have "sorted (map al_maxUsdCents (l # ls))" by (metis ls sorted_sort_key)
  ultimately show ?thesis by auto
qed

lemma tightest_None_iff [simp]: "tightest org = None \<longleftrightarrow> og_aggregateLimits org = []"
  by (auto simp: tightest_def split: list.splits) (metis set_empty set_sort)

lemma binding_cap_bounds:
  assumes "bindingWindowCap org a = Some cap"
  shows "\<forall>d. oa_dailyMaxUsdCents a = Some d \<longrightarrow> cap \<le> d" and "\<forall>l \<in> set (og_aggregateLimits org). cap \<le> al_maxUsdCents l"
proof -
  show "\<forall>d. oa_dailyMaxUsdCents a = Some d \<longrightarrow> cap \<le> d"
    using assms by (auto simp: bindingWindowCap_def split: option.splits)
  show "\<forall>l \<in> set (og_aggregateLimits org). cap \<le> al_maxUsdCents l"
  proof
    fix l assume l: "l \<in> set (og_aggregateLimits org)"
    then obtain k where k: "tightest org = Some k" by (cases "tightest org") auto
    with tightest_least [OF k] l have "al_maxUsdCents k \<le> al_maxUsdCents l" by blast
    with assms k show "cap \<le> al_maxUsdCents l" by (auto simp: bindingWindowCap_def split: option.splits)
  qed
qed

lemma binding_cap_None: "bindingWindowCap org a = None \<longleftrightarrow> oa_dailyMaxUsdCents a = None \<and> og_aggregateLimits org = []"
  by (auto simp: bindingWindowCap_def split: option.splits)

lemma nothing_shared_iff: "NothingShared \<in> set (containedBy org a) \<longleftrightarrow> authority_reaches org a = []"
  by (auto simp: containedBy_def split: option.splits)

lemma reached_step:
  "fst ` set (foldl (\<lambda>rs other. if other = me then rs
     else if \<not> list_ex (\<lambda>x. fst x = other) rs then rs @ [(other, via)] else rs) reaches others) =
   fst ` set reaches \<union> (set others - {me})"
proof (induction others arbitrary: reaches)
  case (Cons x xs)
  show ?case unfolding foldl_Cons Cons.IH by (auto simp: list_ex_iff image_iff) 
qed simp

lemma reached_credential:
  "fst ` set (credential_reach agent r reaches) = fst ` set reaches \<union>
    (if sr_kind r = Credential \<and> oa_id agent \<in> set (sr_agentIds r) then set (sr_agentIds r) - {oa_id agent} else {})"
  by (simp add: credential_reach_def reached_step)

lemma reached_credentials:
  "fst ` set (foldl (\<lambda>rs r. credential_reach agent r rs) reaches rss) = fst ` set reaches \<union>
    \<Union> ((\<lambda>r. set (sr_agentIds r) - {oa_id agent}) ` {r \<in> set rss. sr_kind r = Credential \<and> oa_id agent \<in> set (sr_agentIds r)})"
  by (induction rss arbitrary: reaches) (auto simp: reached_credential split: if_splits)

text \<open>The agents whose authority a compromised agent also holds: another agent with its policy, its
  execution domain or one of its credentials.\<close>

definition reachable :: "organization \<Rightarrow> orgAgent \<Rightarrow> string \<Rightarrow> bool" where
  "reachable org agent x \<longleftrightarrow> x \<noteq> oa_id agent \<and>
    ((\<exists>b \<in> set (og_agents org). oa_id b = x \<and>
        (oa_policyId b = oa_policyId agent \<or> oa_executionDomain b = oa_executionDomain agent)) \<or>
     (\<exists>r \<in> set (og_sharedResources org). sr_kind r = Credential \<and> {oa_id agent, x} \<subseteq> set (sr_agentIds r)))"

lemma reached_shared:
  "fst ` set (concat (map (shared_reach agent) bs)) = oa_id ` {b \<in> set bs. oa_id b \<noteq> oa_id agent \<and>
    (oa_policyId b = oa_policyId agent \<or> oa_executionDomain b = oa_executionDomain agent)}"
proof (induction bs)
  case (Cons b bs)
  show ?case unfolding list.map concat.simps set_append image_Un Cons.IH by (auto simp: shared_reach_def)
qed simp

lemma reached_iff: "x \<in> fst ` set (authority_reaches org agent) \<longleftrightarrow> reachable org agent x"
  unfolding authority_reaches_def reached_credentials reached_shared reachable_def by auto

lemma separated_unreachable:
  assumes "separated org" and "a \<in> set (og_agents org)"
  shows "authority_reaches org a = []"
proof -
  have "\<not> reachable org a x" for x
  proof
    assume x: "reachable org a x"
    have inj: "inj_on oa_policyId (set (og_agents org))" "inj_on oa_executionDomain (set (og_agents org))"
      using assms(1) unfolding separated_def distinct_map by blast+
    have "oa_policyId b \<noteq> oa_policyId a \<and> oa_executionDomain b \<noteq> oa_executionDomain a"
      if "b \<in> set (og_agents org)" "oa_id b \<noteq> oa_id a" for b
      using inj_onD [OF inj(1) _ that(1) assms(2)] inj_onD [OF inj(2) _ that(1) assms(2)] that(2) by blast
    moreover have "\<not> {oa_id a, x} \<subseteq> set (sr_agentIds r)"
      if "r \<in> set (og_sharedResources org)" "sr_kind r = Credential" "x \<noteq> oa_id a" for r
    proof -
      have "length (sr_agentIds r) \<le> 1" using assms(1) that by (auto simp: separated_def)
      then show ?thesis using that(3) by (cases "sr_agentIds r"; cases "tl (sr_agentIds r)") auto
    qed
    ultimately show False using x unfolding reachable_def by blast
  qed
  then show ?thesis using reached_iff [of _ org a] by (metis image_is_empty set_empty all_not_in_conv)
qed

lemma find_agent:
  assumes "separated org" and "a \<in> set (og_agents org)"
  shows "find (\<lambda>b. oa_id b = oa_id a) (og_agents org) = Some a"
  using assms by (auto simp: separated_def intro: find_distinct)

section \<open>Properties\<close>

text \<open>
  C12: The validator accepts exactly the separated organizations: the document parses, the namespace
  lies under the root, ids, ENS names, policies and execution domains are pairwise distinct, every
  agent has its derived name and no organization name, an agent that does not execute holds neither
  execution capabilities nor value-moving data capabilities, an executing agent has known and ordered
  limits, resources and rules mention known agents only, no credential is shared, and several
  executing agents with a treasury have an aggregate limit. In addition a document without any issue
  is buildable.
\<close>

theorem organization_buildable_exact:
  "(ov_buildable (validateOrganization safeParse input) = (\<exists>org. safeParse input = Inr org \<and> separated org)) \<and>
   {i. ov_ok (validateOrganization safeParse i)} \<subseteq> {i. ov_buildable (validateOrganization safeParse i)}"
  using buildable_iff [of safeParse input]
  by (auto simp: validateOrganization_def Let_def split: sum.splits)

text \<open>
  The blast radius of an agent lists exactly the other agents that have its policy, its execution
  domain or one of its credentials, in the collation order; its window loss is bounded by its own
  daily limit and by every aggregate limit, and is zero when the agent does not execute.
\<close>

theorem blast_radius_exact:
  assumes "find (\<lambda>a. oa_id a = x) (og_agents org) = Some agent"
  shows "\<exists>b. computeBlastRadius collate org x = Inr b \<and>
    fst ` set (br_authorityReachesAgents b) = {y. reachable org agent y} \<and>
    sorted (map (\<lambda>p. collate (fst p)) (br_authorityReachesAgents b)) \<and>
    (NothingShared \<in> set (br_containedBy b)) = (\<forall>y. \<not> reachable org agent y) \<and>
    (case br_maxWindowUsdCents b of
       None \<Rightarrow> oa_executionClass agent = EXECUTE \<and> oa_dailyMaxUsdCents agent = None \<and> og_aggregateLimits org = []
     | Some cap \<Rightarrow> if oa_executionClass agent \<noteq> EXECUTE then cap = 0
         else (\<forall>d. oa_dailyMaxUsdCents agent = Some d \<longrightarrow> cap \<le> d) \<and> (\<forall>l \<in> set (og_aggregateLimits org). cap \<le> al_maxUsdCents l))"
proof -
  have empty: "(authority_reaches org agent = []) = (\<forall>y. \<not> reachable org agent y)"
    using reached_iff [of _ org agent] by (metis all_not_in_conv image_is_empty set_empty)
  have reach: "fst ` set (authority_reaches org agent) = {y. reachable org agent y}" using reached_iff by blast
  show ?thesis
  proof (cases "oa_executionClass agent = EXECUTE")
    case True
    with assms empty reach binding_cap_bounds [of org agent] binding_cap_None [of org agent] show ?thesis
      by (cases "bindingWindowCap org agent") (simp_all add: computeBlastRadius_def nothing_shared_iff)
  qed (use assms empty reach in \<open>simp add: computeBlastRadius_def nothing_shared_iff\<close>)
qed

text \<open>
  C11: In an organization that the validator accepts a compromise is contained: whichever agent is
  taken, its blast radius is defined and no other agent's authority is reached; an agent that does not
  execute gives the attacker no capability and no value; an executing agent gives at most its own
  daily limit, and no more than any aggregate limit; and every agent it can message exists.
\<close>

theorem buildable_contains_compromise:
  assumes "ov_buildable (validateOrganization safeParse input)" and "safeParse input = Inr org"
    and "a \<in> set (og_agents org)"
  shows "\<exists>b. computeBlastRadius collate org (oa_id a) = Inr b \<and> br_authorityReachesAgents b = [] \<and>
    NothingShared \<in> set (br_containedBy b) \<and>
    (oa_executionClass a \<noteq> EXECUTE \<longrightarrow> br_directCapabilities b = [] \<and> br_maxWindowUsdCents b = Some 0) \<and>
    (oa_executionClass a = EXECUTE \<longrightarrow> (\<exists>cap daily. br_maxWindowUsdCents b = Some cap \<and>
       oa_dailyMaxUsdCents a = Some daily \<and> cap \<le> daily \<and> (\<forall>l \<in> set (og_aggregateLimits org). cap \<le> al_maxUsdCents l))) \<and>
    set (br_canMessageAgents b) \<subseteq> oa_id ` set (og_agents org)"
proof -
  have sep: "separated org" using assms(1,2) unfolding buildable_iff by auto
  have "sound_agent org a" using sep assms(3) by (simp add: separated_def)
  then have daily: "\<exists>d. oa_dailyMaxUsdCents a = Some d" if "oa_executionClass a = EXECUTE"
    using that by (auto simp: sound_agent_def)
  have to: "set (map co_to (filter (\<lambda>r. co_from r = oa_id a) (og_communicationRules org))) \<subseteq> oa_id ` set (og_agents org)"
    using sep by (auto simp: separated_def)
  have alone: "authority_reaches org a = []" by (rule separated_unreachable [OF sep assms(3)])
  show ?thesis
  proof (cases "oa_executionClass a = EXECUTE")
    case True
    then obtain d where d: "oa_dailyMaxUsdCents a = Some d" using daily by blast
    then obtain cap where cap: "bindingWindowCap org a = Some cap" by (cases "bindingWindowCap org a") (auto simp: binding_cap_None)
    from True d cap binding_cap_bounds [OF cap] alone to show ?thesis
      unfolding computeBlastRadius_def find_agent [OF sep assms(3)] by (simp add: nothing_shared_iff)
  qed (use alone to in \<open>simp add: computeBlastRadius_def find_agent [OF sep assms(3)] nothing_shared_iff\<close>)
qed

text \<open>
  A message is delivered exactly when sender and recipient are agents, the sender is not revoked
  and the first rule between them permits the kind; what is delivered is the sender's own text, marked
  untrusted and without authority.
\<close>

theorem delivery_exact:
  "deliverMessage org msg isRevoked = Inr d \<longleftrightarrow>
    {im_from msg, im_to msg} \<subseteq> oa_id ` set (og_agents org) \<and> \<not> isRevoked (im_from msg) \<and>
    (\<exists>rule. find (\<lambda>r. co_from r = im_from msg \<and> co_to r = im_to msg) (og_communicationRules org) = Some rule \<and>
       im_kind msg \<in> set (co_messageKinds rule)) \<and>
    d = \<lparr>dl_from = im_from msg, dl_kind = im_kind msg, dl_body = im_body msg, dl_conveysAuthority = False,
         dl_trustClass = USER_UNTRUSTED\<rparr>"
  by (auto simp: deliverMessage_def list_ex_key split: option.splits if_splits)

section \<open>The treasury department of the test fixtures\<close>

definition sample_agent :: "string \<Rightarrow> string \<Rightarrow> int \<Rightarrow> int \<Rightarrow> orgAgent" where
  "sample_agent x cap auto esc =
    \<lparr>oa_id = x, oa_displayName = x, oa_ensLabel = x, oa_ensName = x @ ''.agents.acme.eth'', oa_executionClass = EXECUTE,
     oa_executionCapabilities = [cap], oa_dataCapabilities = [''aave-v3-state:position''],
     oa_autonomousMaxUsdCents = Some auto, oa_escalationMaxUsdCents = Some esc, oa_dailyMaxUsdCents = Some 75000,
     oa_deniedActions = [], oa_executionDomain = ''domain:'' @ x, oa_policyId = ''policy-'' @ x\<rparr>"

definition sample_guardian :: orgAgent where
  "sample_guardian = sample_agent ''guardian'' ''aave-v3-execution:REPAY'' 50000 100000"

definition sample_rebalancer :: orgAgent where
  "sample_rebalancer = sample_agent ''rebalancer'' ''uniswap-execution:SWAP'' 25000 60000"

definition sample_reporter :: orgAgent where
  "sample_reporter = (sample_agent ''reporter'' [] 0 0)\<lparr>oa_executionClass := NONE, oa_executionCapabilities := [],
     oa_autonomousMaxUsdCents := None, oa_escalationMaxUsdCents := None, oa_dailyMaxUsdCents := None\<rparr>"

definition treasuryOrg :: organization where
  "treasuryOrg =
    \<lparr>og_orgId = ''org-acme-treasury'', og_revision = 1, og_rootEns = ''acme.eth'', og_agentNamespace = ''agents.acme.eth'',
     og_agents = [sample_guardian, sample_rebalancer, sample_reporter],
     og_sharedResources = [\<lparr>sr_id = ''treasury-main'', sr_kind = Treasury, sr_description = [],
        sr_agentIds = [''guardian'', ''rebalancer'']\<rparr>],
     og_aggregateLimits = [\<lparr>al_id = ''org-daily'', al_maxUsdCents = 125000, al_windowMs = 86400000, al_description = []\<rparr>],
     og_communicationRules = [\<lparr>co_from = ''reporter'', co_to = ''guardian'', co_messageKinds = [Observation]\<rparr>,
        \<lparr>co_from = ''guardian'', co_to = ''rebalancer'', co_messageKinds = [Request, Status]\<rparr>],
     og_delegationEnabled = False\<rparr>"

lemma treasury_has_no_issue: "org_issues treasuryOrg = []"
  by code_simp

lemma treasury_buildable: "ov_buildable (validateOrganization Inr treasuryOrg)"
  by (simp add: validateOrganization_def treasury_has_no_issue)

theorem buildable_contains_compromise_witness:
  "\<exists>b. computeBlastRadius (\<lambda>_. []) treasuryOrg ''reporter'' = Inr b \<and> br_authorityReachesAgents b = [] \<and>
    br_maxWindowUsdCents b = Some 0"
  using buildable_contains_compromise [OF treasury_buildable refl, of sample_reporter "\<lambda>_. []"]
  by (auto simp: treasuryOrg_def sample_reporter_def sample_agent_def)

theorem blast_radius_exact_witness:
  "\<exists>b. computeBlastRadius (\<lambda>_. []) treasuryOrg ''guardian'' = Inr b \<and>
    fst ` set (br_authorityReachesAgents b) = {y. reachable treasuryOrg sample_guardian y}"
proof -
  have "find (\<lambda>a. oa_id a = ''guardian'') (og_agents treasuryOrg) = Some sample_guardian"
    by (simp add: treasuryOrg_def sample_guardian_def sample_agent_def)
  from blast_radius_exact [OF this, of "\<lambda>_. []"] show ?thesis by blast
qed

end
