(* ===== verification/Org_Budget.thy ===== *)
theory Org_Budget
  imports Org
begin

text \<open>
  The shared-treasury ledger (\<open>packages/studio-org/src/budget.ts\<close>). The two tables are lists of rows in
  insertion order; an operation runs in an immediate transaction, so it is one step on the tables, and
  a throw leaves them as they were. The clock is read once for the totals and once for the insert: both
  readings are arguments. Amounts are whole cents.

  The locale \<open>spending_window\<close> is the contract of the sums the ledger caps: an insert that passed the
  check of a sum, and an update that only lowers a row, keep every window of the sum under its cap. It
  is interpreted for the rows of an organization and for the rows of one of its agents.
\<close>

section \<open>Tables\<close>

datatype spend_state = HELD | SETTLED | RELEASED

record spend_row =
  sp_id :: nat
  sp_org_id :: string
  sp_agent_id :: string
  sp_usd_cents :: int
  sp_state :: spend_state
  sp_action_ref :: string
  sp_created_at_ms :: int

record revocation_row =
  rv_org_id :: string
  rv_agent_id :: string
  rv_revoked_at_ms :: int
  rv_reason :: string

record ledger =
  ld_spend :: "spend_row list"
  ld_revocations :: "revocation_row list"

definition empty_ledger :: ledger where
  "empty_ledger = \<lparr>ld_spend = [], ld_revocations = []\<rparr>"

datatype org_budget_reason =
    UNKNOWN_AGENT | NOT_EXECUTOR | REVOKED | UNKNOWN_LIMIT | PER_ACTION | AGENT_DAILY | AGGREGATE | OVERSPEND
  | NO_RESERVATION

record orgBudgetError =
  be_reason :: org_budget_reason
  be_agentId :: string
  be_requestedUsdCents :: "int option"
  be_usedUsdCents :: "int option"
  be_limitUsdCents :: "int option"

definition budget_error :: "org_budget_reason \<Rightarrow> string \<Rightarrow> int option \<Rightarrow> int option \<Rightarrow> int option \<Rightarrow> orgBudgetError" where
  "budget_error reason agentId requested used limit =
    \<lparr>be_reason = reason, be_agentId = agentId, be_requestedUsdCents = requested, be_usedUsdCents = used,
     be_limitUsdCents = limit\<rparr>"

section \<open>Operations\<close>

record budgetWindowTotals =
  bt_agentUsdCents :: int
  bt_orgUsdCents :: int

definition counted :: "spend_row \<Rightarrow> bool" where
  "counted r = (sp_state r \<in> {HELD, SETTLED})"

definition window_rows :: "string \<Rightarrow> int \<Rightarrow> ledger \<Rightarrow> spend_row list" where
  "window_rows orgId since db =
    filter (\<lambda>r. sp_org_id r = orgId \<and> since < sp_created_at_ms r \<and> counted r) (ld_spend db)"

definition totals :: "organization \<Rightarrow> string \<Rightarrow> int \<Rightarrow> int \<Rightarrow> ledger \<Rightarrow> budgetWindowTotals" where
  "totals org agentId windowMs now db =
    (let rows = window_rows (og_orgId org) (now - windowMs) db in
     \<lparr>bt_agentUsdCents = sum_list (map (\<lambda>r. if sp_agent_id r = agentId then sp_usd_cents r else 0) rows),
      bt_orgUsdCents = sum_list (map sp_usd_cents rows)\<rparr>)"

definition isRevoked :: "organization \<Rightarrow> string \<Rightarrow> ledger \<Rightarrow> bool" where
  "isRevoked org agentId db =
    list_ex (\<lambda>r. rv_org_id r = og_orgId org \<and> rv_agent_id r = agentId) (ld_revocations db)"

definition revoke :: "organization \<Rightarrow> string \<Rightarrow> string \<Rightarrow> int \<Rightarrow> ledger \<Rightarrow> ledger" where
  "revoke org agentId reason now db =
    db\<lparr>ld_revocations := filter (\<lambda>r. \<not> (rv_org_id r = og_orgId org \<and> rv_agent_id r = agentId)) (ld_revocations db) @
       [\<lparr>rv_org_id = og_orgId org, rv_agent_id = agentId, rv_revoked_at_ms = now, rv_reason = reason\<rparr>]\<rparr>"

definition budget_windowMs :: "organization \<Rightarrow> int" where
  "budget_windowMs org = (case tightest org of Some agg \<Rightarrow> al_windowMs agg | None \<Rightarrow> 24 * 60 * 60 * 1000)"

text \<open>The body of the transaction of \<open>reserve\<close>: rows are never deleted, so the new id is the next number.\<close>

definition reserve_txn ::
    "organization \<Rightarrow> string \<Rightarrow> int \<Rightarrow> int \<Rightarrow> int \<Rightarrow> string \<Rightarrow> int \<Rightarrow> int \<Rightarrow> ledger \<Rightarrow> orgBudgetError + (nat \<times> ledger)" where
  "reserve_txn org agentId perAction agentDaily usdCents actionRef now now' db =
    (if isRevoked org agentId db then Inl (budget_error REVOKED agentId (Some usdCents) None None)
     else if perAction < usdCents then Inl (budget_error PER_ACTION agentId (Some usdCents) None (Some perAction))
     else
       let t = totals org agentId (budget_windowMs org) now db in
       if agentDaily < bt_agentUsdCents t + usdCents
       then Inl (budget_error AGENT_DAILY agentId (Some usdCents) (Some (bt_agentUsdCents t)) (Some agentDaily))
       else if (case tightest org of Some agg \<Rightarrow> al_maxUsdCents agg < bt_orgUsdCents t + usdCents | None \<Rightarrow> False)
       then Inl (budget_error AGGREGATE agentId (Some usdCents) (Some (bt_orgUsdCents t)) (map_option al_maxUsdCents (tightest org)))
       else
         let n = Suc (length (ld_spend db)) in
         Inr (n, db\<lparr>ld_spend := ld_spend db @ [\<lparr>sp_id = n, sp_org_id = og_orgId org, sp_agent_id = agentId,
           sp_usd_cents = usdCents, sp_state = HELD, sp_action_ref = actionRef, sp_created_at_ms = now'\<rparr>]\<rparr>))"

definition reserve ::
    "organization \<Rightarrow> string \<Rightarrow> int \<Rightarrow> string \<Rightarrow> int \<Rightarrow> int \<Rightarrow> ledger \<Rightarrow> orgBudgetError + (nat \<times> ledger)" where
  "reserve org agentId usdCents actionRef now now' db =
    (case find (\<lambda>a. oa_id a = agentId) (og_agents org) of
       None \<Rightarrow> Inl (budget_error UNKNOWN_AGENT agentId None None None)
     | Some agent \<Rightarrow>
         if oa_executionClass agent \<noteq> EXECUTE then Inl (budget_error NOT_EXECUTOR agentId None None None)
         else case (oa_escalationMaxUsdCents agent, oa_dailyMaxUsdCents agent) of
                (Some perAction, Some agentDaily) \<Rightarrow>
                  reserve_txn org agentId perAction agentDaily usdCents actionRef now now' db
              | _ \<Rightarrow> Inl (budget_error UNKNOWN_LIMIT agentId (Some usdCents) None None))"

definition update_row :: "nat \<Rightarrow> (spend_row \<Rightarrow> spend_row) \<Rightarrow> ledger \<Rightarrow> ledger" where
  "update_row n f db = db\<lparr>ld_spend := map (\<lambda>r. if sp_id r = n then f r else r) (ld_spend db)\<rparr>"

definition settle :: "organization \<Rightarrow> nat \<Rightarrow> int \<Rightarrow> ledger \<Rightarrow> orgBudgetError + ledger" where
  "settle org reservationId actualUsdCents db =
    (case find (\<lambda>r. sp_id r = reservationId \<and> sp_org_id r = og_orgId org) (ld_spend db) of
       None \<Rightarrow> Inl (budget_error NO_RESERVATION ''?'' None None None)
     | Some row \<Rightarrow>
         if sp_state row \<noteq> HELD then Inl (budget_error NO_RESERVATION (sp_agent_id row) None None None)
         else if sp_usd_cents row < actualUsdCents
         then Inl (budget_error OVERSPEND (sp_agent_id row) (Some actualUsdCents) None (Some (sp_usd_cents row)))
         else Inr (update_row reservationId (\<lambda>r. r\<lparr>sp_state := SETTLED, sp_usd_cents := actualUsdCents\<rparr>) db))"

definition release :: "organization \<Rightarrow> nat \<Rightarrow> ledger \<Rightarrow> ledger" where
  "release org reservationId db =
    update_row reservationId
      (\<lambda>r. if sp_org_id r = og_orgId org \<and> sp_state r = HELD then r\<lparr>sp_state := RELEASED\<rparr> else r) db"

definition attribution :: "organization \<Rightarrow> int \<Rightarrow> int \<Rightarrow> ledger \<Rightarrow> (string \<times> int \<times> nat) list" where
  "attribution org windowMs now db =
    (let rows = window_rows (og_orgId org) (now - windowMs) db in
     map (\<lambda>g. let mine = filter (\<lambda>r. sp_agent_id r = g) rows in (g, sum_list (map sp_usd_cents mine), length mine))
       (sort (remdups (map sp_agent_id rows))))"

section \<open>Every run of the ledgers on one database\<close>

text \<open>
  Steps of the ledgers that share the tables: one ledger of the organization, any ledgers of others.
  Amounts are not negative and the clock does not go back within one call.
\<close>

inductive ledger_step :: "organization \<Rightarrow> ledger \<Rightarrow> ledger \<Rightarrow> bool" for org where
  reserved: "(og_orgId o' = og_orgId org \<longrightarrow> o' = org) \<Longrightarrow> 0 \<le> c \<Longrightarrow> now \<le> now' \<Longrightarrow>
    reserve o' g c ref now now' db = Inr (n, db') \<Longrightarrow> ledger_step org db db'"
| settled: "0 \<le> c \<Longrightarrow> settle o' n c db = Inr db' \<Longrightarrow> ledger_step org db db'"
| released: "ledger_step org db (release o' n db)"
| revoked: "ledger_step org db (revoke o' g reason now db)"

inductive_cases ledger_stepE: "ledger_step org db db'"

section \<open>Windows of a sum\<close>

definition weight :: "spend_row \<Rightarrow> int" where
  "weight r = (if counted r then sp_usd_cents r else 0)"

text \<open>An update keeps who spent when, and lowers what counts.\<close>

definition lowers :: "(spend_row \<Rightarrow> spend_row) \<Rightarrow> spend_row list \<Rightarrow> bool" where
  "lowers f rows \<longleftrightarrow> (\<forall>r \<in> set rows. sp_id (f r) = sp_id r \<and> sp_org_id (f r) = sp_org_id r \<and> sp_agent_id (f r) = sp_agent_id r \<and>
     sp_created_at_ms (f r) = sp_created_at_ms r \<and> 0 \<le> weight (f r) \<and> weight (f r) \<le> weight r \<and> (sp_state r \<noteq> HELD \<longrightarrow> f r = r))"

locale spending_window =
  fixes mine :: "spend_row \<Rightarrow> bool"
  assumes owner: "sp_org_id r = sp_org_id r' \<Longrightarrow> sp_agent_id r = sp_agent_id r' \<Longrightarrow> mine r = mine r'"
begin

definition spent :: "int \<Rightarrow> int \<Rightarrow> spend_row list \<Rightarrow> int" where
  "spent lo hi rows = sum_list (map weight (filter (\<lambda>r. mine r \<and> lo < sp_created_at_ms r \<and> sp_created_at_ms r \<le> hi) rows))"

definition spent_since :: "int \<Rightarrow> spend_row list \<Rightarrow> int" where
  "spent_since lo rows = sum_list (map weight (filter (\<lambda>r. mine r \<and> lo < sp_created_at_ms r) rows))"

lemma spent_append [simp]: "spent lo hi (rows @ rows') = spent lo hi rows + spent lo hi rows'"
  by (simp add: spent_def)

lemma spent_le_since:
  assumes "\<forall>r \<in> set rows. 0 \<le> weight r" and "lo' \<le> lo"
  shows "spent lo hi rows \<le> spent_since lo' rows"
  using assms by (induction rows) (auto simp: spent_def spent_since_def)

lemma spent_lowered:
  assumes "lowers f rows"
  shows "spent lo hi (map f rows) \<le> spent lo hi rows"
  using assms
proof (induction rows)
  case (Cons r rows)
  have "mine (f r) = mine r" using Cons.prems by (intro owner) (auto simp: lowers_def)
  moreover have "0 \<le> weight r \<and> weight (f r) \<le> weight r \<and> sp_created_at_ms (f r) = sp_created_at_ms r"
    using Cons.prems by (auto simp: lowers_def)
  moreover have "spent lo hi (map f rows) \<le> spent lo hi rows" using Cons by (simp add: lowers_def)
  ultimately show ?case by (simp add: spent_def)
qed simp

lemma insert_keeps_cap:
  assumes nonneg: "\<forall>r \<in> set rows. 0 \<le> weight r" and before: "\<And>u. spent (u - w) u rows \<le> cap"
    and checked: "mine new \<Longrightarrow> spent_since (now - w) rows + weight new \<le> cap" and clock: "now \<le> sp_created_at_ms new"
  shows "spent (u - w) u (rows @ [new]) \<le> cap"
proof (cases "mine new \<and> u - w < sp_created_at_ms new \<and> sp_created_at_ms new \<le> u")
  case True
  have "spent (u - w) u rows \<le> spent_since (now - w) rows"
    using True clock by (intro spent_le_since [OF nonneg]) linarith
  with True checked show ?thesis by (simp add: spent_def)
qed (use before [of u] in \<open>auto simp: spent_def\<close>)

end

interpretation org_window: spending_window "\<lambda>r. sp_org_id r = orgId" for orgId
  by unfold_locales simp

interpretation agent_window: spending_window "\<lambda>r. sp_org_id r = orgId \<and> sp_agent_id r = g" for orgId g
  by unfold_locales simp

section \<open>The budget invariant\<close>

text \<open>What an organization, or one agent of it, has held or spent in the window \<open>(lo, hi]\<close>.\<close>

definition org_spent :: "string \<Rightarrow> int \<Rightarrow> int \<Rightarrow> ledger \<Rightarrow> int" where
  "org_spent orgId lo hi db = sum_list (map sp_usd_cents
    (filter (\<lambda>r. counted r \<and> sp_org_id r = orgId \<and> lo < sp_created_at_ms r \<and> sp_created_at_ms r \<le> hi) (ld_spend db)))"

definition agent_spent :: "string \<Rightarrow> string \<Rightarrow> int \<Rightarrow> int \<Rightarrow> ledger \<Rightarrow> int" where
  "agent_spent orgId g lo hi db = sum_list (map sp_usd_cents
    (filter (\<lambda>r. counted r \<and> (sp_org_id r = orgId \<and> sp_agent_id r = g) \<and> lo < sp_created_at_ms r \<and> sp_created_at_ms r \<le> hi) (ld_spend db)))"

lemma sum_weight: "sum_list (map weight (filter P rows)) = sum_list (map sp_usd_cents (filter (\<lambda>r. counted r \<and> P r) rows))"
  by (induction rows) (auto simp: weight_def)

lemma spent_windows:
  "org_spent orgId lo hi db = org_window.spent orgId lo hi (ld_spend db)"
  "agent_spent orgId g lo hi db = agent_window.spent orgId g lo hi (ld_spend db)"
  by (simp_all add: org_spent_def agent_spent_def org_window.spent_def agent_window.spent_def sum_weight)

lemma totals_windows:
  "bt_orgUsdCents (totals org g w now db) = org_window.spent_since (og_orgId org) (now - w) (ld_spend db)"
  "bt_agentUsdCents (totals org g w now db) = agent_window.spent_since (og_orgId org) g (now - w) (ld_spend db)"
proof -
  have pick: "sum_list (map (\<lambda>r. if sp_agent_id r = g then sp_usd_cents r else 0) rows) =
    sum_list (map sp_usd_cents (filter (\<lambda>r. sp_agent_id r = g) rows))" for rows
    by (induction rows) auto
  show "bt_orgUsdCents (totals org g w now db) = org_window.spent_since (og_orgId org) (now - w) (ld_spend db)"
    by (simp add: totals_def Let_def window_rows_def org_window.spent_since_def sum_weight conj_ac)
  show "bt_agentUsdCents (totals org g w now db) = agent_window.spent_since (og_orgId org) g (now - w) (ld_spend db)"
    unfolding agent_window.spent_since_def sum_weight by (simp add: totals_def Let_def window_rows_def pick conj_ac)
qed

definition spend_ok :: "organization \<Rightarrow> spend_row \<Rightarrow> bool" where
  "spend_ok org r \<longleftrightarrow> 0 \<le> weight r \<and>
    (sp_org_id r = og_orgId org \<longrightarrow> (\<exists>a esc. find (\<lambda>a. oa_id a = sp_agent_id r) (og_agents org) = Some a \<and>
       oa_executionClass a = EXECUTE \<and> oa_escalationMaxUsdCents a = Some esc \<and> weight r \<le> esc))"

definition within_budget :: "organization \<Rightarrow> ledger \<Rightarrow> bool" where
  "within_budget org db \<longleftrightarrow>
    map sp_id (ld_spend db) = [1..<Suc (length (ld_spend db))] \<and>
    (\<forall>r \<in> set (ld_spend db). spend_ok org r) \<and>
    (\<forall>u agg. tightest org = Some agg \<longrightarrow>
       org_window.spent (og_orgId org) (u - budget_windowMs org) u (ld_spend db) \<le> al_maxUsdCents agg) \<and>
    (\<forall>u g a d. find (\<lambda>a. oa_id a = g) (og_agents org) = Some a \<and> oa_dailyMaxUsdCents a = Some d \<longrightarrow>
       agent_window.spent (og_orgId org) g (u - budget_windowMs org) u (ld_spend db) \<le> d)"

text \<open>What the schema promises of the limits: \<open>nonnegative()\<close>.\<close>

definition limits_nonnegative :: "organization \<Rightarrow> bool" where
  "limits_nonnegative org \<longleftrightarrow> (\<forall>l \<in> set (og_aggregateLimits org). 0 \<le> al_maxUsdCents l) \<and>
    (\<forall>a \<in> set (og_agents org). \<forall>d. oa_dailyMaxUsdCents a = Some d \<longrightarrow> 0 \<le> d)"

lemma find_in: "find P xs = Some x \<Longrightarrow> x \<in> set xs \<and> P x"
  by (auto simp: find_Some_iff)

lemma empty_within_budget: "limits_nonnegative org \<Longrightarrow> within_budget org empty_ledger"
  by (auto simp: within_budget_def empty_ledger_def limits_nonnegative_def org_window.spent_def agent_window.spent_def
      dest: find_in tightest_least)

lemma lowered_within_budget:
  assumes inv: "within_budget org db" and low: "lowers f (ld_spend db)"
  shows "within_budget org (db\<lparr>ld_spend := map f (ld_spend db)\<rparr>)"
proof -
  have ids: "map sp_id (map f (ld_spend db)) = map sp_id (ld_spend db)" using low by (simp add: lowers_def)
  have "spend_ok org (f r)" if "r \<in> set (ld_spend db)" for r
  proof -
    have "spend_ok org r" using inv that by (simp add: within_budget_def)
    moreover have "0 \<le> weight (f r) \<and> weight (f r) \<le> weight r \<and> sp_org_id (f r) = sp_org_id r \<and> sp_agent_id (f r) = sp_agent_id r"
      using low that by (auto simp: lowers_def)
    ultimately show ?thesis unfolding spend_ok_def by (auto intro: order.trans)
  qed
  with inv ids org_window.spent_lowered [OF low] agent_window.spent_lowered [OF low] show ?thesis
    unfolding within_budget_def by (simp del: map_map) (blast intro: order.trans)
qed

lemma reserve_Inr:
  assumes "reserve org g c ref now now' db = Inr (n, db')"
  obtains a esc daily where "find (\<lambda>a. oa_id a = g) (og_agents org) = Some a" "oa_executionClass a = EXECUTE"
    "oa_escalationMaxUsdCents a = Some esc" "oa_dailyMaxUsdCents a = Some daily" "\<not> isRevoked org g db" "c \<le> esc"
    "agent_window.spent_since (og_orgId org) g (now - budget_windowMs org) (ld_spend db) + c \<le> daily"
    "\<forall>agg. tightest org = Some agg \<longrightarrow>
      org_window.spent_since (og_orgId org) (now - budget_windowMs org) (ld_spend db) + c \<le> al_maxUsdCents agg"
    "n = Suc (length (ld_spend db))"
    "db' = db\<lparr>ld_spend := ld_spend db @ [\<lparr>sp_id = n, sp_org_id = og_orgId org, sp_agent_id = g,
       sp_usd_cents = c, sp_state = HELD, sp_action_ref = ref, sp_created_at_ms = now'\<rparr>]\<rparr>"
  using assms unfolding reserve_def reserve_txn_def totals_windows Let_def
  by (fastforce split: option.splits if_splits)

lemma reserve_within_budget:
  assumes inv: "within_budget org db" and same: "og_orgId o' = og_orgId org \<longrightarrow> o' = org"
    and c: "0 \<le> c" and clock: "now \<le> now'" and ok: "reserve o' g c ref now now' db = Inr (n, db')"
  shows "within_budget org db'"
proof -
  obtain a esc daily where a: "find (\<lambda>a. oa_id a = g) (og_agents o') = Some a" "oa_executionClass a = EXECUTE"
      "oa_escalationMaxUsdCents a = Some esc" "oa_dailyMaxUsdCents a = Some daily" "c \<le> esc"
    and agent: "agent_window.spent_since (og_orgId o') g (now - budget_windowMs o') (ld_spend db) + c \<le> daily"
    and org: "\<forall>agg. tightest o' = Some agg \<longrightarrow>
      org_window.spent_since (og_orgId o') (now - budget_windowMs o') (ld_spend db) + c \<le> al_maxUsdCents agg"
    and db': "n = Suc (length (ld_spend db))" "db' = db\<lparr>ld_spend := ld_spend db @ [\<lparr>sp_id = n, sp_org_id = og_orgId o',
       sp_agent_id = g, sp_usd_cents = c, sp_state = HELD, sp_action_ref = ref, sp_created_at_ms = now'\<rparr>]\<rparr>"
    by (rule reserve_Inr [OF ok])
  define new where "new = \<lparr>sp_id = n, sp_org_id = og_orgId o', sp_agent_id = g, sp_usd_cents = c, sp_state = HELD,
    sp_action_ref = ref, sp_created_at_ms = now'\<rparr>"
  have new: "weight new = c" "sp_created_at_ms new = now'" "sp_org_id new = og_orgId o'" "sp_agent_id new = g" "sp_id new = n"
    by (simp_all add: new_def weight_def counted_def)
  have rows: "ld_spend db' = ld_spend db @ [new]" by (simp add: db'(2) new_def)
  have nonneg: "\<forall>r \<in> set (ld_spend db). 0 \<le> weight r" using inv by (simp add: within_budget_def spend_ok_def)
  have "map sp_id (ld_spend db') = [1..<Suc (length (ld_spend db'))]"
    using inv by (simp add: rows new db'(1) within_budget_def)
  moreover have "spend_ok org new" using same a c by (auto simp: spend_ok_def new)
  moreover have "org_window.spent (og_orgId org) (u - budget_windowMs org) u (ld_spend db @ [new]) \<le> al_maxUsdCents agg"
    if "tightest org = Some agg" for u agg
    using inv that org same clock
    by (intro org_window.insert_keeps_cap [OF nonneg, of _ _ _ _ now]) (auto simp: within_budget_def new)
  moreover have "agent_window.spent (og_orgId org) h (u - budget_windowMs org) u (ld_spend db @ [new]) \<le> d"
    if "find (\<lambda>a. oa_id a = h) (og_agents org) = Some b" "oa_dailyMaxUsdCents b = Some d" for u h b d
    using inv that agent same clock a(1,4)
    by (intro agent_window.insert_keeps_cap [OF nonneg, of _ _ _ _ _ now]) (auto simp: within_budget_def new)
  ultimately show ?thesis using inv unfolding within_budget_def rows by auto
qed

text \<open>\<open>settle\<close> and \<open>release\<close> as updates that lower rows.\<close>

lemma unique_row:
  assumes "within_budget org db" "r \<in> set (ld_spend db)" "r' \<in> set (ld_spend db)" "sp_id r = sp_id r'"
  shows "r = r'"
proof -
  have "distinct (map sp_id (ld_spend db))" using assms(1) by (simp add: within_budget_def)
  then show ?thesis using assms(2-4) by (auto simp: distinct_map inj_on_def)
qed

lemma settle_lowers:
  assumes inv: "within_budget org db" and c: "0 \<le> c" and ok: "settle o' n c db = Inr db'"
  obtains f where "lowers f (ld_spend db)" "db' = db\<lparr>ld_spend := map f (ld_spend db)\<rparr>"
proof -
  obtain row where row: "find (\<lambda>r. sp_id r = n \<and> sp_org_id r = og_orgId o') (ld_spend db) = Some row" "sp_state row = HELD"
      "c \<le> sp_usd_cents row"
    and db': "db' = update_row n (\<lambda>r. r\<lparr>sp_state := SETTLED, sp_usd_cents := c\<rparr>) db"
    using ok by (auto simp: settle_def split: option.splits if_splits)
  have "row \<in> set (ld_spend db)" "sp_id row = n" using find_in [OF row(1)] by auto
  then have only: "r = row" if "r \<in> set (ld_spend db)" "sp_id r = n" for r using unique_row [OF inv] that by metis
  have nonneg: "0 \<le> weight r" if "r \<in> set (ld_spend db)" for r using inv that by (simp add: within_budget_def spend_ok_def)
  have "lowers (\<lambda>r. if sp_id r = n then r\<lparr>sp_state := SETTLED, sp_usd_cents := c\<rparr> else r) (ld_spend db)"
    using only row c nonneg unfolding lowers_def by (auto simp: weight_def counted_def)
  with db' show ?thesis by (intro that) (simp_all add: update_row_def)
qed

lemma release_lowers:
  assumes "within_budget org db"
  obtains f where "lowers f (ld_spend db)" "release o' n db = db\<lparr>ld_spend := map f (ld_spend db)\<rparr>"
proof -
  have "\<forall>r \<in> set (ld_spend db). 0 \<le> weight r" using assms by (simp add: within_budget_def spend_ok_def)
  then have "lowers (\<lambda>r. if sp_id r = n then (if sp_org_id r = og_orgId o' \<and> sp_state r = HELD then r\<lparr>sp_state := RELEASED\<rparr> else r) else r)
      (ld_spend db)"
    by (auto simp: lowers_def weight_def counted_def)
  then show ?thesis by (intro that) (simp_all add: release_def update_row_def)
qed

lemma step_within_budget: "ledger_step org db db' \<Longrightarrow> within_budget org db \<Longrightarrow> within_budget org db'"
proof (induction rule: ledger_step.induct)
  case (reserved o' c now now' g ref db n db')
  then show ?case using reserve_within_budget by blast
next
  case (settled c o' n db db')
  then show ?case by (metis settle_lowers lowered_within_budget)
next
  case (released db o' n)
  then show ?case by (metis release_lowers lowered_within_budget)
next
  case (revoked db o' g reason now)
  then show ?case unfolding within_budget_def revoke_def by (auto simp del: upt.simps)
qed

lemma run_within_budget: "(ledger_step org)\<^sup>*\<^sup>* db db' \<Longrightarrow> within_budget org db \<Longrightarrow> within_budget org db'"
  by (induction rule: rtranclp_induct) (auto intro: step_within_budget)

section \<open>What a step may change\<close>

text \<open>The rows of an agent after a step: the old rows, possibly updated, and a new one only if the agent
  was not revoked.\<close>

definition grows :: "organization \<Rightarrow> ledger \<Rightarrow> ledger \<Rightarrow> bool" where
  "grows org db db' \<longleftrightarrow> (\<exists>f news. ld_spend db' = map f (ld_spend db) @ news \<and> lowers f (ld_spend db) \<and>
    (\<forall>r \<in> set news. sp_org_id r = og_orgId org \<longrightarrow> \<not> isRevoked org (sp_agent_id r) db)) \<and>
    (\<forall>g. isRevoked org g db \<longrightarrow> isRevoked org g db')"

lemma lowers_id: "within_budget org db \<Longrightarrow> lowers id (ld_spend db)"
  by (auto simp: lowers_def within_budget_def spend_ok_def)

lemma step_grows:
  assumes "ledger_step org db db'" and inv: "within_budget org db"
  shows "grows org db db'"
  using assms(1)
proof cases
  case (reserved o' c now now' g ref n)
  from reserved(4) obtain new where new: "ld_spend db' = ld_spend db @ [new]" "ld_revocations db' = ld_revocations db"
      "sp_org_id new = og_orgId o'" "sp_agent_id new = g" "\<not> isRevoked o' g db"
    by (rule reserve_Inr) simp
  have "ld_spend db' = map id (ld_spend db) @ [new]" by (simp add: new(1))
  moreover have "\<forall>r \<in> set [new]. sp_org_id r = og_orgId org \<longrightarrow> \<not> isRevoked org (sp_agent_id r) db"
    using new(3-5) reserved(1) by auto
  moreover have "\<forall>g. isRevoked org g db \<longrightarrow> isRevoked org g db'" by (simp add: isRevoked_def new(2))
  ultimately show ?thesis using lowers_id [OF inv] unfolding grows_def by blast
next
  case (settled c o' n)
  then obtain f where "lowers f (ld_spend db)" "db' = db\<lparr>ld_spend := map f (ld_spend db)\<rparr>" by (metis settle_lowers [OF inv])
  then show ?thesis unfolding grows_def by (intro conjI exI [of _ f] exI [of _ "[]"]) (simp_all add: isRevoked_def)
next
  case (released o' n)
  then obtain f where "lowers f (ld_spend db)" "db' = db\<lparr>ld_spend := map f (ld_spend db)\<rparr>" by (metis release_lowers [OF inv])
  then show ?thesis unfolding grows_def by (intro conjI exI [of _ f] exI [of _ "[]"]) (simp_all add: isRevoked_def)
next
  case (revoked o' g reason now)
  then show ?thesis using lowers_id [OF inv] unfolding grows_def
    by (intro conjI exI [of _ id] exI [of _ "[]"]) (auto simp: isRevoked_def revoke_def list_ex_iff)
qed

lemma grows_final: "grows org db db' \<Longrightarrow> r \<in> set (ld_spend db) \<Longrightarrow> sp_state r \<noteq> HELD \<Longrightarrow> r \<in> set (ld_spend db')"
  unfolding grows_def lowers_def by (metis UnI1 image_eqI list.set_map set_append)

text \<open>The rows of an agent: their ids, and what they amount to over all time.\<close>

definition agent_rows :: "organization \<Rightarrow> string \<Rightarrow> ledger \<Rightarrow> spend_row list" where
  "agent_rows org g db = filter (\<lambda>r. sp_org_id r = og_orgId org \<and> sp_agent_id r = g) (ld_spend db)"

definition committed :: "organization \<Rightarrow> string \<Rightarrow> ledger \<Rightarrow> int" where
  "committed org g db = sum_list (map sp_usd_cents (filter counted (agent_rows org g db)))"

lemma lowered_agent:
  assumes "lowers f rows"
  shows "map sp_id (filter (\<lambda>r. sp_org_id r = x \<and> sp_agent_id r = g) (map f rows)) =
      map sp_id (filter (\<lambda>r. sp_org_id r = x \<and> sp_agent_id r = g) rows)"
    and "sum_list (map weight (filter (\<lambda>r. sp_org_id r = x \<and> sp_agent_id r = g) (map f rows))) \<le>
      sum_list (map weight (filter (\<lambda>r. sp_org_id r = x \<and> sp_agent_id r = g) rows))"
  using assms by (induction rows) (auto simp: lowers_def)

lemma committed_weight: "committed org g db = sum_list (map weight (agent_rows org g db))"
proof -
  have "sum_list (map sp_usd_cents (filter counted rows)) = sum_list (map weight rows)" for rows
    by (induction rows) (auto simp: weight_def)
  then show ?thesis by (simp add: committed_def)
qed

lemma grows_revoked:
  assumes "grows org db db'" and rev: "isRevoked org g db"
  shows "isRevoked org g db' \<and> map sp_id (agent_rows org g db') = map sp_id (agent_rows org g db) \<and>
    committed org g db' \<le> committed org g db"
proof -
  obtain f news where f: "ld_spend db' = map f (ld_spend db) @ news" "lowers f (ld_spend db)"
    and news: "\<forall>r \<in> set news. sp_org_id r = og_orgId org \<longrightarrow> \<not> isRevoked org (sp_agent_id r) db"
    and stays: "isRevoked org g db'" using assms unfolding grows_def by blast
  have none: "filter (\<lambda>r. sp_org_id r = og_orgId org \<and> sp_agent_id r = g) news = []"
    using news rev by (auto simp: filter_empty_conv)
  show ?thesis using stays lowered_agent [OF f(2), of "og_orgId org" g]
    unfolding committed_weight agent_rows_def f(1) filter_append none by simp
qed

section \<open>Properties\<close>

text \<open>
  C10: However the ledgers on one database interleave, the spending of an organization is capped in
  every window, not only in those that end when a request is made: at any instant \<open>u\<close>, what all agents
  have held or spent in the window of the tightest aggregate limit that ends at \<open>u\<close> is within that
  limit, what one agent has in the same window is within its own limit, and every single row is within
  the escalation ceiling of a declared executing agent. No condition relates the clock readings of
  different calls.
\<close>

theorem spending_is_capped:
  assumes "limits_nonnegative org" and "(ledger_step org)\<^sup>*\<^sup>* empty_ledger db"
  shows "(\<forall>u agg. tightest org = Some agg \<longrightarrow> org_spent (og_orgId org) (u - al_windowMs agg) u db \<le> al_maxUsdCents agg) \<and>
    (\<forall>u a d. find (\<lambda>b. oa_id b = oa_id a) (og_agents org) = Some a \<and> oa_dailyMaxUsdCents a = Some d \<longrightarrow>
       agent_spent (og_orgId org) (oa_id a) (u - budget_windowMs org) u db \<le> d) \<and>
    (\<forall>r \<in> set (ld_spend db). sp_org_id r = og_orgId org \<and> counted r \<longrightarrow> (\<exists>a \<in> set (og_agents org). \<exists>esc.
       oa_id a = sp_agent_id r \<and> oa_executionClass a = EXECUTE \<and> oa_escalationMaxUsdCents a = Some esc \<and>
       0 \<le> sp_usd_cents r \<and> sp_usd_cents r \<le> esc))"
proof -
  have inv: "within_budget org db" using run_within_budget [OF assms(2) empty_within_budget [OF assms(1)]] .
  have "\<exists>a \<in> set (og_agents org). \<exists>esc. oa_id a = sp_agent_id r \<and> oa_executionClass a = EXECUTE \<and>
       oa_escalationMaxUsdCents a = Some esc \<and> 0 \<le> sp_usd_cents r \<and> sp_usd_cents r \<le> esc"
    if "r \<in> set (ld_spend db)" "sp_org_id r = og_orgId org" "counted r" for r
  proof -
    have "spend_ok org r" using inv that(1) by (simp add: within_budget_def)
    then show ?thesis using that(2,3) unfolding spend_ok_def weight_def by (auto dest: find_in)
  qed
  with inv show ?thesis unfolding within_budget_def spent_windows by (auto simp: budget_windowMs_def)
qed

text \<open>
  Revocation is final. In every continuation a revoked agent stays revoked, the set of its rows
  does not grow, and what it has held or spent in total does not grow either; and whatever happens,
  a settled or released row is never changed again.
\<close>

theorem revocation_stops_spending:
  assumes "within_budget org db" and "isRevoked org g db" and "(ledger_step org)\<^sup>*\<^sup>* db db'"
  shows "isRevoked org g db' \<and> map sp_id (agent_rows org g db') = map sp_id (agent_rows org g db) \<and>
    committed org g db' \<le> committed org g db \<and>
    (\<forall>r \<in> set (ld_spend db). sp_state r \<noteq> HELD \<longrightarrow> r \<in> set (ld_spend db'))"
  using assms(3)
proof (induction rule: rtranclp_induct)
  case base
  then show ?case using assms(2) by simp
next
  case (step db1 db2)
  have inv: "within_budget org db1" by (rule run_within_budget [OF step.hyps(1) assms(1)])
  have g: "grows org db1 db2" by (rule step_grows [OF step.hyps(2) inv])
  from grows_revoked [OF g, of g] grows_final [OF g] step.IH show ?case by auto
qed

text \<open>
  The view of who spent what accounts for everything the caps see: its amounts add up to the
  organization's total of the same window, it has one line per agent in order, and a line shows that
  agent's total.
\<close>

theorem attribution_is_complete:
  "sum_list (map (\<lambda>(g, c, n). c) (attribution org w now db)) = bt_orgUsdCents (totals org h w now db) \<and>
   sorted_wrt (<) (map fst (attribution org w now db)) \<and>
   list_all (\<lambda>(g, c, n). c = bt_agentUsdCents (totals org g w now db) \<and> 0 < n) (attribution org w now db)"
proof -
  define rows where "rows = window_rows (og_orgId org) (now - w) db"
  define gs where "gs = sort (remdups (map sp_agent_id rows))"
  have lines: "attribution org w now db = map (\<lambda>g. (g, sum_list (map sp_usd_cents (filter (\<lambda>r. sp_agent_id r = g) rows)),
      length (filter (\<lambda>r. sp_agent_id r = g) rows))) gs"
    by (simp add: attribution_def Let_def rows_def gs_def)
  have gs: "distinct gs" "set gs = sp_agent_id ` set rows" "sorted gs" by (simp_all add: gs_def)
  have group: "sum_list (map (\<lambda>g. sum_list (map sp_usd_cents (filter (\<lambda>r. sp_agent_id r = g) xs))) ys) = sum_list (map sp_usd_cents xs)"
    if "distinct ys" "sp_agent_id ` set xs \<subseteq> set ys" for xs ys
    using that(2)
  proof (induction xs)
    case (Cons x xs)
    have "sum_list (map (\<lambda>g. (if sp_agent_id x = g then sp_usd_cents x else 0) +
        sum_list (map sp_usd_cents (filter (\<lambda>r. sp_agent_id r = g) xs))) ys) =
      sum_list (map (\<lambda>g. if sp_agent_id x = g then sp_usd_cents x else 0) ys) + sum_list (map sp_usd_cents xs)"
      using Cons by (simp add: sum_list_addf)
    moreover have "sum_list (map (\<lambda>g. if sp_agent_id x = g then sp_usd_cents x else 0) ys) = sp_usd_cents x"
      using that(1) Cons.prems by (simp add: sum_list_distinct_conv_sum_set)
    moreover have "(\<lambda>g. sum_list (map sp_usd_cents (filter (\<lambda>r. sp_agent_id r = g) (x # xs)))) =
      (\<lambda>g. (if sp_agent_id x = g then sp_usd_cents x else 0) + sum_list (map sp_usd_cents (filter (\<lambda>r. sp_agent_id r = g) xs)))"
      by auto
    ultimately show ?case by simp
  qed simp
  have agent: "sum_list (map (\<lambda>r. if sp_agent_id r = g then sp_usd_cents r else 0) rows) =
    sum_list (map sp_usd_cents (filter (\<lambda>r. sp_agent_id r = g) rows))" for g by (induction rows) auto
  have "sum_list (map (\<lambda>(g, c, n). c) (attribution org w now db)) = bt_orgUsdCents (totals org h w now db)"
    using group [OF gs(1), of rows] gs(2) by (simp add: lines comp_def totals_def Let_def flip: rows_def)
  moreover have "sorted_wrt (<) (map fst (attribution org w now db))"
    using gs(1,3) by (simp add: lines comp_def strict_sorted_iff)
  moreover have "list_all (\<lambda>(g, c, n). c = bt_agentUsdCents (totals org g w now db) \<and> 0 < n) (attribution org w now db)"
    using gs(2) by (auto simp: lines list_all_iff totals_def Let_def agent filter_empty_conv simp flip: rows_def)
  ultimately show ?thesis by blast
qed

section \<open>Concrete runs\<close>

definition sample_spend :: "nat \<Rightarrow> string \<Rightarrow> int \<Rightarrow> int \<Rightarrow> spend_row" where
  "sample_spend n g c t = \<lparr>sp_id = n, sp_org_id = ''org-acme-treasury'', sp_agent_id = g, sp_usd_cents = c, sp_state = HELD,
    sp_action_ref = ''a'', sp_created_at_ms = t\<rparr>"

definition sample_ledger :: ledger where
  "sample_ledger = \<lparr>ld_spend = [sample_spend 1 ''guardian'' 60000 5], ld_revocations = []\<rparr>"

lemma sample_reserve: "reserve treasuryOrg ''guardian'' 60000 ''a'' 5 5 empty_ledger = Inr (1, sample_ledger)"
  by code_simp

lemma sample_reserved: "(ledger_step treasuryOrg)\<^sup>*\<^sup>* empty_ledger sample_ledger"
  using ledger_step.reserved [OF _ _ _ sample_reserve, of treasuryOrg] by simp

lemma treasury_limits: "limits_nonnegative treasuryOrg"
  by (simp add: limits_nonnegative_def treasuryOrg_def sample_guardian_def sample_rebalancer_def sample_reporter_def sample_agent_def)

theorem spending_is_capped_witness:
  "org_spent ''org-acme-treasury'' (5 - 86400000) 5 sample_ledger \<le> 125000"
proof -
  have "tightest treasuryOrg = Some \<lparr>al_id = ''org-daily'', al_maxUsdCents = 125000, al_windowMs = 86400000, al_description = []\<rparr>"
    by (simp add: tightest_def treasuryOrg_def)
  note t = this
  show ?thesis
    using spending_is_capped [OF treasury_limits sample_reserved, THEN conjunct1, THEN spec, THEN spec, THEN mp, OF t, of 5]
    by (simp add: treasuryOrg_def)
qed

theorem revocation_stops_spending_witness:
  "isRevoked treasuryOrg ''guardian'' (release treasuryOrg 1 (revoke treasuryOrg ''guardian'' ''r'' 6 sample_ledger)) \<and>
   committed treasuryOrg ''guardian'' (release treasuryOrg 1 (revoke treasuryOrg ''guardian'' ''r'' 6 sample_ledger)) \<le> 60000"
proof -
  let ?db = "revoke treasuryOrg ''guardian'' ''r'' 6 sample_ledger"
  have "(ledger_step treasuryOrg)\<^sup>*\<^sup>* empty_ledger ?db"
    by (rule rtranclp.rtrancl_into_rtrancl [OF sample_reserved ledger_step.revoked])
  then have inv: "within_budget treasuryOrg ?db" by (rule run_within_budget [OF _ empty_within_budget [OF treasury_limits]])
  have "isRevoked treasuryOrg ''guardian'' ?db" and c: "committed treasuryOrg ''guardian'' ?db = 60000" by code_simp+
  from revocation_stops_spending [OF inv this(1) r_into_rtranclp, OF ledger_step.released, of treasuryOrg 1] c
  show ?thesis by simp
qed

definition two_limits_org :: organization where
  "two_limits_org = treasuryOrg\<lparr>og_aggregateLimits :=
    [\<lparr>al_id = ''burst'', al_maxUsdCents = 100, al_windowMs = 10, al_description = []\<rparr>,
     \<lparr>al_id = ''day'', al_maxUsdCents = 150, al_windowMs = 1000, al_description = []\<rparr>]\<rparr>"

definition two_limits_ledger :: ledger where
  "two_limits_ledger = \<lparr>ld_spend = [sample_spend 1 ''guardian'' 100 0, sample_spend 2 ''rebalancer'' 100 10], ld_revocations = []\<rparr>"

lemma two_limits_run: "(ledger_step two_limits_org)\<^sup>*\<^sup>* empty_ledger two_limits_ledger"
proof -
  define db where "db = \<lparr>ld_spend = [sample_spend 1 ''guardian'' 100 0], ld_revocations = []\<rparr>"
  have 1: "reserve two_limits_org ''guardian'' 100 ''a'' 0 0 empty_ledger = Inr (1, db)" unfolding db_def by code_simp
  have 2: "reserve two_limits_org ''rebalancer'' 100 ''a'' 10 10 db = Inr (2, two_limits_ledger)" unfolding db_def by code_simp
  have "ledger_step two_limits_org empty_ledger db" by (rule ledger_step.reserved [OF _ _ _ 1]) simp_all
  moreover have "ledger_step two_limits_org db two_limits_ledger" by (rule ledger_step.reserved [OF _ _ _ 2]) simp_all
  ultimately show ?thesis by simp
qed

text \<open>
  Of several aggregate limits only the one with the smallest amount is enforced. An organization
  with a cap of 100 per 10 ms and a cap of 150 per 1000 ms passes the validator, its ledger grants two
  reservations of 100 at times 0 and 10, and the second limit is exceeded in its own window.
\<close>

theorem second_aggregate_limit_not_enforced:
  "ov_buildable (validateOrganization Inr two_limits_org) \<and>
   (ledger_step two_limits_org)\<^sup>*\<^sup>* empty_ledger two_limits_ledger \<and>
   (\<exists>l. l \<in> set (og_aggregateLimits two_limits_org) \<and>
     al_maxUsdCents l < org_spent (og_orgId two_limits_org) (10 - al_windowMs l) 10 two_limits_ledger)"
proof (intro conjI exI)
  let ?l = "\<lparr>al_id = ''day'', al_maxUsdCents = 150, al_windowMs = 1000, al_description = []\<rparr>"
  have "org_issues two_limits_org = []" by code_simp
  then show "ov_buildable (validateOrganization Inr two_limits_org)" by (simp add: validateOrganization_def)
  show "?l \<in> set (og_aggregateLimits two_limits_org)" by (simp add: two_limits_org_def)
  show "al_maxUsdCents ?l < org_spent (og_orgId two_limits_org) (10 - al_windowMs ?l) 10 two_limits_ledger"
    by (simp add: org_spent_def two_limits_ledger_def sample_spend_def two_limits_org_def treasuryOrg_def counted_def)
qed (rule two_limits_run)

end
