(* ===== verification/Org_Graph.thy ===== *)
theory Org_Graph
  imports Org
begin

text \<open>
  The nested graph of an organization (\<open>packages/studio-org/src/graph.ts\<close>): the projection with its
  nodes, edges, positions and texts. Characters are bytes, so the dash of the message labels is its
  UTF-8 text. The graph of an organization that the validator accepts is well formed and shows no
  warning.
\<close>

section \<open>Nodes and edges\<close>

datatype orgNodeKind = Organization | AgentGroup | EnsIdentity | Policy | Limits | Capability | SharedResource | AggregateLimit

datatype node_state = OK | WARN | BLOCKED

record orgGraphNode =
  gn_id :: string
  gn_kind :: orgNodeKind
  gn_label :: string
  gn_sublabel :: string
  gn_parentId :: "string option"
  gn_position :: "int \<times> int"
  gn_size :: "int \<times> int"
  gn_state :: node_state
  gn_detail :: "(string \<times> string) list"

datatype edge_kind = Resource_Edge | Message_Edge | Namespace_Edge

record orgGraphEdge =
  ge_id :: string
  ge_source :: string
  ge_target :: string
  ge_label :: "string option"
  ge_kind :: edge_kind
  ge_animated :: bool

record orgGraph =
  gr_orgId :: string
  gr_revision :: int
  gr_nodes :: "orgGraphNode list"
  gr_edges :: "orgGraphEdge list"

definition AGENT_W :: int where
  "AGENT_W = 300"

definition AGENT_H :: int where
  "AGENT_H = 260"

definition GAP_X :: int where
  "GAP_X = 60"

definition CHILD_H :: int where
  "CHILD_H = 46"

section \<open>Texts\<close>

definition usd :: "int option \<Rightarrow> string" where
  "usd cents = (case cents of None \<Rightarrow> ''UNKNOWN''
     | Some c \<Rightarrow> ''$'' @ (if c < 0 then ''-'' else []) @ show_nat (nat \<bar>c\<bar> div 100) @ ''.'' @
                (if nat \<bar>c\<bar> mod 100 < 10 then ''0'' else []) @ show_nat (nat \<bar>c\<bar> mod 100))"

fun class_text :: "executionClass \<Rightarrow> string" where
  "class_text NONE = ''NONE''"
| "class_text READ_ONLY = ''READ_ONLY''"
| "class_text EXECUTE = ''EXECUTE''"

fun resource_text :: "resource_kind \<Rightarrow> string" where
  "resource_text Treasury = ''treasury''"
| "resource_text DataSource = ''data-source''"
| "resource_text Credential = ''credential''"

fun message_text :: "message_kind \<Rightarrow> string" where
  "message_text Observation = ''observation''"
| "message_text Request = ''request''"
| "message_text Status = ''status''"

definition dash :: string where
  "dash = [CHR 0xE2, CHR 0x80, CHR 0x94]"

section \<open>The projection\<close>

definition agent_container :: "string \<Rightarrow> string" where
  "agent_container x = ''agent:'' @ x"

definition org_node :: "organization \<Rightarrow> orgGraphNode" where
  "org_node org =
    \<lparr>gn_id = ''org'', gn_kind = Organization, gn_label = og_rootEns org, gn_sublabel = og_agentNamespace org, gn_parentId = None,
     gn_position = (0, 0), gn_size = (int (length (og_agents org)) * (AGENT_W + GAP_X) - GAP_X, 90), gn_state = OK,
     gn_detail = [(''agents'', show_nat (length (og_agents org))), (''delegation'', ''not representable''),
       (''revision'', show_int (og_revision org))]\<rparr>"

definition child ::
    "string \<Rightarrow> string \<Rightarrow> orgNodeKind \<Rightarrow> string \<Rightarrow> string \<Rightarrow> int \<Rightarrow> (string \<times> string) list \<Rightarrow> node_state \<Rightarrow> orgGraphNode" where
  "child container suffix kind label sublabel row detail state =
    \<lparr>gn_id = container @ '':'' @ suffix, gn_kind = kind, gn_label = label, gn_sublabel = sublabel, gn_parentId = Some container,
     gn_position = (16, 56 + row * CHILD_H), gn_size = (AGENT_W - 32, CHILD_H - 8), gn_state = state, gn_detail = detail\<rparr>"

definition agent_children :: "orgAgent \<Rightarrow> orgGraphNode list" where
  "agent_children a =
    (let c = agent_container (oa_id a); executes = oa_executionClass a = EXECUTE in
     [child c ''ens'' EnsIdentity (oa_ensName a) ''identity, lifecycle, revocation'' 0 [(''grants financial authority'', ''no'')] OK,
      child c ''policy'' Policy (oa_policyId a) ''ContextLock policy'' 1 [(''execution domain'', oa_executionDomain a)] OK,
      child c ''limits'' Limits (if executes then usd (oa_autonomousMaxUsdCents a) else ''no execution'')
        (if executes then ''daily '' @ usd (oa_dailyMaxUsdCents a) else ''cannot move value'') 2
        [(''autonomous'', usd (oa_autonomousMaxUsdCents a)), (''escalation ceiling'', usd (oa_escalationMaxUsdCents a)),
         (''daily'', usd (oa_dailyMaxUsdCents a))]
        (if executes \<and> oa_dailyMaxUsdCents a = None then BLOCKED else OK),
      child c ''caps'' Capability
        (if 0 < length (oa_executionCapabilities a) then join '', '' (oa_executionCapabilities a) else ''none'')
        (show_nat (length (oa_dataCapabilities a)) @ '' data source(s)'') 3
        (map (\<lambda>c. (''reads'', c)) (oa_dataCapabilities a)) OK])"

definition agent_node :: "nat \<Rightarrow> orgAgent \<Rightarrow> blastRadius \<Rightarrow> orgGraphNode" where
  "agent_node i a blast =
    (let reach = length (br_authorityReachesAgents blast) in
     \<lparr>gn_id = agent_container (oa_id a), gn_kind = AgentGroup, gn_label = oa_displayName a,
      gn_sublabel = class_text (oa_executionClass a), gn_parentId = None,
      gn_position = (int i * (AGENT_W + GAP_X), 170), gn_size = (AGENT_W, AGENT_H),
      gn_state = (if 0 < reach then WARN else OK),
      gn_detail = [(''execution class'', class_text (oa_executionClass a)),
        (''reachable agents if compromised'', show_nat reach),
        (''worst case in window'', usd (br_maxWindowUsdCents blast))]\<rparr>)"

definition agent_edge :: "orgAgent \<Rightarrow> orgGraphEdge" where
  "agent_edge a = \<lparr>ge_id = ''e:org:'' @ oa_id a, ge_source = ''org'', ge_target = agent_container (oa_id a), ge_label = None,
     ge_kind = Namespace_Edge, ge_animated = False\<rparr>"

text \<open>The loop over the agents; \<open>computeBlastRadius\<close> may throw in it.\<close>

fun agent_nodes :: "(string \<Rightarrow> nat list) \<Rightarrow> organization \<Rightarrow> nat \<Rightarrow> orgAgent list \<Rightarrow> string + orgGraphNode list" where
  "agent_nodes collate org i [] = Inr []"
| "agent_nodes collate org i (a # as) =
    res_bind (computeBlastRadius collate org (oa_id a)) (\<lambda>blast.
    res_bind (agent_nodes collate org (Suc i) as) (\<lambda>ns. Inr (agent_node i a blast # agent_children a @ ns)))"

definition rowY :: int where
  "rowY = 170 + AGENT_H + 80"

definition resource_id :: "sharedResource \<Rightarrow> string" where
  "resource_id r = ''res:'' @ sr_id r"

definition resource_node :: "nat \<Rightarrow> sharedResource \<Rightarrow> orgGraphNode" where
  "resource_node i r =
    \<lparr>gn_id = resource_id r, gn_kind = SharedResource, gn_label = sr_id r, gn_sublabel = resource_text (sr_kind r),
     gn_parentId = None, gn_position = (int i * (AGENT_W + GAP_X), rowY), gn_size = (AGENT_W, 80),
     gn_state = (if sr_kind r = Credential \<and> 1 < length (sr_agentIds r) then BLOCKED else OK),
     gn_detail = [(''kind'', resource_text (sr_kind r)),
       (''shared by'', if join '', '' (sr_agentIds r) = [] then ''nobody'' else join '', '' (sr_agentIds r))]\<rparr>"

definition resource_edges :: "sharedResource \<Rightarrow> orgGraphEdge list" where
  "resource_edges r = map (\<lambda>a. \<lparr>ge_id = ''e:'' @ sr_id r @ '':'' @ a, ge_source = agent_container a, ge_target = resource_id r,
     ge_label = None, ge_kind = Resource_Edge, ge_animated = False\<rparr>) (sr_agentIds r)"

text \<open>\<open>Math.round\<close> of a quotient is the floor of the quotient plus one half.\<close>

definition limit_node :: "organization \<Rightarrow> nat \<Rightarrow> aggregateLimit \<Rightarrow> orgGraphNode" where
  "limit_node org i l =
    \<lparr>gn_id = ''agg:'' @ al_id l, gn_kind = AggregateLimit, gn_label = usd (Some (al_maxUsdCents l)),
     gn_sublabel = ''per '' @ show_int ((2 * al_windowMs l + 3600000) div 7200000) @ ''h across all agents'', gn_parentId = None,
     gn_position = ((int (length (og_sharedResources org)) + int i) * (AGENT_W + GAP_X), rowY), gn_size = (AGENT_W, 80),
     gn_state = OK, gn_detail = [(''description'', al_description l)]\<rparr>"

definition message_edge :: "nat \<Rightarrow> communicationRule \<Rightarrow> orgGraphEdge" where
  "message_edge i c =
    \<lparr>ge_id = ''e:msg:'' @ show_nat i, ge_source = agent_container (co_from c), ge_target = agent_container (co_to c),
     ge_label = Some (join ''/'' (map message_text (co_messageKinds c)) @ '' '' @ dash @ '' untrusted, no authority''),
     ge_kind = Message_Edge, ge_animated = True\<rparr>"

definition projectOrgGraph :: "(string \<Rightarrow> nat list) \<Rightarrow> organization \<Rightarrow> string + orgGraph" where
  "projectOrgGraph collate org =
    res_bind (agent_nodes collate org 0 (og_agents org)) (\<lambda>ns. Inr
      \<lparr>gr_orgId = og_orgId org, gr_revision = og_revision org,
       gr_nodes = org_node org # ns @ map (\<lambda>(i, r). resource_node i r) (enumerate 0 (og_sharedResources org)) @
         map (\<lambda>(i, l). limit_node org i l) (enumerate 0 (og_aggregateLimits org)),
       gr_edges = map agent_edge (og_agents org) @ concat (map resource_edges (og_sharedResources org)) @
         map (\<lambda>(i, c). message_edge i c) (enumerate 0 (og_communicationRules org))\<rparr>)"

section \<open>Lemmas\<close>

definition groups :: "orgGraphNode list \<Rightarrow> string set" where
  "groups ns = gn_id ` {n \<in> set ns. gn_kind n = AgentGroup}"

definition nested :: "string set \<Rightarrow> orgGraphNode list \<Rightarrow> bool" where
  "nested gs ns = list_all (\<lambda>n. case gn_parentId n of None \<Rightarrow> True | Some p \<Rightarrow> p \<in> gs) ns"

definition calm :: "orgGraphNode list \<Rightarrow> bool" where
  "calm ns = list_all (\<lambda>n. gn_state n = OK) ns"

lemma groups_simps [simp]:
  "groups [] = {}" "groups (ns @ ms) = groups ns \<union> groups ms"
  "groups (n # ns) = (if gn_kind n = AgentGroup then {gn_id n} else {}) \<union> groups ns"
  by (auto simp: groups_def)

lemma nested_simps [simp]:
  "nested gs []" "nested gs (ns @ ms) \<longleftrightarrow> nested gs ns \<and> nested gs ms"
  "nested gs (n # ns) \<longleftrightarrow> (case gn_parentId n of None \<Rightarrow> True | Some p \<Rightarrow> p \<in> gs) \<and> nested gs ns"
  by (auto simp: nested_def)

lemma nested_mono: "nested gs ns \<Longrightarrow> gs \<subseteq> gs' \<Longrightarrow> nested gs' ns"
  by (auto simp: nested_def list_all_iff split: option.splits)

lemma calm_simps [simp]:
  "calm []" "calm (ns @ ms) \<longleftrightarrow> calm ns \<and> calm ms" "calm (n # ns) \<longleftrightarrow> gn_state n = OK \<and> calm ns"
  by (auto simp: calm_def)

lemma agent_nodes_Inr:
  assumes "set as \<subseteq> set (og_agents org)"
  shows "\<exists>ns. agent_nodes collate org i as = Inr ns \<and> agent_container ` oa_id ` set as \<subseteq> groups ns \<and>
    nested (groups ns) ns \<and> (separated org \<longrightarrow> calm ns)"
  using assms
proof (induction as arbitrary: i)
  case (Cons a as)
  then have "set as \<subseteq> set (og_agents org)" and a: "a \<in> set (og_agents org)" by auto
  from Cons.IH [OF this(1), of "Suc i"] obtain ns where ns: "agent_nodes collate org (Suc i) as = Inr ns"
      "agent_container ` oa_id ` set as \<subseteq> groups ns" "nested (groups ns) ns" "separated org \<longrightarrow> calm ns"
    by blast
  obtain agent where "find (\<lambda>b. oa_id b = oa_id a) (og_agents org) = Some agent"
    using a by (cases "find (\<lambda>b. oa_id b = oa_id a) (og_agents org)") (auto simp: find_None_iff)
  then obtain blast where blast: "computeBlastRadius collate org (oa_id a) = Inr blast" by (simp add: computeBlastRadius_def)
  have alone: "br_authorityReachesAgents blast = []" if "separated org"
    using blast separated_unreachable [OF that a] find_agent [OF that a] by (auto simp: computeBlastRadius_def)
  have known: "oa_executionClass a = EXECUTE \<Longrightarrow> oa_dailyMaxUsdCents a \<noteq> None" if "separated org"
    using that a by (auto simp: separated_def sound_agent_def)
  have kids: "groups (agent_children a) = {}" "agent_container (oa_id a) \<in> gs \<Longrightarrow> nested gs (agent_children a)"
      "separated org \<Longrightarrow> calm (agent_children a)" for gs
    using known by (auto simp: agent_children_def child_def Let_def)
  have node: "gn_id (agent_node i a blast) = agent_container (oa_id a)" "gn_kind (agent_node i a blast) = AgentGroup"
      "gn_parentId (agent_node i a blast) = None" "separated org \<Longrightarrow> gn_state (agent_node i a blast) = OK"
    using alone by (auto simp: agent_node_def Let_def)
  show ?case using ns nested_mono [OF ns(3), of "insert (agent_container (oa_id a)) (groups ns)"]
    by (auto simp: blast node kids)
qed simp

lemma other_nodes:
  "groups (map (\<lambda>(i, r). resource_node i r) (enumerate k rs)) = {}" "nested gs (map (\<lambda>(i, r). resource_node i r) (enumerate k rs))"
  "groups (map (\<lambda>(i, l). limit_node org i l) (enumerate k ls)) = {}" "nested gs (map (\<lambda>(i, l). limit_node org i l) (enumerate k ls))"
  "calm (map (\<lambda>(i, l). limit_node org i l) (enumerate k ls))"
  "gn_id ` set (map (\<lambda>(i, r). resource_node i r) (enumerate k rs)) = resource_id ` set rs"
  by (induction rs arbitrary: k; induction ls arbitrary: k; simp add: resource_node_def limit_node_def)+

lemma calm_resources:
  "\<forall>r \<in> set rs. sr_kind r = Credential \<longrightarrow> length (sr_agentIds r) \<le> 1 \<Longrightarrow>
    calm (map (\<lambda>(i, r). resource_node i r) (enumerate k rs))"
  by (induction rs arbitrary: k) (auto simp: resource_node_def)

lemma message_ends:
  "(\<lambda>e. (ge_source e, ge_target e)) ` set (map (\<lambda>(i, c). message_edge i c) (enumerate k cs)) =
    (\<lambda>c. (agent_container (co_from c), agent_container (co_to c))) ` set cs"
  by (induction cs arbitrary: k) (simp_all add: message_edge_def)

section \<open>Properties\<close>

text \<open>
  The projection never throws, every node drawn inside another one has a declared agent as its
  container, and the graph of an organization the validator accepts is closed and calm: both ends of
  every edge are nodes, and no node is marked as a warning or blocked.
\<close>

theorem graph_is_well_formed:
  assumes "ov_buildable (validateOrganization safeParse input)" and "safeParse input = Inr org"
  shows "\<exists>g. projectOrgGraph collate org = Inr g \<and>
    (\<forall>e \<in> set (gr_edges g). {ge_source e, ge_target e} \<subseteq> gn_id ` set (gr_nodes g)) \<and>
    (\<forall>n \<in> set (gr_nodes g). gn_state n = OK \<and>
       (\<forall>p. gn_parentId n = Some p \<longrightarrow> p \<in> gn_id ` {m \<in> set (gr_nodes g). gn_kind m = AgentGroup}))"
proof -
  have sep: "separated org" using assms unfolding buildable_iff by auto
  from agent_nodes_Inr [OF order.refl, of collate org 0] obtain ns where
    ns: "agent_nodes collate org 0 (og_agents org) = Inr ns" "agent_container ` oa_id ` set (og_agents org) \<subseteq> groups ns"
      "nested (groups ns) ns" "calm ns" using sep by blast
  define g where "g = \<lparr>gr_orgId = og_orgId org, gr_revision = og_revision org,
       gr_nodes = org_node org # ns @ map (\<lambda>(i, r). resource_node i r) (enumerate 0 (og_sharedResources org)) @
         map (\<lambda>(i, l). limit_node org i l) (enumerate 0 (og_aggregateLimits org)),
       gr_edges = map agent_edge (og_agents org) @ concat (map resource_edges (og_sharedResources org)) @
         map (\<lambda>(i, c). message_edge i c) (enumerate 0 (og_communicationRules org))\<rparr>"
  have g: "projectOrgGraph collate org = Inr g" by (simp add: projectOrgGraph_def ns(1) g_def)
  have ids: "agent_container ` oa_id ` set (og_agents org) \<subseteq> gn_id ` set (gr_nodes g)" "''org'' \<in> gn_id ` set (gr_nodes g)"
    using ns(2) by (auto simp: g_def groups_def org_node_def)
  have res: "resource_id ` set (og_sharedResources org) \<subseteq> gn_id ` set (gr_nodes g)"
    unfolding g_def other_nodes(6) [where k = 0, symmetric] by auto
  have known: "agent_container x \<in> gn_id ` set (gr_nodes g)" if "x \<in> oa_id ` set (og_agents org)" for x
    using ids(1) that by blast
  have used: "\<forall>r \<in> set (og_sharedResources org). set (sr_agentIds r) \<subseteq> oa_id ` set (og_agents org)"
      "\<forall>c \<in> set (og_communicationRules org). co_from c \<in> oa_id ` set (og_agents org) \<and> co_to c \<in> oa_id ` set (og_agents org)"
    using sep unfolding separated_def by auto
  have ends: "(ge_source e, ge_target e) \<in> (\<lambda>c. (agent_container (co_from c), agent_container (co_to c))) ` set (og_communicationRules org)"
    if "e \<in> set (map (\<lambda>(i, c). message_edge i c) (enumerate 0 (og_communicationRules org)))" for e
    using that unfolding message_ends [where k = 0, symmetric] by blast
  have "{ge_source e, ge_target e} \<subseteq> gn_id ` set (gr_nodes g)" if e: "e \<in> set (gr_edges g)" for e
  proof -
    consider "e \<in> agent_edge ` set (og_agents org)" | r where "r \<in> set (og_sharedResources org)" "e \<in> set (resource_edges r)"
      | "e \<in> set (map (\<lambda>(i, c). message_edge i c) (enumerate 0 (og_communicationRules org)))"
      using e by (auto simp: g_def)
    then show ?thesis
    proof cases
      case 1
      then show ?thesis using ids by (auto simp: agent_edge_def)
    next
      case 2
      then have "set (sr_agentIds r) \<subseteq> oa_id ` set (og_agents org)" "resource_id r \<in> gn_id ` set (gr_nodes g)"
        using used(1) res by blast+
      moreover obtain a where "a \<in> set (sr_agentIds r)" "ge_source e = agent_container a" "ge_target e = resource_id r"
        using 2(2) by (auto simp: resource_edges_def)
      ultimately show ?thesis using known by auto
    next
      case 3
      then show ?thesis using ends [OF 3] known used(2) by auto
    qed
  qed
  moreover have "calm (gr_nodes g) \<and> nested (groups (gr_nodes g)) (gr_nodes g)"
    using ns(3,4) calm_resources [of "og_sharedResources org" 0] sep by (auto simp: g_def other_nodes org_node_def separated_def)
  ultimately show ?thesis using g
    by (intro exI [of _ g]) (auto simp: calm_def nested_def groups_def list_all_iff split: option.splits)
qed

theorem graph_is_well_formed_witness:
  "\<exists>g. projectOrgGraph (\<lambda>_. []) treasuryOrg = Inr g \<and> list_all (\<lambda>n. gn_state n = OK) (gr_nodes g)"
  using graph_is_well_formed [OF treasury_buildable refl, of "\<lambda>_. []"] by (auto simp: list_all_iff)

end
