(* ===== verification/Units.thy ===== *)
theory Units
  imports Prelude
begin

text \<open>
  The typed unit system of strategies (\<open>packages/studio-strategy/src/units.ts\<close>): units with a kind, a
  scale and a subject, the two compatibility checks, and the four conversions on bigint values. A
  \<open>UnitMismatchError\<close> keeps its code and the two units.

  The conversions are compared with exact rational arithmetic: rescaling up loses nothing, rescaling
  down and the conversion of a token amount by a price lose less than one unit of the target scale.
\<close>

section \<open>Units\<close>

datatype unitKind =
    TOKEN_AMOUNT | USD_VALUE | PRICE | PERCENT | BASIS_POINTS | HEALTH_FACTOR | TIMESTAMP | BLOCK_NUMBER | COUNT | BOOLEAN

record unitT =
  un_kind :: unitKind
  un_decimals :: nat
  un_subject :: "string option"

definition mk_unit :: "unitKind \<Rightarrow> nat \<Rightarrow> string option \<Rightarrow> unitT" where
  "mk_unit kind decimals subject = \<lparr>un_kind = kind, un_decimals = decimals, un_subject = subject\<rparr>"

definition unit_usd :: unitT where
  "unit_usd = mk_unit USD_VALUE 8 (Some ''USD'')"

definition unit_usdCents :: unitT where
  "unit_usdCents = mk_unit USD_VALUE 2 (Some ''USD'')"

definition unit_bps :: unitT where
  "unit_bps = mk_unit BASIS_POINTS 4 None"

definition unit_count :: unitT where
  "unit_count = mk_unit COUNT 0 None"

definition unit_token :: "string \<Rightarrow> nat \<Rightarrow> unitT" where
  "unit_token symbol decimals = mk_unit TOKEN_AMOUNT decimals (Some symbol)"

definition unit_price :: "string \<Rightarrow> nat \<Rightarrow> unitT" where
  "unit_price quot decimals = mk_unit PRICE decimals (Some quot)"

datatype unit_code =
    STRAT_UNIT_KIND | STRAT_UNIT_SUBJECT | STRAT_UNIT_SCALE | STRAT_UNIT_ADD | STRAT_UNIT_CONVERT | STRAT_UNIT_DIVZERO

datatype unitMismatchError = UnitMismatchError (ume_code: unit_code) (ume_left: unitT) (ume_right: unitT)

text \<open>\<open>subject ?? ""\<close>.\<close>

definition subject_text :: "unitT \<Rightarrow> string" where
  "subject_text u = (case un_subject u of None \<Rightarrow> [] | Some s \<Rightarrow> s)"

definition unitsEqual :: "unitT \<Rightarrow> unitT \<Rightarrow> bool" where
  "unitsEqual a b = (un_kind a = un_kind b \<and> un_decimals a = un_decimals b \<and> subject_text a = subject_text b)"

definition assertComparable :: "unitT \<Rightarrow> unitT \<Rightarrow> unitMismatchError + unit" where
  "assertComparable a b =
    (if un_kind a \<noteq> un_kind b then Inl (UnitMismatchError STRAT_UNIT_KIND a b)
     else if subject_text a \<noteq> subject_text b then Inl (UnitMismatchError STRAT_UNIT_SUBJECT a b)
     else if un_decimals a \<noteq> un_decimals b then Inl (UnitMismatchError STRAT_UNIT_SCALE a b)
     else Inr ())"

definition assertAddable :: "unitT \<Rightarrow> unitT \<Rightarrow> unitMismatchError + unit" where
  "assertAddable a b = res_bind (assertComparable a b) (\<lambda>_.
    if un_kind a \<in> {HEALTH_FACTOR, BLOCK_NUMBER, BOOLEAN} then Inl (UnitMismatchError STRAT_UNIT_ADD a b) else Inr ())"

section \<open>Values\<close>

record typedValue =
  tv_value :: int
  tv_unit :: unitT

definition rescale :: "typedValue \<Rightarrow> nat \<Rightarrow> typedValue" where
  "rescale v decimals =
    (let u = (tv_unit v)\<lparr>un_decimals := decimals\<rparr> in
     if decimals = un_decimals (tv_unit v) then v
     else if un_decimals (tv_unit v) < decimals
     then \<lparr>tv_value = tv_value v * 10 ^ (decimals - un_decimals (tv_unit v)), tv_unit = u\<rparr>
     else \<lparr>tv_value = bigint_div (tv_value v) (10 ^ (un_decimals (tv_unit v) - decimals)), tv_unit = u\<rparr>)"

definition tokenToUsd :: "typedValue \<Rightarrow> typedValue \<Rightarrow> nat \<Rightarrow> unitMismatchError + typedValue" where
  "tokenToUsd amount price outDecimals =
    (if un_kind (tv_unit amount) \<noteq> TOKEN_AMOUNT then Inl (UnitMismatchError STRAT_UNIT_CONVERT (tv_unit amount) (tv_unit price))
     else if un_kind (tv_unit price) \<noteq> PRICE then Inl (UnitMismatchError STRAT_UNIT_CONVERT (tv_unit amount) (tv_unit price))
     else
       let raw = bigint_div (tv_value amount * tv_value price) (10 ^ un_decimals (tv_unit amount));
           subject = (case un_subject (tv_unit price) of None \<Rightarrow> ''USD'' | Some s \<Rightarrow> s) in
       Inr (rescale \<lparr>tv_value = raw, tv_unit = mk_unit USD_VALUE (un_decimals (tv_unit price)) (Some subject)\<rparr> outDecimals))"

definition ratioToBps :: "typedValue \<Rightarrow> typedValue \<Rightarrow> unitMismatchError + typedValue" where
  "ratioToBps part whole =
    res_bind (assertComparable (tv_unit part) (tv_unit whole)) (\<lambda>_.
      if tv_value whole = 0 then Inl (UnitMismatchError STRAT_UNIT_DIVZERO (tv_unit part) (tv_unit whole))
      else Inr \<lparr>tv_value = bigint_div (tv_value part * 10000) (tv_value whole), tv_unit = unit_bps\<rparr>)"

definition percentToBps :: "typedValue \<Rightarrow> unitMismatchError + typedValue" where
  "percentToBps p =
    (if un_kind (tv_unit p) \<noteq> PERCENT then Inl (UnitMismatchError STRAT_UNIT_CONVERT (tv_unit p) unit_bps)
     else Inr \<lparr>tv_value = bigint_div (tv_value p * 10000) (100 * 10 ^ un_decimals (tv_unit p)), tv_unit = unit_bps\<rparr>)"

definition describe_kind :: "unitKind \<Rightarrow> string" where
  "describe_kind k = (case k of TOKEN_AMOUNT \<Rightarrow> ''TOKEN_AMOUNT'' | USD_VALUE \<Rightarrow> ''USD_VALUE'' | PRICE \<Rightarrow> ''PRICE''
     | PERCENT \<Rightarrow> ''PERCENT'' | BASIS_POINTS \<Rightarrow> ''BASIS_POINTS'' | HEALTH_FACTOR \<Rightarrow> ''HEALTH_FACTOR''
     | TIMESTAMP \<Rightarrow> ''TIMESTAMP'' | BLOCK_NUMBER \<Rightarrow> ''BLOCK_NUMBER'' | COUNT \<Rightarrow> ''COUNT'' | BOOLEAN \<Rightarrow> ''BOOLEAN'')"

definition describeUnit :: "unitT \<Rightarrow> string" where
  "describeUnit u = describe_kind (un_kind u) @ (if subject_text u \<noteq> [] then ''<'' @ subject_text u @ ''>'' else []) @
     ''@'' @ show_nat (un_decimals u) @ ''dp''"

section \<open>Lemmas\<close>

lemma comparable_iff: "assertComparable a b = Inr u \<longleftrightarrow> unitsEqual a b"
  by (auto simp: assertComparable_def unitsEqual_def)

lemma unitsEqual_equiv [simp]: "unitsEqual a a" "unitsEqual a b \<Longrightarrow> unitsEqual b a"
  by (auto simp: unitsEqual_def)

lemma unitsEqual_trans: "unitsEqual a b \<Longrightarrow> unitsEqual b c \<Longrightarrow> unitsEqual a c"
  by (auto simp: unitsEqual_def)

lemma bigint_div_exact [simp]: "0 < b \<Longrightarrow> bigint_div (a * b) b = a"
  by (simp add: bigint_div_def sgn_mult abs_mult sgn_mult_abs)

text \<open>What a typed value denotes.\<close>

definition amount_of :: "typedValue \<Rightarrow> rat" where
  "amount_of v = of_int (tv_value v) / 10 ^ un_decimals (tv_unit v)"

lemma rescale_kind [simp]:
  "un_kind (tv_unit (rescale v d)) = un_kind (tv_unit v)" "un_subject (tv_unit (rescale v d)) = un_subject (tv_unit v)"
  "un_decimals (tv_unit (rescale v d)) = d"
  by (auto simp: rescale_def Let_def)

lemma rescale_nonneg: "0 \<le> tv_value v \<Longrightarrow> 0 \<le> tv_value (rescale v d)"
  by (auto simp: rescale_def Let_def pos_imp_zdiv_nonneg_iff)

lemma div_error:
  fixes a :: int and k :: nat
  shows "of_int (a div 10 ^ k) \<le> (of_int a / 10 ^ k :: rat) \<and> (of_int a / 10 ^ k :: rat) < of_int (a div 10 ^ k) + 1"
proof -
  have "a div 10 ^ k = \<lfloor>of_int a / (10 ^ k :: rat)\<rfloor>" using floor_divide_of_int_eq [of a "10 ^ k", where 'a = rat] by simp
  then show ?thesis using floor_correct [of "of_int a / (10 :: rat) ^ k"] by simp
qed

lemma rescale_error:
  assumes "0 \<le> tv_value v"
  shows "amount_of (rescale v d) \<le> amount_of v" and "amount_of v < amount_of (rescale v d) + 1 / 10 ^ d"
    and "un_decimals (tv_unit v) \<le> d \<Longrightarrow> amount_of (rescale v d) = amount_of v"
proof -
  let ?e = "un_decimals (tv_unit v)"
  have up: "amount_of (rescale v d) = amount_of v" if "?e \<le> d"
  proof (cases "d = ?e")
    case False
    then have "(10::rat) ^ d = 10 ^ (d - ?e) * 10 ^ ?e" using that by (simp flip: power_add)
    then show ?thesis using that False by (simp add: amount_of_def rescale_def Let_def)
  qed (simp add: rescale_def Let_def)
  show "un_decimals (tv_unit v) \<le> d \<Longrightarrow> amount_of (rescale v d) = amount_of v" by (rule up)
  have down: "amount_of (rescale v d) \<le> amount_of v \<and> amount_of v < amount_of (rescale v d) + 1 / 10 ^ d" if "d < ?e"
  proof -
    let ?q = "tv_value v div 10 ^ (?e - d)"
    have p: "(10::rat) ^ ?e = 10 ^ (?e - d) * 10 ^ d" using that by (simp flip: power_add)
    have r: "amount_of (rescale v d) = of_int ?q / 10 ^ d" using that assms by (simp add: amount_of_def rescale_def Let_def)
    have v: "amount_of v = of_int (tv_value v) / 10 ^ (?e - d) / 10 ^ d" by (simp add: amount_of_def p)
    show ?thesis unfolding r v using div_error [of "tv_value v" "?e - d"] by (simp add: divide_right_mono divide_simps)
  qed
  show "amount_of (rescale v d) \<le> amount_of v" and "amount_of v < amount_of (rescale v d) + 1 / 10 ^ d"
    using up down by (cases "?e \<le> d"; simp)+
qed

section \<open>Properties\<close>

text \<open>
  Rescaling to a finer scale and back returns the very same value, whatever its sign.
\<close>

theorem rescale_roundtrip:
  assumes "un_decimals (tv_unit v) \<le> d"
  shows "rescale (rescale v d) (un_decimals (tv_unit v)) = v"
  using assms by (cases v) (auto simp: rescale_def Let_def)

theorem rescale_roundtrip_witness:
  "rescale (rescale \<lparr>tv_value = 12345, tv_unit = unit_usdCents\<rparr> 8) 2 = \<lparr>tv_value = 12345, tv_unit = unit_usdCents\<rparr>"
  using rescale_roundtrip [of "\<lparr>tv_value = 12345, tv_unit = unit_usdCents\<rparr>" 8] by (simp add: unit_usdCents_def mk_unit_def)

text \<open>
  The conversion of a token amount by a price is the exact product rounded down to the target
  scale: it never exceeds the product of the amounts the operands denote and misses it by less than
  the precision of the price plus one unit of the target scale; its unit is a value in the price's
  quote currency, so that a price in one currency never yields a value in another.
\<close>

theorem token_value_is_exact:
  assumes conv: "tokenToUsd a p d = Inr v" and nonneg: "0 \<le> tv_value a" "0 \<le> tv_value p"
  shows "un_kind (tv_unit v) = USD_VALUE \<and> un_decimals (tv_unit v) = d \<and>
    (un_subject (tv_unit p) \<noteq> None \<longrightarrow> subject_text (tv_unit v) = subject_text (tv_unit p)) \<and>
    amount_of v \<le> amount_of a * amount_of p \<and>
    amount_of a * amount_of p < amount_of v + 1 / 10 ^ d + 1 / 10 ^ un_decimals (tv_unit p)"
proof -
  let ?da = "un_decimals (tv_unit a)" and ?dp = "un_decimals (tv_unit p)"
  let ?n = "tv_value a * tv_value p"
  define raw where "raw = \<lparr>tv_value = bigint_div ?n (10 ^ ?da),
    tv_unit = mk_unit USD_VALUE ?dp (Some (case un_subject (tv_unit p) of None \<Rightarrow> ''USD'' | Some s \<Rightarrow> s))\<rparr>"
  have v: "v = rescale raw d" using conv by (auto simp: tokenToUsd_def raw_def Let_def split: if_splits)
  have n: "0 \<le> ?n" using nonneg by simp
  then have r: "0 \<le> tv_value raw" by (simp add: raw_def pos_imp_zdiv_nonneg_iff)
  have amt: "amount_of raw = of_int (?n div 10 ^ ?da) / 10 ^ ?dp" using n by (simp add: amount_of_def raw_def mk_unit_def)
  have prod: "amount_of a * amount_of p = of_int ?n / 10 ^ ?da / 10 ^ ?dp" by (simp add: amount_of_def)
  have "amount_of raw \<le> amount_of a * amount_of p" "amount_of a * amount_of p < amount_of raw + 1 / 10 ^ ?dp"
    unfolding amt prod using div_error [of ?n ?da] by (simp_all add: divide_right_mono divide_simps)
  with rescale_error [OF r, of d] have "amount_of v \<le> amount_of a * amount_of p"
    "amount_of a * amount_of p < amount_of v + 1 / 10 ^ d + 1 / 10 ^ ?dp" unfolding v by linarith+
  then show ?thesis by (auto simp: v raw_def mk_unit_def subject_text_def)
qed

theorem token_value_is_exact_witness:
  "\<exists>v. tokenToUsd \<lparr>tv_value = 1500000000000000000, tv_unit = unit_token ''ETH'' 18\<rparr>
      \<lparr>tv_value = 300012345678, tv_unit = unit_price ''USD'' 8\<rparr> 2 = Inr v \<and> tv_value v = 450018 \<and>
    amount_of v \<le> amount_of \<lparr>tv_value = 1500000000000000000, tv_unit = unit_token ''ETH'' 18\<rparr> *
      amount_of \<lparr>tv_value = 300012345678, tv_unit = unit_price ''USD'' 8\<rparr>"
proof -
  let ?a = "\<lparr>tv_value = 1500000000000000000, tv_unit = unit_token ''ETH'' 18\<rparr>"
    and ?p = "\<lparr>tv_value = 300012345678, tv_unit = unit_price ''USD'' 8\<rparr>"
  let ?v = "\<lparr>tv_value = 450018, tv_unit = mk_unit USD_VALUE 2 (Some ''USD'')\<rparr>"
  have c: "tokenToUsd ?a ?p 2 = Inr ?v" by code_simp
  from token_value_is_exact [OF c] c show ?thesis by simp
qed

text \<open>
  Rescaling down before a comparison with a cap lets spending above the cap pass: 10.009 dollars
  rescaled to cents is not above a cap of ten dollars. The comment at the truncation calls this the
  safe direction.
\<close>

theorem truncation_hides_overspending:
  "\<exists>spend cap. tv_unit (rescale spend 2) = tv_unit cap \<and> amount_of cap < amount_of spend \<and>
    tv_value (rescale spend 2) \<le> tv_value cap"
proof -
  let ?s = "\<lparr>tv_value = 1000900000, tv_unit = unit_usd\<rparr>" and ?c = "\<lparr>tv_value = 1000, tv_unit = unit_usdCents\<rparr>"
  have "rescale ?s 2 = ?c" by code_simp
  moreover have "amount_of ?c < amount_of ?s" by (simp add: amount_of_def unit_usd_def unit_usdCents_def mk_unit_def)
  ultimately show ?thesis by (intro exI [of _ ?s] exI [of _ ?c]) simp
qed

end
