(* ===== verification/Strategy.thy ===== *)
theory Strategy
  imports Units Network "HOL-Library.Multiset"
begin

text \<open>
  The strategy compiler (\<open>packages/studio-strategy/src/ir.ts\<close> and \<open>compiler.ts\<close>) with the trust classes of
  \<open>packages/studio-adapters/src/core/trust.ts\<close>. The zod parser is the parameter \<open>safeParse\<close>; a problem
  keeps its code, severity and path. \<open>provenance\<close> is a map from node ids; keys inherited from
  \<open>Object.prototype\<close> are not modelled.

  The topological loop terminates because every pass that makes progress resolves a transform. The
  lemmas show what its result means: the order lists every node after the nodes it reads, and the
  computed provenance is the weakest trust and the loosest age of everything a node depends on.
\<close>

section \<open>Trust classes\<close>

datatype dataTrustClass =
    CONFIDENTIAL_VERIFIED_COMPUTE | VERIFIED_ORACLE | INDEXED_CHAIN_DATA | DIRECT_CHAIN_DATA | EXTERNAL_API | USER_UNTRUSTED

fun trustRank :: "dataTrustClass \<Rightarrow> nat" where
  "trustRank CONFIDENTIAL_VERIFIED_COMPUTE = 5"
| "trustRank VERIFIED_ORACLE = 4"
| "trustRank INDEXED_CHAIN_DATA = 3"
| "trustRank DIRECT_CHAIN_DATA = 2"
| "trustRank EXTERNAL_API = 1"
| "trustRank USER_UNTRUSTED = 0"

definition satisfiesTrust :: "dataTrustClass \<Rightarrow> dataTrustClass \<Rightarrow> bool" where
  "satisfiesTrust offered required = (trustRank required \<le> trustRank offered)"

definition isTrustDowngrade :: "dataTrustClass \<Rightarrow> dataTrustClass \<Rightarrow> bool" where
  "isTrustDowngrade from to = (trustRank to < trustRank from)"

section \<open>The strategy IR\<close>

record strategyInput =
  si_id :: string
  si_requirementKey :: string
  si_dataKind :: string
  si_unit :: unitT
  si_minimumTrustClass :: dataTrustClass
  si_maxAgeMs :: int
  si_description :: string

datatype transform_op = TOKEN_TO_USD | RATIO_TO_BPS | SUM | DIFFERENCE | PERCENT_TO_BPS | RESCALE

record transform =
  tr_id :: string
  tr_op :: transform_op
  tr_inputs :: "string list"
  tr_toDecimals :: "nat option"
  tr_description :: string

datatype operandNode = Ref string | Literal string unitT

datatype compare_op = LT | LTE | GT | GTE | EQ | NEQ

datatype conditionNode =
    Compare compare_op operandNode operandNode
  | CAnd "conditionNode list"
  | COr "conditionNode list"
  | CNot conditionNode

record decision =
  de_id :: string
  de_when :: conditionNode
  de_actionRef :: string
  de_autonomousMaxUsdCents :: "int option"
  de_escalationMaxUsdCents :: "int option"
  de_description :: string

datatype recipient_policy = SelfOnly | AllowList

record strategyAction =
  sa_id :: string
  sa_capability :: string
  sa_actionKind :: string
  sa_spendsAsset :: "string option"
  sa_recipientPolicy :: recipient_policy
  sa_description :: string
  sa_chainId :: "int option"

datatype required_before = BUILD | DEPLOY

record unknownRequirement =
  ur_field :: string
  ur_reason :: string
  ur_requiredBefore :: required_before

datatype trigger_kind = Threshold | Schedule | EvmEvent | Manual

record strategy_trigger =
  tg_id :: string
  tg_kind :: trigger_kind
  tg_description :: string

record strategy =
  st_planId :: string
  st_revision :: int
  st_triggers :: "strategy_trigger list"
  st_inputs :: "strategyInput list"
  st_transforms :: "transform list"
  st_decisions :: "decision list"
  st_actions :: "strategyAction list"
  st_unknowns :: "unknownRequirement list"
  st_invariants :: "(string \<times> string) list"
  st_requiresCapability :: "string list"

section \<open>Problems and provenance\<close>

datatype problem_severity = CRITICAL | HIGH | MEDIUM | LOW

record compileProblem =
  cp_code :: string
  cp_severity :: problem_severity
  cp_path :: string

definition mkP :: "string \<Rightarrow> problem_severity \<Rightarrow> string \<Rightarrow> compileProblem" where
  "mkP code severity path = \<lparr>cp_code = code, cp_severity = severity, cp_path = path\<rparr>"

record nodeProvenance =
  np_unit :: unitT
  np_trustClass :: dataTrustClass
  np_maxAgeMs :: int
  np_dependsOn :: "string list"

record compileResult =
  cr_ok :: bool
  cr_buildable :: bool
  cr_problems :: "compileProblem list"
  cr_provenance :: "string \<rightharpoonup> nodeProvenance"
  cr_order :: "string list"
  cr_unknowns :: "unknownRequirement list"
  cr_requiresCapability :: "string list"

definition propagateTrust :: "dataTrustClass list \<Rightarrow> dataTrustClass" where
  "propagateTrust inputs = (case inputs of [] \<Rightarrow> USER_UNTRUSTED
     | t # ts \<Rightarrow> foldl (\<lambda>weakest c. if trustRank c < trustRank weakest then c else weakest) t ts)"

definition propagateFreshness :: "int list \<Rightarrow> int" where
  "propagateFreshness inputs = (case inputs of [] \<Rightarrow> 0 | n # ns \<Rightarrow> foldl max n ns)"

fun unit_code_text :: "unit_code \<Rightarrow> string" where
  "unit_code_text STRAT_UNIT_KIND = ''STRAT-UNIT-KIND''"
| "unit_code_text STRAT_UNIT_SUBJECT = ''STRAT-UNIT-SUBJECT''"
| "unit_code_text STRAT_UNIT_SCALE = ''STRAT-UNIT-SCALE''"
| "unit_code_text STRAT_UNIT_ADD = ''STRAT-UNIT-ADD''"
| "unit_code_text STRAT_UNIT_CONVERT = ''STRAT-UNIT-CONVERT''"
| "unit_code_text STRAT_UNIT_DIVZERO = ''STRAT-UNIT-DIVZERO''"

section \<open>Units of transforms\<close>

text \<open>A thrown \<open>UnitMismatchError\<close> gives its own code, a plain error the generic one.\<close>

definition unit_thrown :: "unitMismatchError + 'a \<Rightarrow> string + 'a" where
  "unit_thrown r = (case r of Inl e \<Rightarrow> Inl (unit_code_text (ume_code e)) | Inr x \<Rightarrow> Inr x)"

definition output_unit :: "transform_op \<Rightarrow> unitT list \<Rightarrow> nat option \<Rightarrow> string + unitT" where
  "output_unit oper inputUnits toDecimals =
    (case oper of
       TOKEN_TO_USD \<Rightarrow> (case inputUnits of
           [a, p] \<Rightarrow> res_bind (unit_thrown (tokenToUsd \<lparr>tv_value = 1, tv_unit = a\<rparr> \<lparr>tv_value = 1, tv_unit = p\<rparr> 8)) (\<lambda>v. Inr (tv_unit v))
         | _ \<Rightarrow> Inl ''STRAT-UNIT-INVALID'')
     | RATIO_TO_BPS \<Rightarrow> (case inputUnits of
           [a, b] \<Rightarrow> res_bind (unit_thrown (ratioToBps \<lparr>tv_value = 1, tv_unit = a\<rparr> \<lparr>tv_value = 1, tv_unit = b\<rparr>)) (\<lambda>v. Inr (tv_unit v))
         | _ \<Rightarrow> Inl ''STRAT-UNIT-INVALID'')
     | PERCENT_TO_BPS \<Rightarrow> (case inputUnits of
           u # _ \<Rightarrow> if un_kind u \<noteq> PERCENT then Inl ''STRAT-UNIT-INVALID'' else Inr unit_bps
         | [] \<Rightarrow> Inl ''STRAT-UNIT-INVALID'')
     | RESCALE \<Rightarrow> (case inputUnits of
           [] \<Rightarrow> Inl ''STRAT-UNIT-INVALID''
         | u # _ \<Rightarrow> (case toDecimals of None \<Rightarrow> Inl ''STRAT-UNIT-INVALID''
             | Some d \<Rightarrow> Inr (tv_unit (rescale \<lparr>tv_value = 1, tv_unit = u\<rparr> d))))
     | _ \<Rightarrow> (case inputUnits of
           [] \<Rightarrow> Inl ''STRAT-UNIT-INVALID''
         | u # rest \<Rightarrow> res_bind (unit_thrown (for_each (assertAddable u) rest)) (\<lambda>_. Inr u)))"

definition transformOutputUnit :: "transform_op \<Rightarrow> unitT list \<Rightarrow> nat option \<Rightarrow> string \<Rightarrow> compileProblem + unitT" where
  "transformOutputUnit oper inputUnits toDecimals path =
    (case output_unit oper inputUnits toDecimals of Inl code \<Rightarrow> Inl (mkP code CRITICAL path) | Inr u \<Rightarrow> Inr u)"

section \<open>The compiler\<close>

definition fence_problems :: "strategyAction \<Rightarrow> compileProblem list" where
  "fence_problems a =
    (case sa_chainId a of None \<Rightarrow> []
     | Some chainId \<Rightarrow>
         (case fenceWrite STRATEGY_COMPILER
                 \<lparr>nr_chainId = chainId, nr_role = TESTNET_EXECUTION, nr_forkedFrom = None, nr_forkBlock = None\<rparr> PUBLIC_WRITE of
            Inl _ \<Rightarrow> [mkP ''STRAT-NETWORK'' CRITICAL (''actions.'' @ sa_id a @ ''.chainId'')]
          | Inr _ \<Rightarrow> []))"

type_synonym provenance = "string \<rightharpoonup> nodeProvenance"

definition input_provenance :: "strategyInput \<Rightarrow> nodeProvenance" where
  "input_provenance i = \<lparr>np_unit = si_unit i, np_trustClass = si_minimumTrustClass i, np_maxAgeMs = si_maxAgeMs i, np_dependsOn = []\<rparr>"

fun declare_inputs :: "strategyInput list \<Rightarrow> provenance \<Rightarrow> compileProblem list \<times> provenance" where
  "declare_inputs [] prov = ([], prov)"
| "declare_inputs (i # is) prov =
    (if prov (si_id i) \<noteq> None
     then let (ps, prov') = declare_inputs is prov in (mkP ''STRAT-DUP-ID'' CRITICAL (''inputs.'' @ si_id i) # ps, prov')
     else declare_inputs is (prov(si_id i \<mapsto> input_provenance i)))"

text \<open>\<open>new Map(entries)\<close>: a later entry replaces the value of an earlier one in its place.\<close>

definition pending_map :: "transform list \<Rightarrow> (string \<times> transform) list" where
  "pending_map ts = foldl (\<lambda>m t. map_set (tr_id t) t m) [] ts"

record topo =
  to_provenance :: provenance
  to_order :: "string list"
  to_problems :: "compileProblem list"

definition ready :: "provenance \<Rightarrow> transform \<Rightarrow> bool" where
  "ready prov t = list_all (\<lambda>dep. prov dep \<noteq> None) (tr_inputs t)"

definition input_units :: "provenance \<Rightarrow> transform \<Rightarrow> unitT list" where
  "input_units prov t = map (\<lambda>d. np_unit (the (prov d))) (tr_inputs t)"

definition derived :: "provenance \<Rightarrow> transform \<Rightarrow> unitT \<Rightarrow> nodeProvenance" where
  "derived prov t u =
    \<lparr>np_unit = u,
     np_trustClass = propagateTrust (map (\<lambda>d. np_trustClass (the (prov d))) (tr_inputs t)),
     np_maxAgeMs = propagateFreshness (map (\<lambda>d. np_maxAgeMs (the (prov d))) (tr_inputs t)),
     np_dependsOn = tr_inputs t\<rparr>"

definition resolve :: "string \<Rightarrow> transform \<Rightarrow> topo \<Rightarrow> topo" where
  "resolve tid t st =
    (let prov = to_provenance st;
         out = transformOutputUnit (tr_op t) (input_units prov t) (tr_toDecimals t) (''transforms.'' @ tid) in
     \<lparr>to_provenance = prov(tid \<mapsto> (case out of
          Inl _ \<Rightarrow> \<lparr>np_unit = unit_count, np_trustClass = USER_UNTRUSTED, np_maxAgeMs = 0, np_dependsOn = tr_inputs t\<rparr>
        | Inr u \<Rightarrow> derived prov t u)),
      to_order = to_order st @ [tid],
      to_problems = to_problems st @ (case out of Inl p \<Rightarrow> [p] | Inr _ \<Rightarrow> [])\<rparr>)"

text \<open>One pass over a snapshot of the pending transforms; what is not resolved stays pending.\<close>

fun pass :: "(string \<times> transform) list \<Rightarrow> topo \<Rightarrow> topo \<times> (string \<times> transform) list" where
  "pass [] st = (st, [])"
| "pass (e # es) st =
    (if ready (to_provenance st) (snd e) then pass es (resolve (fst e) (snd e) st)
     else let (st', rest) = pass es st in (st', e # rest))"

function topo_loop :: "(string \<times> transform) list \<Rightarrow> topo \<Rightarrow> topo \<times> (string \<times> transform) list" where
  "topo_loop pending st =
    (if pending = [] then (st, [])
     else case pass pending st of (st', rest) \<Rightarrow>
       if length rest < length pending then topo_loop rest st' else (st', rest))"
  by pat_completeness auto

termination
  by (relation "measure (\<lambda>(pending, st). length pending)") auto

declare topo_loop.simps [simp del]

definition stuck_problems :: "provenance \<Rightarrow> (string \<times> transform) list \<Rightarrow> compileProblem list" where
  "stuck_problems prov pending =
    (let missing = (\<lambda>d. prov d = None \<and> d \<notin> set (map fst pending));
         unresolvable = filter (\<lambda>(tid, t). list_ex missing (tr_inputs t)) pending;
         cyclic = filter (\<lambda>(tid, t). \<not> list_ex missing (tr_inputs t)) pending in
     map (\<lambda>(tid, t). mkP ''STRAT-UNKNOWN-REF'' CRITICAL (''transforms.'' @ tid)) unresolvable @
     (if 0 < length cyclic then [mkP ''STRAT-CYCLE'' CRITICAL ''transforms''] else []))"

definition literal_provenance :: "unitT \<Rightarrow> nodeProvenance" where
  "literal_provenance u = \<lparr>np_unit = u, np_trustClass = CONFIDENTIAL_VERIFIED_COMPUTE, np_maxAgeMs = 9007199254740991, np_dependsOn = []\<rparr>"

fun operandProvenance :: "provenance \<Rightarrow> operandNode \<Rightarrow> string \<Rightarrow> compileProblem list \<times> nodeProvenance option" where
  "operandProvenance prov (Literal v u) path = ([], Some (literal_provenance u))"
| "operandProvenance prov (Ref x) path =
    (case prov x of None \<Rightarrow> ([mkP ''STRAT-UNKNOWN-REF'' CRITICAL path], None) | Some p \<Rightarrow> ([], Some p))"

fun checkCondition :: "provenance \<Rightarrow> conditionNode \<Rightarrow> string \<Rightarrow> compileProblem list"
  and check_children :: "provenance \<Rightarrow> conditionNode list \<Rightarrow> string \<Rightarrow> nat \<Rightarrow> compileProblem list" where
  "checkCondition prov (Compare oper l r) path =
    (let (pl, l') = operandProvenance prov l (path @ ''.left'');
         (pr, r') = operandProvenance prov r (path @ ''.right'') in
     pl @ pr @
     (case (l', r') of
        (Some a, Some b) \<Rightarrow> (case assertComparable (np_unit a) (np_unit b) of
            Inl e \<Rightarrow> [mkP (unit_code_text (ume_code e)) CRITICAL path] | Inr _ \<Rightarrow> [])
      | _ \<Rightarrow> []))"
| "checkCondition prov (CAnd cs) path = check_children prov cs (path @ ''.and'') 0"
| "checkCondition prov (COr cs) path = check_children prov cs (path @ ''.or'') 0"
| "checkCondition prov (CNot c) path = checkCondition prov c (path @ ''.not'')"
| "check_children prov [] path i = []"
| "check_children prov (c # cs) path i =
    checkCondition prov c (path @ ''['' @ show_nat i @ '']'') @ check_children prov cs path (Suc i)"

text \<open>The references of a condition; \<open>checkCondition\<close> records the same ones in \<open>usedNodes\<close>.\<close>

definition operand_refs :: "operandNode \<Rightarrow> string list" where
  "operand_refs o' = (case o' of Ref x \<Rightarrow> [x] | Literal _ _ \<Rightarrow> [])"

fun collect :: "conditionNode \<Rightarrow> string list" where
  "collect (Compare oper l r) = operand_refs l @ operand_refs r"
| "collect (CNot c) = collect c"
| "collect (CAnd cs) = concat (map collect cs)"
| "collect (COr cs) = concat (map collect cs)"

definition decision_problems :: "strategy \<Rightarrow> provenance \<Rightarrow> decision \<Rightarrow> compileProblem list" where
  "decision_problems s prov d =
    checkCondition prov (de_when d) (''decisions.'' @ de_id d @ ''.when'') @
    (if de_actionRef d \<notin> set (map sa_id (st_actions s))
     then [mkP ''STRAT-UNKNOWN-ACTION'' CRITICAL (''decisions.'' @ de_id d @ ''.actionRef'')] else []) @
    (if de_autonomousMaxUsdCents d = None \<and> de_escalationMaxUsdCents d = None
     then [mkP ''STRAT-UNBOUNDED-AMOUNT'' CRITICAL (''decisions.'' @ de_id d)] else []) @
    (case (de_autonomousMaxUsdCents d, de_escalationMaxUsdCents d) of
       (Some auto, Some esc) \<Rightarrow> if esc < auto then [mkP ''STRAT-BAND-INVERTED'' HIGH (''decisions.'' @ de_id d)] else []
     | _ \<Rightarrow> []) @
    (if list_ex (\<lambda>a. sa_id a = de_actionRef d) (st_actions s) then
       map (\<lambda>_. mkP ''STRAT-TRUST-FLOOR'' CRITICAL (''decisions.'' @ de_id d))
         (filter (\<lambda>x. case prov x of None \<Rightarrow> False | Some p \<Rightarrow> \<not> satisfiesTrust (np_trustClass p) DIRECT_CHAIN_DATA)
           (collect (de_when d)))
     else [])"

text \<open>\<open>recipientPolicy\<close> has two values after parsing, so the check of a third never fires.\<close>

definition action_problems :: "strategy \<Rightarrow> strategyAction \<Rightarrow> compileProblem list" where
  "action_problems s a =
    (if sa_id a \<notin> set (filter (\<lambda>x. x \<in> set (map sa_id (st_actions s))) (map de_actionRef (st_decisions s)))
     then [mkP ''STRAT-ACTION-NO-DECISION'' CRITICAL (''actions.'' @ sa_id a)] else []) @
    (if sa_recipientPolicy a \<noteq> SelfOnly \<and> sa_recipientPolicy a \<noteq> AllowList
     then [mkP ''STRAT-UNBOUNDED-RECIPIENT'' CRITICAL (''actions.'' @ sa_id a)] else [])"

definition referenced :: "strategy \<Rightarrow> string list" where
  "referenced s = concat (map (\<lambda>d. collect (de_when d)) (st_decisions s)) @ concat (map tr_inputs (st_transforms s))"

definition unused_problems :: "strategy \<Rightarrow> compileProblem list" where
  "unused_problems s =
    map (\<lambda>i. mkP ''STRAT-UNUSED-INPUT'' MEDIUM (''inputs.'' @ si_id i)) (filter (\<lambda>i. si_id i \<notin> set (referenced s)) (st_inputs s)) @
    map (\<lambda>t. mkP ''STRAT-UNUSED-TRANSFORM'' MEDIUM (''transforms.'' @ tr_id t))
      (filter (\<lambda>t. tr_id t \<notin> set (referenced s)) (st_transforms s))"

definition unknown_problems :: "strategy \<Rightarrow> compileProblem list" where
  "unknown_problems s = map (\<lambda>u. mkP ''STRAT-UNKNOWN-LIMIT'' CRITICAL (ur_field u))
     (filter (\<lambda>u. ur_requiredBefore u = BUILD) (st_unknowns s))"

definition start_topo :: "strategy \<Rightarrow> topo" where
  "start_topo s = \<lparr>to_provenance = snd (declare_inputs (st_inputs s) (\<lambda>_. None)), to_order = map si_id (st_inputs s), to_problems = []\<rparr>"

definition sorted_topo :: "strategy \<Rightarrow> topo \<times> (string \<times> transform) list" where
  "sorted_topo s = topo_loop (pending_map (st_transforms s)) (start_topo s)"

definition strategy_problems :: "strategy \<Rightarrow> compileProblem list" where
  "strategy_problems s =
    (let (t, pending) = sorted_topo s; prov = to_provenance t in
     concat (map fence_problems (st_actions s)) @
     fst (declare_inputs (st_inputs s) (\<lambda>_. None)) @
     to_problems t @
     stuck_problems prov pending @
     concat (map (decision_problems s prov) (st_decisions s)) @
     concat (map (action_problems s) (st_actions s)) @
     unused_problems s @ unknown_problems s)"

definition compileStrategy :: "('u \<Rightarrow> string list list + strategy) \<Rightarrow> 'u \<Rightarrow> compileResult" where
  "compileStrategy safeParse input =
    (case safeParse input of
       Inl paths \<Rightarrow> \<lparr>cr_ok = False, cr_buildable = False, cr_problems = map (\<lambda>p. mkP ''STRAT-SCHEMA'' CRITICAL (join ''.'' p)) paths,
         cr_provenance = (\<lambda>_. None), cr_order = [], cr_unknowns = [], cr_requiresCapability = []\<rparr>
     | Inr s \<Rightarrow>
         let problems = strategy_problems s; t = fst (sorted_topo s) in
         \<lparr>cr_ok = (\<not> list_ex (\<lambda>p. cp_severity p = CRITICAL) problems),
          cr_buildable = (\<not> list_ex (\<lambda>p. cp_severity p = CRITICAL \<or> cp_severity p = HIGH) problems),
          cr_problems = problems, cr_provenance = to_provenance t, cr_order = to_order t,
          cr_unknowns = st_unknowns s, cr_requiresCapability = st_requiresCapability s\<rparr>)"

text \<open>The text of a condition for a reader.\<close>

fun compare_text :: "compare_op \<Rightarrow> string" where
  "compare_text LT = ''<''"
| "compare_text LTE = ''<=''"
| "compare_text GT = ''>''"
| "compare_text GTE = ''>=''"
| "compare_text EQ = ''==''"
| "compare_text NEQ = ''!=''"

fun operand_text :: "operandNode \<Rightarrow> string" where
  "operand_text (Ref x) = x"
| "operand_text (Literal v u) = v @ '' '' @ describeUnit u"

fun describeCondition :: "conditionNode \<Rightarrow> string" where
  "describeCondition (Compare oper l r) = operand_text l @ '' '' @ compare_text oper @ '' '' @ operand_text r"
| "describeCondition (CAnd cs) = ''('' @ join '' AND '' (map describeCondition cs) @ '')''"
| "describeCondition (COr cs) = ''('' @ join '' OR '' (map describeCondition cs) @ '')''"
| "describeCondition (CNot c) = ''NOT '' @ describeCondition c"

section \<open>The topological loop\<close>

text \<open>A sequence of resolutions, each of a transform that was ready.\<close>

fun chain :: "(string \<times> transform) list \<Rightarrow> topo \<Rightarrow> topo \<Rightarrow> bool" where
  "chain [] st st' = (st' = st)"
| "chain (e # es) st st' = (ready (to_provenance st) (snd e) \<and> chain es (resolve (fst e) (snd e) st) st')"

lemma chain_append: "chain (xs @ ys) st st' \<longleftrightarrow> (\<exists>m. chain xs st m \<and> chain ys m st')"
  by (induction xs arbitrary: st) auto

lemma pass_chain:
  assumes "pass es st = (st', rest)"
  shows "\<exists>done. chain done st st' \<and> mset es = mset (done @ rest) \<and>
    (length rest = length es \<longrightarrow> (\<forall>e \<in> set rest. \<not> ready (to_provenance st') (snd e)))"
  using assms
proof (induction es arbitrary: st st' rest)
  case Nil
  then show ?case by (intro exI [of _ "[]"]) simp
next
  case (Cons e es)
  show ?case
  proof (cases "ready (to_provenance st) (snd e)")
    case True
    with Cons.prems have "pass es (resolve (fst e) (snd e) st) = (st', rest)" by simp
    from Cons.IH [OF this] obtain d where d: "chain d (resolve (fst e) (snd e) st) st'" "mset es = mset (d @ rest)" by blast
    moreover from d(2) have "length es = length (d @ rest)" by (metis size_mset)
    ultimately show ?thesis using True by (intro exI [of _ "e # d"]) auto
  next
    case False
    then obtain r where r: "pass es st = (st', r)" "rest = e # r" using Cons.prems by (cases "pass es st") auto
    from Cons.IH [OF r(1)] obtain d where d: "chain d st st'" "mset es = mset (d @ r)"
      "length r = length es \<longrightarrow> (\<forall>e \<in> set r. \<not> ready (to_provenance st') (snd e))" by blast
    have "st' = st" if "length r = length es"
    proof -
      have "length es = length (d @ r)" using d(2) by (metis size_mset)
      then have "d = []" using that by simp
      then show ?thesis using d(1) by simp
    qed
    with d r(2) False show ?thesis by (intro exI [of _ d]) auto
  qed
qed

lemma loop_chain:
  assumes "topo_loop es st = (st', rest)"
  shows "\<exists>done. chain done st st' \<and> mset es = mset (done @ rest) \<and> (\<forall>e \<in> set rest. \<not> ready (to_provenance st') (snd e))"
  using assms
proof (induction es st arbitrary: st' rest rule: topo_loop.induct)
  case (1 es st)
  show ?case
  proof (cases "es = []")
    case True
    then show ?thesis using 1(2) by (intro exI [of _ "[]"]) (simp add: topo_loop.simps)
  next
    case False
    obtain m r where p: "pass es st = (m, r)" by fastforce
    from pass_chain [OF p] obtain d where d: "chain d st m" "mset es = mset (d @ r)"
      "length r = length es \<longrightarrow> (\<forall>e \<in> set r. \<not> ready (to_provenance m) (snd e))" by blast
    show ?thesis
    proof (cases "length r < length es")
      case True
      with 1(2) False p have "topo_loop r m = (st', rest)" by (subst (asm) topo_loop.simps) simp
      from 1(1) [OF False p [symmetric] True this] obtain d' where d': "chain d' m st'" "mset r = mset (d' @ rest)"
        "\<forall>e \<in> set rest. \<not> ready (to_provenance st') (snd e)" by blast
      with d show ?thesis by (intro exI [of _ "d @ d'"]) (auto simp: chain_append)
    next
      case stop: False
      with 1(2) False p have "st' = m" "rest = r" by (subst (asm) topo_loop.simps, simp)+
      moreover have "length es = length d + length r" using d(2) by (metis length_append size_mset)
      ultimately show ?thesis using d stop by (intro exI [of _ d]) auto
    qed
  qed
qed

section \<open>What a chain of resolutions computes\<close>

lemma resolve_simps [simp]:
  "to_order (resolve x t st) = to_order st @ [x]"
  "y \<noteq> x \<Longrightarrow> to_provenance (resolve x t st) y = to_provenance st y"
  "dom (to_provenance (resolve x t st)) = insert x (dom (to_provenance st))"
  by (simp_all add: resolve_def Let_def)

lemma chain_order: "chain es st st' \<Longrightarrow> to_order st' = to_order st @ map fst es"
  by (induction es arbitrary: st) auto

lemma chain_dom: "chain es st st' \<Longrightarrow> dom (to_provenance st') = dom (to_provenance st) \<union> fst ` set es"
proof (induction es arbitrary: st)
  case (Cons e es)
  then have "dom (to_provenance st') = dom (to_provenance (resolve (fst e) (snd e) st)) \<union> fst ` set es"
    using Cons.IH [of "resolve (fst e) (snd e) st"] by (simp del: resolve_simps)
  then show ?case unfolding resolve_simps by auto
qed simp

lemma chain_keeps: "chain es st st' \<Longrightarrow> y \<notin> fst ` set es \<Longrightarrow> to_provenance st' y = to_provenance st y"
  by (induction es arbitrary: st) auto

lemma chain_problems: "chain es st st' \<Longrightarrow> \<exists>ps. to_problems st' = to_problems st @ ps"
proof (induction es arbitrary: st)
  case (Cons e es)
  from Cons.IH [of "resolve (fst e) (snd e) st"] Cons.prems show ?case by (auto simp: resolve_def Let_def)
qed simp

lemma ready_iff: "ready prov t \<longleftrightarrow> set (tr_inputs t) \<subseteq> dom prov"
  by (auto simp: ready_def list_all_iff)

text \<open>A resolved transform without a unit problem has the provenance derived from its inputs.\<close>

definition settled_node :: "provenance \<Rightarrow> string \<Rightarrow> transform \<Rightarrow> bool" where
  "settled_node prov x t \<longleftrightarrow> set (tr_inputs t) \<subseteq> dom prov \<and>
    (\<exists>u. output_unit (tr_op t) (input_units prov t) (tr_toDecimals t) = Inr u \<and>
      prov x = Some (derived prov t u))"

lemma derived_cong: "\<forall>d \<in> set (tr_inputs t). prov d = prov' d \<Longrightarrow> derived prov t u = derived prov' t u"
  unfolding derived_def by (auto intro!: arg_cong [where f = propagateTrust] arg_cong [where f = propagateFreshness])

lemma settled_cong:
  assumes "settled_node prov x t" "prov' x = prov x" "\<forall>d \<in> set (tr_inputs t). prov' d = prov d"
  shows "settled_node prov' x t"
proof -
  from assms(1) obtain u where u: "output_unit (tr_op t) (input_units prov t) (tr_toDecimals t) = Inr u"
    "prov x = Some (derived prov t u)" "set (tr_inputs t) \<subseteq> dom prov" unfolding settled_node_def by blast
  have "input_units prov' t = input_units prov t" using assms(3) by (simp add: input_units_def)
  moreover have "derived prov' t u = derived prov t u" using assms(3) by (intro derived_cong) blast
  moreover have "set (tr_inputs t) \<subseteq> dom prov'" using u(3) assms(3) by (metis domIff subsetD subsetI)
  ultimately show ?thesis using u assms(2) unfolding settled_node_def by auto
qed

lemma chain_settled:
  assumes "chain es st st'" "to_problems st' = to_problems st" "distinct (map fst es)" "fst ` set es \<inter> dom (to_provenance st) = {}"
  shows "\<forall>e \<in> set es. settled_node (to_provenance st') (fst e) (snd e)"
  using assms
proof (induction es arbitrary: st)
  case (Cons e es)
  let ?m = "resolve (fst e) (snd e) st" and ?prov = "to_provenance st"
  from Cons.prems(1) have r: "set (tr_inputs (snd e)) \<subseteq> dom ?prov" and c: "chain es ?m st'" by (auto simp: ready_iff)
  have same: "to_problems st' = to_problems ?m \<and> to_problems ?m = to_problems st"
    using chain_problems [OF c] Cons.prems(2) by (auto simp: resolve_def Let_def)
  have "fst ` set es \<inter> dom (to_provenance ?m) = {}" using Cons.prems(3,4) by auto
  then have tail: "\<forall>e \<in> set es. settled_node (to_provenance st') (fst e) (snd e)"
    using Cons.IH [OF c] same Cons.prems(3) by auto
  obtain u where u: "output_unit (tr_op (snd e)) (input_units ?prov (snd e)) (tr_toDecimals (snd e)) = Inr u"
    using same by (auto simp: resolve_def Let_def transformOutputUnit_def split: sum.splits)
  have fresh: "fst e \<notin> dom ?prov" using Cons.prems(4) by auto
  then have "fst e \<notin> set (tr_inputs (snd e))" using r by blast
  then have others: "\<forall>d \<in> set (tr_inputs (snd e)). ?prov d = to_provenance ?m d" by (metis resolve_simps(2))
  have "to_provenance ?m (fst e) = Some (derived ?prov (snd e) u)" using u by (simp add: resolve_def Let_def transformOutputUnit_def)
  moreover have "input_units (to_provenance ?m) (snd e) = input_units ?prov (snd e)" using others by (simp add: input_units_def)
  moreover have "set (tr_inputs (snd e)) \<subseteq> dom (to_provenance ?m)" using r by auto
  ultimately have here: "settled_node (to_provenance ?m) (fst e) (snd e)"
    using u derived_cong [OF others, of u] unfolding settled_node_def by auto
  have "to_provenance st' d = to_provenance ?m d" if "d \<in> set (tr_inputs (snd e)) \<or> d = fst e" for d
  proof (rule chain_keeps [OF c])
    have "fst e \<notin> fst ` set es" using Cons.prems(3) by simp
    moreover have "dom ?prov \<inter> fst ` set es = {}" using Cons.prems(4) by auto
    ultimately show "d \<notin> fst ` set es" using that r by (metis disjoint_iff subsetD)
  qed
  then have "settled_node (to_provenance st') (fst e) (snd e)" by (intro settled_cong [OF here]) auto
  with tail show ?case by simp
qed simp

section \<open>The roots and the pending map\<close>

lemmas map_set_simps = map_set_keys map_set_distinct map_set_new

lemma pending_fold:
  "distinct (map fst es) \<Longrightarrow> distinct (map fst (foldl (\<lambda>m t. map_set (tr_id t) t m) es ts))"
  "set (map fst (foldl (\<lambda>m t. map_set (tr_id t) t m) es ts)) = set (map fst es) \<union> tr_id ` set ts"
  "distinct (map fst es @ map tr_id ts) \<Longrightarrow> foldl (\<lambda>m t. map_set (tr_id t) t m) es ts = es @ map (\<lambda>t. (tr_id t, t)) ts"
  by (induction ts arbitrary: es) (auto simp: map_set_simps simp del: set_map)

lemma pending_keys: "distinct (map fst (pending_map ts))" "fst ` set (pending_map ts) = tr_id ` set ts"
  using pending_fold(1,2) [of "[]" ts] by (auto simp: pending_map_def)

lemma pending_distinct: "distinct (map tr_id ts) \<Longrightarrow> pending_map ts = map (\<lambda>t. (tr_id t, t)) ts"
  using pending_fold(3) [of "[]" ts] by (simp add: pending_map_def)

lemma declared_dom: "dom (snd (declare_inputs is prov)) = dom prov \<union> si_id ` set is"
  by (induction "is" arbitrary: prov) (auto simp: split_beta Let_def)

lemma declared_no_problem:
  "fst (declare_inputs is prov) = [] \<longleftrightarrow> distinct (map si_id is) \<and> si_id ` set is \<inter> dom prov = {}"
  by (induction "is" arbitrary: prov) (auto simp: split_beta Let_def)

lemma declared_critical: "p \<in> set (fst (declare_inputs is prov)) \<Longrightarrow> cp_severity p = CRITICAL"
  by (induction "is" arbitrary: prov) (auto simp: split_beta Let_def mkP_def split: if_splits)

lemma declared_old: "prov x = Some p \<Longrightarrow> snd (declare_inputs is prov) x = Some p"
proof (induction "is" arbitrary: prov)
  case (Cons i "is")
  show ?case
  proof (cases "prov (si_id i)")
    case None
    then have "(prov(si_id i \<mapsto> input_provenance i)) x = Some p" using Cons.prems by auto
    with Cons.IH [of "prov(si_id i \<mapsto> input_provenance i)"] None show ?thesis by (simp del: fun_upd_apply)
  qed (use Cons in \<open>simp add: split_beta Let_def\<close>)
qed simp

lemma declared_value:
  "distinct (map si_id is) \<Longrightarrow> si_id ` set is \<inter> dom prov = {} \<Longrightarrow> i \<in> set is \<Longrightarrow>
    snd (declare_inputs is prov) (si_id i) = Some (input_provenance i)"
proof (induction "is" arbitrary: prov)
  case (Cons j js)
  then have j: "prov (si_id j) = None" by auto
  have "si_id ` set js \<inter> dom (prov(si_id j \<mapsto> input_provenance j)) = {}" using Cons.prems by auto
  then show ?case using Cons j declared_old [of "prov(si_id j \<mapsto> input_provenance j)" "si_id j"]
    by (cases "i = j") simp_all
qed simp

section \<open>When a strategy is buildable\<close>

definition blocking :: "compileProblem \<Rightarrow> bool" where
  "blocking p = (cp_severity p = CRITICAL \<or> cp_severity p = HIGH)"

lemma blocking_mkP [simp]: "blocking (mkP c s p) \<longleftrightarrow> s = CRITICAL \<or> s = HIGH"
  by (simp add: blocking_def mkP_def)

text \<open>The comparisons of a condition relate two resolved operands of the same unit.\<close>

definition operand_unit :: "provenance \<Rightarrow> operandNode \<Rightarrow> unitT option" where
  "operand_unit prov x = (case x of Literal v u \<Rightarrow> Some u | Ref y \<Rightarrow> map_option np_unit (prov y))"

fun well_united :: "provenance \<Rightarrow> conditionNode \<Rightarrow> bool" where
  "well_united prov (Compare oper l r) \<longleftrightarrow>
    (\<exists>a b. operand_unit prov l = Some a \<and> operand_unit prov r = Some b \<and> unitsEqual a b)"
| "well_united prov (CAnd cs) \<longleftrightarrow> list_all (well_united prov) cs"
| "well_united prov (COr cs) \<longleftrightarrow> list_all (well_united prov) cs"
| "well_united prov (CNot c) \<longleftrightarrow> well_united prov c"

lemma operand_problems:
  "fst (operandProvenance prov x path) = [] \<longleftrightarrow> operand_unit prov x \<noteq> None"
  "map_option np_unit (snd (operandProvenance prov x path)) = operand_unit prov x"
  by (cases x; auto simp: operand_unit_def literal_provenance_def split: option.splits)+

lemma compare_problems: "checkCondition prov (Compare oper l r) path = [] \<longleftrightarrow> well_united prov (Compare oper l r)"
proof -
  obtain pl a where l: "operandProvenance prov l (path @ ''.left'') = (pl, a)" by fastforce
  obtain pr b where r: "operandProvenance prov r (path @ ''.right'') = (pr, b)" by fastforce
  have "pl = [] \<longleftrightarrow> operand_unit prov l \<noteq> None" "map_option np_unit a = operand_unit prov l"
    "pr = [] \<longleftrightarrow> operand_unit prov r \<noteq> None" "map_option np_unit b = operand_unit prov r"
    using operand_problems [of prov l "path @ ''.left''"] operand_problems [of prov r "path @ ''.right''"] l r by auto
  then show ?thesis using comparable_iff
    by (cases a; cases b) (auto simp: l r split: sum.splits, (metis old.unit.exhaust sum.distinct(1))+)
qed

lemma condition_problems:
  "checkCondition prov c path = [] \<longleftrightarrow> well_united prov c"
  "check_children prov cs path i = [] \<longleftrightarrow> list_all (well_united prov) cs"
  by (induction prov c path and prov cs path i rule: checkCondition_check_children.induct)
    (simp_all only: compare_problems, simp_all)

lemma condition_critical:
  "list_all blocking (checkCondition prov c path)" "list_all blocking (check_children prov cs path i)"
proof (induction prov c path and prov cs path i rule: checkCondition_check_children.induct)
  case (1 prov oper l r path)
  have "list_all blocking (fst (operandProvenance prov x q))" for x q by (cases x) (auto split: option.splits)
  then show ?case by (auto simp: split_beta Let_def split: option.splits sum.splits)
qed auto

lemma condition_blocks: "list_ex blocking (checkCondition prov c path) \<longleftrightarrow> \<not> well_united prov c"
  using condition_problems(1) [of prov c path] condition_critical(1) [of prov c path]
  by (cases "checkCondition prov c path") auto

lemma operand_refs_known: "operand_unit prov x \<noteq> None \<Longrightarrow> set (operand_refs x) \<subseteq> dom prov"
  by (cases x) (auto simp: operand_unit_def operand_refs_def)

lemma well_united_refs: "well_united prov c \<Longrightarrow> set (collect c) \<subseteq> dom prov"
proof (induction c)
  case (Compare oper l r)
  then show ?case using operand_refs_known [of prov l] operand_refs_known [of prov r] by auto
next
  case (CAnd cs)
  then have "\<forall>c \<in> set cs. set (collect c) \<subseteq> dom prov" by (simp add: list_all_iff)
  then show ?case by (simp add: UN_subset_iff)
next
  case (COr cs)
  then have "\<forall>c \<in> set cs. set (collect c) \<subseteq> dom prov" by (simp add: list_all_iff)
  then show ?case by (simp add: UN_subset_iff)
qed simp

text \<open>What the compiler demands of a decision and of a strategy.\<close>

definition decision_sound :: "strategy \<Rightarrow> provenance \<Rightarrow> decision \<Rightarrow> bool" where
  "decision_sound s prov d \<longleftrightarrow>
    well_united prov (de_when d) \<and> de_actionRef d \<in> sa_id ` set (st_actions s) \<and>
    (de_autonomousMaxUsdCents d \<noteq> None \<or> de_escalationMaxUsdCents d \<noteq> None) \<and>
    (\<forall>auto esc. de_autonomousMaxUsdCents d = Some auto \<and> de_escalationMaxUsdCents d = Some esc \<longrightarrow> auto \<le> esc) \<and>
    (\<forall>x \<in> set (collect (de_when d)). \<exists>p. prov x = Some p \<and> satisfiesTrust (np_trustClass p) DIRECT_CHAIN_DATA)"

definition strategy_sound :: "strategy \<Rightarrow> bool" where
  "strategy_sound s \<longleftrightarrow>
    (\<forall>a \<in> set (st_actions s). \<forall>c. sa_chainId a = Some c \<longrightarrow> c \<in> {11155111, 84532}) \<and>
    distinct (map si_id (st_inputs s)) \<and>
    snd (sorted_topo s) = [] \<and> to_problems (fst (sorted_topo s)) = [] \<and>
    (\<forall>d \<in> set (st_decisions s). decision_sound s (to_provenance (fst (sorted_topo s))) d) \<and>
    (\<forall>a \<in> set (st_actions s). \<exists>d \<in> set (st_decisions s). de_actionRef d = sa_id a) \<and>
    (\<forall>u \<in> set (st_unknowns s). ur_requiredBefore u \<noteq> BUILD)"

lemma decision_blocks: "list_ex blocking (decision_problems s prov d) \<longleftrightarrow> \<not> decision_sound s prov d"
proof -
  have act: "list_ex (\<lambda>a. sa_id a = de_actionRef d) (st_actions s) \<longleftrightarrow> de_actionRef d \<in> sa_id ` set (st_actions s)"
    by (rule list_ex_key)
  have floor: "(\<forall>x \<in> set (collect (de_when d)). \<exists>p. prov x = Some p \<and> satisfiesTrust (np_trustClass p) DIRECT_CHAIN_DATA) \<longleftrightarrow>
      \<not> (\<exists>x \<in> set (collect (de_when d)). case prov x of None \<Rightarrow> False | Some p \<Rightarrow> \<not> satisfiesTrust (np_trustClass p) DIRECT_CHAIN_DATA)"
    if "well_united prov (de_when d)"
    using well_united_refs [OF that] by (fastforce split: option.splits)
  show ?thesis
    unfolding decision_problems_def decision_sound_def list_ex_append condition_blocks act
    using floor
    by (cases "de_autonomousMaxUsdCents d"; cases "de_escalationMaxUsdCents d") auto
qed

lemma fence_blocks: "list_ex blocking (fence_problems a) \<longleftrightarrow> (\<exists>c. sa_chainId a = Some c \<and> c \<notin> {11155111, 84532})"
proof (cases "sa_chainId a")
  case (Some c)
  let ?ref = "\<lparr>nr_chainId = c, nr_role = TESTNET_EXECUTION, nr_forkedFrom = None, nr_forkBlock = None\<rparr>"
  have "(\<exists>n. assertExecutionAllowed ?ref PUBLIC_WRITE (fence_name STRATEGY_COMPILER) = Inr n) \<longleftrightarrow> c \<in> {11155111, 84532}"
    by (auto simp: assertExecutionAllowed_def BY_CHAIN_ID_def APPROVED_def isProductionChain_def PRODUCTION_CHAIN_IDS_def)
  with fenceWrite_iff [of STRATEGY_COMPILER ?ref PUBLIC_WRITE] Some show ?thesis
    by (auto simp: fence_problems_def split: sum.splits)
qed (simp add: fence_problems_def)

lemma action_blocks:
  assumes "a \<in> set (st_actions s)"
  shows "list_ex blocking (action_problems s a) \<longleftrightarrow> \<not> (\<exists>d \<in> set (st_decisions s). de_actionRef d = sa_id a)"
proof -
  have "sa_id a \<in> set (filter (\<lambda>x. x \<in> set (map sa_id (st_actions s))) (map de_actionRef (st_decisions s))) \<longleftrightarrow>
      (\<exists>d \<in> set (st_decisions s). de_actionRef d = sa_id a)" using assms by force
  then show ?thesis unfolding action_problems_def by (cases "sa_recipientPolicy a") auto
qed

lemma stuck_blocks: "list_ex blocking (stuck_problems prov pending) \<longleftrightarrow> pending \<noteq> []"
proof -
  have "pending = [] \<longleftrightarrow> filter P pending = [] \<and> filter (\<lambda>x. \<not> P x) pending = []" for P
    by (induction pending) auto
  from this [of "\<lambda>(tid, t). list_ex (\<lambda>d. prov d = None \<and> d \<notin> set (map fst pending)) (tr_inputs t)"] show ?thesis
    by (auto simp: stuck_problems_def Let_def case_prod_unfold filter_empty_conv)
qed

lemma resolve_critical: "list_all blocking (to_problems st) \<Longrightarrow> chain es st st' \<Longrightarrow> list_all blocking (to_problems st')"
proof (induction es arbitrary: st)
  case (Cons e es)
  have "list_all blocking (to_problems (resolve (fst e) (snd e) st))"
    using Cons.prems(1) by (auto simp: resolve_def Let_def transformOutputUnit_def split: sum.splits)
  with Cons show ?case by simp
qed simp

lemma sorted_topo_chain:
  obtains es where "chain es (start_topo s) (fst (sorted_topo s))"
    "mset (pending_map (st_transforms s)) = mset (es @ snd (sorted_topo s))"
    "\<forall>e \<in> set (snd (sorted_topo s)). \<not> ready (to_provenance (fst (sorted_topo s))) (snd e)"
proof -
  obtain st rest where r: "topo_loop (pending_map (st_transforms s)) (start_topo s) = (st, rest)" by fastforce
  from loop_chain [OF r] show ?thesis using that by (auto simp: sorted_topo_def r)
qed

lemma blocking_iff_nonempty: "list_all P xs \<Longrightarrow> list_ex P xs \<longleftrightarrow> xs \<noteq> []"
  by (cases xs) auto

lemma buildable_iff_sound:
  "cr_buildable (compileStrategy safeParse input) \<longleftrightarrow> (\<exists>s. safeParse input = Inr s \<and> strategy_sound s)"
proof (cases "safeParse input")
  case (Inr s)
  obtain es where es: "chain es (start_topo s) (fst (sorted_topo s))" by (rule sorted_topo_chain)
  have "list_all blocking (to_problems (fst (sorted_topo s)))"
    by (rule resolve_critical [OF _ es]) (simp add: start_topo_def)
  then have units: "list_ex blocking (to_problems (fst (sorted_topo s))) \<longleftrightarrow> to_problems (fst (sorted_topo s)) \<noteq> []"
    by (rule blocking_iff_nonempty)
  have "list_all blocking (fst (declare_inputs (st_inputs s) (\<lambda>_. None)))"
    using declared_critical by (fastforce simp: list_all_iff blocking_def)
  then have inputs: "list_ex blocking (fst (declare_inputs (st_inputs s) (\<lambda>_. None))) \<longleftrightarrow> \<not> distinct (map si_id (st_inputs s))"
    using declared_no_problem [of "st_inputs s" "\<lambda>_. None"] by (simp add: blocking_iff_nonempty)
  have actions: "(\<exists>a \<in> set (st_actions s). list_ex blocking (action_problems s a)) \<longleftrightarrow>
      \<not> (\<forall>a \<in> set (st_actions s). \<exists>d \<in> set (st_decisions s). de_actionRef d = sa_id a)"
    using action_blocks [of _ s] by blast
  have unused: "\<not> list_ex blocking (unused_problems s)" by (simp add: unused_problems_def)
  have unknowns: "list_ex blocking (unknown_problems s) \<longleftrightarrow> \<not> (\<forall>u \<in> set (st_unknowns s). ur_requiredBefore u \<noteq> BUILD)"
    by (auto simp: unknown_problems_def)
  have "list_ex blocking (strategy_problems s) \<longleftrightarrow> \<not> strategy_sound s"
    unfolding strategy_problems_def strategy_sound_def split_beta Let_def list_ex_append list_ex_concat_map
      units inputs actions stuck_blocks decision_blocks fence_blocks unknowns
    using unused by auto
  with Inr show ?thesis unfolding blocking_def by (simp add: compileStrategy_def Let_def)
qed (simp add: compileStrategy_def)

section \<open>Trust and age of what a decision reads\<close>

lemma propagateTrust_weakest:
  assumes "t \<in> set ts"
  shows "trustRank (propagateTrust ts) \<le> trustRank t"
proof -
  have fold: "trustRank (foldl (\<lambda>w c. if trustRank c < trustRank w then c else w) w cs) \<le> trustRank c"
    if "c \<in> insert w (set cs)" for w cs c
    using that
  proof (induction cs arbitrary: w c)
    case (Cons x xs)
    let ?w = "if trustRank x < trustRank w then x else w"
    have "trustRank (foldl (\<lambda>w c. if trustRank c < trustRank w then c else w) ?w xs) \<le> trustRank ?w" by (rule Cons.IH) simp
    moreover have "trustRank (foldl (\<lambda>w c. if trustRank c < trustRank w then c else w) ?w xs) \<le> trustRank c" if "c \<in> set xs"
      using that by (intro Cons.IH) simp
    ultimately show ?case using Cons.prems by (auto split: if_splits)
  qed simp
  show ?thesis using assms fold [of t "hd ts" "tl ts"] by (cases ts) (auto simp: propagateTrust_def)
qed

lemma propagateFreshness_loosest:
  assumes "n \<in> set ns"
  shows "n \<le> propagateFreshness ns"
proof -
  have fold: "c \<le> foldl max m cs" if "c \<in> insert m (set cs)" for m cs and c :: int
    using that
  proof (induction cs arbitrary: m c)
    case (Cons x xs)
    have "max m x \<le> foldl max (max m x) xs" by (rule Cons.IH) simp
    moreover have "c \<le> foldl max (max m x) xs" if "c \<in> set xs" using that by (intro Cons.IH) simp
    ultimately show ?case using Cons.prems by auto
  qed simp
  show ?thesis using assms fold [of n "hd ns" "tl ns"] by (cases ns) (auto simp: propagateFreshness_def)
qed

text \<open>\<open>feeds s x y\<close>: the value of node \<open>y\<close> is computed from that of node \<open>x\<close>.\<close>

inductive feeds :: "strategy \<Rightarrow> string \<Rightarrow> string \<Rightarrow> bool" for s x where
  itself: "feeds s x x"
| through: "t \<in> set (st_transforms s) \<Longrightarrow> z \<in> set (tr_inputs t) \<Longrightarrow> feeds s x z \<Longrightarrow> feeds s x (tr_id t)"

definition distinct_ids :: "strategy \<Rightarrow> bool" where
  "distinct_ids s = distinct (map si_id (st_inputs s) @ map tr_id (st_transforms s))"

lemma sound_run:
  assumes sound: "strategy_sound s" and ids: "distinct_ids s"
  obtains es where "chain es (start_topo s) (fst (sorted_topo s))" "mset es = mset (map (\<lambda>t. (tr_id t, t)) (st_transforms s))"
    "\<forall>t \<in> set (st_transforms s). settled_node (to_provenance (fst (sorted_topo s))) (tr_id t) t"
    "\<forall>i \<in> set (st_inputs s). to_provenance (fst (sorted_topo s)) (si_id i) = Some (input_provenance i)"
proof -
  obtain es where es: "chain es (start_topo s) (fst (sorted_topo s))"
    "mset (pending_map (st_transforms s)) = mset (es @ snd (sorted_topo s))" by (rule sorted_topo_chain)
  have "pending_map (st_transforms s) = map (\<lambda>t. (tr_id t, t)) (st_transforms s)"
    using ids by (intro pending_distinct) (simp add: distinct_ids_def)
  then have m: "mset es = mset (map (\<lambda>t. (tr_id t, t)) (st_transforms s))" using es(2) sound by (simp add: strategy_sound_def)
  then have set: "set es = (\<lambda>t. (tr_id t, t)) ` set (st_transforms s)" by (metis list.set_map set_mset_mset)
  have "mset (map fst es) = mset (map tr_id (st_transforms s))" using m by (metis (no_types, lifting) map_map comp_def fst_conv map_eq_conv mset_map)
  then have d: "distinct (map fst es)" using ids by (metis distinct_append distinct_ids_def mset_eq_imp_distinct_iff)
  have roots: "dom (to_provenance (start_topo s)) = si_id ` set (st_inputs s)" by (simp add: start_topo_def declared_dom)
  have apart: "fst ` set es \<inter> si_id ` set (st_inputs s) = {}" using ids set by (auto simp: distinct_ids_def image_image)
  have "to_problems (fst (sorted_topo s)) = to_problems (start_topo s)" using sound by (simp add: strategy_sound_def start_topo_def)
  from chain_settled [OF es(1) this d] apart roots have "\<forall>e \<in> set es. settled_node (to_provenance (fst (sorted_topo s))) (fst e) (snd e)" by simp
  then have nodes: "\<forall>t \<in> set (st_transforms s). settled_node (to_provenance (fst (sorted_topo s))) (tr_id t) t" using set by auto
  have "to_provenance (fst (sorted_topo s)) (si_id i) = Some (input_provenance i)" if "i \<in> set (st_inputs s)" for i
  proof -
    have "si_id i \<notin> fst ` set es" using apart that by blast
    then have "to_provenance (fst (sorted_topo s)) (si_id i) = to_provenance (start_topo s) (si_id i)" by (rule chain_keeps [OF es(1)])
    then show ?thesis using declared_value [of "st_inputs s" "\<lambda>_. None" i] ids that by (simp add: start_topo_def distinct_ids_def)
  qed
  with es(1) m nodes show ?thesis by (intro that) auto
qed

lemma feeds_weaker:
  assumes feeds: "feeds s x y" and known: "prov x = Some p"
    and nodes: "\<forall>t \<in> set (st_transforms s). settled_node prov (tr_id t) t"
  shows "\<exists>q. prov y = Some q \<and> trustRank (np_trustClass q) \<le> trustRank (np_trustClass p) \<and> np_maxAgeMs p \<le> np_maxAgeMs q"
  using feeds
proof (induction)
  case itself
  then show ?case using known by auto
next
  case (through t z)
  then obtain q where q: "prov z = Some q" "trustRank (np_trustClass q) \<le> trustRank (np_trustClass p)" "np_maxAgeMs p \<le> np_maxAgeMs q" by blast
  obtain u where u: "prov (tr_id t) = Some (derived prov t u)" using nodes through.hyps(1) by (auto simp: settled_node_def)
  have "np_trustClass q \<in> set (map (\<lambda>d. np_trustClass (the (prov d))) (tr_inputs t))"
    "np_maxAgeMs q \<in> set (map (\<lambda>d. np_maxAgeMs (the (prov d))) (tr_inputs t))" using through.hyps(2) q(1) by force+
  from propagateTrust_weakest [OF this(1)] propagateFreshness_loosest [OF this(2)] show ?case
    using u q(2,3) by (auto simp: derived_def)
qed

section \<open>Order\<close>

definition before :: "'a list \<Rightarrow> 'a \<Rightarrow> 'a \<Rightarrow> bool" where
  "before xs a b \<longleftrightarrow> (\<exists>us vs ws. xs = us @ a # vs @ b # ws)"

lemma before_snoc: "a \<in> set xs \<Longrightarrow> before (xs @ b # ys) a b"
proof -
  assume "a \<in> set xs"
  then obtain us vs where "xs = us @ a # vs" by (meson split_list)
  then have "xs @ b # ys = us @ a # vs @ b # ys" by simp
  then show ?thesis unfolding before_def by blast
qed

lemma chain_before:
  assumes "chain es st st'" and "dom (to_provenance st) \<subseteq> set (to_order st)" and "e \<in> set es" and "d \<in> set (tr_inputs (snd e))"
  shows "before (to_order st') d (fst e)"
  using assms
proof (induction es arbitrary: st)
  case (Cons x xs)
  show ?case
  proof (cases "e = x")
    case True
    have "d \<in> set (to_order st)" using True Cons.prems by (auto simp: ready_iff)
    moreover have "to_order st' = to_order st @ fst x # map fst xs" using Cons.prems(1) chain_order by fastforce
    ultimately show ?thesis using True by (simp add: before_snoc)
  next
    case False
    have "dom (to_provenance (resolve (fst x) (snd x) st)) \<subseteq> set (to_order (resolve (fst x) (snd x) st))"
      unfolding resolve_simps using Cons.prems(2) by auto
    then show ?thesis using Cons.IH [of "resolve (fst x) (snd x) st"] Cons.prems False by simp
  qed
qed simp

section \<open>Properties\<close>


text \<open>
  C28: No trust laundering. In a buildable strategy with distinct ids, whatever a decision reads is
  computed, through any number of transforms, only from inputs whose declared trust is at least that
  of direct chain data, and the age the compiler reports for it is at least the age allowed for each
  of those inputs.
\<close>

theorem no_trust_laundering:
  assumes build: "cr_buildable (compileStrategy safeParse input)" and s: "safeParse input = Inr s" and ids: "distinct_ids s"
    and d: "d \<in> set (st_decisions s)" and y: "y \<in> set (collect (de_when d))"
    and i: "i \<in> set (st_inputs s)" and feeds: "feeds s (si_id i) y"
  shows "satisfiesTrust (si_minimumTrustClass i) DIRECT_CHAIN_DATA \<and>
    (\<exists>p. cr_provenance (compileStrategy safeParse input) y = Some p \<and> si_maxAgeMs i \<le> np_maxAgeMs p \<and>
      trustRank (np_trustClass p) \<le> trustRank (si_minimumTrustClass i))"
proof -
  have sound: "strategy_sound s" using build s by (auto simp: buildable_iff_sound)
  let ?prov = "to_provenance (fst (sorted_topo s))"
  obtain es where nodes: "\<forall>t \<in> set (st_transforms s). settled_node ?prov (tr_id t) t"
    and roots: "\<forall>i \<in> set (st_inputs s). ?prov (si_id i) = Some (input_provenance i)" by (rule sound_run [OF sound ids])
  obtain p where p: "?prov y = Some p" "trustRank (np_trustClass p) \<le> trustRank (si_minimumTrustClass i)" "si_maxAgeMs i \<le> np_maxAgeMs p"
    using feeds_weaker [OF feeds _ nodes] roots i by (fastforce simp: input_provenance_def)
  have "satisfiesTrust (np_trustClass p) DIRECT_CHAIN_DATA"
    using sound d y p(1) by (fastforce simp: strategy_sound_def decision_sound_def)
  then show ?thesis using p s by (auto simp: compileStrategy_def Let_def satisfiesTrust_def)
qed


text \<open>
  C31: A strategy whose graph can be evaluated is never reported as cyclic or as referring to unknown
  nodes: if every transform reads only inputs and transforms of smaller rank, for some ranking, the
  loop of the compiler ends with nothing pending and provenance for every node.
\<close>

theorem acyclic_strategy_resolves:
  assumes ids: "distinct_ids s"
    and ranked: "\<And>t x. t \<in> set (st_transforms s) \<Longrightarrow> x \<in> set (tr_inputs t) \<Longrightarrow>
      x \<in> si_id ` set (st_inputs s) \<or> (\<exists>t' \<in> set (st_transforms s). tr_id t' = x \<and> rank t' < (rank t :: nat))"
  shows "snd (sorted_topo s) = [] \<and>
    dom (to_provenance (fst (sorted_topo s))) = si_id ` set (st_inputs s) \<union> tr_id ` set (st_transforms s)"
proof -
  obtain es where es: "chain es (start_topo s) (fst (sorted_topo s))"
    "mset (pending_map (st_transforms s)) = mset (es @ snd (sorted_topo s))"
    "\<forall>e \<in> set (snd (sorted_topo s)). \<not> ready (to_provenance (fst (sorted_topo s))) (snd e)" by (rule sorted_topo_chain)
  let ?prov = "to_provenance (fst (sorted_topo s))" and ?rest = "snd (sorted_topo s)"
  have "pending_map (st_transforms s) = map (\<lambda>t. (tr_id t, t)) (st_transforms s)"
    using ids by (intro pending_distinct) (simp add: distinct_ids_def)
  then have all: "set es \<union> set ?rest = (\<lambda>t. (tr_id t, t)) ` set (st_transforms s)"
    using mset_eq_setD [OF es(2)] by simp
  have dom: "dom ?prov = si_id ` set (st_inputs s) \<union> fst ` set es"
    using chain_dom [OF es(1)] by (simp add: start_topo_def declared_dom)
  have resolved: "(tr_id t, t) \<in> set es" if "t \<in> set (st_transforms s)" for t
    using that
  proof (induction "rank t" arbitrary: t rule: less_induct)
    case less
    have "set (tr_inputs t) \<subseteq> dom ?prov"
    proof
      fix x assume "x \<in> set (tr_inputs t)"
      from ranked [OF less.prems this] show "x \<in> dom ?prov"
      proof
        assume "\<exists>t' \<in> set (st_transforms s). tr_id t' = x \<and> rank t' < rank t"
        then obtain t' where "t' \<in> set (st_transforms s)" "tr_id t' = x" "rank t' < rank t" by blast
        with less.hyps have "(x, t') \<in> set es" by blast
        then show ?thesis unfolding dom by force
      qed (simp add: dom)
    qed
    then have "(tr_id t, t) \<notin> set ?rest" using es(3) by (force simp: ready_iff)
    then show ?case using all less.prems by blast
  qed
  have "length (es @ ?rest) = length (st_transforms s)"
    using es(2) \<open>pending_map (st_transforms s) = map (\<lambda>t. (tr_id t, t)) (st_transforms s)\<close> by (metis length_map size_mset)
  moreover have "length (st_transforms s) \<le> length es"
  proof -
    have "distinct (map (\<lambda>t. (tr_id t, t)) (st_transforms s))" using ids by (auto simp: distinct_ids_def distinct_map inj_on_def)
    then have "card (set (map (\<lambda>t. (tr_id t, t)) (st_transforms s))) = length (st_transforms s)" by (metis distinct_card length_map)
    moreover have "set (map (\<lambda>t. (tr_id t, t)) (st_transforms s)) \<subseteq> set es" using resolved by auto
    ultimately show ?thesis by (metis List.finite_set card_length card_mono order.trans)
  qed
  ultimately have "length ?rest = 0" unfolding length_append by linarith
  then have "?rest = []" by simp
  moreover have "fst ` set es = tr_id ` set (st_transforms s)" using all \<open>?rest = []\<close> by (simp add: image_image)
  ultimately show ?thesis using dom by simp
qed

section \<open>The treasury strategy of the test fixtures\<close>

definition sample_input :: "string \<Rightarrow> unitT \<Rightarrow> dataTrustClass \<Rightarrow> int \<Rightarrow> strategyInput" where
  "sample_input x u t age = \<lparr>si_id = x, si_requirementKey = x, si_dataKind = x, si_unit = u, si_minimumTrustClass = t, si_maxAgeMs = age,
     si_description = []\<rparr>"

definition sample_transform :: "string \<Rightarrow> transform_op \<Rightarrow> string list \<Rightarrow> nat option \<Rightarrow> transform" where
  "sample_transform x oper ins d = \<lparr>tr_id = x, tr_op = oper, tr_inputs = ins, tr_toDecimals = d, tr_description = []\<rparr>"

definition sample_decision :: "conditionNode \<Rightarrow> decision" where
  "sample_decision c = \<lparr>de_id = ''rebalance-when-low'', de_when = c, de_actionRef = ''swap-usdc-to-eth'',
     de_autonomousMaxUsdCents = Some 50000, de_escalationMaxUsdCents = Some 200000, de_description = []\<rparr>"

definition low_allocation :: conditionNode where
  "low_allocation = Compare LT (Ref ''eth-allocation-bps'') (Literal ''4000'' unit_bps)"

definition treasuryStrategy :: strategy where
  "treasuryStrategy =
    \<lparr>st_planId = ''treasury-rebalancer'', st_revision = 1,
     st_triggers = [\<lparr>tg_id = ''allocation-drift'', tg_kind = Threshold, tg_description = []\<rparr>],
     st_inputs = [sample_input ''eth-price'' (unit_price ''USD'' 8) VERIFIED_ORACLE 30000,
       sample_input ''eth-balance'' (unit_token ''ETH'' 18) INDEXED_CHAIN_DATA 120000,
       sample_input ''portfolio-usd'' unit_usd DIRECT_CHAIN_DATA 120000],
     st_transforms = [sample_transform ''eth-usd-value'' TOKEN_TO_USD [''eth-balance'', ''eth-price''] None,
       sample_transform ''eth-allocation-bps'' RATIO_TO_BPS [''eth-usd-value'', ''portfolio-usd''] None],
     st_decisions = [sample_decision low_allocation],
     st_actions = [\<lparr>sa_id = ''swap-usdc-to-eth'', sa_capability = ''TOKEN_SWAP'', sa_actionKind = ''TOKEN_SWAP'',
       sa_spendsAsset = Some ''USDC'', sa_recipientPolicy = SelfOnly, sa_description = [], sa_chainId = Some 84532\<rparr>],
     st_unknowns = [], st_invariants = [(''SI-1'', ''Funds never leave the treasury.'')], st_requiresCapability = []\<rparr>"

lemma treasury_no_problems: "strategy_problems treasuryStrategy = []"
  by code_simp

lemma treasury_compiles: "cr_buildable (compileStrategy Inr treasuryStrategy)"
  by (simp add: compileStrategy_def Let_def treasury_no_problems)

lemma treasury_ids: "distinct_ids treasuryStrategy"
  by (simp add: distinct_ids_def treasuryStrategy_def sample_input_def sample_transform_def)

lemma treasury_feeds: "feeds treasuryStrategy ''eth-price'' ''eth-allocation-bps''"
proof -
  have "feeds treasuryStrategy ''eth-price'' (tr_id (sample_transform ''eth-usd-value'' TOKEN_TO_USD [''eth-balance'', ''eth-price''] None))"
    by (rule feeds.through [of _ _ "''eth-price''"]) (auto simp: treasuryStrategy_def sample_transform_def intro: feeds.itself)
  then have "feeds treasuryStrategy ''eth-price''
      (tr_id (sample_transform ''eth-allocation-bps'' RATIO_TO_BPS [''eth-usd-value'', ''portfolio-usd''] None))"
    by (intro feeds.through [of _ _ "''eth-usd-value''"]) (auto simp: treasuryStrategy_def sample_transform_def)
  then show ?thesis by (simp add: sample_transform_def)
qed

theorem no_trust_laundering_witness:
  "\<exists>p. cr_provenance (compileStrategy Inr treasuryStrategy) ''eth-allocation-bps'' = Some p \<and> 30000 \<le> np_maxAgeMs p \<and>
    trustRank (np_trustClass p) \<le> 4"
proof -
  let ?i = "sample_input ''eth-price'' (unit_price ''USD'' 8) VERIFIED_ORACLE 30000"
  have "sample_decision low_allocation \<in> set (st_decisions treasuryStrategy)" "?i \<in> set (st_inputs treasuryStrategy)"
    by (simp_all add: treasuryStrategy_def)
  moreover have "''eth-allocation-bps'' \<in> set (collect (de_when (sample_decision low_allocation)))"
    by (simp add: sample_decision_def low_allocation_def operand_refs_def)
  moreover have "feeds treasuryStrategy (si_id ?i) ''eth-allocation-bps''" using treasury_feeds by (simp add: sample_input_def)
  ultimately show ?thesis
    using no_trust_laundering [OF treasury_compiles refl treasury_ids, of "sample_decision low_allocation" "''eth-allocation-bps''" ?i]
    by (auto simp: sample_input_def)
qed


theorem acyclic_strategy_resolves_witness: "snd (sorted_topo treasuryStrategy) = []"
  by (rule acyclic_strategy_resolves [OF treasury_ids, of "\<lambda>t. if tr_id t = ''eth-usd-value'' then 0 else 1", THEN conjunct1])
    (auto simp: treasuryStrategy_def sample_transform_def sample_input_def)

text \<open>A transform may take the id of an input: nothing checks it, and its provenance replaces the input's.\<close>

definition shadowing_strategy :: strategy where
  "shadowing_strategy = treasuryStrategy\<lparr>
     st_inputs := [sample_input ''oracle-bps'' unit_bps VERIFIED_ORACLE 30000, sample_input ''claimed-bps'' unit_bps USER_UNTRUSTED 30000],
     st_transforms := [sample_transform ''claimed-bps'' DIFFERENCE [''claimed-bps'', ''oracle-bps''] None,
       sample_transform ''claimed-bps'' RESCALE [''oracle-bps''] (Some 4)],
     st_decisions := [sample_decision (Compare LT (Ref ''claimed-bps'') (Literal ''4000'' unit_bps))]\<rparr>"

text \<open>
  Ids shared by inputs and transforms, or by two transforms, are not reported, and trust can be
  laundered through them: a strategy compiles as buildable although its decision reads an id that is
  declared as an untrusted input, because a transform of the same id hides the input, and a second
  transform of that id, which reads its own id, is silently dropped.
\<close>

theorem shared_ids_launder_trust:
  "cr_buildable (compileStrategy Inr shadowing_strategy) \<and>
   (\<exists>i d t. i \<in> set (st_inputs shadowing_strategy) \<and> si_minimumTrustClass i = USER_UNTRUSTED \<and>
      d \<in> set (st_decisions shadowing_strategy) \<and> si_id i \<in> set (collect (de_when d)) \<and>
      t \<in> set (st_transforms shadowing_strategy) \<and> tr_id t \<in> set (tr_inputs t) \<and>
      map_option np_trustClass (cr_provenance (compileStrategy Inr shadowing_strategy) (si_id i)) = Some VERIFIED_ORACLE)"
proof (intro conjI exI)
  let ?i = "sample_input ''claimed-bps'' unit_bps USER_UNTRUSTED 30000"
  have p: "strategy_problems shadowing_strategy = []" by code_simp
  show "cr_buildable (compileStrategy Inr shadowing_strategy)" by (simp add: compileStrategy_def Let_def p)
  have "map_option np_trustClass (to_provenance (fst (sorted_topo shadowing_strategy)) ''claimed-bps'') = Some VERIFIED_ORACLE" by code_simp
  then show "map_option np_trustClass (cr_provenance (compileStrategy Inr shadowing_strategy) (si_id ?i)) = Some VERIFIED_ORACLE"
    by (simp add: compileStrategy_def Let_def sample_input_def)
  show "?i \<in> set (st_inputs shadowing_strategy)"
    and "sample_decision (Compare LT (Ref ''claimed-bps'') (Literal ''4000'' unit_bps)) \<in> set (st_decisions shadowing_strategy)"
    and "sample_transform ''claimed-bps'' DIFFERENCE [''claimed-bps'', ''oracle-bps''] None \<in> set (st_transforms shadowing_strategy)"
    by (simp_all add: shadowing_strategy_def)
qed (simp_all add: sample_input_def sample_decision_def sample_transform_def operand_refs_def)

end
