(* ===== verification/Deploy_Receipts.thy ===== *)
theory Deploy_Receipts
  imports Prelude
begin

text \<open>
  The chain reader (\<open>packages/studio-deploy/src/chain.ts\<close>) and transaction receipt certainty
  (\<open>packages/studio-orchestrator/src/receipts.ts\<close>).

  The outside world is read at ticks. A tick is one point at which the program waits; the answers
  of a reader, and the clock, are arbitrary functions of the tick, so a reader may time out, lose a
  receipt or report a reorganized head at any time. A reader call that rejects is an \<open>Inl\<close>. The
  prose of a \<open>revertDetail\<close> is kept as a datatype of what it says.
\<close>

type_synonym tick = nat

section \<open>The reader (chain.ts)\<close>

datatype rpc_kind = TIMEOUT | RATE_LIMITED | TRANSPORT | REVERTED

datatype rpc_error = RpcError (rpc_kind: rpc_kind) (rpc_detail: string)

datatype thrown = ThrownRpc rpc_error | ThrownOther string

text \<open>\<open>/rate.?limit/\<close>: at most one character (no line break) between the two words.\<close>

definition rate_limit :: "string \<Rightarrow> bool" where
  "rate_limit s =
    list_ex (\<lambda>i. let r = drop i s in startsWith r ''rate'' \<and>
      (startsWith (drop 4 r) ''limit'' \<or>
       (drop 4 r \<noteq> [] \<and> hd (drop 4 r) \<noteq> CHR 0x0A \<and> hd (drop 4 r) \<noteq> CHR 0x0D \<and> startsWith (drop 5 r) ''limit'')))
      [0..<Suc (length s)]"

definition classifyRpcError :: "string \<Rightarrow> rpc_error" where
  "classifyRpcError msg =
    (let m = toLowerCase msg in
     if contains m ''429'' \<or> rate_limit m \<or> contains m ''too many requests'' then RpcError RATE_LIMITED msg
     else if contains m ''timeout'' \<or> contains m ''timed out'' \<or> contains m ''etimedout'' \<or>
             contains m ''esockettimedout'' \<or> contains m ''aborted'' then RpcError TIMEOUT msg
     else if contains m ''revert'' \<or> contains m ''execution reverted'' then RpcError REVERTED msg
     else RpcError TRANSPORT msg)"

datatype receipt_status = Success | Reverted

record tx_receipt =
  rc_status :: receipt_status
  rc_blockNumber :: int
  rc_gasUsed :: int
  rc_effectiveGasPrice :: int
  rc_contractAddress :: "string option"

record fee_data =
  fd_maxFeePerGas :: "int option"
  fd_maxPriorityFeePerGas :: "int option"
  fd_gasPrice :: "int option"

record reader_call =
  rl_from :: string
  rl_to :: "string option"
  rl_data :: string
  rl_value :: "int option"

record chain_reader =
  cr_chainId :: int
  cr_live :: bool
  cr_getChainId :: "tick \<Rightarrow> rpc_error + int"
  cr_getCode :: "tick \<Rightarrow> string \<Rightarrow> rpc_error + string option"
  cr_getBalance :: "tick \<Rightarrow> string \<Rightarrow> rpc_error + int"
  cr_getTransactionCount :: "tick \<Rightarrow> string \<Rightarrow> rpc_error + int"
  cr_estimateGas :: "tick \<Rightarrow> reader_call \<Rightarrow> rpc_error + int"
  cr_estimateFeesPerGas :: "tick \<Rightarrow> rpc_error + fee_data"
  cr_call :: "tick \<Rightarrow> reader_call \<Rightarrow> rpc_error + string"
  cr_getTransactionReceipt :: "tick \<Rightarrow> string \<Rightarrow> rpc_error + tx_receipt option"
  cr_getBlockNumber :: "tick \<Rightarrow> rpc_error + int"

section \<open>Transaction records (receipts.ts)\<close>

datatype submission_state =
    NOT_SUBMITTED
  | SUBMITTED
  | UNKNOWN_SUBMISSION_STATE
  | MINED_SUCCESS
  | MINED_REVERTED
  | CONFIRMED_ABSENT

datatype revert_detail =
    SendError rpc_error
  | RevertedInBlock string int
  | NoReceiptAsOf string int
  | NonceUnused int string
  | NonceConsumed int string int

record tx_record =
  tx_deploymentStepId :: string
  tx_chainId :: int
  tx_from :: string
  tx_nonce :: int
  tx_txHash :: "string option"
  tx_submittedAtMs :: "int option"
  tx_state :: submission_state
  tx_blockNumber :: "string option"
  tx_confirmations :: int
  tx_contractAddress :: "string option"
  tx_gasUsed :: "string option"
  tx_effectiveGasPriceWei :: "string option"
  tx_actualNativeCostWei :: "string option"
  tx_estimatedNativeCostWei :: "string option"
  tx_revertDetail :: "revert_detail option"

datatype receipt_reason = UNSAFE_RETRY | TX_REVERTED | NOT_FINAL

definition DEFAULT_CONFIRMATIONS :: int where
  "DEFAULT_CONFIRMATIONS = 2"

definition newTransactionRecord :: "string \<Rightarrow> int \<Rightarrow> string \<Rightarrow> int \<Rightarrow> string option \<Rightarrow> tx_record" where
  "newTransactionRecord stepId chainId from nonce estimated =
    \<lparr>tx_deploymentStepId = stepId, tx_chainId = chainId, tx_from = from, tx_nonce = nonce, tx_txHash = None,
     tx_submittedAtMs = None, tx_state = NOT_SUBMITTED, tx_blockNumber = None, tx_confirmations = 0,
     tx_contractAddress = None, tx_gasUsed = None, tx_effectiveGasPriceWei = None, tx_actualNativeCostWei = None,
     tx_estimatedNativeCostWei = estimated, tx_revertDetail = None\<rparr>"

definition assertSafeToRetry :: "tx_record \<Rightarrow> receipt_reason + unit" where
  "assertSafeToRetry r =
    (if tx_state r = UNKNOWN_SUBMISSION_STATE then Inl UNSAFE_RETRY
     else if tx_state r = MINED_SUCCESS then Inl UNSAFE_RETRY
     else Inr ())"

datatype send_outcome = SentHash string | SendFailed thrown bool

definition as_rpc_error :: "thrown \<Rightarrow> rpc_error" where
  "as_rpc_error e = (case e of ThrownRpc r \<Rightarrow> r | ThrownOther msg \<Rightarrow> classifyRpcError msg)"

definition recordSendOutcome :: "tx_record \<Rightarrow> send_outcome \<Rightarrow> int \<Rightarrow> tx_record" where
  "recordSendOutcome r outcome nowMs =
    (case outcome of
       SentHash h \<Rightarrow> r\<lparr>tx_txHash := Some (toLowerCase h), tx_submittedAtMs := Some nowMs, tx_state := SUBMITTED\<rparr>
     | SendFailed e definitelyRejected \<Rightarrow>
         if definitelyRejected
         then r\<lparr>tx_state := NOT_SUBMITTED, tx_revertDetail := Some (SendError (as_rpc_error e))\<rparr>
         else r\<lparr>tx_submittedAtMs := Some nowMs, tx_state := UNKNOWN_SUBMISSION_STATE,
                tx_revertDetail := Some (SendError (as_rpc_error e))\<rparr>)"

text \<open>A string is truthy when present and not empty.\<close>

definition truthy :: "string option \<Rightarrow> string option" where
  "truthy x = (case x of Some s \<Rightarrow> if s = [] then None else Some s | None \<Rightarrow> None)"

text \<open>What a receipt read together with a head block says of a record.\<close>

definition settle_by_receipt :: "tx_record \<Rightarrow> tx_receipt \<Rightarrow> int \<Rightarrow> tx_record" where
  "settle_by_receipt r rc head =
    r\<lparr>tx_state := (if rc_status rc = Success then MINED_SUCCESS else MINED_REVERTED),
      tx_blockNumber := Some (show_int (rc_blockNumber rc)),
      tx_confirmations := (if rc_blockNumber rc \<le> head then head - rc_blockNumber rc + 1 else 0),
      tx_contractAddress := rc_contractAddress rc,
      tx_gasUsed := Some (show_int (rc_gasUsed rc)),
      tx_effectiveGasPriceWei := Some (show_int (rc_effectiveGasPrice rc)),
      tx_actualNativeCostWei := Some (show_int (rc_gasUsed rc * rc_effectiveGasPrice rc)),
      tx_revertDetail := (if rc_status rc = Reverted then Some (RevertedInBlock (tx_deploymentStepId r) (rc_blockNumber rc)) else None)\<rparr>"

definition reconcile :: "tx_record \<Rightarrow> chain_reader \<Rightarrow> int \<Rightarrow> tick \<Rightarrow> (rpc_error + tx_record) \<times> tick" where
  "reconcile r reader nowMs t =
    (case truthy (tx_txHash r) of
       Some h \<Rightarrow>
         (case cr_getTransactionReceipt reader t h of
            Inl e \<Rightarrow> (Inl e, Suc t)
          | Inr (Some rc) \<Rightarrow>
              (case cr_getBlockNumber reader (Suc t) of
                 Inl e \<Rightarrow> (Inl e, Suc (Suc t))
               | Inr head \<Rightarrow> (Inr (settle_by_receipt r rc head), Suc (Suc t)))
          | Inr None \<Rightarrow>
              (Inr (r\<lparr>tx_state := UNKNOWN_SUBMISSION_STATE, tx_revertDetail := Some (NoReceiptAsOf h nowMs)\<rparr>), Suc t))
     | None \<Rightarrow>
         (case cr_getTransactionCount reader t (tx_from r) of
            Inl e \<Rightarrow> (Inl e, Suc t)
          | Inr next_nonce \<Rightarrow>
              if next_nonce \<le> tx_nonce r
              then (Inr (r\<lparr>tx_state := CONFIRMED_ABSENT, tx_revertDetail := Some (NonceUnused (tx_nonce r) (tx_from r))\<rparr>), Suc t)
              else (Inr (r\<lparr>tx_state := UNKNOWN_SUBMISSION_STATE,
                      tx_revertDetail := Some (NonceConsumed (tx_nonce r) (tx_from r) next_nonce)\<rparr>), Suc t)))"

text \<open>
  The waits. \<open>sleep t ms\<close> is the tick at which a sleep begun at \<open>t\<close> resolves. The fuel counts polls; a
  wait that has not returned within it is \<open>None\<close>.
\<close>

record timing =
  tm_now :: "tick \<Rightarrow> int"
  tm_sleep :: "tick \<Rightarrow> int \<Rightarrow> tick"
  tm_timeoutMs :: int
  tm_intervalMs :: int

definition settled :: "tx_record \<Rightarrow> bool" where
  "settled r = (tx_state r = MINED_SUCCESS \<or> tx_state r = MINED_REVERTED \<or> tx_state r = CONFIRMED_ABSENT)"

fun poll_receipt :: "nat \<Rightarrow> timing \<Rightarrow> int \<Rightarrow> tx_record \<Rightarrow> chain_reader \<Rightarrow> tick \<Rightarrow> ((rpc_error + tx_record) \<times> tick) option" where
  "poll_receipt 0 tm deadline cur reader t = None"
| "poll_receipt (Suc n) tm deadline cur reader t =
    (case reconcile cur reader (tm_now tm t) t of
       (Inl e, t') \<Rightarrow> Some (Inl e, t')
     | (Inr r, t') \<Rightarrow>
         if settled r then Some (Inr r, t')
         else if deadline \<le> tm_now tm t' then Some (Inr r, t')
         else poll_receipt n tm deadline r reader (tm_sleep tm t' (tm_intervalMs tm)))"

definition waitForReceipt :: "nat \<Rightarrow> timing \<Rightarrow> tx_record \<Rightarrow> chain_reader \<Rightarrow> tick \<Rightarrow> ((rpc_error + tx_record) \<times> tick) option" where
  "waitForReceipt fuel tm r reader t = poll_receipt fuel tm (tm_now tm t + tm_timeoutMs tm) r reader t"

fun poll_finality :: "nat \<Rightarrow> timing \<Rightarrow> int \<Rightarrow> int \<Rightarrow> tx_record \<Rightarrow> chain_reader \<Rightarrow> tick \<Rightarrow> ((rpc_error + tx_record) \<times> tick) option" where
  "poll_finality 0 tm deadline required cur reader t = None"
| "poll_finality (Suc n) tm deadline required cur reader t =
    (if tx_state cur = MINED_SUCCESS \<and> tx_confirmations cur < required \<and> tm_now tm t < deadline
     then (let t1 = tm_sleep tm t (tm_intervalMs tm) in
           case reconcile cur reader (tm_now tm t1) t1 of
             (Inl e, t') \<Rightarrow> Some (Inl e, t')
           | (Inr r, t') \<Rightarrow> poll_finality n tm deadline required r reader t')
     else Some (Inr cur, t))"

definition waitForFinality :: "nat \<Rightarrow> timing \<Rightarrow> tx_record \<Rightarrow> chain_reader \<Rightarrow> int \<Rightarrow> tick \<Rightarrow> ((rpc_error + tx_record) \<times> tick) option" where
  "waitForFinality fuel tm r reader required t =
    (case waitForReceipt fuel tm r reader t of
       None \<Rightarrow> None
     | Some (Inl e, t') \<Rightarrow> Some (Inl e, t')
     | Some (Inr cur, t') \<Rightarrow> poll_finality fuel tm (tm_now tm t + tm_timeoutMs tm) required cur reader t')"

definition isFinal :: "tx_record \<Rightarrow> int \<Rightarrow> bool" where
  "isFinal r required = (tx_state r = MINED_SUCCESS \<and> required \<le> tx_confirmations r)"

definition assertMinedSuccessfully :: "tx_record \<Rightarrow> receipt_reason + unit" where
  "assertMinedSuccessfully r =
    (if tx_state r = MINED_REVERTED then Inl TX_REVERTED
     else if tx_state r \<noteq> MINED_SUCCESS then Inl NOT_FINAL
     else Inr ())"

record estimate_accuracy =
  ea_deltaWei :: string
  ea_ratio :: rat

definition estimateAccuracy :: "tx_record \<Rightarrow> estimate_accuracy option" where
  "estimateAccuracy r =
    (case (truthy (tx_actualNativeCostWei r), truthy (tx_estimatedNativeCostWei r)) of
       (Some a, Some e) \<Rightarrow>
         let actual = int (parse_nat a); estimated = int (parse_nat e) in
         Some \<lparr>ea_deltaWei = show_int (actual - estimated),
               ea_ratio = (if estimated = 0 then 0 else of_int (bigint_div (actual * 10000) estimated) / 10000)\<rparr>
     | _ \<Rightarrow> None)"

section \<open>Reconciliation\<close>

lemma safe_to_retry_iff: "assertSafeToRetry r = Inr () \<longleftrightarrow> tx_state r \<noteq> UNKNOWN_SUBMISSION_STATE \<and> tx_state r \<noteq> MINED_SUCCESS"
  by (auto simp: assertSafeToRetry_def)

lemma mined_successfully_iff: "assertMinedSuccessfully r = Inr () \<longleftrightarrow> tx_state r = MINED_SUCCESS"
  by (auto simp: assertMinedSuccessfully_def)

text \<open>The identity of a record: everything a reconciliation never rewrites.\<close>

definition same_tx :: "tx_record \<Rightarrow> tx_record \<Rightarrow> bool" where
  "same_tx r r' \<longleftrightarrow> tx_deploymentStepId r' = tx_deploymentStepId r \<and> tx_chainId r' = tx_chainId r \<and> tx_from r' = tx_from r \<and>
     tx_nonce r' = tx_nonce r \<and> tx_txHash r' = tx_txHash r \<and> tx_submittedAtMs r' = tx_submittedAtMs r \<and>
     tx_estimatedNativeCostWei r' = tx_estimatedNativeCostWei r"

lemma same_tx_refl [simp]: "same_tx r r"
  by (simp add: same_tx_def)

lemma same_tx_trans: "same_tx r s \<Longrightarrow> same_tx s u \<Longrightarrow> same_tx r u"
  by (simp add: same_tx_def)

lemma reconcile_same: "reconcile r reader now t = (Inr r', t') \<Longrightarrow> same_tx r r' \<and> t < t'"
  by (auto simp: reconcile_def same_tx_def settle_by_receipt_def split: option.splits sum.splits if_splits)

lemma reconcile_cases:
  assumes "reconcile r reader now t = (Inr r', t')"
  obtains
    (receipt) h rc head where "truthy (tx_txHash r) = Some h" "cr_getTransactionReceipt reader t h = Inr (Some rc)"
      "cr_getBlockNumber reader (Suc t) = Inr head" "r' = settle_by_receipt r rc head"
  | (pending) h where "truthy (tx_txHash r) = Some h" "cr_getTransactionReceipt reader t h = Inr None"
      "tx_state r' = UNKNOWN_SUBMISSION_STATE"
  | (absent) n where "truthy (tx_txHash r) = None" "cr_getTransactionCount reader t (tx_from r) = Inr n" "n \<le> tx_nonce r"
      "tx_state r' = CONFIRMED_ABSENT"
  | (consumed) n where "truthy (tx_txHash r) = None" "cr_getTransactionCount reader t (tx_from r) = Inr n" "tx_nonce r < n"
      "tx_state r' = UNKNOWN_SUBMISSION_STATE"
  using assms by (auto simp: reconcile_def split: option.splits sum.splits if_splits)

lemma retry_only_on_proof_parts:
  assumes "reconcile r reader now t = (Inr r', t')"
  shows "assertSafeToRetry r' = Inr () \<longleftrightarrow>
      (\<exists>h rc. truthy (tx_txHash r) = Some h \<and> cr_getTransactionReceipt reader t h = Inr (Some rc) \<and> rc_status rc = Reverted) \<or>
      (truthy (tx_txHash r) = None \<and> (\<exists>n. cr_getTransactionCount reader t (tx_from r) = Inr n \<and> n \<le> tx_nonce r))"
    and "assertMinedSuccessfully r' = Inr () \<longleftrightarrow>
      (\<exists>h rc. truthy (tx_txHash r) = Some h \<and> cr_getTransactionReceipt reader t h = Inr (Some rc) \<and> rc_status rc = Success)"
    and "tx_state r' \<in> {MINED_SUCCESS, MINED_REVERTED} \<longrightarrow>
      (\<exists>h rc head. cr_getTransactionReceipt reader t h = Inr (Some rc) \<and> cr_getBlockNumber reader (Suc t) = Inr head \<and>
         tx_actualNativeCostWei r' = Some (show_int (rc_gasUsed rc * rc_effectiveGasPrice rc)) \<and>
         tx_blockNumber r' = Some (show_int (rc_blockNumber rc)) \<and>
         0 \<le> tx_confirmations r' \<and> (0 < tx_confirmations r' \<longleftrightarrow> rc_blockNumber rc \<le> head))"
    and "tx_estimatedNativeCostWei r' = tx_estimatedNativeCostWei r"
proof -
  show "tx_estimatedNativeCostWei r' = tx_estimatedNativeCostWei r"
    using reconcile_same [OF assms] by (simp add: same_tx_def)
  have flip: "rc_status rc \<noteq> Success \<longleftrightarrow> rc_status rc = Reverted" for rc :: tx_receipt
    by (cases "rc_status rc") auto
  from assms show "assertSafeToRetry r' = Inr () \<longleftrightarrow>
      (\<exists>h rc. truthy (tx_txHash r) = Some h \<and> cr_getTransactionReceipt reader t h = Inr (Some rc) \<and> rc_status rc = Reverted) \<or>
      (truthy (tx_txHash r) = None \<and> (\<exists>n. cr_getTransactionCount reader t (tx_from r) = Inr n \<and> n \<le> tx_nonce r))"
    by (cases rule: reconcile_cases) (auto simp: safe_to_retry_iff settle_by_receipt_def flip)
  from assms show "assertMinedSuccessfully r' = Inr () \<longleftrightarrow>
      (\<exists>h rc. truthy (tx_txHash r) = Some h \<and> cr_getTransactionReceipt reader t h = Inr (Some rc) \<and> rc_status rc = Success)"
    by (cases rule: reconcile_cases) (auto simp: mined_successfully_iff settle_by_receipt_def)
  from assms show "tx_state r' \<in> {MINED_SUCCESS, MINED_REVERTED} \<longrightarrow>
      (\<exists>h rc head. cr_getTransactionReceipt reader t h = Inr (Some rc) \<and> cr_getBlockNumber reader (Suc t) = Inr head \<and>
         tx_actualNativeCostWei r' = Some (show_int (rc_gasUsed rc * rc_effectiveGasPrice rc)) \<and>
         tx_blockNumber r' = Some (show_int (rc_blockNumber rc)) \<and>
         0 \<le> tx_confirmations r' \<and> (0 < tx_confirmations r' \<longleftrightarrow> rc_blockNumber rc \<le> head))"
  proof (cases rule: reconcile_cases)
    case (receipt h rc head)
    then show ?thesis by (intro impI exI [of _ h] exI [of _ rc] exI [of _ head]) (simp add: settle_by_receipt_def)
  qed auto
qed

text \<open>
  C32: A reconciled record may be retried only on proof. After a reconciliation the retry guard
  passes exactly when the chain returned a reverted receipt for the record's own hash, or no hash
  is known and the account's next nonce has not passed the record's; in particular a missing
  receipt, a consumed nonce and a success all refuse. A mined record carries the receipt's block,
  cost (gas times price, in decimal) and confirmations, and the estimate is kept beside the actual
  cost.
\<close>

theorem retry_only_on_proof:
  assumes "reconcile r reader now t = (Inr r', t')"
  shows "(assertSafeToRetry r' = Inr () \<longleftrightarrow>
      (\<exists>h rc. truthy (tx_txHash r) = Some h \<and> cr_getTransactionReceipt reader t h = Inr (Some rc) \<and> rc_status rc = Reverted) \<or>
      (truthy (tx_txHash r) = None \<and> (\<exists>n. cr_getTransactionCount reader t (tx_from r) = Inr n \<and> n \<le> tx_nonce r)))
   \<and> (assertMinedSuccessfully r' = Inr () \<longleftrightarrow>
      (\<exists>h rc. truthy (tx_txHash r) = Some h \<and> cr_getTransactionReceipt reader t h = Inr (Some rc) \<and> rc_status rc = Success))
   \<and> (tx_state r' \<in> {MINED_SUCCESS, MINED_REVERTED} \<longrightarrow>
      (\<exists>h rc head. cr_getTransactionReceipt reader t h = Inr (Some rc) \<and> cr_getBlockNumber reader (Suc t) = Inr head \<and>
         tx_actualNativeCostWei r' = Some (show_int (rc_gasUsed rc * rc_effectiveGasPrice rc)) \<and>
         tx_blockNumber r' = Some (show_int (rc_blockNumber rc)) \<and>
         0 \<le> tx_confirmations r' \<and> (0 < tx_confirmations r' \<longleftrightarrow> rc_blockNumber rc \<le> head)))
   \<and> (tx_estimatedNativeCostWei r' = tx_estimatedNativeCostWei r)"
  using retry_only_on_proof_parts [OF assms] by blast

section \<open>The waits\<close>

text \<open>A poll is one reconciliation, followed by a return, an error or a sleep.\<close>

lemma poll_receipt_step:
  assumes "poll_receipt n tm d r reader t = Some (q, t')"
  obtains (failed) m e where "n = Suc m" "reconcile r reader (tm_now tm t) t = (Inl e, t')" "q = Inl e"
  | (returned) m r1 where "n = Suc m" "reconcile r reader (tm_now tm t) t = (Inr r1, t')" "q = Inr r1"
      "settled r1 \<or> d \<le> tm_now tm t'"
  | (again) m r1 t1 where "n = Suc m" "reconcile r reader (tm_now tm t) t = (Inr r1, t1)" "\<not> settled r1"
      "poll_receipt m tm d r1 reader (tm_sleep tm t1 (tm_intervalMs tm)) = Some (q, t')"
proof (cases n)
  case (Suc m)
  then show thesis
    using assms that by (cases "reconcile r reader (tm_now tm t) t") (auto split: sum.splits if_splits)
qed (use assms in simp)

lemma poll_receipt_result:
  assumes "poll_receipt n tm d r reader t = Some (Inr r', t')"
  shows "same_tx r r' \<and> (settled r' \<or> d \<le> tm_now tm t') \<and> (\<exists>r0 t0. same_tx r r0 \<and> reconcile r0 reader (tm_now tm t0) t0 = (Inr r', t'))"
  using assms
proof (induction n arbitrary: r t)
  case (Suc n)
  from Suc.prems show ?case
  proof (cases rule: poll_receipt_step)
    case (returned m r1)
    then show ?thesis using reconcile_same same_tx_refl by (metis Inr_inject)
  next
    case (again m r1 t1)
    then have "same_tx r r1" using reconcile_same by blast
    with Suc.IH [of r1] again show ?thesis by (metis Suc_inject same_tx_trans)
  qed simp
qed simp

text \<open>What the deployment relies on of time: the clock never runs back, and a sleep lasts as long as it was asked to.\<close>

definition fair_clock :: "timing \<Rightarrow> bool" where
  "fair_clock tm \<longleftrightarrow> (\<forall>s t. s \<le> t \<longrightarrow> tm_now tm s \<le> tm_now tm t) \<and>
     (\<forall>t ms. t \<le> tm_sleep tm t ms \<and> tm_now tm t + ms \<le> tm_now tm (tm_sleep tm t ms))"

lemma fair_clock_mono: "fair_clock tm \<Longrightarrow> s \<le> t \<Longrightarrow> tm_now tm s \<le> tm_now tm t"
  and fair_clock_sleep: "fair_clock tm \<Longrightarrow> tm_now tm t + ms \<le> tm_now tm (tm_sleep tm t ms)"
  by (auto simp: fair_clock_def)

lemma reconcile_tick: "reconcile r reader now t = (q, t') \<Longrightarrow> t \<le> t'"
  by (auto simp: reconcile_def split: option.splits sum.splits if_splits)

lemma poll_receipt_returns:
  assumes "fair_clock tm" "0 < tm_intervalMs tm" "d - tm_now tm t \<le> int n * tm_intervalMs tm"
  shows "\<exists>q t'. poll_receipt (Suc n) tm d r reader t = Some (q, t') \<and> t \<le> t'"
  using assms(3)
proof (induction n arbitrary: r t)
  case 0
  obtain q t1 where q: "reconcile r reader (tm_now tm t) t = (q, t1)" by fastforce
  have "t \<le> t1" using reconcile_tick [OF q] .
  then have "tm_now tm t \<le> tm_now tm t1" using assms(1) by (rule fair_clock_mono [rotated])
  with 0 q \<open>t \<le> t1\<close> show ?case by (cases q) auto
next
  case (Suc n)
  obtain q t1 where q: "reconcile r reader (tm_now tm t) t = (q, t1)" by fastforce
  let ?t2 = "tm_sleep tm t1 (tm_intervalMs tm)"
  have t1: "t \<le> t1" using reconcile_tick [OF q] .
  have "t1 \<le> ?t2" using assms(1) by (simp add: fair_clock_def)
  have "tm_now tm t + tm_intervalMs tm \<le> tm_now tm ?t2"
    using fair_clock_mono [OF assms(1) t1] fair_clock_sleep [OF assms(1), of t1 "tm_intervalMs tm"] by linarith
  with Suc.prems have "d - tm_now tm ?t2 \<le> int n * tm_intervalMs tm" by (simp add: algebra_simps)
  from Suc.IH [OF this] obtain q' t' where more: "poll_receipt (Suc n) tm d (projr q) reader ?t2 = Some (q', t')" "?t2 \<le> t'" by blast
  with t1 \<open>t1 \<le> ?t2\<close> q show ?case
    by (cases q) (auto simp: poll_receipt.simps(2) [of "Suc n"] simp del: poll_receipt.simps(2))
qed

lemma poll_finality_returns:
  assumes "fair_clock tm" "0 < tm_intervalMs tm" "d - tm_now tm t \<le> int n * tm_intervalMs tm"
  shows "\<exists>q t'. poll_finality (Suc n) tm d k r reader t = Some (q, t')"
  using assms(3)
proof (induction n arbitrary: r t)
  case 0
  then show ?case by auto
next
  case (Suc n)
  let ?t1 = "tm_sleep tm t (tm_intervalMs tm)"
  obtain q t2 where q: "reconcile r reader (tm_now tm ?t1) ?t1 = (q, t2)" by fastforce
  have "?t1 \<le> t2" using reconcile_tick [OF q] .
  then have "tm_now tm t + tm_intervalMs tm \<le> tm_now tm t2"
    using fair_clock_mono [OF assms(1) \<open>?t1 \<le> t2\<close>] fair_clock_sleep [OF assms(1), of t "tm_intervalMs tm"] by linarith
  with Suc.prems have "d - tm_now tm t2 \<le> int n * tm_intervalMs tm" by (simp add: algebra_simps)
  from Suc.IH [OF this] obtain q' t' where more: "poll_finality (Suc n) tm d k (projr q) reader t2 = Some (q', t')" by blast
  with q show ?case
    by (cases q) (auto simp: poll_finality.simps(2) [of "Suc n"] Let_def simp del: poll_finality.simps(2))
qed

text \<open>Within the second wait the record stays the same transaction and, unless it is lost again, mined.\<close>

lemma poll_finality_result:
  assumes "poll_finality n tm d k r reader t = Some (Inr r', t')"
  shows "same_tx r r' \<and> (tx_state r' = MINED_SUCCESS \<longrightarrow> isFinal r' k \<or> d \<le> tm_now tm t')"
  using assms
proof (induction n arbitrary: r t)
  case (Suc n)
  show ?case
  proof (cases "tx_state r = MINED_SUCCESS \<and> tx_confirmations r < k \<and> tm_now tm t < d")
    case True
    let ?t1 = "tm_sleep tm t (tm_intervalMs tm)"
    from Suc.prems True obtain r1 t2 where r1: "reconcile r reader (tm_now tm ?t1) ?t1 = (Inr r1, t2)"
      and "poll_finality n tm d k r1 reader t2 = Some (Inr r', t')"
      by (auto simp: Let_def split: prod.splits sum.splits)
    with Suc.IH reconcile_same [OF r1] show ?thesis by (meson same_tx_trans)
  next
    case False
    with Suc.prems have "r' = r" "t' = t" by simp_all
    with False show ?thesis by (auto simp: isFinal_def)
  qed
qed simp

lemma waits_are_bounded_parts:
  assumes "fair_clock tm" "0 < tm_intervalMs tm" "nat (tm_timeoutMs tm div tm_intervalMs tm) + 2 \<le> fuel"
  shows "\<exists>q t'. waitForReceipt fuel tm r reader t = Some (q, t') \<and>
      (\<forall>r'. q = Inr r' \<longrightarrow> same_tx r r' \<and> (settled r' \<or> tm_now tm t + tm_timeoutMs tm \<le> tm_now tm t'))"
    and "\<exists>q t'. waitForFinality fuel tm r reader k t = Some (q, t') \<and>
      (\<forall>r'. q = Inr r' \<longrightarrow> same_tx r r' \<and>
         (tx_state r' = MINED_SUCCESS \<longrightarrow> isFinal r' k \<or> tm_now tm t + tm_timeoutMs tm \<le> tm_now tm t'))"
proof -
  let ?d = "tm_now tm t + tm_timeoutMs tm"
  from assms(3) obtain n where fuel: "fuel = Suc n" and n: "nat (tm_timeoutMs tm div tm_intervalMs tm) + 1 \<le> n"
    by (cases fuel) auto
  have "tm_timeoutMs tm \<le> int n * tm_intervalMs tm"
  proof -
    have "tm_timeoutMs tm < (tm_timeoutMs tm div tm_intervalMs tm + 1) * tm_intervalMs tm"
      using assms(2) by (metis add.commute mult.commute pos_mod_bound mult_div_mod_eq add_strict_left_mono distrib_left mult.right_neutral)
    also have "\<dots> \<le> int n * tm_intervalMs tm"
      using n assms(2) by (intro mult_right_mono) linarith+
    finally show ?thesis by simp
  qed
  then have bound: "?d - tm_now tm t' \<le> int n * tm_intervalMs tm" if "t \<le> t'" for t'
    using fair_clock_mono [OF assms(1) that] by linarith
  from poll_receipt_returns [OF assms(1,2) bound [OF order_refl]] obtain q t1
    where receipt: "waitForReceipt fuel tm r reader t = Some (q, t1)" and "t \<le> t1"
    unfolding waitForReceipt_def fuel by blast
  have receipt': "same_tx r r' \<and> (settled r' \<or> ?d \<le> tm_now tm t1)" if "q = Inr r'" for r'
    using poll_receipt_result receipt that unfolding waitForReceipt_def by blast
  with receipt show "\<exists>q t'. waitForReceipt fuel tm r reader t = Some (q, t') \<and>
      (\<forall>r'. q = Inr r' \<longrightarrow> same_tx r r' \<and> (settled r' \<or> ?d \<le> tm_now tm t'))" by blast
  show "\<exists>q t'. waitForFinality fuel tm r reader k t = Some (q, t') \<and>
      (\<forall>r'. q = Inr r' \<longrightarrow> same_tx r r' \<and> (tx_state r' = MINED_SUCCESS \<longrightarrow> isFinal r' k \<or> ?d \<le> tm_now tm t'))"
  proof (cases q)
    case (Inl e)
    with receipt show ?thesis by (simp add: waitForFinality_def)
  next
    case (Inr cur)
    from poll_finality_returns [OF assms(1,2) bound [OF \<open>t \<le> t1\<close>]] obtain q2 t2
      where fin: "poll_finality fuel tm ?d k cur reader t1 = Some (q2, t2)" unfolding fuel by blast
    with receipt Inr have "waitForFinality fuel tm r reader k t = Some (q2, t2)" by (simp add: waitForFinality_def)
    moreover have "same_tx r r' \<and> (tx_state r' = MINED_SUCCESS \<longrightarrow> isFinal r' k \<or> ?d \<le> tm_now tm t2)" if "q2 = Inr r'" for r'
      using poll_finality_result fin receipt' [OF Inr] that same_tx_trans by blast
    ultimately show ?thesis by blast
  qed
qed

text \<open>
  C33: The waits are bounded and do not invent certainty. If the clock does not run back and a sleep
  lasts its interval, \<open>waitForReceipt\<close> and \<open>waitForFinality\<close> return after at most
  \<open>timeoutMs / intervalMs + 2\<close> polls each (61 with the default 180 s and 3 s) whatever the chain
  answers; what they return is about the same transaction (same sender, nonce, hash and estimate);
  a receipt wait that returns before the deadline has settled the record; and a final wait that
  reports success without the required confirmations has reached its deadline.
\<close>

theorem waits_are_bounded:
  assumes "fair_clock tm" "0 < tm_intervalMs tm" "nat (tm_timeoutMs tm div tm_intervalMs tm) + 2 \<le> fuel"
  shows "(\<exists>q t'. waitForReceipt fuel tm r reader t = Some (q, t') \<and>
      (\<forall>r'. q = Inr r' \<longrightarrow> same_tx r r' \<and> (settled r' \<or> tm_now tm t + tm_timeoutMs tm \<le> tm_now tm t')))
   \<and> (\<exists>q t'. waitForFinality fuel tm r reader k t = Some (q, t') \<and>
      (\<forall>r'. q = Inr r' \<longrightarrow> same_tx r r' \<and>
         (tx_state r' = MINED_SUCCESS \<longrightarrow> isFinal r' k \<or> tm_now tm t + tm_timeoutMs tm \<le> tm_now tm t')))"
  using waits_are_bounded_parts [OF assms] by blast

lemma waitForFinality_same:
  assumes "waitForFinality n tm r reader k t = Some (Inr r', t')"
  shows "same_tx r r'"
proof -
  from assms obtain cur t1 where "waitForReceipt n tm r reader t = Some (Inr cur, t1)"
    and fin: "poll_finality n tm (tm_now tm t + tm_timeoutMs tm) k cur reader t1 = Some (Inr r', t')"
    by (auto simp: waitForFinality_def split: option.splits prod.splits sum.splits)
  then have "same_tx r cur" unfolding waitForReceipt_def using poll_receipt_result by blast
  with poll_finality_result [OF fin] show ?thesis using same_tx_trans by blast
qed

section \<open>Witnesses\<close>

definition sample_receipt :: tx_receipt where
  "sample_receipt = \<lparr>rc_status = Success, rc_blockNumber = 10, rc_gasUsed = 21000, rc_effectiveGasPrice = 3,
     rc_contractAddress = Some ''0xc0''\<rparr>"

text \<open>A chain that mines every hash in block 10 and grows one block per tick; every account is at nonce 7.\<close>

definition sample_reader :: chain_reader where
  "sample_reader = \<lparr>cr_chainId = 84532, cr_live = True, cr_getChainId = (\<lambda>t. Inr 84532), cr_getCode = (\<lambda>t a. Inr (Some ''0x60'')),
     cr_getBalance = (\<lambda>t a. Inr 0), cr_getTransactionCount = (\<lambda>t a. Inr 7), cr_estimateGas = (\<lambda>t c. Inr 21000),
     cr_estimateFeesPerGas = (\<lambda>t. Inr \<lparr>fd_maxFeePerGas = Some 3, fd_maxPriorityFeePerGas = None, fd_gasPrice = None\<rparr>),
     cr_call = (\<lambda>t c. Inr ''0x''), cr_getTransactionReceipt = (\<lambda>t h. Inr (Some sample_receipt)), cr_getBlockNumber = (\<lambda>t. Inr (int t + 10))\<rparr>"

definition sample_timing :: timing where
  "sample_timing = \<lparr>tm_now = (\<lambda>t. 1000 * int t), tm_sleep = (\<lambda>t ms. t + nat ms), tm_timeoutMs = 6, tm_intervalMs = 3\<rparr>"

lemma sample_timing_fair: "fair_clock sample_timing"
  by (auto simp: fair_clock_def sample_timing_def algebra_simps)

theorem retry_only_on_proof_witness:
  "tx_state (projr (fst (reconcile (newTransactionRecord ''s'' 84532 ''0xa'' 7 None) sample_reader 0 0))) = CONFIRMED_ABSENT \<and>
   assertSafeToRetry (projr (fst (reconcile (newTransactionRecord ''s'' 84532 ''0xa'' 7 None) sample_reader 0 0))) = Inr () \<and>
   assertSafeToRetry (projr (fst (reconcile (newTransactionRecord ''s'' 84532 ''0xa'' 6 None) sample_reader 0 0))) \<noteq> Inr ()"
proof -
  let ?r = "\<lambda>n. newTransactionRecord ''s'' 84532 ''0xa'' n None"
  have run: "reconcile (?r n) sample_reader 0 0 = (Inr (projr (fst (reconcile (?r n) sample_reader 0 0))), 1)" for n
    by (simp add: reconcile_def newTransactionRecord_def truthy_def sample_reader_def)
  have "tx_state (projr (fst (reconcile (?r 7) sample_reader 0 0))) = CONFIRMED_ABSENT"
    by (simp add: reconcile_def newTransactionRecord_def truthy_def sample_reader_def)
  with retry_only_on_proof [OF run [of 7], THEN conjunct1] retry_only_on_proof [OF run [of 6], THEN conjunct1] show ?thesis
    by (simp add: newTransactionRecord_def truthy_def sample_reader_def)
qed

theorem waits_are_bounded_witness:
  "\<exists>q t'. waitForFinality 4 sample_timing (recordSendOutcome (newTransactionRecord ''s'' 84532 ''0xa'' 7 None) (SentHash ''0xAB'') 5) sample_reader 2 0 = Some (q, t')"
  using waits_are_bounded [OF sample_timing_fair, THEN conjunct2, of 4 "recordSendOutcome (newTransactionRecord ''s'' 84532 ''0xa'' 7 None) (SentHash ''0xAB'') 5" sample_reader 2 0]
  by (auto simp: sample_timing_def)

end
