(* ===== verification/Deploy_Env.thy ===== *)
theory Deploy_Env
  imports Network Deploy_Receipts
begin

text \<open>
  Deployment environments, the write gate of a deployment and the wallet signing model
  (\<open>packages/studio-deploy/src\<close>: \<open>environment.ts\<close>, \<open>signing.ts\<close>). Messages keep their reason;
  \<open>sha256\<close> is a parameter.
\<close>

section \<open>Environments (environment.ts)\<close>

datatype environment_kind = ENV_LOCAL | ENV_FORK | ENV_TESTNET | ENV_SHADOW_MAINNET | ENV_MAINNET

datatype environment_reason =
    MAINNET_WRITE_PROHIBITED
  | SHADOW_MAINNET_READ_ONLY
  | CHAIN_NOT_IN_ENVIRONMENT
  | CHAIN_ID_MISMATCH
  | WALLET_CHAIN_MISMATCH
  | UNKNOWN_ENVIRONMENT
  | MAINNET_CONTROL_PLANE_PROHIBITED

datatype environment_error = EnvironmentError environment_reason | EnvironmentGuard network_guard_error

record chain_target =
  ct_chainId :: int
  ct_name :: string
  ct_chainSelector :: "string option"
  ct_nativeSymbol :: string
  ct_nativeDecimals :: int
  ct_explorer :: "string option"

record deployment_environment =
  de_schemaVersion :: string
  de_environmentId :: string
  de_kind :: environment_kind
  de_chains :: "chain_target list"
  de_writesPermitted :: bool
  de_allowedCreRegistries :: "string list"

definition DEPLOYMENT_ENVIRONMENT_VERSION :: string where
  "DEPLOYMENT_ENVIRONMENT_VERSION = ''contextlock.deployment-environment/v1''"

fun writesAllowedFor :: "environment_kind \<Rightarrow> bool" where
  "writesAllowedFor ENV_LOCAL = True"
| "writesAllowedFor ENV_FORK = True"
| "writesAllowedFor ENV_TESTNET = True"
| "writesAllowedFor ENV_SHADOW_MAINNET = False"
| "writesAllowedFor ENV_MAINNET = False"

definition KNOWN_MAINNET_CHAIN_IDS :: "int list" where
  "KNOWN_MAINNET_CHAIN_IDS = [1, 10, 56, 100, 137, 8453, 42161, 43114, 59144, 534352, 324, 5000, 130, 480]"

definition assertWriteAllowed :: "deployment_environment \<Rightarrow> int \<Rightarrow> environment_error + unit" where
  "assertWriteAllowed env chainId =
    (if de_kind env = ENV_MAINNET then Inl (EnvironmentError MAINNET_WRITE_PROHIBITED)
     else if de_kind env = ENV_SHADOW_MAINNET then Inl (EnvironmentError SHADOW_MAINNET_READ_ONLY)
     else if \<not> de_writesPermitted env then Inl (EnvironmentError MAINNET_WRITE_PROHIBITED)
     else if find (\<lambda>c. ct_chainId c = chainId) (de_chains env) = None
       then Inl (EnvironmentError CHAIN_NOT_IN_ENVIRONMENT)
     else if chainId \<in> set KNOWN_MAINNET_CHAIN_IDS then Inl (EnvironmentError MAINNET_WRITE_PROHIBITED)
     else (case fenceWriteByChain DEPLOYMENT_PREFLIGHT chainId None None of
             Inl e \<Rightarrow> Inl (EnvironmentGuard e)
           | Inr u \<Rightarrow> Inr u))"

definition assertWalletChain :: "int \<Rightarrow> int \<Rightarrow> environment_error + unit" where
  "assertWalletChain expectedChainId walletChainId =
    (if expectedChainId \<noteq> walletChainId then Inl (EnvironmentError WALLET_CHAIN_MISMATCH) else Inr ())"

definition assertChainIdMatches :: "int \<Rightarrow> int \<Rightarrow> environment_error + unit" where
  "assertChainIdMatches configured observed =
    (if configured \<noteq> observed then Inl (EnvironmentError CHAIN_ID_MISMATCH) else Inr ())"

definition ETHEREUM_SEPOLIA :: chain_target where
  "ETHEREUM_SEPOLIA =
    \<lparr>ct_chainId = 11155111, ct_name = ''Ethereum Sepolia'', ct_chainSelector = Some ''16015286601757825753'',
     ct_nativeSymbol = ''ETH'', ct_nativeDecimals = 18, ct_explorer = Some ''https://sepolia.etherscan.io''\<rparr>"

definition BASE_SEPOLIA :: chain_target where
  "BASE_SEPOLIA =
    \<lparr>ct_chainId = 84532, ct_name = ''Base Sepolia'', ct_chainSelector = Some ''10344971235874465080'',
     ct_nativeSymbol = ''ETH'', ct_nativeDecimals = 18, ct_explorer = Some ''https://sepolia.basescan.org''\<rparr>"

definition testnetEnvironment :: "chain_target list \<Rightarrow> deployment_environment" where
  "testnetEnvironment targets =
    \<lparr>de_schemaVersion = DEPLOYMENT_ENVIRONMENT_VERSION,
     de_environmentId = ''testnet-'' @ join ''-'' (map (\<lambda>c. show_int (ct_chainId c)) targets),
     de_kind = ENV_TESTNET, de_chains = targets, de_writesPermitted = True,
     de_allowedCreRegistries = [''private'']\<rparr>"

definition mainnetEnvironment :: deployment_environment where
  "mainnetEnvironment =
    \<lparr>de_schemaVersion = DEPLOYMENT_ENVIRONMENT_VERSION, de_environmentId = ''mainnet-1'', de_kind = ENV_MAINNET,
     de_chains = [\<lparr>ct_chainId = 1, ct_name = ''Ethereum'', ct_chainSelector = Some ''5009297550715157269'',
       ct_nativeSymbol = ''ETH'', ct_nativeDecimals = 18, ct_explorer = Some ''https://etherscan.io''\<rparr>],
     de_writesPermitted = False, de_allowedCreRegistries = []\<rparr>"

section \<open>Signature requests (signing.ts)\<close>

datatype signing_mode = BROWSER_WALLET | LOCAL_BRIDGE_WALLET

record signature_request =
  sq_signerId :: string
  sq_mode :: signing_mode
  sq_chainId :: int
  sq_from :: string
  sq_to :: "string option"
  sq_data :: string
  sq_value :: string
  sq_gas :: string
  sq_description :: string
  sq_calldataHash :: string
  sq_deploymentStepId :: string

datatype signing_reason = WRONG_ACCOUNT | WRONG_CHAIN | NOT_SIMULATED | SIMULATION_REVERTED | CALLDATA_MISMATCH | REJECTED

datatype signing_error = SigningError signing_reason | SigningGuard network_guard_error | SigningEnvironment environment_error

definition calldataHashOf :: "(string \<Rightarrow> string) \<Rightarrow> string \<Rightarrow> string" where
  "calldataHashOf sha256Hex data = ''sha256:'' @ sha256Hex data"

text \<open>\<open>BigInt(text)\<close>: surrounding white space is ignored, the empty text is zero, and anything but a decimal
  integer or an unsigned hexadecimal one throws.\<close>

definition hex_text_value :: "string \<Rightarrow> int" where
  "hex_text_value s = foldl (\<lambda>acc c. acc * 16 +
     (if is_digit c then of_char c - 48 else of_char (lower_char c) - 87)) 0 s"

definition BigInt :: "string \<Rightarrow> int option" where
  "BigInt text =
    (let s = rev (dropWhile is_space (rev (dropWhile is_space text))) in
     if s = [] then Some 0
     else if all_digits s then Some (int (parse_nat s))
     else if hd s = CHR ''-'' \<and> all_digits (tl s) then Some (- int (parse_nat (tl s)))
     else if hd s = CHR ''+'' \<and> all_digits (tl s) then Some (int (parse_nat (tl s)))
     else if startsWith (toLowerCase s) ''0x'' \<and> drop 2 s \<noteq> [] \<and> list_all is_hex (drop 2 s) then Some (hex_text_value (drop 2 s))
     else None)"

text \<open>The request comes in without its hash; the field is overwritten.\<close>

definition prepareForSignature ::
  "(string \<Rightarrow> string) \<Rightarrow> chain_reader \<Rightarrow> signature_request \<Rightarrow> tick \<Rightarrow> signing_error + signature_request" where
  "prepareForSignature sha256Hex reader req t =
    (case fenceWriteByChain SIGNER (sq_chainId req) None None of
       Inl e \<Rightarrow> Inl (SigningGuard e)
     | Inr _ \<Rightarrow>
       (case assertWalletChain (sq_chainId req) (cr_chainId reader) of
          Inl e \<Rightarrow> Inl (SigningEnvironment e)
        | Inr _ \<Rightarrow>
          if succeeds
               (case sq_to req of
                  None \<Rightarrow> cr_estimateGas reader t \<lparr>rl_from = sq_from req, rl_to = None, rl_data = sq_data req, rl_value = None\<rparr> |
                  Some to \<Rightarrow> (case BigInt (sq_value req) of
                      None \<Rightarrow> Inl (RpcError TRANSPORT ''SyntaxError'')
                    | Some v \<Rightarrow> res_bind (cr_call reader t \<lparr>rl_from = sq_from req, rl_to = Some to, rl_data = sq_data req,
                        rl_value = Some v\<rparr>) (\<lambda>_. Inr 0)))
          then Inr (req\<lparr>sq_calldataHash := calldataHashOf sha256Hex (sq_data req)\<rparr>)
          else Inl (SigningError SIMULATION_REVERTED)))"

definition assertSignerMatches :: "signature_request \<Rightarrow> string \<Rightarrow> int \<Rightarrow> signing_error + unit" where
  "assertSignerMatches req address chainId =
    (if toLowerCase address \<noteq> toLowerCase (sq_from req) then Inl (SigningError WRONG_ACCOUNT)
     else if chainId \<noteq> sq_chainId req then Inl (SigningError WRONG_CHAIN)
     else Inr ())"

definition assertSignedWhatWePlanned :: "(string \<Rightarrow> string) \<Rightarrow> signature_request \<Rightarrow> string \<Rightarrow> signing_error + unit" where
  "assertSignedWhatWePlanned sha256Hex req signedData =
    (if calldataHashOf sha256Hex signedData \<noteq> sq_calldataHash req then Inl (SigningError CALLDATA_MISMATCH) else Inr ())"

section \<open>The write gate\<close>

lemma write_allowed_iff:
  "assertWriteAllowed env c = Inr () \<longleftrightarrow>
     writesAllowedFor (de_kind env) \<and> de_writesPermitted env \<and> c \<in> ct_chainId ` set (de_chains env) \<and>
     c \<in> {11155111, 84532, 31337}"
proof -
  have "find (\<lambda>t. ct_chainId t = c) (de_chains env) = None \<longleftrightarrow> c \<notin> ct_chainId ` set (de_chains env)"
    by (auto simp: find_None_iff)
  moreover have "fenceWriteByChain DEPLOYMENT_PREFLIGHT c None None = Inr () \<longleftrightarrow> c \<in> {11155111, 84532, 31337}"
    by (rule fence_by_chain_passes)
  moreover have "c \<in> {11155111, 84532, 31337} \<Longrightarrow> c \<notin> set KNOWN_MAINNET_CHAIN_IDS"
    by (auto simp: KNOWN_MAINNET_CHAIN_IDS_def)
  ultimately show ?thesis
    by (cases "de_kind env") (auto simp: assertWriteAllowed_def split: sum.splits)
qed

interpretation deployment_write: fenced_operation "assertWriteAllowed env" "\<lambda>c. c" DEPLOYMENT_PREFLIGHT for env
  by unfold_locales (auto simp: assertWriteAllowed_def split: if_splits sum.splits)

interpretation signature: fenced_operation "\<lambda>req. prepareForSignature sha reader req t" sq_chainId SIGNER for sha reader t
  by unfold_locales (auto simp: prepareForSignature_def split: sum.splits if_splits)

text \<open>
  The write gate of a deployment is exactly the conjunction of its four independent checks: the
  environment's kind allows writes, the environment permits them, the chain is one of its own and
  the chain is one of the three approved execution networks. No environment, however it is edited,
  lets a write through on a production chain; in particular a test environment that lists a
  mainnet is refused.
\<close>

theorem deployment_write_gate:
  "(assertWriteAllowed env c = Inr () \<longleftrightarrow>
      writesAllowedFor (de_kind env) \<and> de_writesPermitted env \<and> c \<in> ct_chainId ` set (de_chains env) \<and>
      c \<in> {11155111, 84532, 31337})
   \<and> (isProductionChain c \<longrightarrow> \<not> succeeds (assertWriteAllowed env c))"
  using write_allowed_iff deployment_write.never_production [of c env] by blast

theorem deployment_write_gate_witness:
  "succeeds (assertWriteAllowed (testnetEnvironment [BASE_SEPOLIA]) 84532) \<and> isProductionChain 8453 \<and>
   \<not> succeeds (assertWriteAllowed (testnetEnvironment [BASE_SEPOLIA\<lparr>ct_chainId := 8453\<rparr>]) 8453)"
proof -
  have "isProductionChain 8453" by (simp add: isProductionChain_def PRODUCTION_CHAIN_IDS_def)
  with deployment_write_gate [of "testnetEnvironment [BASE_SEPOLIA]" 84532]
    deployment_write_gate [of "testnetEnvironment [BASE_SEPOLIA\<lparr>ct_chainId := 8453\<rparr>]" 8453]
  show ?thesis by (simp add: testnetEnvironment_def BASE_SEPOLIA_def)
qed

lemma signature_request_is_simulated_parts:
  assumes "prepareForSignature sha reader req t = Inr sq"
  shows "sq = req\<lparr>sq_calldataHash := calldataHashOf sha (sq_data req)\<rparr>"
    and "sq_chainId sq \<in> {11155111, 84532, 31337} \<and> cr_chainId reader = sq_chainId sq"
    and "case sq_to sq of
           None \<Rightarrow> succeeds (cr_estimateGas reader t \<lparr>rl_from = sq_from sq, rl_to = None, rl_data = sq_data sq, rl_value = None\<rparr>)
         | Some to \<Rightarrow> (\<exists>v. BigInt (sq_value sq) = Some v \<and>
             succeeds (cr_call reader t \<lparr>rl_from = sq_from sq, rl_to = Some to, rl_data = sq_data sq, rl_value = Some v\<rparr>))"
    and "\<lbrakk>inj sha; assertSignedWhatWePlanned sha sq signed = Inr ()\<rbrakk> \<Longrightarrow> signed = sq_data req"
proof -
  show sq: "sq = req\<lparr>sq_calldataHash := calldataHashOf sha (sq_data req)\<rparr>"
    using assms by (auto simp: prepareForSignature_def split: sum.splits if_splits)
  show "sq_chainId sq \<in> {11155111, 84532, 31337} \<and> cr_chainId reader = sq_chainId sq"
    using signature.only_approved [OF assms] assms
    by (auto simp: prepareForSignature_def assertWalletChain_def sq split: sum.splits if_splits)
  show "case sq_to sq of
           None \<Rightarrow> succeeds (cr_estimateGas reader t \<lparr>rl_from = sq_from sq, rl_to = None, rl_data = sq_data sq, rl_value = None\<rparr>)
         | Some to \<Rightarrow> (\<exists>v. BigInt (sq_value sq) = Some v \<and>
             succeeds (cr_call reader t \<lparr>rl_from = sq_from sq, rl_to = Some to, rl_data = sq_data sq, rl_value = Some v\<rparr>))"
    using assms
    by (auto simp: prepareForSignature_def sq succeeds_iff res_bind_Inr_iff split: sum.splits if_splits option.splits)
  show "signed = sq_data req" if "inj sha" "assertSignedWhatWePlanned sha sq signed = Inr ()"
    using that by (auto simp: assertSignedWhatWePlanned_def calldataHashOf_def sq inj_eq split: if_splits)
qed

text \<open>
  A signature request exists only for a simulated transaction on an approved chain: when
  \<open>prepareForSignature\<close> returns, the request is unchanged but for its calldata hash, the chain is one
  of the three execution networks and the reader's own, and the reader accepted the very
  transaction. Signed bytes are then accepted only if their hash is that of the prepared bytes, so
  under a collision-free hash the wallet signed exactly what was prepared.
\<close>

theorem signature_request_is_simulated:
  assumes "prepareForSignature sha reader req t = Inr sq"
  shows "(sq = req\<lparr>sq_calldataHash := calldataHashOf sha (sq_data req)\<rparr>)
   \<and> (sq_chainId sq \<in> {11155111, 84532, 31337} \<and> cr_chainId reader = sq_chainId sq)
   \<and> (case sq_to sq of
           None \<Rightarrow> succeeds (cr_estimateGas reader t \<lparr>rl_from = sq_from sq, rl_to = None, rl_data = sq_data sq, rl_value = None\<rparr>)
         | Some to \<Rightarrow> (\<exists>v. BigInt (sq_value sq) = Some v \<and>
             succeeds (cr_call reader t \<lparr>rl_from = sq_from sq, rl_to = Some to, rl_data = sq_data sq, rl_value = Some v\<rparr>)))
   \<and> (inj sha \<and> assertSignedWhatWePlanned sha sq signed = Inr () \<longrightarrow> signed = sq_data req)"
  using signature_request_is_simulated_parts [OF assms] by blast

definition sample_request :: signature_request where
  "sample_request = \<lparr>sq_signerId = ''deployer'', sq_mode = BROWSER_WALLET, sq_chainId = 84532, sq_from = ''0xa'', sq_to = None,
     sq_data = ''0x60'', sq_value = ''0'', sq_gas = ''21000'', sq_description = ''d'', sq_calldataHash = '''', sq_deploymentStepId = ''s''\<rparr>"

theorem signature_request_is_simulated_witness:
  "(let sq = projr (prepareForSignature rev sample_reader sample_request 0) in
    assertSignedWhatWePlanned rev sq ''0x60'' = Inr () \<and> assertSignedWhatWePlanned rev sq ''0x61'' \<noteq> Inr () \<and>
    sq_chainId sq \<in> {11155111, 84532, 31337})"
proof -
  have "fenceWriteByChain SIGNER 84532 None None = Inr ()" by (simp add: fence_by_chain_passes)
  then have run: "prepareForSignature rev sample_reader sample_request 0 =
      Inr (sample_request\<lparr>sq_calldataHash := calldataHashOf rev ''0x60''\<rparr>)"
    by (simp add: prepareForSignature_def sample_request_def sample_reader_def assertWalletChain_def)
  have "inj (rev :: string \<Rightarrow> string)" by (simp add: inj_def)
  from this signature_request_is_simulated [OF run, of "''0x61''"] run
  show ?thesis by (auto simp: Let_def assertSignedWhatWePlanned_def calldataHashOf_def sample_request_def)
qed

end
