(* ===== verification/Deploy_Machine.thy ===== *)
theory Deploy_Machine
  imports Prelude
begin

text \<open>
  The deployment state machine and the activation ceremony
  (\<open>packages/studio-orchestrator/src\<close>: \<open>machine.ts\<close>, \<open>activation.ts\<close>). The transition table is
  computed from the happy path and the pauses exactly as \<open>buildTransitions\<close> fills it; sets are lists
  in insertion order. Error messages keep their reason only.
\<close>

section \<open>States and step types (machine.ts)\<close>

datatype deployment_state =
    DEPLOYMENT_APPROVED
  | DEPLOYING_CHAIN_COMPONENTS
  | CONFIGURING_POLICY_DISABLED
  | DEPLOYING_CRE
  | PAUSING_OR_CONFIRMING_CRE_STATE
  | BUILDING_RUNTIME_IMAGE
  | VERIFYING_DEPLOYMENT
  | READY_TO_ACTIVATE
  | DEPLOYMENT_PAUSED_USER
  | DEPLOYMENT_PAUSED_SIGNER
  | DEPLOYMENT_PAUSED_CRE_AUTH
  | DEPLOYMENT_PARTIAL
  | DEPLOYMENT_FAILED_RECOVERABLE
  | DEPLOYMENT_FAILED_TERMINAL

definition DEPLOYMENT_STATES :: "deployment_state list" where
  "DEPLOYMENT_STATES =
    [DEPLOYMENT_APPROVED, DEPLOYING_CHAIN_COMPONENTS, CONFIGURING_POLICY_DISABLED, DEPLOYING_CRE,
     PAUSING_OR_CONFIRMING_CRE_STATE, BUILDING_RUNTIME_IMAGE, VERIFYING_DEPLOYMENT, READY_TO_ACTIVATE,
     DEPLOYMENT_PAUSED_USER, DEPLOYMENT_PAUSED_SIGNER, DEPLOYMENT_PAUSED_CRE_AUTH, DEPLOYMENT_PARTIAL,
     DEPLOYMENT_FAILED_RECOVERABLE, DEPLOYMENT_FAILED_TERMINAL]"

definition RESUMABLE_STATES :: "deployment_state list" where
  "RESUMABLE_STATES =
    [DEPLOYMENT_APPROVED, DEPLOYING_CHAIN_COMPONENTS, CONFIGURING_POLICY_DISABLED, DEPLOYING_CRE,
     PAUSING_OR_CONFIRMING_CRE_STATE, BUILDING_RUNTIME_IMAGE, VERIFYING_DEPLOYMENT,
     DEPLOYMENT_PAUSED_USER, DEPLOYMENT_PAUSED_SIGNER, DEPLOYMENT_PAUSED_CRE_AUTH,
     DEPLOYMENT_FAILED_RECOVERABLE, DEPLOYMENT_PARTIAL]"

definition HAPPY_PATH :: "deployment_state list" where
  "HAPPY_PATH =
    [DEPLOYMENT_APPROVED, DEPLOYING_CHAIN_COMPONENTS, CONFIGURING_POLICY_DISABLED, DEPLOYING_CRE,
     PAUSING_OR_CONFIRMING_CRE_STATE, BUILDING_RUNTIME_IMAGE, VERIFYING_DEPLOYMENT, READY_TO_ACTIVATE]"

definition PAUSES :: "deployment_state list" where
  "PAUSES =
    [DEPLOYMENT_PAUSED_USER, DEPLOYMENT_PAUSED_SIGNER, DEPLOYMENT_PAUSED_CRE_AUTH,
     DEPLOYMENT_FAILED_RECOVERABLE, DEPLOYMENT_PARTIAL]"

text \<open>
  \<open>buildTransitions\<close>: the entries the loop over the happy path adds for the state at each index, then
  the entries the loop over the pauses adds.
\<close>

definition happy_successors :: "deployment_state \<Rightarrow> deployment_state list \<Rightarrow> deployment_state list" where
  "happy_successors s later =
    filter (\<lambda>to. \<not> (to = READY_TO_ACTIVATE \<and> s \<noteq> VERIFYING_DEPLOYMENT)) later @
    (if s \<noteq> READY_TO_ACTIVATE then PAUSES @ [DEPLOYMENT_FAILED_TERMINAL] else [])"

fun happy_table :: "deployment_state list \<Rightarrow> (deployment_state \<times> deployment_state list) list" where
  "happy_table [] = []"
| "happy_table (s # later) = (s, happy_successors s later) # happy_table later"

definition pause_successors :: "deployment_state \<Rightarrow> deployment_state list" where
  "pause_successors p =
    filter (\<lambda>s. s \<noteq> READY_TO_ACTIVATE) HAPPY_PATH @ [DEPLOYMENT_FAILED_TERMINAL] @
    filter (\<lambda>q. q \<noteq> p) PAUSES"

definition buildTransitions :: "(deployment_state \<times> deployment_state list) list" where
  "buildTransitions = happy_table HAPPY_PATH @ map (\<lambda>p. (p, pause_successors p)) PAUSES"

definition DEPLOYMENT_TRANSITIONS :: "deployment_state \<Rightarrow> deployment_state list" where
  "DEPLOYMENT_TRANSITIONS s = concat (map snd (filter (\<lambda>e. fst e = s) buildTransitions))"

datatype machine_reason = ILLEGAL_TRANSITION | NOT_RESUMABLE | TERMINAL

definition can_move :: "deployment_state \<Rightarrow> deployment_state \<Rightarrow> bool" where
  "can_move from to = (to \<in> set (DEPLOYMENT_TRANSITIONS from))"

definition assertTransition :: "deployment_state \<Rightarrow> deployment_state \<Rightarrow> machine_reason + unit" where
  "assertTransition from to = (if \<not> can_move from to then Inl ILLEGAL_TRANSITION else Inr ())"

definition isTerminal :: "deployment_state \<Rightarrow> bool" where
  "isTerminal s = (DEPLOYMENT_TRANSITIONS s = [])"

datatype step_type =
    VERIFY_CHAIN
  | VERIFY_CORE
  | DEPLOY_CONTRACT
  | CONFIGURE_CONTRACT
  | REGISTER_POLICY_DISABLED
  | REGISTER_ENS_IDENTITY
  | BUILD_CRE_WASM
  | VERIFY_CRE_HASH
  | CHECK_CRE_ACCESS
  | DEPLOY_CRE_PRIVATE
  | PAUSE_CRE
  | BUILD_RUNTIME_IMAGE
  | SCAN_RUNTIME_IMAGE
  | PUBLISH_RUNTIME_IMAGE
  | CREATE_RUNTIME_DISABLED
  | POST_DEPLOY_VERIFY
  | ACTIVATE

fun phaseFor :: "step_type \<Rightarrow> machine_reason + deployment_state" where
  "phaseFor VERIFY_CHAIN = Inr DEPLOYING_CHAIN_COMPONENTS"
| "phaseFor VERIFY_CORE = Inr DEPLOYING_CHAIN_COMPONENTS"
| "phaseFor DEPLOY_CONTRACT = Inr DEPLOYING_CHAIN_COMPONENTS"
| "phaseFor CONFIGURE_CONTRACT = Inr CONFIGURING_POLICY_DISABLED"
| "phaseFor REGISTER_POLICY_DISABLED = Inr CONFIGURING_POLICY_DISABLED"
| "phaseFor REGISTER_ENS_IDENTITY = Inr CONFIGURING_POLICY_DISABLED"
| "phaseFor CHECK_CRE_ACCESS = Inr DEPLOYING_CRE"
| "phaseFor BUILD_CRE_WASM = Inr DEPLOYING_CRE"
| "phaseFor VERIFY_CRE_HASH = Inr DEPLOYING_CRE"
| "phaseFor DEPLOY_CRE_PRIVATE = Inr DEPLOYING_CRE"
| "phaseFor PAUSE_CRE = Inr PAUSING_OR_CONFIRMING_CRE_STATE"
| "phaseFor BUILD_RUNTIME_IMAGE = Inr BUILDING_RUNTIME_IMAGE"
| "phaseFor SCAN_RUNTIME_IMAGE = Inr BUILDING_RUNTIME_IMAGE"
| "phaseFor PUBLISH_RUNTIME_IMAGE = Inr BUILDING_RUNTIME_IMAGE"
| "phaseFor CREATE_RUNTIME_DISABLED = Inr BUILDING_RUNTIME_IMAGE"
| "phaseFor POST_DEPLOY_VERIFY = Inr VERIFYING_DEPLOYMENT"
| "phaseFor ACTIVATE = Inl ILLEGAL_TRANSITION"

section \<open>Activation (activation.ts)\<close>

datatype activation_step =
    START_RUNTIME
  | VERIFY_RUNTIME_HEARTBEAT
  | RESUME_CRE_WORKFLOW
  | VERIFY_CRE_HEALTH
  | ENABLE_CONTEXTLOCK_POLICY

definition ACTIVATION_STEPS :: "activation_step list" where
  "ACTIVATION_STEPS =
    [START_RUNTIME, VERIFY_RUNTIME_HEARTBEAT, RESUME_CRE_WORKFLOW, VERIFY_CRE_HEALTH, ENABLE_CONTEXTLOCK_POLICY]"

datatype deactivation_step =
    DISABLE_CONTEXTLOCK_POLICY
  | PAUSE_CRE_WORKFLOW
  | STOP_RUNTIME
  | REVOKE_AGENT_IDENTITY

definition DEACTIVATION_STEPS :: "deactivation_step list" where
  "DEACTIVATION_STEPS = [DISABLE_CONTEXTLOCK_POLICY, PAUSE_CRE_WORKFLOW, STOP_RUNTIME, REVOKE_AGENT_IDENTITY]"

datatype activation_reason =
    OUT_OF_ORDER
  | RUNTIME_NOT_READY
  | NOT_VERIFIED
  | POLICY_BEFORE_HEALTH
  | RUNTIME_STOP_IS_NOT_A_SECURITY_KILL

record activation_progress =
  ap_deploymentId :: string
  ap_completed :: "activation_step list"
  ap_startedAtMs :: int
  ap_activatedAtMs :: "int option"

text \<open>\<open>ACTIVATION_STEPS[n]\<close> is \<open>undefined\<close> past the end, and then differs from every step.\<close>

definition expected_step :: "activation_progress \<Rightarrow> activation_step option" where
  "expected_step p =
    (if length (ap_completed p) < length ACTIVATION_STEPS
     then Some (ACTIVATION_STEPS ! length (ap_completed p)) else None)"

definition assertActivationStep ::
  "activation_progress \<Rightarrow> activation_step \<Rightarrow> bool \<Rightarrow> activation_reason + unit" where
  "assertActivationStep progress step deploymentVerified =
    (if \<not> deploymentVerified then Inl NOT_VERIFIED
     else if expected_step progress \<noteq> Some step then Inl OUT_OF_ORDER
     else Inr ())"

definition advanceActivation :: "activation_progress \<Rightarrow> activation_step \<Rightarrow> int \<Rightarrow> activation_progress" where
  "advanceActivation progress step nowMs =
    (let completed = ap_completed progress @ [step] in
     progress\<lparr>ap_completed := completed,
       ap_activatedAtMs := (if length completed = length ACTIVATION_STEPS then Some nowMs else None)\<rparr>)"

definition emergencyStopOrder :: "bool \<Rightarrow> deactivation_step list" where
  "emergencyStopOrder includeIdentityRevocation =
    [DISABLE_CONTEXTLOCK_POLICY, PAUSE_CRE_WORKFLOW, STOP_RUNTIME] @
    (if includeIdentityRevocation then [REVOKE_AGENT_IDENTITY] else [])"

record stop_claim =
  sc_stopped :: bool
  sc_policyDisabled :: bool

definition runtimeStopClaim :: "bool \<Rightarrow> stop_claim" where
  "runtimeStopClaim policyStillEnabled = \<lparr>sc_stopped = True, sc_policyDisabled = (\<not> policyStillEnabled)\<rparr>"

definition assertNotClaimingSecurityKill :: "stop_claim \<Rightarrow> bool \<Rightarrow> activation_reason + unit" where
  "assertNotClaimingSecurityKill claim policyEnabledOnChain =
    (if sc_policyDisabled claim \<and> policyEnabledOnChain then Inl RUNTIME_STOP_IS_NOT_A_SECURITY_KILL else Inr ())"

section \<open>The table\<close>

lemmas table_defs = DEPLOYMENT_TRANSITIONS_def buildTransitions_def HAPPY_PATH_def PAUSES_def
  happy_successors_def pause_successors_def

text \<open>The table, state by state.\<close>

lemma transitions_happy:
  "DEPLOYMENT_TRANSITIONS DEPLOYMENT_APPROVED =
     [DEPLOYING_CHAIN_COMPONENTS, CONFIGURING_POLICY_DISABLED, DEPLOYING_CRE, PAUSING_OR_CONFIRMING_CRE_STATE,
      BUILDING_RUNTIME_IMAGE, VERIFYING_DEPLOYMENT] @ PAUSES @ [DEPLOYMENT_FAILED_TERMINAL]"
  "DEPLOYMENT_TRANSITIONS DEPLOYING_CHAIN_COMPONENTS =
     [CONFIGURING_POLICY_DISABLED, DEPLOYING_CRE, PAUSING_OR_CONFIRMING_CRE_STATE,
      BUILDING_RUNTIME_IMAGE, VERIFYING_DEPLOYMENT] @ PAUSES @ [DEPLOYMENT_FAILED_TERMINAL]"
  "DEPLOYMENT_TRANSITIONS CONFIGURING_POLICY_DISABLED =
     [DEPLOYING_CRE, PAUSING_OR_CONFIRMING_CRE_STATE, BUILDING_RUNTIME_IMAGE, VERIFYING_DEPLOYMENT] @
     PAUSES @ [DEPLOYMENT_FAILED_TERMINAL]"
  "DEPLOYMENT_TRANSITIONS DEPLOYING_CRE =
     [PAUSING_OR_CONFIRMING_CRE_STATE, BUILDING_RUNTIME_IMAGE, VERIFYING_DEPLOYMENT] @ PAUSES @ [DEPLOYMENT_FAILED_TERMINAL]"
  "DEPLOYMENT_TRANSITIONS PAUSING_OR_CONFIRMING_CRE_STATE =
     [BUILDING_RUNTIME_IMAGE, VERIFYING_DEPLOYMENT] @ PAUSES @ [DEPLOYMENT_FAILED_TERMINAL]"
  "DEPLOYMENT_TRANSITIONS BUILDING_RUNTIME_IMAGE = [VERIFYING_DEPLOYMENT] @ PAUSES @ [DEPLOYMENT_FAILED_TERMINAL]"
  "DEPLOYMENT_TRANSITIONS VERIFYING_DEPLOYMENT = [READY_TO_ACTIVATE] @ PAUSES @ [DEPLOYMENT_FAILED_TERMINAL]"
  "DEPLOYMENT_TRANSITIONS READY_TO_ACTIVATE = []"
  "DEPLOYMENT_TRANSITIONS DEPLOYMENT_FAILED_TERMINAL = []"
  by (simp_all add: table_defs)

lemma transitions_pause: "p \<in> set PAUSES \<Longrightarrow> DEPLOYMENT_TRANSITIONS p = pause_successors p"
  by (auto simp: table_defs)

lemma in_pauses [simp]:
  "s \<in> set PAUSES \<longleftrightarrow> s \<in> {DEPLOYMENT_PAUSED_USER, DEPLOYMENT_PAUSED_SIGNER, DEPLOYMENT_PAUSED_CRE_AUTH,
     DEPLOYMENT_FAILED_RECOVERABLE, DEPLOYMENT_PARTIAL}"
  by (auto simp: PAUSES_def)

lemma in_resumable: "s \<in> set RESUMABLE_STATES \<longleftrightarrow> s \<noteq> READY_TO_ACTIVATE \<and> s \<noteq> DEPLOYMENT_FAILED_TERMINAL"
  by (cases s) (simp_all add: RESUMABLE_STATES_def)

text \<open>Position on the happy path; a pause has none.\<close>

fun phase_rank :: "deployment_state \<Rightarrow> nat option" where
  "phase_rank DEPLOYMENT_APPROVED = Some 0"
| "phase_rank DEPLOYING_CHAIN_COMPONENTS = Some 1"
| "phase_rank CONFIGURING_POLICY_DISABLED = Some 2"
| "phase_rank DEPLOYING_CRE = Some 3"
| "phase_rank PAUSING_OR_CONFIRMING_CRE_STATE = Some 4"
| "phase_rank BUILDING_RUNTIME_IMAGE = Some 5"
| "phase_rank VERIFYING_DEPLOYMENT = Some 6"
| "phase_rank READY_TO_ACTIVATE = Some 7"
| "phase_rank s = None"

lemma can_move_iff:
  "can_move s t \<longleftrightarrow>
     s \<in> set RESUMABLE_STATES \<and>
     (case phase_rank t of
        None \<Rightarrow> t \<noteq> s
      | Some j \<Rightarrow> if t = READY_TO_ACTIVATE then s = VERIFYING_DEPLOYMENT
                 else (case phase_rank s of None \<Rightarrow> True | Some i \<Rightarrow> i < j))"
  by (cases s; cases t) (simp_all add: can_move_def table_defs RESUMABLE_STATES_def)

lemma isTerminal_iff: "isTerminal s \<longleftrightarrow> s = READY_TO_ACTIVATE \<or> s = DEPLOYMENT_FAILED_TERMINAL"
  by (cases s) (simp_all add: isTerminal_def table_defs)

interpretation deployment: transition_table can_move isTerminal
  by unfold_locales (auto simp: isTerminal_def can_move_def neq_Nil_conv dest: spec)

lemma into_ready: "can_move s READY_TO_ACTIVATE \<Longrightarrow> s = VERIFYING_DEPLOYMENT"
  by (simp add: can_move_iff)

lemma assertTransition_Inr [simp]: "assertTransition s t = Inr u \<longleftrightarrow> can_move s t"
  by (simp add: assertTransition_def)

text \<open>
  The deployment table, exactly. A move is legal if and only if the source is resumable and the
  target is either another pause or failure state, or \<open>READY_TO_ACTIVATE\<close> from
  \<open>VERIFYING_DEPLOYMENT\<close>, or a working phase strictly later than the source when the source is a
  phase. The resumable states are exactly the non-terminal ones, every run that ends in
  \<open>READY_TO_ACTIVATE\<close> passes through \<open>VERIFYING_DEPLOYMENT\<close>, and no step type has readiness or
  activation as its phase.
\<close>

theorem deployment_table_exact:
  "(can_move s t \<longleftrightarrow>
      s \<in> set RESUMABLE_STATES \<and>
      (case phase_rank t of
         None \<Rightarrow> t \<noteq> s
       | Some j \<Rightarrow> if t = READY_TO_ACTIVATE then s = VERIFYING_DEPLOYMENT
                  else (case phase_rank s of None \<Rightarrow> True | Some i \<Rightarrow> i < j)))
   \<and> (s \<in> set RESUMABLE_STATES \<longleftrightarrow> \<not> isTerminal s)
   \<and> (can_move\<^sup>*\<^sup>* s READY_TO_ACTIVATE \<longrightarrow> s = READY_TO_ACTIVATE \<or> can_move\<^sup>*\<^sup>* s VERIFYING_DEPLOYMENT)
   \<and> (phaseFor k = Inr t \<longrightarrow> t \<noteq> READY_TO_ACTIVATE \<and> \<not> isTerminal t \<and> k \<noteq> ACTIVATE)"
proof (intro conjI)
  show "can_move\<^sup>*\<^sup>* s READY_TO_ACTIVATE \<longrightarrow> s = READY_TO_ACTIVATE \<or> can_move\<^sup>*\<^sup>* s VERIFYING_DEPLOYMENT"
    using deployment.gate [of s READY_TO_ACTIVATE VERIFYING_DEPLOYMENT] into_ready by blast
  show "phaseFor k = Inr t \<longrightarrow> t \<noteq> READY_TO_ACTIVATE \<and> \<not> isTerminal t \<and> k \<noteq> ACTIVATE"
    by (cases k) (auto simp: isTerminal_iff)
qed (simp_all add: can_move_iff in_resumable isTerminal_iff)

theorem deployment_table_exact_witness:
  "phaseFor PAUSE_CRE = Inr PAUSING_OR_CONFIRMING_CRE_STATE \<and> PAUSING_OR_CONFIRMING_CRE_STATE \<noteq> READY_TO_ACTIVATE \<and>
   can_move\<^sup>*\<^sup>* BUILDING_RUNTIME_IMAGE READY_TO_ACTIVATE \<and> can_move\<^sup>*\<^sup>* BUILDING_RUNTIME_IMAGE VERIFYING_DEPLOYMENT \<and>
   can_move DEPLOYMENT_PARTIAL DEPLOYING_CHAIN_COMPONENTS \<and> \<not> can_move DEPLOYMENT_PARTIAL READY_TO_ACTIVATE"
proof -
  have "can_move BUILDING_RUNTIME_IMAGE VERIFYING_DEPLOYMENT" "can_move VERIFYING_DEPLOYMENT READY_TO_ACTIVATE"
    by (simp_all add: can_move_def table_defs)
  then have run: "can_move\<^sup>*\<^sup>* BUILDING_RUNTIME_IMAGE READY_TO_ACTIVATE"
    by (meson converse_rtranclp_into_rtranclp rtranclp.rtrancl_refl)
  show ?thesis
    using deployment_table_exact [of BUILDING_RUNTIME_IMAGE VERIFYING_DEPLOYMENT PAUSE_CRE] run
      deployment_table_exact [of DEPLOYMENT_PARTIAL DEPLOYING_CHAIN_COMPONENTS PAUSE_CRE]
      deployment_table_exact [of DEPLOYMENT_PARTIAL READY_TO_ACTIVATE PAUSE_CRE]
    by (simp add: RESUMABLE_STATES_def)
qed

section \<open>The ceremony\<close>

text \<open>Ceremonies: any sequence of step requests, each with the clock and the verified flag at that time.\<close>

fun ceremony :: "(activation_step \<times> bool \<times> int) list \<Rightarrow> activation_progress \<Rightarrow> activation_progress" where
  "ceremony [] p = p"
| "ceremony ((s, verified, now) # rs) p =
     ceremony rs (case assertActivationStep p s verified of Inl _ \<Rightarrow> p | Inr _ \<Rightarrow> advanceActivation p s now)"

definition activation_wf :: "activation_progress \<Rightarrow> bool" where
  "activation_wf p \<longleftrightarrow>
     ap_completed p = take (length (ap_completed p)) ACTIVATION_STEPS \<and>
     length (ap_completed p) \<le> length ACTIVATION_STEPS \<and>
     (ap_activatedAtMs p \<noteq> None \<longleftrightarrow> length (ap_completed p) = length ACTIVATION_STEPS)"

lemma advance_wf:
  assumes "activation_wf p" "assertActivationStep p s v = Inr ()"
  shows "activation_wf (advanceActivation p s now)"
proof -
  let ?n = "length (ap_completed p)"
  from assms(2) have n: "?n < length ACTIVATION_STEPS" and s: "s = ACTIVATION_STEPS ! ?n"
    by (auto simp: assertActivationStep_def expected_step_def split: if_splits)
  have "ap_completed p @ [s] = take (Suc ?n) ACTIVATION_STEPS"
    using assms(1) n s by (simp add: activation_wf_def take_Suc_conv_app_nth)
  then show ?thesis
    using n by (simp add: activation_wf_def advanceActivation_def Let_def)
qed

lemma ceremony_wf: "activation_wf p \<Longrightarrow> activation_wf (ceremony rs p)"
  by (induction rs p rule: ceremony.induct) (auto split: sum.splits simp: advance_wf)

lemma unverified_ceremony: "\<forall>(s, v, t) \<in> set rs. \<not> v \<Longrightarrow> ceremony rs p = p"
  by (induction rs p rule: ceremony.induct) (auto simp: assertActivationStep_def)

lemma activation_is_ordered_parts:
  fixes rs :: "(activation_step \<times> bool \<times> int) list"
  assumes "ap_completed p = []" and "ap_activatedAtMs p = None"
  defines "q \<equiv> ceremony rs p"
  shows "\<exists>n. ap_completed q = take n ACTIVATION_STEPS"
    and "ap_activatedAtMs q \<noteq> None \<longleftrightarrow> ap_completed q = ACTIVATION_STEPS"
    and "ENABLE_CONTEXTLOCK_POLICY \<in> set (ap_completed q) \<Longrightarrow> ap_completed q = ACTIVATION_STEPS"
    and "\<forall>(s, v, t) \<in> set rs. \<not> v \<Longrightarrow> q = p"
    and "hd (emergencyStopOrder b) = DISABLE_CONTEXTLOCK_POLICY \<and> (\<exists>n. emergencyStopOrder b = take n DEACTIVATION_STEPS)"
    and "assertNotClaimingSecurityKill (runtimeStopClaim e) e = Inr ()"
proof -
  have "activation_wf p" using assms(1,2) by (simp add: activation_wf_def ACTIVATION_STEPS_def)
  then have wf: "activation_wf q" by (simp add: q_def ceremony_wf)
  then show prefix: "\<exists>n. ap_completed q = take n ACTIVATION_STEPS" by (auto simp: activation_wf_def)
  from wf have full: "ap_completed q = ACTIVATION_STEPS \<longleftrightarrow> length (ap_completed q) = length ACTIVATION_STEPS"
    by (metis activation_wf_def take_all_iff order_refl)
  with wf show "ap_activatedAtMs q \<noteq> None \<longleftrightarrow> ap_completed q = ACTIVATION_STEPS"
    by (simp add: activation_wf_def)
  show "ap_completed q = ACTIVATION_STEPS" if "ENABLE_CONTEXTLOCK_POLICY \<in> set (ap_completed q)"
  proof -
    have "ENABLE_CONTEXTLOCK_POLICY \<notin> set (take 4 ACTIVATION_STEPS)" by (simp add: ACTIVATION_STEPS_def)
    with that have "\<not> length (ap_completed q) \<le> 4"
      using wf unfolding activation_wf_def by (metis set_take_subset_set_take subsetD)
    with wf full show ?thesis by (simp add: activation_wf_def ACTIVATION_STEPS_def)
  qed
  show "\<forall>(s, v, t) \<in> set rs. \<not> v \<Longrightarrow> q = p" unfolding q_def by (rule unverified_ceremony)
  have "emergencyStopOrder b = take (if b then 4 else 3) DEACTIVATION_STEPS"
    by (simp add: emergencyStopOrder_def DEACTIVATION_STEPS_def)
  then show "hd (emergencyStopOrder b) = DISABLE_CONTEXTLOCK_POLICY \<and> (\<exists>n. emergencyStopOrder b = take n DEACTIVATION_STEPS)"
    by (metis emergencyStopOrder_def append_Cons list.sel(1))
  show "assertNotClaimingSecurityKill (runtimeStopClaim e) e = Inr ()"
    by (simp add: assertNotClaimingSecurityKill_def runtimeStopClaim_def)
qed

text \<open>
  The activation ceremony cannot be reordered. From a fresh start and whatever sequence of steps
  is requested, the completed steps are always a prefix of \<open>ACTIVATION_STEPS\<close>; the deployment counts
  as activated exactly when all five are complete; the policy is enabled only if every health step
  before it is complete; and while the deployment is not verified nothing completes at all. The
  emergency order withdraws the policy first, and a stop claim of the form the code builds is never
  refused for the same reading of the chain.
\<close>

theorem activation_is_ordered:
  fixes rs :: "(activation_step \<times> bool \<times> int) list"
  assumes "ap_completed p = []" and "ap_activatedAtMs p = None" and q: "q = ceremony rs p"
  shows "(\<exists>n. ap_completed q = take n ACTIVATION_STEPS)
   \<and> (ap_activatedAtMs q \<noteq> None \<longleftrightarrow> ap_completed q = ACTIVATION_STEPS)
   \<and> (ENABLE_CONTEXTLOCK_POLICY \<in> set (ap_completed q) \<longrightarrow> ap_completed q = ACTIVATION_STEPS)
   \<and> ((\<forall>(s, v, t) \<in> set rs. \<not> v) \<longrightarrow> q = p)
   \<and> (hd (emergencyStopOrder b) = DISABLE_CONTEXTLOCK_POLICY \<and> (\<exists>n. emergencyStopOrder b = take n DEACTIVATION_STEPS))
   \<and> (assertNotClaimingSecurityKill (runtimeStopClaim e) e = Inr ())"
  unfolding q using activation_is_ordered_parts [OF assms(1,2)] by blast

definition fresh_activation :: activation_progress where
  "fresh_activation = \<lparr>ap_deploymentId = ''d'', ap_completed = [], ap_startedAtMs = 1, ap_activatedAtMs = None\<rparr>"

theorem activation_is_ordered_witness:
  "(\<exists>n. ap_completed (ceremony [(ENABLE_CONTEXTLOCK_POLICY, True, 2)] fresh_activation) = take n ACTIVATION_STEPS) \<and>
   (ENABLE_CONTEXTLOCK_POLICY \<in> set (ap_completed (ceremony (map (\<lambda>s. (s, True, 2)) ACTIVATION_STEPS) fresh_activation)) \<and>
    ap_activatedAtMs (ceremony (map (\<lambda>s. (s, True, 2)) ACTIVATION_STEPS) fresh_activation) \<noteq> None) \<and>
   ceremony [(START_RUNTIME, False, 2)] fresh_activation = fresh_activation"
proof -
  have f: "ap_completed fresh_activation = []" "ap_activatedAtMs fresh_activation = None" by (simp_all add: fresh_activation_def)
  let ?q = "ceremony (map (\<lambda>s. (s, True, 2)) ACTIVATION_STEPS) fresh_activation"
  have full: "ENABLE_CONTEXTLOCK_POLICY \<in> set (ap_completed ?q)"
    by (simp add: fresh_activation_def ACTIVATION_STEPS_def assertActivationStep_def expected_step_def advanceActivation_def)
  note ordered = activation_is_ordered [OF f refl]
  show ?thesis
    using ordered [of "[(ENABLE_CONTEXTLOCK_POLICY, True, 2)]"] full ordered [of "map (\<lambda>s. (s, True, 2)) ACTIVATION_STEPS"]
      ordered [of "[(START_RUNTIME, False, 2)]"] by simp
qed

end
