(* ===== verification/Deploy_Plan.thy ===== *)
theory Deploy_Plan
  imports Deploy_Env Deploy_Machine Canonical
begin

text \<open>
  Deployment plans and their canonical hash (\<open>packages/studio-deploy/src\<close>: \<open>plan.ts\<close>, \<open>hash.ts\<close>).
  Amounts are decimal texts, as the schema has them. \<open>sha256Hex\<close> and the text of a number are
  parameters of the hashes.
\<close>

section \<open>Plans (plan.ts)\<close>

datatype actor_type = USER_WALLET | LOCAL_BRIDGE | CONTROL_PLANE | READ_ONLY_ACTOR

datatype step_status =
    PENDING
  | READY
  | SUBMITTED_STEP
  | UNKNOWN_STEP
  | CONFIRMED
  | VERIFIED
  | FAILED
  | SKIPPED_ALREADY_SATISFIED

datatype fee_mode = EIP1559 | LEGACY

record step_cost =
  sc_estimatedGas :: string
  sc_feeMode :: fee_mode
  sc_maxFeePerGasWei :: string
  sc_maxPriorityFeePerGasWei :: "string option"
  sc_baseNativeWei :: string
  sc_bufferBps :: int
  sc_bufferNativeWei :: string
  sc_totalNativeWei :: string
  sc_quotedAtMs :: int
  sc_fromLiveNode :: bool

record deployment_step =
  ds_id :: string
  ds_type :: step_type
  ds_chainId :: "int option"
  ds_dependencyIds :: "string list"
  ds_actorType :: actor_type
  ds_requiredSigner :: "string option"
  ds_artifactHash :: "string option"
  ds_target :: "string option"
  ds_calldataHash :: "string option"
  ds_cost :: "step_cost option"
  ds_reversible :: bool
  ds_rollbackAction :: "string option"
  ds_status :: step_status

datatype readiness = PREFLIGHT_DRAFT | PREFLIGHT_RUNNING | PREFLIGHT_BLOCKED | PREFLIGHT_READY | PLAN_APPROVED

record plan_approval =
  pa_approvedBy :: string
  pa_approvedAtMs :: int
  pa_manifestHash :: string
  pa_planHash :: string
  pa_artifactHashes :: "(string \<times> string) list"

record deployment_plan =
  dp_schemaVersion :: string
  dp_planId :: string
  dp_manifestHash :: string
  dp_steps :: "deployment_step list"
  dp_readiness :: readiness
  dp_approval :: "plan_approval option"

datatype plan_reason =
    UNKNOWN_DEPENDENCY
  | CYCLE
  | DUPLICATE_STEP_ID
  | SELF_DEPENDENCY
  | FORWARD_DEPENDENCY
  | UNKNOWN_SIGNER
  | MISSING_SIGNER
  | ACTIVATE_IN_DEPLOYMENT_PLAN
  | MISSING_COST
  | DEPENDENCY_NOT_VERIFIED

datatype deployment_plan_error = DeploymentPlanError (dpe_reason: plan_reason) (dpe_step: string)

definition WRITING_STEP_TYPES :: "step_type list" where
  "WRITING_STEP_TYPES = [DEPLOY_CONTRACT, CONFIGURE_CONTRACT, REGISTER_POLICY_DISABLED, REGISTER_ENS_IDENTITY]"

definition IRREVERSIBLE_STEP_TYPES :: "step_type list" where
  "IRREVERSIBLE_STEP_TYPES = [DEPLOY_CONTRACT, REGISTER_ENS_IDENTITY, PUBLISH_RUNTIME_IMAGE, DEPLOY_CRE_PRIVATE]"

text \<open>\<open>seen\<close> and \<open>index\<close>: the ids met so far, and the position of an id in the array.\<close>

fun check_unique :: "string list \<Rightarrow> deployment_step list \<Rightarrow> deployment_plan_error + unit" where
  "check_unique seen [] = Inr ()"
| "check_unique seen (s # ss) =
     (if ds_id s \<in> set seen then Inl (DeploymentPlanError DUPLICATE_STEP_ID (ds_id s))
      else check_unique (ds_id s # seen) ss)"

definition position :: "deployment_step list \<Rightarrow> string \<Rightarrow> nat" where
  "position steps i = length (takeWhile (\<lambda>s. ds_id s \<noteq> i) steps)"

definition check_dependency :: "deployment_step list \<Rightarrow> deployment_step \<Rightarrow> string \<Rightarrow> deployment_plan_error + unit" where
  "check_dependency steps s d =
    (if d = ds_id s then Inl (DeploymentPlanError SELF_DEPENDENCY (ds_id s))
     else if d \<notin> ds_id ` set steps then Inl (DeploymentPlanError UNKNOWN_DEPENDENCY (ds_id s))
     else if position steps (ds_id s) \<le> position steps d then Inl (DeploymentPlanError FORWARD_DEPENDENCY (ds_id s))
     else Inr ())"

definition check_step :: "deployment_step list \<Rightarrow> string list \<Rightarrow> deployment_step \<Rightarrow> deployment_plan_error + unit" where
  "check_step steps knownSignerIds s =
    res_bind (ensure (ds_type s \<noteq> ACTIVATE) (DeploymentPlanError ACTIVATE_IN_DEPLOYMENT_PLAN (ds_id s))) (\<lambda>_.
    res_bind (for_each (check_dependency steps s) (ds_dependencyIds s)) (\<lambda>_.
    res_bind (ensure (case ds_requiredSigner s of None \<Rightarrow> True | Some x \<Rightarrow> x \<in> set knownSignerIds)
               (DeploymentPlanError UNKNOWN_SIGNER (ds_id s))) (\<lambda>_.
    res_bind (ensure (\<not> (ds_actorType s = USER_WALLET \<and> ds_requiredSigner s = None))
               (DeploymentPlanError MISSING_SIGNER (ds_id s))) (\<lambda>_.
    ensure (\<not> (ds_type s \<in> set IRREVERSIBLE_STEP_TYPES \<and> ds_reversible s))
      (DeploymentPlanError CYCLE (ds_id s))))))"

definition validatePlan :: "deployment_plan \<Rightarrow> string list \<Rightarrow> deployment_plan_error + unit" where
  "validatePlan plan knownSignerIds =
    res_bind (check_unique [] (dp_steps plan)) (\<lambda>_.
    for_each (check_step (dp_steps plan) knownSignerIds) (dp_steps plan))"

definition assertCosted :: "deployment_plan \<Rightarrow> deployment_plan_error + unit" where
  "assertCosted plan =
    for_each (\<lambda>s. ensure (\<not> (ds_type s \<in> set WRITING_STEP_TYPES \<and> ds_cost s = None))
                    (DeploymentPlanError MISSING_COST (ds_id s))) (dp_steps plan)"

definition satisfied :: "deployment_step \<Rightarrow> bool" where
  "satisfied s = (ds_status s = VERIFIED \<or> ds_status s = SKIPPED_ALREADY_SATISFIED)"

definition done_ids :: "deployment_plan \<Rightarrow> string list" where
  "done_ids plan = map ds_id (filter satisfied (dp_steps plan))"

definition deploy_runnableSteps :: "deployment_plan \<Rightarrow> deployment_step list" where
  "deploy_runnableSteps plan =
    filter (\<lambda>s. (ds_status s = PENDING \<or> ds_status s = READY) \<and> (\<forall>d \<in> set (ds_dependencyIds s). d \<in> set (done_ids plan)))
      (dp_steps plan)"

section \<open>Hashing (hash.ts)\<close>

definition digestOf :: "(string \<Rightarrow> string) \<Rightarrow> (jsnum \<Rightarrow> string) \<Rightarrow> json \<Rightarrow> string" where
  "digestOf sha256Hex num v = ''sha256:'' @ sha256Hex (canonicalize num v)"

definition assertDigest :: "string \<Rightarrow> bool" where
  "assertDigest s = (startsWith s ''sha256:'' \<and> length (drop 7 s) = 64 \<and> list_all is_lower_hex (drop 7 s))"

fun step_type_text :: "step_type \<Rightarrow> string" where
  "step_type_text VERIFY_CHAIN = ''VERIFY_CHAIN''"
| "step_type_text VERIFY_CORE = ''VERIFY_CORE''"
| "step_type_text DEPLOY_CONTRACT = ''DEPLOY_CONTRACT''"
| "step_type_text CONFIGURE_CONTRACT = ''CONFIGURE_CONTRACT''"
| "step_type_text REGISTER_POLICY_DISABLED = ''REGISTER_POLICY_DISABLED''"
| "step_type_text REGISTER_ENS_IDENTITY = ''REGISTER_ENS_IDENTITY''"
| "step_type_text BUILD_CRE_WASM = ''BUILD_CRE_WASM''"
| "step_type_text VERIFY_CRE_HASH = ''VERIFY_CRE_HASH''"
| "step_type_text CHECK_CRE_ACCESS = ''CHECK_CRE_ACCESS''"
| "step_type_text DEPLOY_CRE_PRIVATE = ''DEPLOY_CRE_PRIVATE''"
| "step_type_text PAUSE_CRE = ''PAUSE_CRE''"
| "step_type_text BUILD_RUNTIME_IMAGE = ''BUILD_RUNTIME_IMAGE''"
| "step_type_text SCAN_RUNTIME_IMAGE = ''SCAN_RUNTIME_IMAGE''"
| "step_type_text PUBLISH_RUNTIME_IMAGE = ''PUBLISH_RUNTIME_IMAGE''"
| "step_type_text CREATE_RUNTIME_DISABLED = ''CREATE_RUNTIME_DISABLED''"
| "step_type_text POST_DEPLOY_VERIFY = ''POST_DEPLOY_VERIFY''"
| "step_type_text ACTIVATE = ''ACTIVATE''"

fun actor_type_text :: "actor_type \<Rightarrow> string" where
  "actor_type_text USER_WALLET = ''USER_WALLET''"
| "actor_type_text LOCAL_BRIDGE = ''LOCAL_BRIDGE''"
| "actor_type_text CONTROL_PLANE = ''CONTROL_PLANE''"
| "actor_type_text READ_ONLY_ACTOR = ''READ_ONLY''"

fun fee_mode_text :: "fee_mode \<Rightarrow> string" where
  "fee_mode_text EIP1559 = ''EIP1559''"
| "fee_mode_text LEGACY = ''LEGACY''"

definition cost_keys :: "string list" where
  "cost_keys = [''estimatedGas'', ''feeMode'', ''maxFeePerGasWei'', ''maxPriorityFeePerGasWei'', ''baseNativeWei'',
     ''bufferBps'', ''bufferNativeWei'', ''totalNativeWei'', ''quotedAtMs'', ''fromLiveNode'']"

definition cost_json :: "step_cost \<Rightarrow> json" where
  "cost_json c = j_record cost_keys
    [JStr (sc_estimatedGas c), JStr (fee_mode_text (sc_feeMode c)), JStr (sc_maxFeePerGasWei c),
     j_nullable JStr (sc_maxPriorityFeePerGasWei c), JStr (sc_baseNativeWei c), j_int (sc_bufferBps c),
     JStr (sc_bufferNativeWei c), JStr (sc_totalNativeWei c), j_int (sc_quotedAtMs c), JBool (sc_fromLiveNode c)]"

definition step_keys :: "string list" where
  "step_keys = [''id'', ''type'', ''chainId'', ''dependencyIds'', ''actorType'', ''requiredSigner'', ''artifactHash'',
     ''target'', ''calldataHash'', ''cost'', ''reversible'', ''rollbackAction'']"

text \<open>\<open>planIdentity\<close> drops \<open>readiness\<close> and \<open>approval\<close> from the plan and \<open>status\<close> from every step.\<close>

definition step_json :: "deployment_step \<Rightarrow> json" where
  "step_json s = j_record step_keys
    [JStr (ds_id s), JStr (step_type_text (ds_type s)), j_nullable j_int (ds_chainId s),
     JArr (map JStr (ds_dependencyIds s)), JStr (actor_type_text (ds_actorType s)), j_nullable JStr (ds_requiredSigner s),
     j_nullable JStr (ds_artifactHash s), j_nullable JStr (ds_target s), j_nullable JStr (ds_calldataHash s),
     j_nullable cost_json (ds_cost s), JBool (ds_reversible s), j_nullable JStr (ds_rollbackAction s)]"

definition deploy_plan_keys :: "string list" where
  "deploy_plan_keys = [''schemaVersion'', ''planId'', ''manifestHash'', ''steps'']"

definition deploy_planIdentity :: "deployment_plan \<Rightarrow> json" where
  "deploy_planIdentity p = j_record deploy_plan_keys
    [JStr (dp_schemaVersion p), JStr (dp_planId p), JStr (dp_manifestHash p), JArr (map step_json (dp_steps p))]"

definition deploymentPlanHash :: "(string \<Rightarrow> string) \<Rightarrow> (jsnum \<Rightarrow> string) \<Rightarrow> deployment_plan \<Rightarrow> string" where
  "deploymentPlanHash sha256Hex num p = digestOf sha256Hex num (deploy_planIdentity p)"

section \<open>What validation guarantees\<close>

lemma check_unique_iff:
  "check_unique seen ss = Inr () \<longleftrightarrow> distinct (map ds_id ss) \<and> set (map ds_id ss) \<inter> set seen = {}"
  by (induction seen ss rule: check_unique.induct) auto

lemma position_nth:
  assumes "distinct (map ds_id ss)" "i < length ss"
  shows "position ss (ds_id (ss ! i)) = i"
proof -
  have "takeWhile (\<lambda>s. ds_id s \<noteq> ds_id (ss ! i)) ss = take i ss"
  proof (rule takeWhile_eq_take_P_nth)
    show "\<And>j. \<lbrakk>j < i; j < length ss\<rbrakk> \<Longrightarrow> ds_id (ss ! j) \<noteq> ds_id (ss ! i)"
      using assms by (metis distinct_map inj_on_eq_iff nth_eq_iff_index_eq nth_mem order_less_irrefl)
    show "i < length ss \<Longrightarrow> \<not> ds_id (ss ! i) \<noteq> ds_id (ss ! i)" by simp
  qed
  then show ?thesis using assms(2) by (simp add: position_def)
qed

text \<open>A step is in order when every id it depends on belongs to an earlier step.\<close>

definition in_order :: "deployment_step list \<Rightarrow> bool" where
  "in_order ss \<longleftrightarrow> (\<forall>i < length ss. \<forall>d \<in> set (ds_dependencyIds (ss ! i)). \<exists>j < i. ds_id (ss ! j) = d)"

lemma check_dependency_iff:
  assumes "distinct (map ds_id ss)" "i < length ss"
  shows "check_dependency ss (ss ! i) d = Inr () \<longleftrightarrow> (\<exists>j < i. ds_id (ss ! j) = d)"
proof
  assume ok: "check_dependency ss (ss ! i) d = Inr ()"
  then have "d \<in> ds_id ` set ss" by (auto simp: check_dependency_def split: if_splits)
  then obtain j where j: "j < length ss" "d = ds_id (ss ! j)" by (metis imageE in_set_conv_nth)
  with ok have "j < i"
    using position_nth [OF assms] position_nth [OF assms(1) j(1)] by (auto simp: check_dependency_def split: if_splits)
  with j show "\<exists>j < i. ds_id (ss ! j) = d" by blast
next
  assume "\<exists>j < i. ds_id (ss ! j) = d"
  then obtain j where j: "j < i" "d = ds_id (ss ! j)" by blast
  then have "d \<noteq> ds_id (ss ! i)"
    using assms position_nth [OF assms] position_nth [OF assms(1), of j] by (metis less_trans order_less_irrefl)
  with j assms position_nth [OF assms] position_nth [OF assms(1), of j] show "check_dependency ss (ss ! i) d = Inr ()"
    by (auto simp: check_dependency_def)
qed

definition step_permitted :: "string list \<Rightarrow> deployment_step \<Rightarrow> bool" where
  "step_permitted signers s \<longleftrightarrow>
     ds_type s \<noteq> ACTIVATE \<and>
     (\<forall>x. ds_requiredSigner s = Some x \<longrightarrow> x \<in> set signers) \<and>
     (ds_actorType s = USER_WALLET \<longrightarrow> ds_requiredSigner s \<noteq> None) \<and>
     (ds_type s \<in> set IRREVERSIBLE_STEP_TYPES \<longrightarrow> \<not> ds_reversible s)"

lemma check_step_iff:
  "check_step ss signers s = Inr () \<longleftrightarrow>
     step_permitted signers s \<and> (\<forall>d \<in> set (ds_dependencyIds s). check_dependency ss s d = Inr ())"
  by (auto simp: check_step_def step_permitted_def res_bind_Inr_iff for_each_iff split: option.splits)

lemma validatePlan_iff:
  "validatePlan p signers = Inr () \<longleftrightarrow>
     distinct (map ds_id (dp_steps p)) \<and> in_order (dp_steps p) \<and> (\<forall>s \<in> set (dp_steps p). step_permitted signers s)"
proof (cases "distinct (map ds_id (dp_steps p))")
  case True
  have "(\<forall>s \<in> set (dp_steps p). \<forall>d \<in> set (ds_dependencyIds s). check_dependency (dp_steps p) s d = Inr ()) \<longleftrightarrow> in_order (dp_steps p)"
    using check_dependency_iff [OF True] by (auto simp: in_order_def all_set_conv_all_nth)
  with True show ?thesis
    by (auto simp: validatePlan_def res_bind_Inr_iff check_unique_iff for_each_iff check_step_iff)
qed (auto simp: validatePlan_def res_bind_Inr_iff check_unique_iff)

text \<open>In an ordered plan the first unsatisfied step has all its dependencies satisfied.\<close>

lemma first_unsatisfied:
  assumes "in_order (dp_steps p)" "\<exists>s \<in> set (dp_steps p). \<not> satisfied s"
  obtains i where "i < length (dp_steps p)" "\<not> satisfied (dp_steps p ! i)" "\<forall>j < i. satisfied (dp_steps p ! j)"
    "set (ds_dependencyIds (dp_steps p ! i)) \<subseteq> set (done_ids p)"
proof -
  let ?P = "\<lambda>i. i < length (dp_steps p) \<and> \<not> satisfied (dp_steps p ! i)"
  from assms(2) obtain k where "?P k" by (metis in_set_conv_nth)
  define i where "i = (LEAST i. ?P i)"
  have i: "?P i" unfolding i_def by (rule LeastI) fact
  have before: "satisfied (dp_steps p ! j)" if "j < i" for j
    using that i not_less_Least [of j ?P] unfolding i_def by force
  have "d \<in> set (done_ids p)" if d: "d \<in> set (ds_dependencyIds (dp_steps p ! i))" for d
  proof -
    from assms(1) i d obtain j where "j < i" "ds_id (dp_steps p ! j) = d" unfolding in_order_def by blast
    moreover have "dp_steps p ! j \<in> set (dp_steps p)" using \<open>j < i\<close> i by simp
    ultimately show ?thesis using before [of j] unfolding done_ids_def by force
  qed
  then show thesis using that i before by blast
qed

text \<open>
  Plan validation is exact. \<open>validatePlan\<close> accepts a plan if and only if its step ids are
  distinct, every dependency names an earlier step, no step activates, every named signer is known,
  every wallet step names one, and no irreversible step is marked reversible. An accepted plan can
  always make progress: while some step is unsatisfied, there is one whose dependencies are all
  satisfied and whose predecessors in the array all are.
\<close>

theorem validate_plan_exact:
  "(validatePlan p signers = Inr () \<longleftrightarrow>
      distinct (map ds_id (dp_steps p)) \<and> in_order (dp_steps p) \<and> (\<forall>s \<in> set (dp_steps p). step_permitted signers s))
   \<and> (validatePlan p signers = Inr () \<and> (\<exists>s \<in> set (dp_steps p). \<not> satisfied s) \<longrightarrow>
      (\<exists>i < length (dp_steps p). \<not> satisfied (dp_steps p ! i) \<and> (\<forall>j < i. satisfied (dp_steps p ! j)) \<and>
         set (ds_dependencyIds (dp_steps p ! i)) \<subseteq> set (done_ids p)))"
  using validatePlan_iff first_unsatisfied by metis

section \<open>What a plan hash binds\<close>

lemma step_type_text_inject [simp]: "step_type_text a = step_type_text b \<longleftrightarrow> a = b"
  by (cases a; cases b) simp_all

lemma actor_type_text_inject [simp]: "actor_type_text a = actor_type_text b \<longleftrightarrow> a = b"
  by (cases a; cases b) simp_all

lemma fee_mode_text_inject [simp]: "fee_mode_text a = fee_mode_text b \<longleftrightarrow> a = b"
  by (cases a; cases b) simp_all

lemma record_keys_distinct [simp]: "distinct cost_keys" "distinct step_keys" "distinct deploy_plan_keys"
  "length cost_keys = 10" "length step_keys = 12" "length deploy_plan_keys = 4"
  by (simp_all add: cost_keys_def step_keys_def deploy_plan_keys_def)

lemma cost_json_inject: "walk (cost_json a) = walk (cost_json b) \<longleftrightarrow> a = b"
  by (auto simp: cost_json_def walk_record_iff)

lemma walk_cost_nullable [simp]: "walk (j_nullable cost_json x) = walk (j_nullable cost_json y) \<longleftrightarrow> x = y"
  by (rule walk_nullable_inject) (auto simp: cost_json_inject, simp add: cost_json_def)

definition unrun :: "deployment_step \<Rightarrow> deployment_step" where
  "unrun s = s\<lparr>ds_status := PENDING\<rparr>"

lemma step_json_inject: "walk (step_json a) = walk (step_json b) \<longleftrightarrow> unrun a = unrun b"
  by (cases a; cases b) (auto simp: step_json_def walk_record_iff unrun_def)

lemma deploy_planIdentity_inject:
  "walk (deploy_planIdentity p) = walk (deploy_planIdentity q) \<longleftrightarrow>
     dp_schemaVersion p = dp_schemaVersion q \<and> dp_planId p = dp_planId q \<and> dp_manifestHash p = dp_manifestHash q \<and>
     map unrun (dp_steps p) = map unrun (dp_steps q)"
proof -
  have "map (walk \<circ> step_json) xs = map (walk \<circ> step_json) ys \<longleftrightarrow> map unrun xs = map unrun ys" for xs ys
    by (simp add: list_eq_iff_nth_eq step_json_inject cong: conj_cong)
  then show ?thesis by (simp add: deploy_planIdentity_def walk_record_iff)
qed

lemma cost_json_finite [simp]: "json_finite (cost_json c)"
  by (simp add: cost_json_def cost_keys_def)

lemma step_json_finite [simp]: "json_finite (step_json s)"
  by (simp add: step_json_def step_keys_def j_nullable_def split: option.splits)

lemma deploy_planIdentity_finite [simp]: "json_finite (deploy_planIdentity p)"
  by (simp add: deploy_planIdentity_def deploy_plan_keys_def)

text \<open>Equal digests of finite values are equal values up to key order, when the hash does not collide on them.\<close>

lemma digest_binds:
  assumes "number_text num" "json_finite x" "json_finite y" "inj_on sha {canonicalize num x, canonicalize num y}"
  shows "digestOf sha num x = digestOf sha num y \<longleftrightarrow> walk x = walk y"
proof
  assume "digestOf sha num x = digestOf sha num y"
  then have "canonicalize num x = canonicalize num y"
    using assms(4) by (auto simp: digestOf_def dest: inj_onD)
  then show "walk x = walk y" by (rule canonicalize_injective [OF assms(1-3)])
qed (simp add: digestOf_def canonicalize_def)

text \<open>
  The plan hash covers the plan and not its progress. Two plans have the same hash exactly when
  they have the same version, id and manifest hash and the same steps in the same order up to
  status: running a plan never changes its hash, and changing anything else (a signer, a calldata
  hash, a cost, an order, a dependency) does.
\<close>

theorem deployment_plan_hash_exact:
  assumes "number_text num" "inj_on sha {canonicalize num (deploy_planIdentity p), canonicalize num (deploy_planIdentity q)}"
  shows "deploymentPlanHash sha num p = deploymentPlanHash sha num q \<longleftrightarrow>
     dp_schemaVersion p = dp_schemaVersion q \<and> dp_planId p = dp_planId q \<and> dp_manifestHash p = dp_manifestHash q \<and>
     map unrun (dp_steps p) = map unrun (dp_steps q)"
  unfolding deploymentPlanHash_def
  by (simp add: digest_binds [OF assms(1) _ _ assms(2)] deploy_planIdentity_inject)

section \<open>Witnesses\<close>

definition sample_dstep :: deployment_step where
  "sample_dstep = \<lparr>ds_id = ''verify-chain'', ds_type = VERIFY_CHAIN, ds_chainId = Some 84532, ds_dependencyIds = [],
     ds_actorType = READ_ONLY_ACTOR, ds_requiredSigner = None, ds_artifactHash = None, ds_target = None, ds_calldataHash = None,
     ds_cost = None, ds_reversible = True, ds_rollbackAction = None, ds_status = PENDING\<rparr>"

definition sample_write :: deployment_step where
  "sample_write = sample_dstep\<lparr>ds_id := ''deploy-token'', ds_type := DEPLOY_CONTRACT, ds_dependencyIds := [''verify-chain''],
     ds_actorType := USER_WALLET, ds_requiredSigner := Some ''deployer'', ds_reversible := False\<rparr>"

definition sample_dplan :: deployment_plan where
  "sample_dplan = \<lparr>dp_schemaVersion = ''contextlock.deployment-plan/v1'', dp_planId = ''p'', dp_manifestHash = ''sha256:m'',
     dp_steps = [sample_dstep, sample_write], dp_readiness = PREFLIGHT_DRAFT, dp_approval = None\<rparr>"

lemmas sample_dplan_defs = sample_dplan_def sample_write_def sample_dstep_def

lemma sample_dplan_valid: "validatePlan sample_dplan [''deployer''] = Inr ()"
  by (simp add: validatePlan_def check_step_def check_dependency_def position_def IRREVERSIBLE_STEP_TYPES_def ensure_def sample_dplan_defs)

theorem validate_plan_exact_witness:
  "validatePlan sample_dplan [''deployer''] = Inr () \<and> in_order (dp_steps sample_dplan) \<and>
   (\<exists>i < 2. \<not> satisfied (dp_steps sample_dplan ! i)) \<and>
   validatePlan (sample_dplan\<lparr>dp_steps := [sample_write, sample_dstep]\<rparr>) [''deployer''] \<noteq> Inr ()"
proof -
  have "\<exists>s \<in> set (dp_steps sample_dplan). \<not> satisfied s" by (simp add: sample_dplan_defs satisfied_def)
  then have "\<exists>i < length (dp_steps sample_dplan). \<not> satisfied (dp_steps sample_dplan ! i)"
    using validate_plan_exact [of sample_dplan "[''deployer'']"] sample_dplan_valid by blast
  moreover have "length (dp_steps sample_dplan) = 2" by (simp add: sample_dplan_def)
  moreover have "\<not> in_order [sample_write, sample_dstep]" by (force simp: in_order_def sample_dplan_defs)
  ultimately show ?thesis
    using validate_plan_exact [of sample_dplan "[''deployer'']"] sample_dplan_valid
      validate_plan_exact [of "sample_dplan\<lparr>dp_steps := [sample_write, sample_dstep]\<rparr>" "[''deployer'']"] by simp
qed

theorem deployment_plan_hash_exact_witness:
  "deploymentPlanHash id sample_num sample_dplan = deploymentPlanHash id sample_num (sample_dplan\<lparr>dp_readiness := PLAN_APPROVED\<rparr>) \<and>
   deploymentPlanHash id sample_num sample_dplan \<noteq>
     deploymentPlanHash id sample_num (sample_dplan\<lparr>dp_steps := [sample_dstep, sample_write\<lparr>ds_calldataHash := Some ''sha256:x''\<rparr>]\<rparr>)"
proof -
  have i: "inj_on id A" for A :: "string set" by simp
  show ?thesis
    using deployment_plan_hash_exact [OF sample_number_text i, of sample_dplan "sample_dplan\<lparr>dp_readiness := PLAN_APPROVED\<rparr>"]
      deployment_plan_hash_exact [OF sample_number_text i, of sample_dplan "sample_dplan\<lparr>dp_steps := [sample_dstep, sample_write\<lparr>ds_calldataHash := Some ''sha256:x''\<rparr>]\<rparr>"]
    by (simp add: sample_dplan_defs unrun_def)
qed

end
