(* ===== verification/Deploy_Manifest.thy ===== *)
theory Deploy_Manifest
  imports Deploy_Plan
begin

text \<open>
  The deployment manifest, reuse of existing contracts and the CRE side of a preflight
  (\<open>packages/studio-deploy/src\<close>: \<open>manifest.ts\<close>, \<open>reuse.ts\<close>, \<open>cre.ts\<close>, \<open>chain.ts\<close>). The three
  initial states are literal types in the source, so they are constants of the encoding rather than
  fields. The hash of code and \<open>sha256\<close> are parameters.
\<close>

section \<open>The manifest (manifest.ts)\<close>

datatype contract_disposition = REUSE_VERIFIED | DEPLOY_NEW | CONFIGURE_EXISTING | CREATE_AGENT_SPECIFIC

record compiler_settings =
  cs_solc :: string
  cs_optimizer :: bool
  cs_runs :: int
  cs_evmVersion :: string

record manifest_contract =
  mc_name :: string
  mc_chainId :: int
  mc_disposition :: contract_disposition
  mc_address :: "string option"
  mc_runtimeCodeHash :: "string option"
  mc_creationCodeHash :: "string option"
  mc_compiler :: "compiler_settings option"

record manifest_ens =
  me_name :: string
  me_node :: string
  me_chainId :: int
  me_resolver :: string
  me_boundAgent :: string

record manifest_cre_workflow =
  mw_workflowName :: string
  mw_registry :: string
  mw_binaryHash :: string
  mw_configHash :: string
  mw_workflowHash :: string
  mw_sourceTreeHash :: string
  mw_creCliVersion :: string

record manifest_runtime_image =
  mi_agentId :: string
  mi_tag :: string
  mi_imageDigest :: "string option"
  mi_sbomDigest :: "string option"
  mi_provenanceDigest :: "string option"
  mi_vulnerabilityReportDigest :: "string option"
  mi_baseImageDigest :: "string option"

record manifest_adapter =
  ma_adapterId :: string
  ma_version :: string
  ma_artifactHash :: string

datatype balance_category = NATIVE_GAS | TEST_PROTOCOL_ASSET | BRIDGE_FEE | CCIP_FEE_TOKEN | TREASURY_SEED_ASSET

record required_balance =
  rb_category :: balance_category
  rb_chainId :: int
  rb_token :: "string option"
  rb_symbol :: string
  rb_decimals :: int
  rb_amount :: string
  rb_holder :: string
  rb_purpose :: string

datatype signer_role = DEPLOYER | POLICY_ADMIN | CAPABILITY_ISSUER | ENS_OWNER | CRE_OWNER | APPROVER

record signer_requirement =
  sr_signerId :: string
  sr_role :: signer_role
  sr_address :: "string option"
  sr_mode :: signing_mode
  sr_chainIds :: "int list"
  sr_authorizes :: string

datatype authorization_model = SINGLE_EOA | SEPARATED_ROLES | MULTISIG

record deployment_manifest =
  dm_schemaVersion :: string
  dm_manifestId :: string
  dm_projectId :: string
  dm_buildId :: string
  dm_blueprintRevision :: int
  dm_buildRevision :: int
  dm_strategyHash :: string
  dm_organizationHash :: "string option"
  dm_gitCommit :: string
  dm_environment :: deployment_environment
  dm_contracts :: "manifest_contract list"
  dm_ens :: "manifest_ens list"
  dm_creWorkflows :: "manifest_cre_workflow list"
  dm_runtimeImages :: "manifest_runtime_image list"
  dm_adapters :: "manifest_adapter list"
  dm_authorizationModel :: authorization_model
  dm_requiredSigners :: "signer_requirement list"
  dm_requiredBalances :: "required_balance list"
  dm_generatedAt :: string

subsection \<open>Its canonical form\<close>

fun environment_kind_text :: "environment_kind \<Rightarrow> string" where
  "environment_kind_text ENV_LOCAL = ''LOCAL''"
| "environment_kind_text ENV_FORK = ''FORK''"
| "environment_kind_text ENV_TESTNET = ''TESTNET''"
| "environment_kind_text ENV_SHADOW_MAINNET = ''SHADOW_MAINNET''"
| "environment_kind_text ENV_MAINNET = ''MAINNET''"

fun disposition_name :: "contract_disposition \<Rightarrow> string" where
  "disposition_name REUSE_VERIFIED = ''REUSE_VERIFIED''"
| "disposition_name DEPLOY_NEW = ''DEPLOY_NEW''"
| "disposition_name CONFIGURE_EXISTING = ''CONFIGURE_EXISTING''"
| "disposition_name CREATE_AGENT_SPECIFIC = ''CREATE_AGENT_SPECIFIC''"

fun balance_category_text :: "balance_category \<Rightarrow> string" where
  "balance_category_text NATIVE_GAS = ''NATIVE_GAS''"
| "balance_category_text TEST_PROTOCOL_ASSET = ''TEST_PROTOCOL_ASSET''"
| "balance_category_text BRIDGE_FEE = ''BRIDGE_FEE''"
| "balance_category_text CCIP_FEE_TOKEN = ''CCIP_FEE_TOKEN''"
| "balance_category_text TREASURY_SEED_ASSET = ''TREASURY_SEED_ASSET''"

fun signer_role_text :: "signer_role \<Rightarrow> string" where
  "signer_role_text DEPLOYER = ''DEPLOYER''"
| "signer_role_text POLICY_ADMIN = ''POLICY_ADMIN''"
| "signer_role_text CAPABILITY_ISSUER = ''CAPABILITY_ISSUER''"
| "signer_role_text ENS_OWNER = ''ENS_OWNER''"
| "signer_role_text CRE_OWNER = ''CRE_OWNER''"
| "signer_role_text APPROVER = ''APPROVER''"

fun signing_mode_text :: "signing_mode \<Rightarrow> string" where
  "signing_mode_text BROWSER_WALLET = ''BROWSER_WALLET''"
| "signing_mode_text LOCAL_BRIDGE_WALLET = ''LOCAL_BRIDGE_WALLET''"

fun authorization_model_text :: "authorization_model \<Rightarrow> string" where
  "authorization_model_text SINGLE_EOA = ''SINGLE_EOA''"
| "authorization_model_text SEPARATED_ROLES = ''SEPARATED_ROLES''"
| "authorization_model_text MULTISIG = ''MULTISIG''"

definition chain_json :: "chain_target \<Rightarrow> json" where
  "chain_json c = j_record [''chainId'', ''name'', ''chainSelector'', ''nativeSymbol'', ''nativeDecimals'', ''explorer'']
    [j_int (ct_chainId c), JStr (ct_name c), j_nullable JStr (ct_chainSelector c), JStr (ct_nativeSymbol c),
     j_int (ct_nativeDecimals c), j_nullable JStr (ct_explorer c)]"

definition environment_json :: "deployment_environment \<Rightarrow> json" where
  "environment_json e = j_record [''schemaVersion'', ''environmentId'', ''kind'', ''chains'', ''writesPermitted'', ''allowedCreRegistries'']
    [JStr (de_schemaVersion e), JStr (de_environmentId e), JStr (environment_kind_text (de_kind e)),
     JArr (map chain_json (de_chains e)), JBool (de_writesPermitted e), JArr (map JStr (de_allowedCreRegistries e))]"

definition compiler_json :: "compiler_settings \<Rightarrow> json" where
  "compiler_json c = j_record [''solc'', ''optimizer'', ''runs'', ''evmVersion'']
    [JStr (cs_solc c), JBool (cs_optimizer c), j_int (cs_runs c), JStr (cs_evmVersion c)]"

definition contract_json :: "manifest_contract \<Rightarrow> json" where
  "contract_json c = j_record [''name'', ''chainId'', ''disposition'', ''address'', ''runtimeCodeHash'', ''creationCodeHash'', ''compiler'']
    [JStr (mc_name c), j_int (mc_chainId c), JStr (disposition_name (mc_disposition c)), j_nullable JStr (mc_address c),
     j_nullable JStr (mc_runtimeCodeHash c), j_nullable JStr (mc_creationCodeHash c), j_nullable compiler_json (mc_compiler c)]"

definition ens_json :: "manifest_ens \<Rightarrow> json" where
  "ens_json e = j_record [''name'', ''node'', ''chainId'', ''resolver'', ''boundAgent'']
    [JStr (me_name e), JStr (me_node e), j_int (me_chainId e), JStr (me_resolver e), JStr (me_boundAgent e)]"

definition workflow_json :: "manifest_cre_workflow \<Rightarrow> json" where
  "workflow_json w = j_record [''workflowName'', ''registry'', ''binaryHash'', ''configHash'', ''workflowHash'', ''sourceTreeHash'',
      ''creCliVersion'', ''initialState'']
    [JStr (mw_workflowName w), JStr (mw_registry w), JStr (mw_binaryHash w), JStr (mw_configHash w), JStr (mw_workflowHash w),
     JStr (mw_sourceTreeHash w), JStr (mw_creCliVersion w), JStr ''PAUSED'']"

definition image_json :: "manifest_runtime_image \<Rightarrow> json" where
  "image_json i = j_record [''agentId'', ''tag'', ''imageDigest'', ''sbomDigest'', ''provenanceDigest'', ''vulnerabilityReportDigest'', ''baseImageDigest'']
    [JStr (mi_agentId i), JStr (mi_tag i), j_nullable JStr (mi_imageDigest i), j_nullable JStr (mi_sbomDigest i),
     j_nullable JStr (mi_provenanceDigest i), j_nullable JStr (mi_vulnerabilityReportDigest i), j_nullable JStr (mi_baseImageDigest i)]"

definition adapter_json :: "manifest_adapter \<Rightarrow> json" where
  "adapter_json a = j_record [''adapterId'', ''version'', ''artifactHash'']
    [JStr (ma_adapterId a), JStr (ma_version a), JStr (ma_artifactHash a)]"

definition signer_json :: "signer_requirement \<Rightarrow> json" where
  "signer_json s = j_record [''signerId'', ''role'', ''address'', ''mode'', ''chainIds'', ''authorizes'']
    [JStr (sr_signerId s), JStr (signer_role_text (sr_role s)), j_nullable JStr (sr_address s), JStr (signing_mode_text (sr_mode s)),
     JArr (map j_int (sr_chainIds s)), JStr (sr_authorizes s)]"

definition balance_json :: "required_balance \<Rightarrow> json" where
  "balance_json b = j_record [''category'', ''chainId'', ''token'', ''symbol'', ''decimals'', ''amount'', ''holder'', ''purpose'']
    [JStr (balance_category_text (rb_category b)), j_int (rb_chainId b), j_nullable JStr (rb_token b), JStr (rb_symbol b),
     j_int (rb_decimals b), JStr (rb_amount b), JStr (rb_holder b), JStr (rb_purpose b)]"

text \<open>\<open>manifestIdentity\<close> drops \<open>generatedAt\<close> and \<open>manifestId\<close>, nothing else.\<close>

definition manifest_keys :: "string list" where
  "manifest_keys = [''schemaVersion'', ''projectId'', ''buildId'', ''blueprintRevision'', ''buildRevision'', ''strategyHash'',
     ''organizationHash'', ''gitCommit'', ''environment'', ''contracts'', ''ens'', ''creWorkflows'', ''runtimeImages'', ''adapters'',
     ''authorizationModel'', ''requiredSigners'', ''requiredBalances'', ''policyInitialState'', ''runtimeInitialState'', ''creInitialState'']"

definition manifestIdentity :: "deployment_manifest \<Rightarrow> json" where
  "manifestIdentity m = j_record manifest_keys
    [JStr (dm_schemaVersion m), JStr (dm_projectId m), JStr (dm_buildId m), j_int (dm_blueprintRevision m), j_int (dm_buildRevision m),
     JStr (dm_strategyHash m), j_nullable JStr (dm_organizationHash m), JStr (dm_gitCommit m), environment_json (dm_environment m),
     JArr (map contract_json (dm_contracts m)), JArr (map ens_json (dm_ens m)), JArr (map workflow_json (dm_creWorkflows m)),
     JArr (map image_json (dm_runtimeImages m)), JArr (map adapter_json (dm_adapters m)),
     JStr (authorization_model_text (dm_authorizationModel m)), JArr (map signer_json (dm_requiredSigners m)),
     JArr (map balance_json (dm_requiredBalances m)), JStr ''DISABLED'', JStr ''INACTIVE'', JStr ''PAUSED'']"

definition manifestHash :: "(string \<Rightarrow> string) \<Rightarrow> (jsnum \<Rightarrow> string) \<Rightarrow> deployment_manifest \<Rightarrow> string" where
  "manifestHash sha256Hex num m = digestOf sha256Hex num (manifestIdentity m)"

record pinned_artifact =
  pi_kind :: string
  pi_id :: string
  pi_hash :: string

definition pin :: "string \<Rightarrow> string \<Rightarrow> string option \<Rightarrow> pinned_artifact list" where
  "pin kind i h = (case truthy h of None \<Rightarrow> [] | Some x \<Rightarrow> [\<lparr>pi_kind = kind, pi_id = i, pi_hash = x\<rparr>])"

definition pin_always :: "string \<Rightarrow> string \<Rightarrow> string \<Rightarrow> pinned_artifact list" where
  "pin_always kind i h = [\<lparr>pi_kind = kind, pi_id = i, pi_hash = h\<rparr>]"

definition pinnedArtifacts :: "deployment_manifest \<Rightarrow> pinned_artifact list" where
  "pinnedArtifacts m =
    pin_always ''strategy'' (dm_buildId m) (dm_strategyHash m) @
    pin ''organization'' (dm_buildId m) (dm_organizationHash m) @
    concat (map (\<lambda>c. pin ''contract-runtime-code'' (mc_name c @ ''@'' @ show_int (mc_chainId c)) (mc_runtimeCodeHash c) @
                     pin ''contract-creation-code'' (mc_name c @ ''@'' @ show_int (mc_chainId c)) (mc_creationCodeHash c)) (dm_contracts m)) @
    concat (map (\<lambda>w. pin_always ''cre-binary'' (mw_workflowName w) (mw_binaryHash w) @
                     pin_always ''cre-config'' (mw_workflowName w) (mw_configHash w) @
                     pin_always ''cre-source'' (mw_workflowName w) (mw_sourceTreeHash w)) (dm_creWorkflows m)) @
    concat (map (\<lambda>i. pin ''runtime-image'' (mi_agentId i) (mi_imageDigest i) @
                     pin ''runtime-sbom'' (mi_agentId i) (mi_sbomDigest i) @
                     pin ''runtime-provenance'' (mi_agentId i) (mi_provenanceDigest i)) (dm_runtimeImages m)) @
    concat (map (\<lambda>a. pin_always ''adapter'' (ma_adapterId a @ ''@'' @ ma_version a) (ma_artifactHash a)) (dm_adapters m))"

section \<open>Reuse (reuse.ts)\<close>

datatype reuse_reason = REUSE_NO_CODE | CODE_HASH_MISMATCH | NO_EXPECTED_HASH | NO_ADDRESS | REUSE_WRONG_CHAIN

datatype reuse_verdict =
    ReuseOk contract_disposition string string
  | ReuseBad reuse_reason "string option"

text \<open>\<open>verifyReuse\<close> and \<open>codeHash\<close>; a reader error propagates. \<open>keccak\<close> is the hash of code.\<close>

definition deploy_new :: "manifest_contract \<Rightarrow> bool" where
  "deploy_new c = (mc_disposition c = DEPLOY_NEW \<or> mc_disposition c = CREATE_AGENT_SPECIFIC)"

definition verifyReuse ::
  "(string \<Rightarrow> string) \<Rightarrow> manifest_contract \<Rightarrow> chain_reader \<Rightarrow> tick \<Rightarrow> rpc_error + reuse_verdict" where
  "verifyReuse keccak entry reader t =
    (if deploy_new entry then Inr (ReuseOk (mc_disposition entry) (''0x'' @ replicate 40 (CHR ''0'')) ''0x'')
     else if mc_chainId entry \<noteq> cr_chainId reader then Inr (ReuseBad REUSE_WRONG_CHAIN None)
     else case truthy (mc_address entry) of
       None \<Rightarrow> Inr (ReuseBad NO_ADDRESS None)
     | Some address \<Rightarrow>
       (case truthy (mc_runtimeCodeHash entry) of
          None \<Rightarrow> Inr (ReuseBad NO_EXPECTED_HASH None)
        | Some expected \<Rightarrow>
          res_bind (cr_getCode reader t address) (\<lambda>code.
            case truthy code of
              None \<Rightarrow> Inr (ReuseBad REUSE_NO_CODE None)
            | Some c \<Rightarrow>
              if c = ''0x'' then Inr (ReuseBad REUSE_NO_CODE None)
              else if toLowerCase (keccak c) \<noteq> toLowerCase expected
                then Inr (ReuseBad CODE_HASH_MISMATCH (Some (keccak c)))
              else Inr (ReuseOk (mc_disposition entry) address (keccak c)))))"

record reuse_report =
  rr_verified :: "(string \<times> string \<times> string) list"
  rr_rejected :: "(string \<times> reuse_reason) list"
  rr_toDeploy :: "string list"
  rr_toConfigure :: "string list"

definition empty_report :: reuse_report where
  "empty_report = \<lparr>rr_verified = [], rr_rejected = [], rr_toDeploy = [], rr_toConfigure = []\<rparr>"

definition reuse_one ::
  "(string \<Rightarrow> string) \<Rightarrow> (int \<rightharpoonup> chain_reader) \<Rightarrow> manifest_contract \<Rightarrow> tick \<Rightarrow> reuse_report \<Rightarrow> rpc_error + reuse_report" where
  "reuse_one keccak readers c t rep =
    (if deploy_new c then Inr (rep\<lparr>rr_toDeploy := rr_toDeploy rep @ [mc_name c]\<rparr>)
     else case readers (mc_chainId c) of
       None \<Rightarrow> Inr (rep\<lparr>rr_rejected := rr_rejected rep @ [(mc_name c, REUSE_WRONG_CHAIN)]\<rparr>)
     | Some reader \<Rightarrow>
       res_bind (verifyReuse keccak c reader t) (\<lambda>v. case v of
           ReuseOk d address h \<Rightarrow>
             Inr (rep\<lparr>rr_verified := rr_verified rep @ [(mc_name c, address, h)],
                      rr_toConfigure := rr_toConfigure rep @ (if mc_disposition c = CONFIGURE_EXISTING then [mc_name c] else [])\<rparr>)
         | ReuseBad r h \<Rightarrow> Inr (rep\<lparr>rr_rejected := rr_rejected rep @ [(mc_name c, r)]\<rparr>)))"

fun reuse_all ::
  "(string \<Rightarrow> string) \<Rightarrow> (int \<rightharpoonup> chain_reader) \<Rightarrow> manifest_contract list \<Rightarrow> tick \<Rightarrow> reuse_report \<Rightarrow> rpc_error + reuse_report" where
  "reuse_all keccak readers [] t rep = Inr rep"
| "reuse_all keccak readers (c # cs) t rep =
     res_bind (reuse_one keccak readers c t rep) (\<lambda>rep'. reuse_all keccak readers cs (Suc t) rep')"

definition resolveReuse ::
  "(string \<Rightarrow> string) \<Rightarrow> manifest_contract list \<Rightarrow> (int \<rightharpoonup> chain_reader) \<Rightarrow> tick \<Rightarrow> rpc_error + reuse_report" where
  "resolveReuse keccak contracts readers t = reuse_all keccak readers contracts t empty_report"

definition reuseBlocks :: "reuse_report \<Rightarrow> bool" where
  "reuseBlocks r = (rr_rejected r \<noteq> [])"

section \<open>CRE (cre.ts)\<close>

datatype cre_reason =
    NOT_CONNECTED
  | BRIDGE_OFFLINE
  | DEPLOY_ACCESS_REQUIRED
  | REGISTRY_NOT_ALLOWED
  | QUOTA_EXCEEDED
  | LIMITS_VIOLATED
  | LIMITS_NOT_SIMULATED
  | ARTIFACT_DRIFT

datatype registry_error = RegistryEnvironment environment_error | RegistryCre cre_reason

datatype cre_connection_mode = LOCAL_SESSION | MANAGED_API_KEY

datatype staleness = CURRENT | STALE_BRIDGE_OFFLINE

record cre_chain =
  ch_chainName :: string
  ch_chainSelector :: string
  ch_forwarder :: string

record cre_status =
  cx_connected :: bool
  cx_mode :: cre_connection_mode
  cx_organizationId :: "string option"
  cx_organizationName :: "string option"
  cx_accountLabel :: "string option"
  cx_deployAccess :: bool
  cx_availableRegistryIds :: "string list"
  cx_supportedChains :: "cre_chain list"
  cx_cliVersion :: "string option"
  cx_staleness :: staleness
  cx_checkedAtMs :: int

datatype quota_source = TENANT_API | CLI_LIMITS_EXPORT | DOCUMENTED_DEFAULT

record cre_quota =
  cq_capturedAtMs :: int
  cq_source :: quota_source
  cq_maxWorkflowsPrivateRegistry :: int
  cq_workflowsInUse :: int
  cq_concurrentExecutionsPerOwner :: int
  cq_concurrentExecutionsPerWorkflow :: int
  cq_maxWasmBytes :: int
  cq_maxCompressedWasmBytes :: int
  cq_maxConfigBytes :: int
  cq_maxTriggerSubscriptions :: int
  cq_executionTimeoutMs :: int
  cq_maxMemoryBytes :: int
  cq_transactionGasLimit :: int

definition TESTNET_DEFAULT_REGISTRY :: string where
  "TESTNET_DEFAULT_REGISTRY = ''private''"

definition selectRegistry :: "deployment_environment \<Rightarrow> string option \<Rightarrow> registry_error + string" where
  "selectRegistry env requested =
    (let wanted = (case requested of Some r \<Rightarrow> r | None \<Rightarrow> TESTNET_DEFAULT_REGISTRY) in
     if startsWith wanted ''onchain:'' then Inl (RegistryEnvironment (EnvironmentError MAINNET_CONTROL_PLANE_PROHIBITED))
     else if wanted \<notin> set (de_allowedCreRegistries env) then Inl (RegistryCre REGISTRY_NOT_ALLOWED)
     else Inr wanted)"

record cre_artifact =
  ca_workflowName :: string
  ca_wasmPath :: string
  ca_wasmBytes :: int
  ca_wasmSha256 :: string
  ca_binaryHash :: string
  ca_configHash :: string
  ca_workflowHash :: string
  ca_sourceTreeHash :: string
  ca_configSha256 :: string
  ca_creCliVersion :: string
  ca_builtAtMs :: int

definition sourceTreeHash :: "(string \<Rightarrow> string) \<Rightarrow> (string \<times> string) list \<Rightarrow> string" where
  "sourceTreeHash sha256Hex files =
    ''sha256:'' @ sha256Hex (join [CHR 0x0A] (sort (map (\<lambda>(path, content). path @ '':'' @ sha256Hex content) files)))"

definition cmp_field :: "(cre_artifact \<Rightarrow> string) \<Rightarrow> string \<Rightarrow> cre_artifact \<Rightarrow> cre_artifact \<Rightarrow> string list" where
  "cmp_field f label approved current = (if f approved \<noteq> f current then [label] else [])"

definition artifactDrift :: "cre_artifact \<Rightarrow> cre_artifact \<Rightarrow> string list" where
  "artifactDrift approved current =
    cmp_field ca_wasmSha256 ''WASM sha256'' approved current @
    cmp_field ca_binaryHash ''CRE binary hash'' approved current @
    cmp_field ca_configHash ''CRE config hash'' approved current @
    cmp_field ca_workflowHash ''CRE workflow hash'' approved current @
    cmp_field ca_sourceTreeHash ''source tree hash'' approved current @
    cmp_field ca_configSha256 ''config file sha256'' approved current"

definition assertNoArtifactDrift :: "cre_artifact \<Rightarrow> cre_artifact \<Rightarrow> cre_reason + unit" where
  "assertNoArtifactDrift approved current = ensure (artifactDrift approved current = []) ARTIFACT_DRIFT"

record limit_simulation =
  ls_ran :: bool
  ls_limitsProfile :: string
  ls_violations :: "string list"
  ls_cliVersion :: string
  ls_ranAtMs :: int

definition assertLimitsSatisfied :: "limit_simulation option \<Rightarrow> cre_reason + unit" where
  "assertLimitsSatisfied sim =
    (case sim of
       None \<Rightarrow> Inl LIMITS_NOT_SIMULATED
     | Some s \<Rightarrow> if \<not> ls_ran s then Inl LIMITS_NOT_SIMULATED
                else if ls_violations s \<noteq> [] then Inl LIMITS_VIOLATED else Inr ())"

record quota_check =
  qc_name :: string
  qc_used :: int
  qc_allowed :: int
  qc_ok :: bool
  qc_unit :: string

record quota_use =
  qu_wasmBytes :: int
  qu_compressedWasmBytes :: int
  qu_configBytes :: int
  qu_triggerCount :: int

definition quota_row :: "string \<Rightarrow> int \<Rightarrow> int \<Rightarrow> string \<Rightarrow> quota_check" where
  "quota_row name used allowed unit = \<lparr>qc_name = name, qc_used = used, qc_allowed = allowed, qc_ok = (used \<le> allowed), qc_unit = unit\<rparr>"

definition checkQuotas :: "cre_quota \<Rightarrow> quota_use \<Rightarrow> quota_check list" where
  "checkQuotas snapshot a =
    [quota_row ''private-registry workflows'' (cq_workflowsInUse snapshot + 1) (cq_maxWorkflowsPrivateRegistry snapshot) ''workflows'',
     quota_row ''WASM binary size'' (qu_wasmBytes a) (cq_maxWasmBytes snapshot) ''bytes'',
     quota_row ''compressed WASM size'' (qu_compressedWasmBytes a) (cq_maxCompressedWasmBytes snapshot) ''bytes'',
     quota_row ''workflow config size'' (qu_configBytes a) (cq_maxConfigBytes snapshot) ''bytes'',
     quota_row ''trigger subscriptions'' (qu_triggerCount a) (cq_maxTriggerSubscriptions snapshot) ''subscriptions'']"

definition assertQuotasOk :: "quota_check list \<Rightarrow> cre_reason + unit" where
  "assertQuotasOk checks = ensure (filter (\<lambda>c. \<not> qc_ok c) checks = []) QUOTA_EXCEEDED"

definition assertDeployAccess :: "cre_status \<Rightarrow> cre_reason + unit" where
  "assertDeployAccess status =
    (if \<not> cx_connected status then Inl NOT_CONNECTED
     else if cx_staleness status \<noteq> CURRENT then Inl BRIDGE_OFFLINE
     else if \<not> cx_deployAccess status then Inl DEPLOY_ACCESS_REQUIRED
     else Inr ())"

definition creSupportsChain :: "cre_status \<Rightarrow> string \<Rightarrow> bool" where
  "creSupportsChain status chainSelector = list_ex (\<lambda>c. ch_chainSelector c = chainSelector) (cx_supportedChains status)"

section \<open>What the manifest hash binds\<close>

lemma manifest_texts_inject [simp]:
  "environment_kind_text a = environment_kind_text b \<longleftrightarrow> a = b"
  "disposition_name c = disposition_name d \<longleftrightarrow> c = d"
  "balance_category_text e = balance_category_text f \<longleftrightarrow> e = f"
  "signer_role_text g = signer_role_text h \<longleftrightarrow> g = h"
  "signing_mode_text i = signing_mode_text j \<longleftrightarrow> i = j"
  "authorization_model_text k = authorization_model_text l \<longleftrightarrow> k = l"
  subgoal by (cases a; cases b) simp_all
  subgoal by (cases c; cases d) simp_all
  subgoal by (cases e; cases f) simp_all
  subgoal by (cases g; cases h) simp_all
  subgoal by (cases i; cases j) simp_all
  subgoal by (cases k; cases l) simp_all
  done

lemma j_int_list_inject [simp]: "map j_int xs = map j_int ys \<longleftrightarrow> xs = ys"
  by (simp add: inj_map_eq_map inj_def)

lemma walk_j_ints [simp]: "map (walk \<circ> j_int) xs = map j_int xs"
  by simp

lemma chain_json_inject: "walk (chain_json a) = walk (chain_json b) \<longleftrightarrow> a = b"
  by (auto simp: chain_json_def walk_record_iff)

lemma compiler_json_inject: "walk (compiler_json a) = walk (compiler_json b) \<longleftrightarrow> a = b"
  by (auto simp: compiler_json_def walk_record_iff)

lemma walk_chains [simp]: "map (walk \<circ> chain_json) xs = map (walk \<circ> chain_json) ys \<longleftrightarrow> xs = ys"
  using walked_list_inject [of chain_json xs ys] by (auto simp: chain_json_inject)

lemma environment_json_inject: "walk (environment_json a) = walk (environment_json b) \<longleftrightarrow> a = b"
  by (auto simp: environment_json_def walk_record_iff)

lemma walk_compiler_nullable [simp]: "walk (j_nullable compiler_json x) = walk (j_nullable compiler_json y) \<longleftrightarrow> x = y"
  by (rule walk_nullable_inject) (auto simp: compiler_json_inject, simp add: compiler_json_def)

lemma contract_json_inject: "walk (contract_json a) = walk (contract_json b) \<longleftrightarrow> a = b"
  by (auto simp: contract_json_def walk_record_iff)

lemma ens_json_inject: "walk (ens_json a) = walk (ens_json b) \<longleftrightarrow> a = b"
  by (auto simp: ens_json_def walk_record_iff)

lemma workflow_json_inject: "walk (workflow_json a) = walk (workflow_json b) \<longleftrightarrow> a = b"
  by (auto simp: workflow_json_def walk_record_iff)

lemma image_json_inject: "walk (image_json a) = walk (image_json b) \<longleftrightarrow> a = b"
  by (auto simp: image_json_def walk_record_iff)

lemma adapter_json_inject: "walk (adapter_json a) = walk (adapter_json b) \<longleftrightarrow> a = b"
  by (auto simp: adapter_json_def walk_record_iff)

lemma signer_json_inject: "walk (signer_json a) = walk (signer_json b) \<longleftrightarrow> a = b"
  by (auto simp: signer_json_def walk_record_iff)

lemma balance_json_inject: "walk (balance_json a) = walk (balance_json b) \<longleftrightarrow> a = b"
  by (auto simp: balance_json_def walk_record_iff)

lemmas manifest_part_inject = environment_json_inject contract_json_inject ens_json_inject workflow_json_inject image_json_inject
  adapter_json_inject signer_json_inject balance_json_inject

lemma manifest_part_lists [simp]:
  "map (walk \<circ> contract_json) cs = map (walk \<circ> contract_json) cs' \<longleftrightarrow> cs = cs'"
  "map (walk \<circ> ens_json) es = map (walk \<circ> ens_json) es' \<longleftrightarrow> es = es'"
  "map (walk \<circ> workflow_json) ws = map (walk \<circ> workflow_json) ws' \<longleftrightarrow> ws = ws'"
  "map (walk \<circ> image_json) is = map (walk \<circ> image_json) is' \<longleftrightarrow> is = is'"
  "map (walk \<circ> adapter_json) as = map (walk \<circ> adapter_json) as' \<longleftrightarrow> as = as'"
  "map (walk \<circ> signer_json) ss = map (walk \<circ> signer_json) ss' \<longleftrightarrow> ss = ss'"
  "map (walk \<circ> balance_json) bs = map (walk \<circ> balance_json) bs' \<longleftrightarrow> bs = bs'"
  using walked_list_inject [of contract_json cs cs'] walked_list_inject [of ens_json es es'] walked_list_inject [of workflow_json ws ws']
    walked_list_inject [of image_json "is" is'] walked_list_inject [of adapter_json "as" as'] walked_list_inject [of signer_json ss ss']
    walked_list_inject [of balance_json bs bs'] by (auto simp: manifest_part_inject)

definition unnamed :: "deployment_manifest \<Rightarrow> deployment_manifest" where
  "unnamed m = m\<lparr>dm_manifestId := [], dm_generatedAt := []\<rparr>"

lemma manifest_keys_ok: "distinct manifest_keys" "length manifest_keys = 20"
  by (simp_all add: manifest_keys_def)

lemma manifestIdentity_inject: "walk (manifestIdentity m) = walk (manifestIdentity n) \<longleftrightarrow> unnamed m = unnamed n"
proof -
  have "unnamed m = unnamed n \<longleftrightarrow>
      dm_schemaVersion m = dm_schemaVersion n \<and> dm_projectId m = dm_projectId n \<and> dm_buildId m = dm_buildId n \<and>
      dm_blueprintRevision m = dm_blueprintRevision n \<and> dm_buildRevision m = dm_buildRevision n \<and> dm_strategyHash m = dm_strategyHash n \<and>
      dm_organizationHash m = dm_organizationHash n \<and> dm_gitCommit m = dm_gitCommit n \<and> dm_environment m = dm_environment n \<and>
      dm_contracts m = dm_contracts n \<and> dm_ens m = dm_ens n \<and> dm_creWorkflows m = dm_creWorkflows n \<and>
      dm_runtimeImages m = dm_runtimeImages n \<and> dm_adapters m = dm_adapters n \<and> dm_authorizationModel m = dm_authorizationModel n \<and>
      dm_requiredSigners m = dm_requiredSigners n \<and> dm_requiredBalances m = dm_requiredBalances n"
    by (cases m; cases n) (auto simp: unnamed_def)
  then show ?thesis
    by (simp add: manifestIdentity_def walk_record_iff manifest_keys_ok environment_json_inject)
qed

lemmas manifest_part_defs = environment_json_def chain_json_def contract_json_def compiler_json_def ens_json_def workflow_json_def
  image_json_def adapter_json_def signer_json_def balance_json_def

lemma manifestIdentity_finite [simp]: "json_finite (manifestIdentity m)"
  by (simp add: manifestIdentity_def manifest_keys_def manifest_part_defs j_nullable_def split: option.splits)

lemma manifest_hash_iff:
  assumes "number_text num" "inj_on sha {canonicalize num (manifestIdentity m), canonicalize num (manifestIdentity n)}"
  shows "manifestHash sha num m = manifestHash sha num n \<longleftrightarrow> unnamed m = unnamed n"
  unfolding manifestHash_def by (simp add: digest_binds [OF assms(1) _ _ assms(2)] manifestIdentity_inject)

text \<open>
  C34: The manifest hash binds the whole manifest. Two manifests have the same hash exactly when they
  are equal in every field but \<open>manifestId\<close> and \<open>generatedAt\<close>: environment and its write permission,
  contracts, identities, workflows, images, adapters, signers and balances are all inside it, so
  regenerating from unchanged inputs keeps the hash and any other change loses it.
\<close>

theorem manifest_hash_exact:
  assumes "number_text num" "inj_on sha {canonicalize num (manifestIdentity m), canonicalize num (manifestIdentity n)}"
  shows "manifestHash sha num m = manifestHash sha num n \<longleftrightarrow>
      m\<lparr>dm_manifestId := [], dm_generatedAt := []\<rparr> = n\<lparr>dm_manifestId := [], dm_generatedAt := []\<rparr>"
  using manifest_hash_iff [OF assms] by (simp add: unnamed_def)

section \<open>Reuse is evidence\<close>

lemma verifyReuse_ok:
  "verifyReuse keccak c reader t = Inr (ReuseOk d address h) \<Longrightarrow> \<not> deploy_new c \<Longrightarrow>
     mc_chainId c = cr_chainId reader \<and> truthy (mc_address c) = Some address \<and>
     (\<exists>code expected. cr_getCode reader t address = Inr (Some code) \<and> code \<notin> {[], ''0x''} \<and> h = keccak code \<and>
        mc_runtimeCodeHash c = Some expected \<and> toLowerCase h = toLowerCase expected)"
  by (auto simp: verifyReuse_def res_bind_Inr_iff truthy_def split: if_splits option.splits)

text \<open>What one entry contributes to the report.\<close>

definition reuse_evidence :: "(string \<Rightarrow> string) \<Rightarrow> (int \<rightharpoonup> chain_reader) \<Rightarrow> manifest_contract \<Rightarrow> bool" where
  "reuse_evidence keccak readers c \<longleftrightarrow>
     (\<exists>reader t address code expected. readers (mc_chainId c) = Some reader \<and> cr_chainId reader = mc_chainId c \<and>
        mc_address c = Some address \<and> cr_getCode reader t address = Inr (Some code) \<and> code \<notin> {[], ''0x''} \<and>
        mc_runtimeCodeHash c = Some expected \<and> toLowerCase (keccak code) = toLowerCase expected)"

lemma reuse_one_clean:
  assumes "reuse_one keccak readers c t rep = Inr rep'" "rr_rejected rep' = []"
  shows "rr_rejected rep = [] \<and> (deploy_new c \<or> reuse_evidence keccak readers c)"
proof (cases "deploy_new c")
  case False
  with assms obtain reader v where r: "readers (mc_chainId c) = Some reader" and v: "verifyReuse keccak c reader t = Inr v"
    by (auto simp: reuse_one_def res_bind_Inr_iff split: option.splits)
  with assms False obtain d a h where ok: "v = ReuseOk d a h" and "rr_rejected rep = []"
    by (cases v) (auto simp: reuse_one_def)
  with verifyReuse_ok [of keccak c reader t d a h] v r False show ?thesis
    by (auto simp: reuse_evidence_def truthy_def split: option.splits if_splits)
qed (use assms in \<open>auto simp: reuse_one_def\<close>)

lemma reuse_all_clean:
  assumes "reuse_all keccak readers cs t rep = Inr rep'" "rr_rejected rep' = []"
  shows "rr_rejected rep = [] \<and> (\<forall>c \<in> set cs. deploy_new c \<or> reuse_evidence keccak readers c)"
  using assms
proof (induction cs arbitrary: t rep)
  case (Cons c cs)
  then obtain r where r: "reuse_one keccak readers c t rep = Inr r" "reuse_all keccak readers cs (Suc t) r = Inr rep'"
    by (auto simp: res_bind_Inr_iff)
  from Cons.IH [OF r(2) Cons.prems(2)] have "rr_rejected r = []"
    and rest: "\<forall>c \<in> set cs. deploy_new c \<or> reuse_evidence keccak readers c" by auto
  with reuse_one_clean [OF r(1)] show ?case by simp
qed simp

text \<open>
  An address is never trusted on its own. When the reuse report does not block, every contract
  entry that points at an existing address was checked against a reader of its own chain: non-empty
  code was read at the pinned address and its hash is the pinned runtime hash, letter case aside.
  An entry without an address, without a pinned hash, without code or without a reader blocks.
\<close>

theorem reuse_is_verified:
  assumes "resolveReuse keccak contracts readers t = Inr report" "\<not> reuseBlocks report"
    and "c \<in> set contracts" "mc_disposition c \<in> {REUSE_VERIFIED, CONFIGURE_EXISTING}"
  shows "\<exists>reader u address code expected. readers (mc_chainId c) = Some reader \<and> cr_chainId reader = mc_chainId c \<and>
      mc_address c = Some address \<and> cr_getCode reader u address = Inr (Some code) \<and> code \<notin> {[], ''0x''} \<and>
      mc_runtimeCodeHash c = Some expected \<and> toLowerCase (keccak code) = toLowerCase expected"
  using reuse_all_clean [of keccak readers contracts t empty_report report] assms
  by (auto simp: resolveReuse_def reuseBlocks_def reuse_evidence_def deploy_new_def)

section \<open>CRE gates\<close>

lemma drift_empty_iff:
  "artifactDrift a b = [] \<longleftrightarrow> ca_wasmSha256 a = ca_wasmSha256 b \<and> ca_binaryHash a = ca_binaryHash b \<and> ca_configHash a = ca_configHash b \<and>
     ca_workflowHash a = ca_workflowHash b \<and> ca_sourceTreeHash a = ca_sourceTreeHash b \<and> ca_configSha256 a = ca_configSha256 b"
  by (simp add: artifactDrift_def cmp_field_def)

lemma select_registry_iff:
  "selectRegistry env req = Inr r \<longleftrightarrow>
     r = (case req of Some x \<Rightarrow> x | None \<Rightarrow> ''private'') \<and> \<not> startsWith r ''onchain:'' \<and> r \<in> set (de_allowedCreRegistries env)"
  by (cases req) (auto simp: selectRegistry_def TESTNET_DEFAULT_REGISTRY_def Let_def)

lemma quotas_ok_iff:
  "assertQuotasOk (checkQuotas q a) = Inr () \<longleftrightarrow>
     cq_workflowsInUse q < cq_maxWorkflowsPrivateRegistry q \<and> qu_wasmBytes a \<le> cq_maxWasmBytes q \<and>
     qu_compressedWasmBytes a \<le> cq_maxCompressedWasmBytes q \<and> qu_configBytes a \<le> cq_maxConfigBytes q \<and>
     qu_triggerCount a \<le> cq_maxTriggerSubscriptions q"
  by (auto simp: assertQuotasOk_def checkQuotas_def quota_row_def)

section \<open>Witnesses\<close>

definition sample_contract :: manifest_contract where
  "sample_contract = \<lparr>mc_name = ''core'', mc_chainId = 84532, mc_disposition = REUSE_VERIFIED, mc_address = Some ''0xc0'',
     mc_runtimeCodeHash = Some ''0x60'', mc_creationCodeHash = None, mc_compiler = None\<rparr>"

definition sample_workflow :: manifest_cre_workflow where
  "sample_workflow = \<lparr>mw_workflowName = ''policy'', mw_registry = ''private'', mw_binaryHash = ''bin'', mw_configHash = ''cfg'',
     mw_workflowHash = ''wf'', mw_sourceTreeHash = ''src'', mw_creCliVersion = ''1''\<rparr>"

definition sample_image :: manifest_runtime_image where
  "sample_image = \<lparr>mi_agentId = ''agent'', mi_tag = ''v1'', mi_imageDigest = Some ''sha256:i'', mi_sbomDigest = None,
     mi_provenanceDigest = None, mi_vulnerabilityReportDigest = None, mi_baseImageDigest = None\<rparr>"

definition sample_manifest :: deployment_manifest where
  "sample_manifest = \<lparr>dm_schemaVersion = ''contextlock.deployment-manifest/v1'', dm_manifestId = ''m'', dm_projectId = ''p'',
     dm_buildId = ''b'', dm_blueprintRevision = 1, dm_buildRevision = 1, dm_strategyHash = ''sha256:s'', dm_organizationHash = None,
     dm_gitCommit = ''abcdef0'', dm_environment = testnetEnvironment [BASE_SEPOLIA], dm_contracts = [sample_contract], dm_ens = [],
     dm_creWorkflows = [sample_workflow], dm_runtimeImages = [sample_image], dm_adapters = [], dm_authorizationModel = SINGLE_EOA,
     dm_requiredSigners = [\<lparr>sr_signerId = ''deployer'', sr_role = DEPLOYER, sr_address = Some ''0xa'', sr_mode = BROWSER_WALLET,
        sr_chainIds = [84532], sr_authorizes = ''deploy''\<rparr>],
     dm_requiredBalances = [], dm_generatedAt = ''now''\<rparr>"

theorem manifest_hash_exact_witness:
  "manifestHash id sample_num sample_manifest = manifestHash id sample_num (sample_manifest\<lparr>dm_generatedAt := ''later''\<rparr>) \<and>
   manifestHash id sample_num sample_manifest \<noteq>
     manifestHash id sample_num (sample_manifest\<lparr>dm_environment := mainnetEnvironment\<rparr>)"
proof -
  have i: "inj_on id A" for A :: "string set" by simp
  show ?thesis
    using manifest_hash_exact [OF sample_number_text i, of sample_manifest "sample_manifest\<lparr>dm_generatedAt := ''later''\<rparr>"]
      manifest_hash_exact [OF sample_number_text i, of sample_manifest "sample_manifest\<lparr>dm_environment := mainnetEnvironment\<rparr>"]
    by (simp add: sample_manifest_def testnetEnvironment_def mainnetEnvironment_def)
qed

theorem reuse_is_verified_witness:
  "(\<exists>report. resolveReuse id [sample_contract] [84532 \<mapsto> sample_reader] 0 = Inr report \<and> \<not> reuseBlocks report) \<and>
   (\<exists>code expected. cr_getCode sample_reader 0 ''0xc0'' = Inr (Some code) \<and> mc_runtimeCodeHash sample_contract = Some expected \<and>
      toLowerCase (id code) = toLowerCase expected)"
proof -
  let ?rep = "\<lparr>rr_verified = [(''core'', ''0xc0'', ''0x60'')], rr_rejected = [], rr_toDeploy = [], rr_toConfigure = []\<rparr>"
  have run: "resolveReuse id [sample_contract] [84532 \<mapsto> sample_reader] 0 = Inr ?rep"
    by (simp add: resolveReuse_def reuse_one_def verifyReuse_def deploy_new_def sample_contract_def sample_reader_def truthy_def empty_report_def)
  have ok: "\<not> reuseBlocks ?rep" by (simp add: reuseBlocks_def)
  have "mc_disposition sample_contract \<in> {REUSE_VERIFIED, CONFIGURE_EXISTING}" by (simp add: sample_contract_def)
  from reuse_is_verified [OF run ok _ this] run ok show ?thesis by (auto simp: sample_contract_def sample_reader_def)
qed

end
