(* ===== verification/Deploy_Cost.thy ===== *)
theory Deploy_Cost
  imports Deploy_Manifest
begin

text \<open>
  The deployment cost estimator (\<open>packages/studio-deploy/src/cost.ts\<close>): fee quotes, step costs,
  per-chain funding and required balances. Wei amounts are bigints; a step carries them as decimal
  text, which the schema restricts to digits. The prose of a balance's purpose is the caller's
  parameter. The constructor encoder of viem is a parameter.
\<close>

section \<open>Quotes and costs\<close>

definition DEFAULT_BUFFER_BPS :: int where "DEFAULT_BUFFER_BPS = 2000"

definition FEE_QUOTE_TTL_MS :: int where "FEE_QUOTE_TTL_MS = 120000"

datatype cost_reason = STALE_QUOTE | NO_FEE_DATA | ESTIMATE_FAILED | INSUFFICIENT_BALANCE | NOT_LIVE

datatype cost_error = CostError cost_reason | CostRpc rpc_error

record fee_quote =
  fq_chainId :: int
  fq_mode :: fee_mode
  fq_maxFeePerGasWei :: int
  fq_maxPriorityFeePerGasWei :: "int option"
  fq_quotedAtMs :: int
  fq_fromLiveNode :: bool

definition positive_fee :: "int option \<Rightarrow> int option" where
  "positive_fee x = (case x of Some f \<Rightarrow> if 0 < f then Some f else None | None \<Rightarrow> None)"

definition quoteFees :: "chain_reader \<Rightarrow> int \<Rightarrow> tick \<Rightarrow> cost_error + fee_quote" where
  "quoteFees reader nowMs t =
    (case cr_estimateFeesPerGas reader t of
       Inl e \<Rightarrow> Inl (CostRpc e)
     | Inr f \<Rightarrow>
       (case positive_fee (fd_maxFeePerGas f) of
          Some fee \<Rightarrow> Inr \<lparr>fq_chainId = cr_chainId reader, fq_mode = EIP1559, fq_maxFeePerGasWei = fee,
              fq_maxPriorityFeePerGasWei = fd_maxPriorityFeePerGas f, fq_quotedAtMs = nowMs, fq_fromLiveNode = cr_live reader\<rparr>
        | None \<Rightarrow>
          (case positive_fee (fd_gasPrice f) of
             Some price \<Rightarrow> Inr \<lparr>fq_chainId = cr_chainId reader, fq_mode = LEGACY, fq_maxFeePerGasWei = price,
                 fq_maxPriorityFeePerGasWei = None, fq_quotedAtMs = nowMs, fq_fromLiveNode = cr_live reader\<rparr>
           | None \<Rightarrow> Inl (CostError NO_FEE_DATA))))"

definition quoteIsStale :: "int \<Rightarrow> int \<Rightarrow> bool" where
  "quoteIsStale quotedAtMs now = (FEE_QUOTE_TTL_MS < now - quotedAtMs)"

definition costFrom :: "int \<Rightarrow> fee_quote \<Rightarrow> int \<Rightarrow> step_cost" where
  "costFrom estimatedGas quote bufferBps =
    (let base = estimatedGas * fq_maxFeePerGasWei quote; buffer = bigint_div (base * bufferBps) 10000 in
     \<lparr>sc_estimatedGas = show_int estimatedGas, sc_feeMode = fq_mode quote,
      sc_maxFeePerGasWei = show_int (fq_maxFeePerGasWei quote),
      sc_maxPriorityFeePerGasWei = map_option show_int (fq_maxPriorityFeePerGasWei quote),
      sc_baseNativeWei = show_int base, sc_bufferBps = bufferBps, sc_bufferNativeWei = show_int buffer,
      sc_totalNativeWei = show_int (base + buffer), sc_quotedAtMs = fq_quotedAtMs quote, sc_fromLiveNode = fq_fromLiveNode quote\<rparr>)"

definition estimateContractCreation ::
  "chain_reader \<Rightarrow> string \<Rightarrow> string \<Rightarrow> int \<Rightarrow> int \<Rightarrow> tick \<Rightarrow> cost_error + (step_cost \<times> string)" where
  "estimateContractCreation reader from deployData nowMs bufferBps t =
    (case cr_estimateGas reader t \<lparr>rl_from = from, rl_to = None, rl_data = deployData, rl_value = None\<rparr> of
       Inl _ \<Rightarrow> Inl (CostError ESTIMATE_FAILED)
     | Inr gas \<Rightarrow> res_bind (quoteFees reader nowMs (Suc t)) (\<lambda>quote. Inr (costFrom gas quote bufferBps, deployData)))"

definition estimateConfigurationWrite :: "chain_reader \<Rightarrow> reader_call \<Rightarrow> int \<Rightarrow> int \<Rightarrow> tick \<Rightarrow> cost_error + step_cost" where
  "estimateConfigurationWrite reader tx nowMs bufferBps t =
    (case cr_call reader t tx of
       Inl _ \<Rightarrow> Inl (CostError ESTIMATE_FAILED)
     | Inr _ \<Rightarrow>
       (case cr_estimateGas reader (Suc t) tx of
          Inl _ \<Rightarrow> Inl (CostError ESTIMATE_FAILED)
        | Inr gas \<Rightarrow> res_bind (quoteFees reader nowMs (Suc (Suc t))) (\<lambda>quote. Inr (costFrom gas quote bufferBps))))"

section \<open>Per-chain aggregation\<close>

definition wei :: "string \<Rightarrow> int" where
  "wei s = (case BigInt s of Some v \<Rightarrow> v | None \<Rightarrow> 0)"

record chain_acc =
  ac_base :: int
  ac_buffer :: int
  ac_quotedAtMs :: int
  ac_live :: bool
  ac_bps :: "int list"

definition MAX_SAFE_INTEGER :: int where "MAX_SAFE_INTEGER = 9007199254740991"

definition empty_acc :: chain_acc where
  "empty_acc = \<lparr>ac_base = 0, ac_buffer = 0, ac_quotedAtMs = MAX_SAFE_INTEGER, ac_live = True, ac_bps = []\<rparr>"

definition add_cost :: "step_cost \<Rightarrow> chain_acc \<Rightarrow> chain_acc" where
  "add_cost c cur =
    \<lparr>ac_base = ac_base cur + wei (sc_baseNativeWei c), ac_buffer = ac_buffer cur + wei (sc_bufferNativeWei c),
     ac_quotedAtMs = min (ac_quotedAtMs cur) (sc_quotedAtMs c), ac_live = (ac_live cur \<and> sc_fromLiveNode c),
     ac_bps = (if sc_bufferBps c \<in> set (ac_bps cur) then ac_bps cur else ac_bps cur @ [sc_bufferBps c])\<rparr>"

definition accumulate :: "deployment_step \<Rightarrow> (int \<times> chain_acc) list \<Rightarrow> (int \<times> chain_acc) list" where
  "accumulate s acc =
    (case (ds_chainId s, ds_cost s) of
       (Some chainId, Some c) \<Rightarrow>
         map_set chainId (add_cost c (case map_of acc chainId of Some cur \<Rightarrow> cur | None \<Rightarrow> empty_acc)) acc
     | _ \<Rightarrow> acc)"

record chain_meta =
  cm_symbol :: string
  cm_decimals :: int
  cm_holder :: string

record chain_funding =
  cf_chainId :: int
  cf_symbol :: string
  cf_decimals :: int
  cf_baseWei :: int
  cf_bufferWei :: int
  cf_bufferBps :: "int option"
  cf_recommendedWei :: int
  cf_holder :: string
  cf_balanceWei :: int
  cf_sufficient :: bool
  cf_shortfallWei :: int
  cf_quotedAtMs :: int
  cf_fromLiveNode :: bool

definition funding_row :: "chain_meta \<Rightarrow> int \<Rightarrow> int \<Rightarrow> chain_acc \<Rightarrow> chain_funding" where
  "funding_row meta balance chainId v =
    (let recommended = ac_base v + ac_buffer v in
     \<lparr>cf_chainId = chainId, cf_symbol = cm_symbol meta, cf_decimals = cm_decimals meta, cf_baseWei = ac_base v,
      cf_bufferWei = ac_buffer v, cf_bufferBps = (case ac_bps v of [b] \<Rightarrow> Some b | _ \<Rightarrow> None), cf_recommendedWei = recommended,
      cf_holder = cm_holder meta, cf_balanceWei = balance, cf_sufficient = (recommended \<le> balance),
      cf_shortfallWei = (if recommended \<le> balance then 0 else recommended - balance), cf_quotedAtMs = ac_quotedAtMs v,
      cf_fromLiveNode = ac_live v\<rparr>)"

definition aggregateByChain ::
  "deployment_step list \<Rightarrow> (int \<rightharpoonup> chain_meta) \<Rightarrow> (int \<rightharpoonup> int) \<Rightarrow> chain_funding list" where
  "aggregateByChain steps chainMeta balances =
    sort_key cf_chainId (List.map_filter
      (\<lambda>(chainId, v). map_option (\<lambda>meta. funding_row meta (case balances chainId of Some b \<Rightarrow> b | None \<Rightarrow> 0) chainId v) (chainMeta chainId))
      (fold accumulate steps []))"

definition requiredBalancesFor ::
  "(chain_funding \<Rightarrow> string) \<Rightarrow> chain_funding list \<Rightarrow> required_balance list \<Rightarrow> cost_error + required_balance list" where
  "requiredBalancesFor purpose funding operatingAssets =
    (let gas = map (\<lambda>f. \<lparr>rb_category = NATIVE_GAS, rb_chainId = cf_chainId f, rb_token = None, rb_symbol = cf_symbol f,
            rb_decimals = cf_decimals f, rb_amount = show_int (cf_recommendedWei f), rb_holder = cf_holder f, rb_purpose = purpose f\<rparr>) funding
     in res_bind (for_each (\<lambda>a. ensure (rb_category a \<noteq> NATIVE_GAS) (CostError ESTIMATE_FAILED)) operatingAssets)
          (\<lambda>_. Inr (gas @ operatingAssets)))"

text \<open>\<open>formatUnitsExact\<close>: whole part, then the padded fraction cut to \<open>places\<close> digits without trailing zeros.\<close>

definition strip_zeros :: "string \<Rightarrow> string" where
  "strip_zeros s = rev (dropWhile (\<lambda>c. c = CHR ''0'') (rev s))"

definition formatUnitsExact :: "int \<Rightarrow> nat \<Rightarrow> nat \<Rightarrow> string" where
  "formatUnitsExact w decimals places =
    (let v = nat \<bar>w\<bar>; d = 10 ^ decimals;
         frac = strip_zeros (take places (padStart decimals (show_nat (v mod d))))
     in (if w < 0 then ''-'' else []) @ show_nat (v div d) @ (if frac \<noteq> [] then ''.'' @ frac else []))"

section \<open>Round trips of amounts\<close>

lemma digits_solid: "all_digits s \<Longrightarrow> \<forall>c \<in> set s. \<not> is_space c"
  by (auto simp: all_digits_def list_all_iff char_class_defs is_space_def)

lemma BigInt_digits: "all_digits s \<Longrightarrow> BigInt s = Some (int (parse_nat s))"
  using trim_solid [OF digits_solid, of s] by (auto simp: BigInt_def Let_def all_digits_def trim_def)

lemma BigInt_show_nat [simp]: "BigInt (show_nat n) = Some (int n)"
  by (simp add: BigInt_digits all_digits_show_nat)

lemma BigInt_show_int [simp]: "BigInt (show_int i) = Some i"
proof (cases "i < 0")
  case False
  then show ?thesis by (simp add: show_int_def)
next
  case True
  let ?s = "show_nat (nat (- i))"
  have d: "all_digits ?s" by (rule all_digits_show_nat)
  have "\<forall>c \<in> set (CHR ''-'' # ?s). \<not> is_space c" using digits_solid [OF d] by (simp add: is_space_def)
  note trim = trim_solid [OF this, unfolded trim_def]
  have "\<not> all_digits (CHR ''-'' # ?s)" by (simp add: all_digits_def char_class_defs)
  with True trim d show ?thesis by (simp add: BigInt_def show_int_def Let_def)
qed

lemma wei_show [simp]: "wei (show_int i) = i"
  by (simp add: wei_def)

lemma cost_text_roundtrip_parts:
  fixes quote :: fee_quote
  assumes "0 \<le> gas" "0 \<le> fq_maxFeePerGasWei quote" "0 \<le> bps"
  defines "c \<equiv> costFrom gas quote bps" and "base \<equiv> gas * fq_maxFeePerGasWei quote"
  shows "BigInt (sc_estimatedGas c) = Some gas" "BigInt (sc_maxFeePerGasWei c) = Some (fq_maxFeePerGasWei quote)"
    and "BigInt (sc_baseNativeWei c) = Some base"
    and "BigInt (sc_totalNativeWei c) = Some (base + wei (sc_bufferNativeWei c))"
    and "wei (sc_bufferNativeWei c) * 10000 \<le> base * bps \<and> base * bps < (wei (sc_bufferNativeWei c) + 1) * 10000"
    and "0 \<le> wei (sc_bufferNativeWei c)"
    and "sc_quotedAtMs c = fq_quotedAtMs quote \<and> (sc_fromLiveNode c \<longleftrightarrow> fq_fromLiveNode quote)"
proof -
  have "0 \<le> base" using assms(1,2) by (simp add: base_def)
  then have nn: "0 \<le> base * bps" using assms(3) by simp
  have buffer: "wei (sc_bufferNativeWei c) = base * bps div 10000"
    using nn by (simp add: c_def costFrom_def Let_def base_def)
  have share: "x div 10000 * 10000 \<le> x \<and> x < (x div 10000 + 1) * 10000" for x :: int by presburger
  show "wei (sc_bufferNativeWei c) * 10000 \<le> base * bps \<and> base * bps < (wei (sc_bufferNativeWei c) + 1) * 10000"
    unfolding buffer using share by blast
  show "0 \<le> wei (sc_bufferNativeWei c)" unfolding buffer using nn by simp
qed (simp_all add: c_def costFrom_def Let_def base_def)

text \<open>
  A step cost survives its decimal texts and never rounds the requirement below the estimate.
  Reading back the texts of \<open>costFrom\<close> gives the gas, the fee, base = gas times fee, and total = base
  plus buffer; with a non-negative estimate and buffer rate the buffer is the rate's share rounded
  down by less than one wei, so base \<open>\<le>\<close> total \<open>\<le>\<close> base + rate, and the quote's age and origin are kept.
\<close>

theorem cost_text_roundtrip:
  fixes quote :: fee_quote
  assumes "0 \<le> gas" "0 \<le> fq_maxFeePerGasWei quote" "0 \<le> bps"
    and c: "c = costFrom gas quote bps" and base: "base = gas * fq_maxFeePerGasWei quote"
  shows "(BigInt (sc_estimatedGas c) = Some gas)
   \<and> (BigInt (sc_maxFeePerGasWei c) = Some (fq_maxFeePerGasWei quote))
   \<and> (BigInt (sc_baseNativeWei c) = Some base)
   \<and> (BigInt (sc_totalNativeWei c) = Some (base + wei (sc_bufferNativeWei c)))
   \<and> (wei (sc_bufferNativeWei c) * 10000 \<le> base * bps \<and> base * bps < (wei (sc_bufferNativeWei c) + 1) * 10000)
   \<and> (0 \<le> wei (sc_bufferNativeWei c))
   \<and> (sc_quotedAtMs c = fq_quotedAtMs quote \<and> (sc_fromLiveNode c \<longleftrightarrow> fq_fromLiveNode quote))"
  unfolding c base using cost_text_roundtrip_parts [OF assms(1-3)] by blast

section \<open>The aggregation\<close>

text \<open>The costs of a chain, in step order.\<close>

definition chain_costs :: "int \<Rightarrow> deployment_step list \<Rightarrow> step_cost list" where
  "chain_costs c steps = List.map_filter (\<lambda>s. if ds_chainId s = Some c then ds_cost s else None) steps"

lemma chain_costs_snoc:
  "chain_costs c (steps @ [s]) = chain_costs c steps @ (if ds_chainId s = Some c then (case ds_cost s of Some x \<Rightarrow> [x] | None \<Rightarrow> []) else [])"
  by (auto simp: chain_costs_def map_filter_def split: option.splits)

lemma map_of_accumulate:
  "map_of (accumulate s acc) c =
     (case (if ds_chainId s = Some c then ds_cost s else None) of
        None \<Rightarrow> map_of acc c
      | Some x \<Rightarrow> Some (add_cost x (case map_of acc c of Some cur \<Rightarrow> cur | None \<Rightarrow> empty_acc)))"
  by (auto simp: accumulate_def map_of_map_set split: option.splits)

lemma accumulate_distinct: "distinct (map fst acc) \<Longrightarrow> distinct (map fst (accumulate s acc))"
  by (auto simp: accumulate_def map_set_distinct split: option.splits)

lemma accumulate_all_distinct: "distinct (map fst (fold accumulate steps []))"
  by (induction steps rule: rev_induct) (simp_all add: accumulate_distinct)

lemma fold_accumulate:
  "map_of (fold accumulate steps []) c =
     (if chain_costs c steps = [] then None else Some (fold add_cost (chain_costs c steps) empty_acc))"
proof (induction steps rule: rev_induct)
  case Nil
  show ?case by (simp add: chain_costs_def map_filter_def)
next
  case (snoc s steps)
  then show ?case by (simp add: map_of_accumulate chain_costs_snoc split: option.splits)
qed

lemma add_costs:
  "ac_base (fold add_cost cs a) = ac_base a + sum_list (map (\<lambda>c. wei (sc_baseNativeWei c)) cs)"
  "ac_buffer (fold add_cost cs a) = ac_buffer a + sum_list (map (\<lambda>c. wei (sc_bufferNativeWei c)) cs)"
  "ac_live (fold add_cost cs a) \<longleftrightarrow> ac_live a \<and> (\<forall>c \<in> set cs. sc_fromLiveNode c)"
  "set (ac_bps (fold add_cost cs a)) = set (ac_bps a) \<union> sc_bufferBps ` set cs"
  by (induction cs arbitrary: a) (auto simp: add_cost_def)

lemma add_costs_quoted: "ac_quotedAtMs (fold add_cost cs a) \<le> q \<longleftrightarrow> ac_quotedAtMs a \<le> q \<or> (\<exists>c \<in> set cs. sc_quotedAtMs c \<le> q)"
  by (induction cs arbitrary: a) (auto simp: add_cost_def min_le_iff_disj)

lemma set_map_filter: "y \<in> set (List.map_filter f xs) \<longleftrightarrow> (\<exists>x \<in> set xs. f x = Some y)"
  by (force simp: map_filter_def)

lemma aggregate_row:
  "f \<in> set (aggregateByChain steps meta balances) \<longleftrightarrow>
     (\<exists>c m. meta c = Some m \<and> chain_costs c steps \<noteq> [] \<and>
        f = funding_row m (case balances c of Some b \<Rightarrow> b | None \<Rightarrow> 0) c (fold add_cost (chain_costs c steps) empty_acc))"
proof -
  have "(c, v) \<in> set (fold accumulate steps []) \<longleftrightarrow>
      chain_costs c steps \<noteq> [] \<and> v = fold add_cost (chain_costs c steps) empty_acc" for c v
    using fold_accumulate [of steps c] accumulate_all_distinct [of steps] by (metis map_of_eq_Some_iff option.distinct(1) option.inject)
  note entry = this
  show ?thesis (is "?L \<longleftrightarrow> ?R")
  proof
    assume ?L
    then obtain c v where "(c, v) \<in> set (fold accumulate steps [])"
      "map_option (\<lambda>m. funding_row m (case balances c of Some b \<Rightarrow> b | None \<Rightarrow> 0) c v) (meta c) = Some f"
      by (auto simp: aggregateByChain_def set_map_filter)
    then show ?R by (auto simp: entry)
  next
    assume ?R
    then obtain c m where "meta c = Some m" "chain_costs c steps \<noteq> []"
      "f = funding_row m (case balances c of Some b \<Rightarrow> b | None \<Rightarrow> 0) c (fold add_cost (chain_costs c steps) empty_acc)" by blast
    with entry [of c] show ?L
      unfolding aggregateByChain_def set_sort set_map_filter by (intro bexI [of _ "(c, fold add_cost (chain_costs c steps) empty_acc)"]) simp_all
  qed
qed

lemma funding_row_chain [simp]: "cf_chainId (funding_row m b c v) = c"
  by (simp add: funding_row_def Let_def)

lemma aggregate_chains_distinct: "distinct (map cf_chainId (aggregateByChain steps meta balances))"
proof -
  let ?f = "\<lambda>(c, v). map_option (\<lambda>m. funding_row m (case balances c of Some b \<Rightarrow> b | None \<Rightarrow> 0) c v) (meta c)"
  have "map cf_chainId (List.map_filter ?f xs) = filter (\<lambda>c. meta c \<noteq> None) (map fst xs)" for xs
    by (induction xs) (auto simp: map_filter_def)
  then have "distinct (map cf_chainId (List.map_filter ?f (fold accumulate steps [])))"
    using accumulate_all_distinct by simp
  then show ?thesis
    unfolding aggregateByChain_def by (simp add: distinct_map)
qed

lemma funding_is_exact_parts:
  fixes steps :: "deployment_step list" and meta :: "int \<rightharpoonup> chain_meta" and balances :: "int \<rightharpoonup> int"
  defines "rows \<equiv> aggregateByChain steps meta balances"
  shows "sorted (map cf_chainId rows) \<and> distinct (map cf_chainId rows)"
    and "cf_chainId ` set rows = {c. meta c \<noteq> None \<and> chain_costs c steps \<noteq> []}"
    and "f \<in> set rows \<Longrightarrow>
      cf_baseWei f = sum_list (map (\<lambda>c. wei (sc_baseNativeWei c)) (chain_costs (cf_chainId f) steps)) \<and>
      cf_bufferWei f = sum_list (map (\<lambda>c. wei (sc_bufferNativeWei c)) (chain_costs (cf_chainId f) steps)) \<and>
      cf_recommendedWei f = cf_baseWei f + cf_bufferWei f \<and>
      (cf_sufficient f \<longleftrightarrow> cf_recommendedWei f \<le> cf_balanceWei f) \<and>
      cf_balanceWei f + cf_shortfallWei f = max (cf_balanceWei f) (cf_recommendedWei f) \<and>
      (cf_fromLiveNode f \<longleftrightarrow> (\<forall>c \<in> set (chain_costs (cf_chainId f) steps). sc_fromLiveNode c))"
    and "\<lbrakk>f \<in> set rows; now - FEE_QUOTE_TTL_MS \<le> MAX_SAFE_INTEGER\<rbrakk> \<Longrightarrow>
      quoteIsStale (cf_quotedAtMs f) now \<longleftrightarrow> (\<exists>c \<in> set (chain_costs (cf_chainId f) steps). quoteIsStale (sc_quotedAtMs c) now)"
proof -
  show "sorted (map cf_chainId rows) \<and> distinct (map cf_chainId rows)"
    using aggregate_chains_distinct by (simp add: rows_def aggregateByChain_def)
  show "cf_chainId ` set rows = {c. meta c \<noteq> None \<and> chain_costs c steps \<noteq> []}"
    unfolding rows_def by (force simp: aggregate_row image_iff)
  show "cf_baseWei f = sum_list (map (\<lambda>c. wei (sc_baseNativeWei c)) (chain_costs (cf_chainId f) steps)) \<and>
      cf_bufferWei f = sum_list (map (\<lambda>c. wei (sc_bufferNativeWei c)) (chain_costs (cf_chainId f) steps)) \<and>
      cf_recommendedWei f = cf_baseWei f + cf_bufferWei f \<and>
      (cf_sufficient f \<longleftrightarrow> cf_recommendedWei f \<le> cf_balanceWei f) \<and>
      cf_balanceWei f + cf_shortfallWei f = max (cf_balanceWei f) (cf_recommendedWei f) \<and>
      (cf_fromLiveNode f \<longleftrightarrow> (\<forall>c \<in> set (chain_costs (cf_chainId f) steps). sc_fromLiveNode c))" if "f \<in> set rows"
    using that unfolding rows_def by (auto simp: aggregate_row funding_row_def Let_def add_costs empty_acc_def max_def)
  show "quoteIsStale (cf_quotedAtMs f) now \<longleftrightarrow> (\<exists>c \<in> set (chain_costs (cf_chainId f) steps). quoteIsStale (sc_quotedAtMs c) now)"
    if f: "f \<in> set rows" and now: "now - FEE_QUOTE_TTL_MS \<le> MAX_SAFE_INTEGER"
  proof -
    have stale: "quoteIsStale q now \<longleftrightarrow> q \<le> now - FEE_QUOTE_TTL_MS - 1" for q by (auto simp: quoteIsStale_def)
    from f obtain c m where c: "cf_chainId f = c" "cf_quotedAtMs f = ac_quotedAtMs (fold add_cost (chain_costs c steps) empty_acc)"
      unfolding rows_def by (auto simp: aggregate_row funding_row_def Let_def)
    show ?thesis unfolding c stale add_costs_quoted using now by (auto simp: empty_acc_def)
  qed
qed

text \<open>
  Funding rows are exact. Each chain with a costed step and a gas holder has exactly one row, in
  ascending chain order; its base and buffer are the sums over that chain's steps and no others, the
  recommendation is their sum, it is sufficient exactly when the balance covers it, the shortfall is
  the exact missing amount, it is stale as soon as its oldest quote is, and live only if every
  estimate is.
\<close>

theorem funding_is_exact:
  fixes steps :: "deployment_step list" and meta :: "int \<rightharpoonup> chain_meta" and balances :: "int \<rightharpoonup> int"
  assumes rows: "rows = aggregateByChain steps meta balances"
  shows "(sorted (map cf_chainId rows) \<and> distinct (map cf_chainId rows))
   \<and> (cf_chainId ` set rows = {c. meta c \<noteq> None \<and> chain_costs c steps \<noteq> []})
   \<and> (\<forall>f \<in> set rows.
      cf_baseWei f = sum_list (map (\<lambda>c. wei (sc_baseNativeWei c)) (chain_costs (cf_chainId f) steps)) \<and>
      cf_bufferWei f = sum_list (map (\<lambda>c. wei (sc_bufferNativeWei c)) (chain_costs (cf_chainId f) steps)) \<and>
      cf_recommendedWei f = cf_baseWei f + cf_bufferWei f \<and>
      (cf_sufficient f \<longleftrightarrow> cf_recommendedWei f \<le> cf_balanceWei f) \<and>
      cf_balanceWei f + cf_shortfallWei f = max (cf_balanceWei f) (cf_recommendedWei f) \<and>
      (cf_fromLiveNode f \<longleftrightarrow> (\<forall>c \<in> set (chain_costs (cf_chainId f) steps). sc_fromLiveNode c)) \<and>
      (now - FEE_QUOTE_TTL_MS \<le> MAX_SAFE_INTEGER \<longrightarrow>
       (quoteIsStale (cf_quotedAtMs f) now \<longleftrightarrow> (\<exists>c \<in> set (chain_costs (cf_chainId f) steps). quoteIsStale (sc_quotedAtMs c) now))))"
  unfolding rows by (simp add: funding_is_exact_parts)

lemma required_balances_gas:
  assumes "requiredBalancesFor purpose funding assets = Inr rows"
  shows "filter (\<lambda>b. rb_category b = NATIVE_GAS) rows =
      map (\<lambda>f. \<lparr>rb_category = NATIVE_GAS, rb_chainId = cf_chainId f, rb_token = None, rb_symbol = cf_symbol f,
            rb_decimals = cf_decimals f, rb_amount = show_int (cf_recommendedWei f), rb_holder = cf_holder f, rb_purpose = purpose f\<rparr>) funding"
proof -
  from assms have a: "\<forall>x \<in> set assets. rb_category x \<noteq> NATIVE_GAS"
    and rows: "rows = map (\<lambda>f. \<lparr>rb_category = NATIVE_GAS, rb_chainId = cf_chainId f, rb_token = None, rb_symbol = cf_symbol f,
            rb_decimals = cf_decimals f, rb_amount = show_int (cf_recommendedWei f), rb_holder = cf_holder f, rb_purpose = purpose f\<rparr>) funding @ assets"
    by (auto simp: requiredBalancesFor_def Let_def res_bind_Inr_iff for_each_iff)
  from a have "filter (\<lambda>b. rb_category b = NATIVE_GAS) assets = []" by simp
  then show ?thesis unfolding rows by (simp add: filter_map comp_def)
qed

section \<open>Witnesses\<close>

definition sample_quote :: fee_quote where
  "sample_quote = \<lparr>fq_chainId = 84532, fq_mode = EIP1559, fq_maxFeePerGasWei = 3, fq_maxPriorityFeePerGasWei = None,
     fq_quotedAtMs = 1000, fq_fromLiveNode = True\<rparr>"

theorem cost_text_roundtrip_witness:
  "BigInt (sc_totalNativeWei (costFrom 21001 sample_quote 2000)) = Some (63003 + wei (sc_bufferNativeWei (costFrom 21001 sample_quote 2000))) \<and>
   wei (sc_bufferNativeWei (costFrom 21001 sample_quote 2000)) * 10000 \<le> 63003 * 2000"
  using cost_text_roundtrip [of 21001 sample_quote 2000, OF _ _ _ refl refl] by (simp add: sample_quote_def)

definition sample_costed :: deployment_step where
  "sample_costed = sample_write\<lparr>ds_cost := Some (costFrom 21001 sample_quote 2000)\<rparr>"

definition sample_meta :: chain_meta where
  "sample_meta = \<lparr>cm_symbol = ''ETH'', cm_decimals = 18, cm_holder = ''0xa''\<rparr>"

theorem funding_is_exact_witness:
  "\<exists>f. f \<in> set (aggregateByChain [sample_costed, sample_costed] [84532 \<mapsto> sample_meta] [84532 \<mapsto> 100]) \<and>
     cf_baseWei f = 126006 \<and> \<not> cf_sufficient f \<and> cf_fromLiveNode f \<and> \<not> quoteIsStale (cf_quotedAtMs f) 2000"
proof -
  have costs: "chain_costs 84532 [sample_costed, sample_costed] = [costFrom 21001 sample_quote 2000, costFrom 21001 sample_quote 2000]"
    by (simp add: chain_costs_def sample_costed_def sample_write_def sample_dstep_def map_filter_def)
  let ?rows = "aggregateByChain [sample_costed, sample_costed] [84532 \<mapsto> sample_meta] [84532 \<mapsto> 100]"
  have "84532 \<in> cf_chainId ` set ?rows" using funding_is_exact [OF refl, of "[sample_costed, sample_costed]", THEN conjunct2, THEN conjunct1] costs by simp
  then obtain f where f: "f \<in> set ?rows" and c: "cf_chainId f = 84532" by auto
  have bal: "cf_balanceWei f = 100"
    using f c by (auto simp: aggregate_row funding_row_def Let_def)
  have "\<not> quoteIsStale 1000 2000" by (simp add: quoteIsStale_def FEE_QUOTE_TTL_MS_def)
  moreover have "sc_quotedAtMs (costFrom 21001 sample_quote 2000) = 1000" "sc_fromLiveNode (costFrom 21001 sample_quote 2000)"
    "wei (sc_baseNativeWei (costFrom 21001 sample_quote 2000)) = 63003" "0 \<le> wei (sc_bufferNativeWei (costFrom 21001 sample_quote 2000))"
    by (simp_all add: costFrom_def sample_quote_def Let_def)
  ultimately show ?thesis
    using bspec [OF funding_is_exact [OF refl, THEN conjunct2, THEN conjunct2] f, of 2000] f c costs bal
    by (intro exI [of _ f]) (auto simp: FEE_QUOTE_TTL_MS_def MAX_SAFE_INTEGER_def)
qed

end
