(* ===== verification/Deploy_Approval.thy ===== *)
theory Deploy_Approval
  imports Deploy_Cost
begin

text \<open>
  Deployment approval (\<open>packages/studio-deploy/src/approval.ts\<close>): the readiness machine, the
  approval screen, approving a plan and re-checking an approval against the current manifest. The
  fixed sentences of the screen are left out; a drift is reported as what drifted.
\<close>

section \<open>Readiness\<close>

datatype approval_reason =
    NOT_READY
  | STALE_COSTS
  | INSUFFICIENT_FUNDS
  | UNKNOWN_SIGNER_REQUIREMENT
  | MANIFEST_DRIFT
  | PLAN_DRIFT
  | APPROVED_ARTIFACT_DRIFT
  | BLOCKED
  | APPROVAL_ABSENT

fun READINESS_TRANSITIONS :: "readiness \<Rightarrow> readiness list" where
  "READINESS_TRANSITIONS PREFLIGHT_DRAFT = [PREFLIGHT_RUNNING]"
| "READINESS_TRANSITIONS PREFLIGHT_RUNNING = [PREFLIGHT_BLOCKED, PREFLIGHT_READY]"
| "READINESS_TRANSITIONS PREFLIGHT_BLOCKED = [PREFLIGHT_RUNNING]"
| "READINESS_TRANSITIONS PREFLIGHT_READY = [PLAN_APPROVED, PREFLIGHT_RUNNING]"
| "READINESS_TRANSITIONS PLAN_APPROVED = []"

definition readiness_can :: "readiness \<Rightarrow> readiness \<Rightarrow> bool" where
  "readiness_can from to = (to \<in> set (READINESS_TRANSITIONS from))"

definition assertReadinessTransition :: "readiness \<Rightarrow> readiness \<Rightarrow> approval_reason + unit" where
  "assertReadinessTransition from to = (if \<not> readiness_can from to then Inl NOT_READY else Inr ())"

section \<open>The approval screen\<close>

datatype severity = BLOCKER | WARNING

record preflight_blocker =
  pb_code :: string
  pb_severity :: severity
  pb_detail :: string
  pb_remedy :: string

record screen_contracts =
  sk_reused :: nat
  sk_configured :: nat
  sk_deployedNew :: nat
  sk_rows :: "(string \<times> contract_disposition \<times> string option) list"

record screen_cre =
  sx_registry :: string
  sx_deployAccess :: bool
  sx_slotsUsed :: int
  sx_slotsAllowed :: int
  sx_binaryHash :: string
  sx_workflowHash :: string
  sx_limitsSimulated :: bool

record screen_funds =
  sf_chainId :: int
  sf_symbol :: string
  sf_baseWei :: string
  sf_bufferWei :: string
  sf_recommendedWei :: string
  sf_balanceWei :: string
  sf_sufficient :: bool

record approval_screen =
  as_environmentKind :: environment_kind
  as_chains :: "(int \<times> string) list"
  as_contracts :: screen_contracts
  as_cre :: "screen_cre option"
  as_images :: "(string \<times> string \<times> string option) list"
  as_funds :: "screen_funds list"
  as_operatingAssets :: "(balance_category \<times> int \<times> string \<times> string \<times> string) list"
  as_signers :: "(string \<times> signer_role \<times> string option \<times> signing_mode \<times> string) list"
  as_blockers :: "preflight_blocker list"
  as_manifestHash :: string
  as_planHash :: string

definition count_disposition :: "contract_disposition list \<Rightarrow> manifest_contract list \<Rightarrow> nat" where
  "count_disposition ds cs = length (filter (\<lambda>c. mc_disposition c \<in> set ds) cs)"

definition buildApprovalScreen ::
  "(string \<Rightarrow> string) \<Rightarrow> (jsnum \<Rightarrow> string) \<Rightarrow> deployment_manifest \<Rightarrow> deployment_plan \<Rightarrow> chain_funding list \<Rightarrow>
   screen_cre option \<Rightarrow> preflight_blocker list \<Rightarrow> approval_screen" where
  "buildApprovalScreen sha256Hex num m plan funding cre blockers =
    \<lparr>as_environmentKind = de_kind (dm_environment m),
     as_chains = map (\<lambda>c. (ct_chainId c, ct_name c)) (de_chains (dm_environment m)),
     as_contracts = \<lparr>sk_reused = count_disposition [REUSE_VERIFIED] (dm_contracts m),
       sk_configured = count_disposition [CONFIGURE_EXISTING] (dm_contracts m),
       sk_deployedNew = count_disposition [DEPLOY_NEW, CREATE_AGENT_SPECIFIC] (dm_contracts m),
       sk_rows = map (\<lambda>c. (mc_name c, mc_disposition c, mc_address c)) (dm_contracts m)\<rparr>,
     as_cre = cre,
     as_images = map (\<lambda>i. (mi_agentId i, mi_tag i, mi_imageDigest i)) (dm_runtimeImages m),
     as_funds = map (\<lambda>f. \<lparr>sf_chainId = cf_chainId f, sf_symbol = cf_symbol f, sf_baseWei = show_int (cf_baseWei f),
       sf_bufferWei = show_int (cf_bufferWei f), sf_recommendedWei = show_int (cf_recommendedWei f),
       sf_balanceWei = show_int (cf_balanceWei f), sf_sufficient = cf_sufficient f\<rparr>) funding,
     as_operatingAssets = map (\<lambda>b. (rb_category b, rb_chainId b, rb_symbol b, rb_amount b, rb_purpose b))
       (filter (\<lambda>b. rb_category b \<noteq> NATIVE_GAS) (dm_requiredBalances m)),
     as_signers = map (\<lambda>s. (sr_signerId s, sr_role s, sr_address s, sr_mode s, sr_authorizes s)) (dm_requiredSigners m),
     as_blockers = blockers, as_manifestHash = manifestHash sha256Hex num m, as_planHash = deploymentPlanHash sha256Hex num plan\<rparr>"

section \<open>Approving\<close>

definition artifact_key :: "pinned_artifact \<Rightarrow> string" where
  "artifact_key a = pi_kind a @ '':'' @ pi_id a"

text \<open>An object filled key by key; a \<open>Map\<close> built from entries behaves the same.\<close>

definition artifact_table :: "deployment_manifest \<Rightarrow> (string \<times> string) list" where
  "artifact_table m = fold (\<lambda>a t. map_set (artifact_key a) (pi_hash a) t) (pinnedArtifacts m) []"

definition approve ::
  "(string \<Rightarrow> string) \<Rightarrow> (jsnum \<Rightarrow> string) \<Rightarrow> deployment_manifest \<Rightarrow> deployment_plan \<Rightarrow> approval_screen \<Rightarrow> string \<Rightarrow> int \<Rightarrow>
   approval_reason + deployment_plan" where
  "approve sha256Hex num m plan screen approvedBy nowMs =
    res_bind (assertReadinessTransition (dp_readiness plan) PLAN_APPROVED) (\<lambda>_.
    res_bind (ensure (filter (\<lambda>b. pb_severity b = BLOCKER) (as_blockers screen) = []) BLOCKED) (\<lambda>_.
    res_bind (for_each (\<lambda>s. ensure (case ds_cost s of None \<Rightarrow> True | Some c \<Rightarrow> \<not> quoteIsStale (sc_quotedAtMs c) nowMs) STALE_COSTS)
                (dp_steps plan)) (\<lambda>_.
    res_bind (ensure (filter (\<lambda>f. \<not> sf_sufficient f) (as_funds screen) = []) INSUFFICIENT_FUNDS) (\<lambda>_.
    res_bind (for_each (\<lambda>s. ensure (case truthy (ds_requiredSigner s) of None \<Rightarrow> True
                                    | Some x \<Rightarrow> x \<in> sr_signerId ` set (dm_requiredSigners m)) UNKNOWN_SIGNER_REQUIREMENT)
                (dp_steps plan)) (\<lambda>_.
    (let mh = manifestHash sha256Hex num m; ph = deploymentPlanHash sha256Hex num plan in
     if as_manifestHash screen \<noteq> mh then Inl MANIFEST_DRIFT
     else if as_planHash screen \<noteq> ph then Inl PLAN_DRIFT
     else Inr (plan\<lparr>dp_readiness := PLAN_APPROVED,
                 dp_approval := Some \<lparr>pa_approvedBy = approvedBy, pa_approvedAtMs = nowMs, pa_manifestHash = mh, pa_planHash = ph,
                   pa_artifactHashes = artifact_table m\<rparr>\<rparr>)))))))"

datatype drift = NoApproval | ManifestDrift | ArtifactAbsent string | ArtifactChanged string | ArtifactNew string

definition approvalDrift ::
  "(string \<Rightarrow> string) \<Rightarrow> (jsnum \<Rightarrow> string) \<Rightarrow> deployment_plan \<Rightarrow> deployment_manifest \<Rightarrow> drift list" where
  "approvalDrift sha256Hex num plan current =
    (case dp_approval plan of
       None \<Rightarrow> [NoApproval]
     | Some ap \<Rightarrow>
       (if pa_manifestHash ap \<noteq> manifestHash sha256Hex num current then [ManifestDrift] else []) @
       concat (map (\<lambda>(key, hash). case map_of (artifact_table current) key of
                 None \<Rightarrow> [ArtifactAbsent key]
               | Some cur \<Rightarrow> if cur \<noteq> hash then [ArtifactChanged key] else []) (pa_artifactHashes ap)) @
       concat (map (\<lambda>(key, hash). if key \<notin> fst ` set (pa_artifactHashes ap) then [ArtifactNew key] else []) (artifact_table current)))"

definition assertApprovedFor ::
  "(string \<Rightarrow> string) \<Rightarrow> (jsnum \<Rightarrow> string) \<Rightarrow> deployment_plan \<Rightarrow> deployment_manifest \<Rightarrow> approval_reason + unit" where
  "assertApprovedFor sha256Hex num plan current =
    (if dp_readiness plan \<noteq> PLAN_APPROVED \<or> dp_approval plan = None then Inl APPROVAL_ABSENT
     else if approvalDrift sha256Hex num plan current \<noteq> [] then Inl APPROVED_ARTIFACT_DRIFT
     else Inr ())"

section \<open>The readiness machine\<close>

lemma readiness_iff:
  "readiness_can s t \<longleftrightarrow> (s, t) \<in> {(PREFLIGHT_DRAFT, PREFLIGHT_RUNNING), (PREFLIGHT_RUNNING, PREFLIGHT_BLOCKED),
     (PREFLIGHT_RUNNING, PREFLIGHT_READY), (PREFLIGHT_BLOCKED, PREFLIGHT_RUNNING), (PREFLIGHT_READY, PLAN_APPROVED),
     (PREFLIGHT_READY, PREFLIGHT_RUNNING)}"
  by (cases s; cases t) (simp_all add: readiness_can_def)

lemma readiness_terminal: "s = PLAN_APPROVED \<longleftrightarrow> (\<forall>t. \<not> readiness_can s t)"
  by (cases s) (auto simp: readiness_iff)

interpretation readiness: transition_table readiness_can "\<lambda>s. s = PLAN_APPROVED"
  by unfold_locales (rule readiness_terminal)

lemma approved_through_ready:
  "readiness_can\<^sup>*\<^sup>* s PLAN_APPROVED \<Longrightarrow> s \<noteq> PLAN_APPROVED \<Longrightarrow> readiness_can\<^sup>*\<^sup>* s PREFLIGHT_READY"
  using readiness.gate [of s PLAN_APPROVED PREFLIGHT_READY] by (auto simp: readiness_iff)

section \<open>Approval is exact\<close>

lemma approve_iff:
  "approve sha num m plan screen who now = Inr plan' \<longleftrightarrow>
     dp_readiness plan = PREFLIGHT_READY \<and>
     (\<forall>b \<in> set (as_blockers screen). pb_severity b \<noteq> BLOCKER) \<and>
     (\<forall>s \<in> set (dp_steps plan). \<forall>c. ds_cost s = Some c \<longrightarrow> \<not> quoteIsStale (sc_quotedAtMs c) now) \<and>
     (\<forall>f \<in> set (as_funds screen). sf_sufficient f) \<and>
     (\<forall>s \<in> set (dp_steps plan). \<forall>x. ds_requiredSigner s = Some x \<and> x \<noteq> [] \<longrightarrow> x \<in> sr_signerId ` set (dm_requiredSigners m)) \<and>
     as_manifestHash screen = manifestHash sha num m \<and> as_planHash screen = deploymentPlanHash sha num plan \<and>
     plan' = plan\<lparr>dp_readiness := PLAN_APPROVED,
       dp_approval := Some \<lparr>pa_approvedBy = who, pa_approvedAtMs = now, pa_manifestHash = manifestHash sha num m,
         pa_planHash = deploymentPlanHash sha num plan, pa_artifactHashes = artifact_table m\<rparr>\<rparr>"
proof -
  have ready: "assertReadinessTransition r PLAN_APPROVED = Inr () \<longleftrightarrow> r = PREFLIGHT_READY" for r
    by (cases r) (simp_all add: assertReadinessTransition_def readiness_can_def)
  have signer: "(case truthy x of None \<Rightarrow> True | Some y \<Rightarrow> P y) \<longleftrightarrow> (\<forall>y. x = Some y \<and> y \<noteq> [] \<longrightarrow> P y)" for x P
    by (auto simp: truthy_def split: option.splits)
  have cost: "(case x of None \<Rightarrow> True | Some y \<Rightarrow> P y) \<longleftrightarrow> (\<forall>y. x = Some y \<longrightarrow> P y)" for x :: "step_cost option" and P
    by (cases x) simp_all
  show ?thesis
    unfolding approve_def res_bind_Inr_iff for_each_iff Let_def
    by (auto simp: ready signer cost filter_empty_conv for_each_iff)
qed

lemma approval_exact_parts:
  "(\<exists>plan'. approve sha num m plan screen who now = Inr plan') \<longleftrightarrow>
     dp_readiness plan = PREFLIGHT_READY \<and>
     (\<forall>b \<in> set (as_blockers screen). pb_severity b \<noteq> BLOCKER) \<and>
     (\<forall>s \<in> set (dp_steps plan). \<forall>c. ds_cost s = Some c \<longrightarrow> now - sc_quotedAtMs c \<le> 120000) \<and>
     (\<forall>f \<in> set (as_funds screen). sf_sufficient f) \<and>
     (\<forall>s \<in> set (dp_steps plan). \<forall>x. ds_requiredSigner s = Some x \<and> x \<noteq> [] \<longrightarrow> x \<in> sr_signerId ` set (dm_requiredSigners m)) \<and>
     as_manifestHash screen = manifestHash sha num m \<and> as_planHash screen = deploymentPlanHash sha num plan"
  "approve sha num m plan screen who now = Inr plan' \<Longrightarrow>
     plan' = plan\<lparr>dp_readiness := PLAN_APPROVED,
       dp_approval := Some \<lparr>pa_approvedBy = who, pa_approvedAtMs = now, pa_manifestHash = manifestHash sha num m,
         pa_planHash = deploymentPlanHash sha num plan, pa_artifactHashes = artifact_table m\<rparr>\<rparr> \<and>
     deploymentPlanHash sha num plan' = deploymentPlanHash sha num plan"
proof -
  have stale: "\<not> quoteIsStale q now \<longleftrightarrow> now - q \<le> 120000" for q by (auto simp: quoteIsStale_def FEE_QUOTE_TTL_MS_def)
  show "(\<exists>plan'. approve sha num m plan screen who now = Inr plan') \<longleftrightarrow>
     dp_readiness plan = PREFLIGHT_READY \<and>
     (\<forall>b \<in> set (as_blockers screen). pb_severity b \<noteq> BLOCKER) \<and>
     (\<forall>s \<in> set (dp_steps plan). \<forall>c. ds_cost s = Some c \<longrightarrow> now - sc_quotedAtMs c \<le> 120000) \<and>
     (\<forall>f \<in> set (as_funds screen). sf_sufficient f) \<and>
     (\<forall>s \<in> set (dp_steps plan). \<forall>x. ds_requiredSigner s = Some x \<and> x \<noteq> [] \<longrightarrow> x \<in> sr_signerId ` set (dm_requiredSigners m)) \<and>
     as_manifestHash screen = manifestHash sha num m \<and> as_planHash screen = deploymentPlanHash sha num plan"
    unfolding approve_iff stale by blast
  show "approve sha num m plan screen who now = Inr plan' \<Longrightarrow>
     plan' = plan\<lparr>dp_readiness := PLAN_APPROVED,
       dp_approval := Some \<lparr>pa_approvedBy = who, pa_approvedAtMs = now, pa_manifestHash = manifestHash sha num m,
         pa_planHash = deploymentPlanHash sha num plan, pa_artifactHashes = artifact_table m\<rparr>\<rparr> \<and>
     deploymentPlanHash sha num plan' = deploymentPlanHash sha num plan"
    by (auto simp: approve_iff deploymentPlanHash_def deploy_planIdentity_def)
qed


section \<open>Drift\<close>

lemma artifact_table_distinct: "distinct (map fst (artifact_table m))"
proof -
  have "distinct (map fst (fold (\<lambda>a t. map_set (artifact_key a) (pi_hash a) t) xs []))" for xs
    by (induction xs rule: rev_induct) (simp_all add: map_set_distinct)
  then show ?thesis by (simp add: artifact_table_def)
qed

lemma approved_for_iff:
  assumes "distinct (map fst (pa_artifactHashes ap))" "dp_approval plan = Some ap"
  shows "assertApprovedFor sha num plan m = Inr () \<longleftrightarrow>
     dp_readiness plan = PLAN_APPROVED \<and> pa_manifestHash ap = manifestHash sha num m \<and>
     map_of (pa_artifactHashes ap) = map_of (artifact_table m)"
proof -
  let ?A = "pa_artifactHashes ap" and ?T = "artifact_table m"
  have "(\<forall>(key, hash) \<in> set ?A. map_of ?T key = Some hash) \<and> (\<forall>(key, hash) \<in> set ?T. key \<in> fst ` set ?A) \<longleftrightarrow>
      map_of ?A = map_of ?T" (is "?L \<longleftrightarrow> _")
  proof
    assume L: ?L
    show "map_of ?A = map_of ?T"
    proof
      fix k
      show "map_of ?A k = map_of ?T k"
      proof (cases "map_of ?A k")
        case (Some h)
        then have "(k, h) \<in> set ?A" by (rule map_of_SomeD)
        with L Some show ?thesis by auto
      next
        case None
        then have "k \<notin> fst ` set ?A" by (simp add: map_of_eq_None_iff)
        with L have "k \<notin> fst ` set ?T" by auto
        with None show ?thesis by (metis map_of_eq_None_iff)
      qed
    qed
  next
    assume eq: "map_of ?A = map_of ?T"
    then have "map_of ?T k = Some h" if "(k, h) \<in> set ?A" for k h
      using map_of_is_SomeI [OF assms(1) that] by simp
    moreover have "k \<in> fst ` set ?A" if "(k, h) \<in> set ?T" for k h
      using eq map_of_is_SomeI [OF artifact_table_distinct that] by (metis dom_map_of_conv_image_fst domI)
    ultimately show ?L by auto
  qed
  moreover have "approvalDrift sha num plan m = [] \<longleftrightarrow>
      pa_manifestHash ap = manifestHash sha num m \<and>
      (\<forall>(key, hash) \<in> set ?A. map_of ?T key = Some hash) \<and> (\<forall>(key, hash) \<in> set ?T. key \<in> fst ` set ?A)"
    using assms(2) by (fastforce simp: approvalDrift_def split: option.splits if_splits)
  ultimately show ?thesis using assms(2) by (simp add: assertApprovedFor_def)
qed

text \<open>
  The re-check looks at the manifest and the artifacts only: the plan hash that the approval
  records is not compared, so the steps of an approved plan do not matter to it.
\<close>

lemma approval_ignores_steps: "assertApprovedFor sha num (p\<lparr>dp_steps := ss\<rparr>) m = assertApprovedFor sha num p m"
  by (simp add: assertApprovedFor_def approvalDrift_def)

lemma approval_binding:
  assumes "approve sha num m plan screen who now = Inr approved"
    and "dp_readiness running = dp_readiness approved" "dp_approval running = dp_approval approved"
  shows "assertApprovedFor sha num running m = Inr ()"
    and "assertApprovedFor sha num running current = Inr () \<Longrightarrow> map_of (artifact_table current) = map_of (artifact_table m)"
    and "\<lbrakk>assertApprovedFor sha num running current = Inr (); number_text num;
          inj_on sha {canonicalize num (manifestIdentity m), canonicalize num (manifestIdentity current)}\<rbrakk> \<Longrightarrow>
         current\<lparr>dm_manifestId := [], dm_generatedAt := []\<rparr> = m\<lparr>dm_manifestId := [], dm_generatedAt := []\<rparr>"
proof -
  let ?ap = "\<lparr>pa_approvedBy = who, pa_approvedAtMs = now, pa_manifestHash = manifestHash sha num m,
         pa_planHash = deploymentPlanHash sha num plan, pa_artifactHashes = artifact_table m\<rparr>"
  from assms have r: "dp_readiness running = PLAN_APPROVED" "dp_approval running = Some ?ap"
    by (auto simp: approve_iff)
  have d: "distinct (map fst (pa_artifactHashes ?ap))" by (simp add: artifact_table_distinct)
  note check = approved_for_iff [OF d r(2)]
  show "assertApprovedFor sha num running m = Inr ()" using r by (simp add: check)
  show "map_of (artifact_table current) = map_of (artifact_table m)" if "assertApprovedFor sha num running current = Inr ()"
    using that by (simp add: check)
  show "current\<lparr>dm_manifestId := [], dm_generatedAt := []\<rparr> = m\<lparr>dm_manifestId := [], dm_generatedAt := []\<rparr>"
    if "assertApprovedFor sha num running current = Inr ()" "number_text num"
      "inj_on sha {canonicalize num (manifestIdentity m), canonicalize num (manifestIdentity current)}"
    using that manifest_hash_iff [OF that(2,3)] by (simp add: check unnamed_def)
qed

text \<open>
  C9: An approval holds for exactly what was approved. A plan approved for a manifest still passes
  the re-check on that manifest, whatever progress its steps have made. If it passes on a current
  manifest, every artifact pinned then is pinned now with the same hash and nothing is pinned that
  was not; and as the hash does not collide on the two, the current manifest is the approved one in
  every field but its id and timestamp.
\<close>

theorem approval_binds_deployment:
  assumes "approve sha num m plan screen who now = Inr approved"
    and "dp_readiness running = dp_readiness approved" "dp_approval running = dp_approval approved"
  shows "assertApprovedFor sha num running m = Inr () \<and>
    (assertApprovedFor sha num running current = Inr () \<longrightarrow>
       map_of (artifact_table current) = map_of (artifact_table m) \<and>
       (number_text num \<and> inj_on sha {canonicalize num (manifestIdentity m), canonicalize num (manifestIdentity current)} \<longrightarrow>
         current\<lparr>dm_manifestId := [], dm_generatedAt := []\<rparr> = m\<lparr>dm_manifestId := [], dm_generatedAt := []\<rparr>))"
  using approval_binding [OF assms] by blast

section \<open>Witnesses\<close>

definition ready_plan :: deployment_plan where
  "ready_plan = sample_dplan\<lparr>dp_readiness := PREFLIGHT_READY\<rparr>"

definition sample_screen :: approval_screen where
  "sample_screen = buildApprovalScreen id sample_num sample_manifest ready_plan [] None []"

definition approved_plan :: deployment_plan where
  "approved_plan = ready_plan\<lparr>dp_readiness := PLAN_APPROVED,
       dp_approval := Some \<lparr>pa_approvedBy = ''alice'', pa_approvedAtMs = 5, pa_manifestHash = manifestHash id sample_num sample_manifest,
         pa_planHash = deploymentPlanHash id sample_num ready_plan, pa_artifactHashes = artifact_table sample_manifest\<rparr>\<rparr>"

lemma sample_approve: "approve id sample_num sample_manifest ready_plan sample_screen ''alice'' 5 = Inr approved_plan"
  by (simp add: approve_iff approved_plan_def sample_screen_def buildApprovalScreen_def ready_plan_def sample_dplan_defs sample_manifest_def)


theorem approval_binds_deployment_witness:
  "assertApprovedFor id sample_num approved_plan sample_manifest = Inr () \<and>
   assertApprovedFor id sample_num approved_plan (sample_manifest\<lparr>dm_environment := mainnetEnvironment\<rparr>) \<noteq> Inr ()"
proof -
  have i: "inj_on id A" for A :: "string set" by simp
  have "sample_manifest\<lparr>dm_environment := mainnetEnvironment, dm_manifestId := [], dm_generatedAt := []\<rparr> \<noteq>
      sample_manifest\<lparr>dm_manifestId := [], dm_generatedAt := []\<rparr>"
    by (simp add: sample_manifest_def mainnetEnvironment_def testnetEnvironment_def)
  with approval_binds_deployment [OF sample_approve refl refl, of "sample_manifest\<lparr>dm_environment := mainnetEnvironment\<rparr>"]
    sample_number_text i show ?thesis by auto
qed

end
