(* ===== verification/Orchestrator.thy ===== *)
theory Orchestrator
  imports Deploy_Approval
begin

text \<open>
  The deployment orchestrator (\<open>packages/studio-orchestrator/src/orchestrator.ts\<close>). The code
  mutates a run in place and throws, so an operation is a function from a world to a result and a
  world: what was written before an error stays written. A world is the run, the tick of the outside
  world, and the list of the calls that acted on the outside world, in order. Every injected
  dependency is an arbitrary function of the tick and its arguments and may reject at any call.
  Everything the orchestrator changes goes through one of the updates below.
\<close>

section \<open>Runs and dependencies\<close>

datatype event_message =
    MovedState deployment_state deployment_state
  | ReconciledAs submission_state
  | AlreadySatisfied string
  | Evidence string
  | ConfirmedIn "string option" "string option" string
  | WorkflowRegistered string string
  | WorkflowReadBack string
  | ImageBuilt string string
  | ScanDetail string
  | ImagePublished string
  | RuntimeCreated string string
  | ReadyToActivate

record run_event =
  ev_atMs :: int
  ev_stepId :: "string option"
  ev_message :: event_message

record deployment_run =
  dr_deploymentId :: string
  dr_state :: deployment_state
  dr_plan :: deployment_plan
  dr_transactions :: "(string \<times> tx_record) list"
  dr_createdAddresses :: "(string \<times> string) list"
  dr_creWorkflowId :: "string option"
  dr_creStatus :: "string option"
  dr_runtimeImageDigest :: "string option"
  dr_events :: "run_event list"

record send_request =
  sn_chainId :: int
  sn_from :: string
  sn_to :: "string option"
  sn_data :: string
  sn_value :: int
  sn_nonce :: int
  sn_gas :: int

record prepared_call =
  pr_to :: "string option"
  pr_data :: string
  pr_value :: int

record observation =
  ob_satisfied :: bool
  ob_evidence :: string
  ob_createdAddress :: "string option"

record cre_deploy_args =
  cd_workflow :: string
  cd_wasmPath :: string
  cd_registry :: string
  cd_approvedWasmSha256 :: string

record cre_deployed =
  cy_workflowId :: string
  cy_registry :: string
  cy_status :: string
  cy_binaryHash :: string

datatype lifecycle_action = GetStatus | PauseWorkflow | ActivateWorkflow

record scan_result =
  sv_promotable :: bool
  sv_detail :: string

record orchestrator_deps =
  od_readers :: "int \<rightharpoonup> chain_reader"
  od_timing :: timing
  od_confirmations :: int
  od_sendTransaction :: "tick \<Rightarrow> send_request \<Rightarrow> thrown + string"
  od_resolveCalldata :: "tick \<Rightarrow> deployment_step \<Rightarrow> deployment_manifest \<Rightarrow> thrown + prepared_call"
  od_observe :: "tick \<Rightarrow> deployment_step \<Rightarrow> deployment_manifest \<Rightarrow> (string \<times> string) list \<Rightarrow> thrown + observation"
  od_currentArtifact :: "tick \<Rightarrow> thrown + cre_artifact option"
  od_deploy :: "tick \<Rightarrow> cre_deploy_args \<Rightarrow> thrown + cre_deployed"
  od_lifecycle :: "tick \<Rightarrow> string \<Rightarrow> lifecycle_action \<Rightarrow> thrown + string"
  od_authValid :: "tick \<Rightarrow> thrown + bool"
  od_build :: "tick \<Rightarrow> string \<Rightarrow> thrown + string"
  od_scan :: "tick \<Rightarrow> string \<Rightarrow> thrown + scan_result"
  od_publish :: "tick \<Rightarrow> string \<Rightarrow> thrown + unit"
  od_createDisabled :: "tick \<Rightarrow> string \<Rightarrow> string \<Rightarrow> thrown + string"

datatype orchestrator_reason =
    DEPLOY_ARTIFACT_DRIFT
  | UNKNOWN_TX
  | CRE_AUTH_LOST
  | SIGNER_REJECTED
  | IMAGE_GATE
  | STEP_FAILED
  | POLICY_WOULD_BE_ENABLED

datatype orchestrator_error =
    OrchestratorError orchestrator_reason string
  | MachineError machine_reason
  | ApprovalError approval_reason
  | ReceiptError receipt_reason
  | CreError cre_reason
  | Escaped thrown
  | StillWaiting

definition ENABLING_STEP_TYPES :: "step_type list" where
  "ENABLING_STEP_TYPES = [ACTIVATE]"

text \<open>Calls that act on the outside world. A deployment of a workflow is recorded with the artifact it was made from.\<close>

datatype outside_call =
    Sent deployment_step send_request
  | CreDeployed cre_deploy_args cre_artifact
  | Lifecycle string lifecycle_action
  | ImageBuild string
  | ImageScan string
  | ImagePublish string
  | RuntimeCreate string string

record world =
  w_run :: deployment_run
  w_tick :: tick
  w_calls :: "outside_call list"

section \<open>Updates\<close>

datatype run_update =
    Tick tick
  | Logged run_event
  | SetTransaction string tx_record
  | SetAddress string string
  | SetStatus string step_status
  | Move deployment_state
  | SetCreWorkflowId string
  | SetCreStatus string
  | SetImageDigest string
  | Called outside_call

definition setStatus_plan :: "string \<Rightarrow> step_status \<Rightarrow> deployment_plan \<Rightarrow> deployment_plan" where
  "setStatus_plan i st plan =
    plan\<lparr>dp_steps := map (\<lambda>s. if ds_id s = i then s\<lparr>ds_status := st\<rparr> else s) (dp_steps plan)\<rparr>"

definition on_run :: "(deployment_run \<Rightarrow> deployment_run) \<Rightarrow> world \<Rightarrow> world" where
  "on_run f w = w\<lparr>w_run := f (w_run w)\<rparr>"

fun apply_update :: "run_update \<Rightarrow> world \<Rightarrow> world" where
  "apply_update (Tick t) w = w\<lparr>w_tick := t\<rparr>"
| "apply_update (Logged e) w = on_run (\<lambda>r. r\<lparr>dr_events := dr_events r @ [e]\<rparr>) w"
| "apply_update (SetTransaction i tx) w = on_run (\<lambda>r. r\<lparr>dr_transactions := map_set i tx (dr_transactions r)\<rparr>) w"
| "apply_update (SetAddress i a) w = on_run (\<lambda>r. r\<lparr>dr_createdAddresses := map_set i a (dr_createdAddresses r)\<rparr>) w"
| "apply_update (SetStatus i st) w = on_run (\<lambda>r. r\<lparr>dr_plan := setStatus_plan i st (dr_plan r)\<rparr>) w"
| "apply_update (Move s) w = on_run (\<lambda>r. r\<lparr>dr_state := s\<rparr>) w"
| "apply_update (SetCreWorkflowId i) w = on_run (\<lambda>r. r\<lparr>dr_creWorkflowId := Some i\<rparr>) w"
| "apply_update (SetCreStatus s) w = on_run (\<lambda>r. r\<lparr>dr_creStatus := Some s\<rparr>) w"
| "apply_update (SetImageDigest d) w = on_run (\<lambda>r. r\<lparr>dr_runtimeImageDigest := Some d\<rparr>) w"
| "apply_update (Called c) w = w\<lparr>w_calls := w_calls w @ [c]\<rparr>"

section \<open>Operations\<close>

type_synonym 'a op = "world \<Rightarrow> (orchestrator_error + 'a) \<times> world"

definition op_return :: "'a \<Rightarrow> 'a op" where "op_return x w = (Inr x, w)"

definition op_throw :: "orchestrator_error \<Rightarrow> 'a op" where "op_throw e w = (Inl e, w)"

definition op_bind :: "'a op \<Rightarrow> ('a \<Rightarrow> 'b op) \<Rightarrow> 'b op" where
  "op_bind m f w = (case m w of (Inl e, w') \<Rightarrow> (Inl e, w') | (Inr x, w') \<Rightarrow> f x w')"

definition op_run :: "deployment_run op" where "op_run w = (Inr (w_run w), w)"

definition op_do :: "run_update \<Rightarrow> unit op" where "op_do u w = (Inr (), apply_update u w)"

text \<open>Waiting for a dependency: its answer at this tick, and the next tick.\<close>

definition op_try :: "(tick \<Rightarrow> thrown + 'a) \<Rightarrow> (thrown + 'a) op" where
  "op_try f w = (Inr (f (w_tick w)), apply_update (Tick (Suc (w_tick w))) w)"

definition op_sum :: "('e \<Rightarrow> orchestrator_error) \<Rightarrow> 'e + 'a \<Rightarrow> 'a op" where
  "op_sum err r = (case r of Inl e \<Rightarrow> op_throw (err e) | Inr x \<Rightarrow> op_return x)"

definition op_await :: "(tick \<Rightarrow> thrown + 'a) \<Rightarrow> 'a op" where
  "op_await f = op_bind (op_try f) (op_sum Escaped)"

definition thrown_by :: "rpc_error + 'a \<Rightarrow> thrown + 'a" where
  "thrown_by r = (case r of Inl e \<Rightarrow> Inl (ThrownRpc e) | Inr x \<Rightarrow> Inr x)"

fun op_each :: "('a \<Rightarrow> unit op) \<Rightarrow> 'a list \<Rightarrow> unit op" where
  "op_each f [] = op_return ()"
| "op_each f (x # xs) = op_bind (f x) (\<lambda>_. op_each f xs)"

definition op_log :: "orchestrator_deps \<Rightarrow> string option \<Rightarrow> event_message \<Rightarrow> unit op" where
  "op_log deps stepId message w =
     op_do (Logged \<lparr>ev_atMs = tm_now (od_timing deps) (w_tick w), ev_stepId = stepId, ev_message = message\<rparr>) w"

definition fail_step :: "orchestrator_reason \<Rightarrow> deployment_step \<Rightarrow> 'a op" where
  "fail_step reason step = op_throw (OrchestratorError reason (ds_id step))"

definition moveTo :: "orchestrator_deps \<Rightarrow> deployment_state \<Rightarrow> unit op" where
  "moveTo deps to = op_bind op_run (\<lambda>run.
     if dr_state run = to then op_return ()
     else op_bind (op_sum MachineError (assertTransition (dr_state run) to)) (\<lambda>_.
          op_bind (op_log deps None (MovedState (dr_state run) to)) (\<lambda>_. op_do (Move to))))"

definition newRun :: "string \<Rightarrow> deployment_plan \<Rightarrow> deployment_run" where
  "newRun deploymentId plan =
    \<lparr>dr_deploymentId = deploymentId, dr_state = DEPLOYMENT_APPROVED, dr_plan = plan, dr_transactions = [],
     dr_createdAddresses = [], dr_creWorkflowId = None, dr_creStatus = None, dr_runtimeImageDigest = None, dr_events = []\<rparr>"

subsection \<open>resume\<close>

definition op_reconcile :: "orchestrator_deps \<Rightarrow> tx_record \<Rightarrow> chain_reader \<Rightarrow> tx_record op" where
  "op_reconcile deps record reader w =
    (case reconcile record reader (tm_now (od_timing deps) (w_tick w)) (w_tick w) of
       (Inl e, t) \<Rightarrow> (Inl (Escaped (ThrownRpc e)), apply_update (Tick t) w)
     | (Inr r, t) \<Rightarrow> (Inr r, apply_update (Tick t) w))"

definition set_address :: "string \<Rightarrow> string option \<Rightarrow> unit op" where
  "set_address stepId a = (case truthy a of None \<Rightarrow> op_return () | Some x \<Rightarrow> op_do (SetAddress stepId x))"

definition resume_transaction :: "orchestrator_deps \<Rightarrow> string \<times> tx_record \<Rightarrow> unit op" where
  "resume_transaction deps entry =
    (let (stepId, record) = entry in
     if tx_state record \<noteq> UNKNOWN_SUBMISSION_STATE then op_return ()
     else case od_readers deps (tx_chainId record) of
       None \<Rightarrow> op_return ()
     | Some reader \<Rightarrow>
         op_bind (op_reconcile deps record reader) (\<lambda>resolved.
         op_bind (op_do (SetTransaction stepId resolved)) (\<lambda>_.
         op_bind (op_log deps (Some stepId) (ReconciledAs (tx_state resolved))) (\<lambda>_.
         if tx_state resolved = MINED_SUCCESS then set_address stepId (tx_contractAddress resolved) else op_return ()))))"

definition resume_step :: "orchestrator_deps \<Rightarrow> deployment_manifest \<Rightarrow> deployment_step \<Rightarrow> unit op" where
  "resume_step deps manifest step =
    (if satisfied step then op_return ()
     else op_bind op_run (\<lambda>run.
       let tx = map_of (dr_transactions run) (ds_id step) in
       if map_option tx_state tx = Some UNKNOWN_SUBMISSION_STATE then op_return ()
       else op_bind (op_await (\<lambda>t. od_observe deps t step manifest (dr_createdAddresses run))) (\<lambda>seen.
         if ob_satisfied seen then
           op_bind (op_do (SetStatus (ds_id step)
             (if map_option tx_state tx = Some MINED_SUCCESS then VERIFIED else SKIPPED_ALREADY_SATISFIED))) (\<lambda>_.
           op_bind (set_address (ds_id step) (ob_createdAddress seen)) (\<lambda>_.
           op_log deps (Some (ds_id step)) (AlreadySatisfied (ob_evidence seen))))
         else op_return ())))"

definition orch_resume ::
  "(string \<Rightarrow> string) \<Rightarrow> (jsnum \<Rightarrow> string) \<Rightarrow> orchestrator_deps \<Rightarrow> deployment_manifest \<Rightarrow> unit op" where
  "orch_resume sha256Hex num deps manifest = op_bind op_run (\<lambda>run.
     if dr_state run \<notin> set RESUMABLE_STATES then op_throw (MachineError NOT_RESUMABLE)
     else op_bind (op_sum ApprovalError (assertApprovedFor sha256Hex num (dr_plan run) manifest)) (\<lambda>_.
          op_bind (op_each (resume_transaction deps) (dr_transactions run)) (\<lambda>_.
          op_bind op_run (\<lambda>run'. op_each (resume_step deps manifest) (dp_steps (dr_plan run'))))))"

subsection \<open>nextStep\<close>

definition nextStep :: "deployment_run \<Rightarrow> deployment_step option" where
  "nextStep run =
    find (\<lambda>s. ds_id s \<notin> set (done_ids (dr_plan run)) \<and> ds_status s \<noteq> FAILED \<and>
              (\<forall>d \<in> set (ds_dependencyIds s). d \<in> set (done_ids (dr_plan run)))) (dp_steps (dr_plan run))"

subsection \<open>Handlers\<close>

definition executeObservation :: "orchestrator_deps \<Rightarrow> deployment_step \<Rightarrow> deployment_manifest \<Rightarrow> unit op" where
  "executeObservation deps step manifest = op_bind op_run (\<lambda>run.
     op_bind (op_await (\<lambda>t. od_observe deps t step manifest (dr_createdAddresses run))) (\<lambda>seen.
     if \<not> ob_satisfied seen
     then op_bind (op_do (SetStatus (ds_id step) FAILED)) (\<lambda>_. fail_step STEP_FAILED step)
     else op_bind (set_address (ds_id step) (ob_createdAddress seen)) (\<lambda>_.
          op_bind (op_do (SetStatus (ds_id step) VERIFIED)) (\<lambda>_.
          op_log deps (Some (ds_id step)) (Evidence (ob_evidence seen))))))"

definition thrown_message :: "thrown \<Rightarrow> string" where
  "thrown_message e =
    (case e of
       ThrownOther msg \<Rightarrow> msg
     | ThrownRpc r \<Rightarrow> ''RPC-'' @
         (case rpc_kind r of TIMEOUT \<Rightarrow> ''TIMEOUT'' | RATE_LIMITED \<Rightarrow> ''RATE_LIMITED'' | TRANSPORT \<Rightarrow> ''TRANSPORT'' | REVERTED \<Rightarrow> ''REVERTED'')
         @ '': '' @ rpc_detail r)"

definition is_rejection :: "thrown \<Rightarrow> bool" where
  "is_rejection e =
    (let m = toLowerCase (thrown_message e) in contains m ''user rejected'' \<or> contains m ''denied'' \<or> contains m ''declined'')"

text \<open>The signer of a step, and the request a write step sends.\<close>

definition step_signer :: "deployment_manifest \<Rightarrow> deployment_step \<Rightarrow> string option" where
  "step_signer manifest step =
    (case find (\<lambda>s. Some (sr_signerId s) = ds_requiredSigner step) (dm_requiredSigners manifest) of
       None \<Rightarrow> None
     | Some signer \<Rightarrow> truthy (sr_address signer))"

definition calldata_approved :: "(string \<Rightarrow> string) \<Rightarrow> deployment_step \<Rightarrow> string \<Rightarrow> bool" where
  "calldata_approved sha256Hex step data =
    (case truthy (ds_calldataHash step) of None \<Rightarrow> True | Some h \<Rightarrow> ''sha256:'' @ sha256Hex data = h)"

definition send_step ::
  "orchestrator_deps \<Rightarrow> deployment_step \<Rightarrow> int \<Rightarrow> string \<Rightarrow> int \<Rightarrow> prepared_call \<Rightarrow> (thrown + string) op" where
  "send_step deps step chainId from nonce prepared =
    (case BigInt (case ds_cost step of Some c \<Rightarrow> sc_estimatedGas c | None \<Rightarrow> ''0'') of
       None \<Rightarrow> op_return (Inl (ThrownOther ''SyntaxError''))
     | Some gas \<Rightarrow>
       (let req = \<lparr>sn_chainId = chainId, sn_from = from,
                   sn_to = (if ds_type step = DEPLOY_CONTRACT then None else pr_to prepared),
                   sn_data = pr_data prepared, sn_value = pr_value prepared, sn_nonce = nonce, sn_gas = gas\<rparr>
        in op_bind (op_do (Called (Sent step req))) (\<lambda>_. op_try (\<lambda>t. od_sendTransaction deps t req))))"

definition op_now :: "orchestrator_deps \<Rightarrow> int op" where
  "op_now deps w = (Inr (tm_now (od_timing deps) (w_tick w)), w)"

definition op_finality :: "nat \<Rightarrow> orchestrator_deps \<Rightarrow> tx_record \<Rightarrow> chain_reader \<Rightarrow> tx_record op" where
  "op_finality fuel deps record reader w =
    (case waitForFinality fuel (od_timing deps) record reader (od_confirmations deps) (w_tick w) of
       None \<Rightarrow> (Inl StillWaiting, w)
     | Some (Inl e, t) \<Rightarrow> (Inl (Escaped (ThrownRpc e)), apply_update (Tick t) w)
     | Some (Inr r, t) \<Rightarrow> (Inr r, apply_update (Tick t) w))"

text \<open>The two halves of the \<open>try\<close> around the send: a failed send, and everything after a hash came back.\<close>

definition write_send_failed :: "orchestrator_deps \<Rightarrow> deployment_step \<Rightarrow> tx_record \<Rightarrow> thrown \<Rightarrow> unit op" where
  "write_send_failed deps step record e = op_bind (op_now deps) (\<lambda>now.
     op_bind (op_do (SetTransaction (ds_id step) (recordSendOutcome record (SendFailed e (is_rejection e)) now))) (\<lambda>_.
     if is_rejection e
     then op_bind (op_do (SetStatus (ds_id step) READY)) (\<lambda>_.
          op_bind (moveTo deps DEPLOYMENT_PAUSED_SIGNER) (\<lambda>_. fail_step SIGNER_REJECTED step))
     else op_bind (op_do (SetStatus (ds_id step) UNKNOWN_STEP)) (\<lambda>_.
          op_bind (moveTo deps DEPLOYMENT_PARTIAL) (\<lambda>_. fail_step UNKNOWN_TX step))))"

definition step_partial :: "orchestrator_deps \<Rightarrow> deployment_step \<Rightarrow> unit op" where
  "step_partial deps step =
    op_bind (op_do (SetStatus (ds_id step) FAILED)) (\<lambda>_.
    op_bind (moveTo deps DEPLOYMENT_PARTIAL) (\<lambda>_. fail_step STEP_FAILED step))"

definition write_sent ::
  "nat \<Rightarrow> orchestrator_deps \<Rightarrow> deployment_step \<Rightarrow> deployment_manifest \<Rightarrow> chain_reader \<Rightarrow> tx_record \<Rightarrow> string \<Rightarrow> unit op" where
  "write_sent fuel deps step manifest reader record hash = op_bind (op_now deps) (\<lambda>now.
     let record' = recordSendOutcome record (SentHash hash) now in
     op_bind (op_do (SetTransaction (ds_id step) record')) (\<lambda>_.
     op_bind (op_finality fuel deps record' reader) (\<lambda>settled.
     op_bind (op_do (SetTransaction (ds_id step) settled)) (\<lambda>_.
     if assertMinedSuccessfully settled \<noteq> Inr () then step_partial deps step
     else
       op_bind (set_address (ds_id step) (tx_contractAddress settled)) (\<lambda>_.
       op_bind (op_do (SetStatus (ds_id step) CONFIRMED)) (\<lambda>_.
       op_bind op_run (\<lambda>run.
       op_bind (op_await (\<lambda>t. od_observe deps t step manifest (dr_createdAddresses run))) (\<lambda>seen.
       if \<not> ob_satisfied seen then step_partial deps step
       else op_bind (op_do (SetStatus (ds_id step) VERIFIED)) (\<lambda>_.
            op_log deps (Some (ds_id step)) (ConfirmedIn (tx_blockNumber settled) (tx_gasUsed settled) (ob_evidence seen)))))))))))"

definition executeWrite ::
  "nat \<Rightarrow> (string \<Rightarrow> string) \<Rightarrow> orchestrator_deps \<Rightarrow> deployment_step \<Rightarrow> deployment_manifest \<Rightarrow> unit op" where
  "executeWrite fuel sha256Hex deps step manifest =
    (case ds_chainId step of None \<Rightarrow> fail_step STEP_FAILED step | Some chainId \<Rightarrow>
     op_bind (op_sum (\<lambda>_. OrchestratorError STEP_FAILED (ds_id step)) (assertWriteAllowed (dm_environment manifest) chainId)) (\<lambda>_.
     case od_readers deps chainId of None \<Rightarrow> fail_step STEP_FAILED step | Some reader \<Rightarrow>
     (case step_signer manifest step of None \<Rightarrow> fail_step STEP_FAILED step | Some from \<Rightarrow>
      op_bind (op_await (\<lambda>t. thrown_by (cr_getTransactionCount reader t from))) (\<lambda>nonce.
      op_bind op_run (\<lambda>run.
      let record = (case map_of (dr_transactions run) (ds_id step) of
                      Some r \<Rightarrow> r
                    | None \<Rightarrow> newTransactionRecord (ds_id step) chainId from nonce (map_option sc_totalNativeWei (ds_cost step))) in
      op_bind (op_await (\<lambda>t. od_resolveCalldata deps t step manifest)) (\<lambda>prepared.
      if \<not> calldata_approved sha256Hex step (pr_data prepared) then fail_step DEPLOY_ARTIFACT_DRIFT step
      else if ds_type step \<noteq> DEPLOY_CONTRACT \<and> pr_to prepared = None then fail_step STEP_FAILED step
      else
        op_bind (op_do (SetStatus (ds_id step) SUBMITTED_STEP)) (\<lambda>_.
        op_bind (send_step deps step chainId from nonce prepared) (\<lambda>sent.
        case sent of
          Inl e \<Rightarrow> write_send_failed deps step record e
        | Inr hash \<Rightarrow> write_sent fuel deps step manifest reader record hash))))))))"

definition executeCreDeploy :: "orchestrator_deps \<Rightarrow> deployment_step \<Rightarrow> deployment_manifest \<Rightarrow> unit op" where
  "executeCreDeploy deps step manifest =
    op_bind (op_await (od_authValid deps)) (\<lambda>valid.
    if \<not> valid then op_bind (moveTo deps DEPLOYMENT_PAUSED_CRE_AUTH) (\<lambda>_. fail_step CRE_AUTH_LOST step)
    else case dm_creWorkflows manifest of [] \<Rightarrow> fail_step STEP_FAILED step | workflow # _ \<Rightarrow>
    op_bind (op_await (od_currentArtifact deps)) (\<lambda>artifact.
    case artifact of None \<Rightarrow> fail_step DEPLOY_ARTIFACT_DRIFT step | Some current \<Rightarrow>
    op_bind op_run (\<lambda>run.
    let approvedHashes = (case dp_approval (dr_plan run) of Some ap \<Rightarrow> pa_artifactHashes ap | None \<Rightarrow> []);
        approvedBinary = truthy (map_of approvedHashes (''cre-binary:'' @ mw_workflowName workflow)) in
    if (case approvedBinary of Some b \<Rightarrow> b \<noteq> ca_binaryHash current | None \<Rightarrow> False) then fail_step DEPLOY_ARTIFACT_DRIFT step
    else
      op_bind (op_sum CreError (assertNoArtifactDrift
        (current\<lparr>ca_binaryHash := mw_binaryHash workflow, ca_configHash := mw_configHash workflow,
                 ca_workflowHash := mw_workflowHash workflow, ca_sourceTreeHash := mw_sourceTreeHash workflow\<rparr>) current)) (\<lambda>_.
      let args = \<lparr>cd_workflow = mw_workflowName workflow, cd_wasmPath = ca_wasmPath current, cd_registry = mw_registry workflow,
                  cd_approvedWasmSha256 = ca_wasmSha256 current\<rparr> in
      op_bind (op_do (Called (CreDeployed args current))) (\<lambda>_.
      op_bind (op_await (\<lambda>t. od_deploy deps t args)) (\<lambda>r.
      op_bind (op_do (SetCreWorkflowId (cy_workflowId r))) (\<lambda>_.
      op_bind (op_do (SetCreStatus (cy_status r))) (\<lambda>_.
      op_bind (op_do (SetStatus (ds_id step) VERIFIED)) (\<lambda>_.
      op_log deps (Some (ds_id step)) (WorkflowRegistered (cy_workflowId r) (cy_status r)))))))))))"

definition upper_char :: "char \<Rightarrow> char" where
  "upper_char c = (let n = of_char c :: nat in if 97 \<le> n \<and> n \<le> 122 then char_of (n - 32) else c)"

definition toUpperCase :: "string \<Rightarrow> string" where
  "toUpperCase s = map upper_char s"

definition op_lifecycle :: "orchestrator_deps \<Rightarrow> string \<Rightarrow> lifecycle_action \<Rightarrow> string op" where
  "op_lifecycle deps workflow action =
    op_bind (op_do (Called (Lifecycle workflow action))) (\<lambda>_. op_await (\<lambda>t. od_lifecycle deps t workflow action))"

definition executeCrePause :: "orchestrator_deps \<Rightarrow> deployment_step \<Rightarrow> deployment_manifest \<Rightarrow> unit op" where
  "executeCrePause deps step manifest =
    (case dm_creWorkflows manifest of [] \<Rightarrow> fail_step STEP_FAILED step | workflow # _ \<Rightarrow>
     op_bind (op_lifecycle deps (mw_workflowName workflow) GetStatus) (\<lambda>observed.
     op_bind (if toUpperCase observed \<noteq> ''PAUSED''
              then op_bind (op_lifecycle deps (mw_workflowName workflow) PauseWorkflow) (\<lambda>_. op_return ()) else op_return ()) (\<lambda>_.
     op_bind (op_lifecycle deps (mw_workflowName workflow) GetStatus) (\<lambda>after.
     op_bind (op_do (SetCreStatus after)) (\<lambda>_.
     op_bind (op_do (SetStatus (ds_id step) VERIFIED)) (\<lambda>_.
     op_log deps (Some (ds_id step)) (WorkflowReadBack after)))))))"

definition built_digest :: "deployment_step \<Rightarrow> string op" where
  "built_digest step = op_bind op_run (\<lambda>run.
     case truthy (dr_runtimeImageDigest run) of None \<Rightarrow> fail_step STEP_FAILED step | Some d \<Rightarrow> op_return d)"

definition image_action :: "orchestrator_deps \<Rightarrow> deployment_step \<Rightarrow> string \<Rightarrow> unit op" where
  "image_action deps step agentId =
    (case ds_type step of
       BUILD_RUNTIME_IMAGE \<Rightarrow>
         op_bind (op_do (Called (ImageBuild agentId))) (\<lambda>_.
         op_bind (op_await (\<lambda>t. od_build deps t agentId)) (\<lambda>d.
         op_bind (op_do (SetImageDigest d)) (\<lambda>_. op_log deps (Some (ds_id step)) (ImageBuilt agentId d))))
     | SCAN_RUNTIME_IMAGE \<Rightarrow>
         op_bind (built_digest step) (\<lambda>d.
         op_bind (op_do (Called (ImageScan d))) (\<lambda>_.
         op_bind (op_await (\<lambda>t. od_scan deps t d)) (\<lambda>s.
         if \<not> sv_promotable s
         then op_bind (op_do (SetStatus (ds_id step) FAILED)) (\<lambda>_.
              op_bind (moveTo deps DEPLOYMENT_FAILED_RECOVERABLE) (\<lambda>_. fail_step IMAGE_GATE step))
         else op_log deps (Some (ds_id step)) (ScanDetail (sv_detail s)))))
     | PUBLISH_RUNTIME_IMAGE \<Rightarrow>
         op_bind (built_digest step) (\<lambda>d.
         op_bind (op_do (Called (ImagePublish d))) (\<lambda>_.
         op_bind (op_await (\<lambda>t. od_publish deps t d)) (\<lambda>_. op_log deps (Some (ds_id step)) (ImagePublished d))))
     | CREATE_RUNTIME_DISABLED \<Rightarrow>
         op_bind (built_digest step) (\<lambda>d.
         op_bind (op_do (Called (RuntimeCreate agentId d))) (\<lambda>_.
         op_bind (op_await (\<lambda>t. od_createDisabled deps t agentId d)) (\<lambda>r. op_log deps (Some (ds_id step)) (RuntimeCreated r d))))
     | _ \<Rightarrow> op_return ())"

definition executeImageStep :: "orchestrator_deps \<Rightarrow> deployment_step \<Rightarrow> deployment_manifest \<Rightarrow> unit op" where
  "executeImageStep deps step manifest =
    (case dm_runtimeImages manifest of [] \<Rightarrow> fail_step STEP_FAILED step | img # _ \<Rightarrow>
     op_bind (image_action deps step (mi_agentId img)) (\<lambda>_. op_do (SetStatus (ds_id step) VERIFIED)))"

subsection \<open>executeStep and runToCompletion\<close>

definition step_handler ::
  "nat \<Rightarrow> (string \<Rightarrow> string) \<Rightarrow> orchestrator_deps \<Rightarrow> deployment_step \<Rightarrow> deployment_manifest \<Rightarrow> unit op" where
  "step_handler fuel sha256Hex deps step manifest =
    (if ds_type step \<in> {VERIFY_CHAIN, VERIFY_CORE, CHECK_CRE_ACCESS, BUILD_CRE_WASM, VERIFY_CRE_HASH, POST_DEPLOY_VERIFY}
     then executeObservation deps step manifest
     else if ds_type step \<in> {DEPLOY_CONTRACT, CONFIGURE_CONTRACT, REGISTER_POLICY_DISABLED, REGISTER_ENS_IDENTITY}
     then executeWrite fuel sha256Hex deps step manifest
     else if ds_type step = DEPLOY_CRE_PRIVATE then executeCreDeploy deps step manifest
     else if ds_type step = PAUSE_CRE then executeCrePause deps step manifest
     else if ds_type step \<in> {BUILD_RUNTIME_IMAGE, SCAN_RUNTIME_IMAGE, PUBLISH_RUNTIME_IMAGE, CREATE_RUNTIME_DISABLED}
     then executeImageStep deps step manifest
     else fail_step STEP_FAILED step)"

definition executeStep ::
  "nat \<Rightarrow> (string \<Rightarrow> string) \<Rightarrow> orchestrator_deps \<Rightarrow> deployment_step \<Rightarrow> deployment_manifest \<Rightarrow> unit op" where
  "executeStep fuel sha256Hex deps step manifest =
    (if ds_type step \<in> set ENABLING_STEP_TYPES then fail_step POLICY_WOULD_BE_ENABLED step
     else op_bind (op_sum MachineError (phaseFor (ds_type step))) (\<lambda>phase.
          op_bind (moveTo deps phase) (\<lambda>_.
          op_bind op_run (\<lambda>run.
          op_bind (case map_of (dr_transactions run) (ds_id step) of
                     None \<Rightarrow> op_return ()
                   | Some existing \<Rightarrow> op_sum ReceiptError (assertSafeToRetry existing)) (\<lambda>_.
          step_handler fuel sha256Hex deps step manifest)))))"

fun execute_steps ::
  "nat \<Rightarrow> nat \<Rightarrow> (string \<Rightarrow> string) \<Rightarrow> orchestrator_deps \<Rightarrow> deployment_manifest \<Rightarrow> unit op" where
  "execute_steps 0 fuel sha256Hex deps manifest = op_return ()"
| "execute_steps (Suc n) fuel sha256Hex deps manifest = op_bind op_run (\<lambda>run.
     case nextStep run of
       None \<Rightarrow> op_return ()
     | Some step \<Rightarrow> op_bind (executeStep fuel sha256Hex deps step manifest) (\<lambda>_. execute_steps n fuel sha256Hex deps manifest))"

definition finish_run :: "orchestrator_deps \<Rightarrow> unit op" where
  "finish_run deps = op_bind op_run (\<lambda>run.
     if filter (\<lambda>s. \<not> satisfied s) (dp_steps (dr_plan run)) = []
     then op_bind (moveTo deps VERIFYING_DEPLOYMENT) (\<lambda>_.
          op_bind (moveTo deps READY_TO_ACTIVATE) (\<lambda>_. op_log deps None ReadyToActivate))
     else op_return ())"

definition runToCompletion ::
  "nat \<Rightarrow> nat \<Rightarrow> (string \<Rightarrow> string) \<Rightarrow> (jsnum \<Rightarrow> string) \<Rightarrow> orchestrator_deps \<Rightarrow> deployment_manifest \<Rightarrow> unit op" where
  "runToCompletion maxSteps fuel sha256Hex num deps manifest =
    op_bind (orch_resume sha256Hex num deps manifest) (\<lambda>_.
    op_bind (execute_steps maxSteps fuel sha256Hex deps manifest) (\<lambda>_. finish_run deps))"

end
