(* ===== verification/Orchestrator_Props.thy ===== *)
theory Orchestrator_Props
  imports Orchestrator
begin

text \<open>
  What a deployment run may do. An operation of the orchestrator is a sequence of permitted updates
  (\<open>via\<close>); the lemmas about updates are proved once by induction over such a sequence and then hold
  for every operation, whether it returns or throws and whatever the dependencies answer.
\<close>

section \<open>Sequences of permitted updates\<close>

inductive updates :: "(world \<Rightarrow> run_update \<Rightarrow> bool) \<Rightarrow> world \<Rightarrow> world \<Rightarrow> bool" for ok where
  none: "updates ok w w"
| more: "updates ok w w' \<Longrightarrow> ok w' u \<Longrightarrow> updates ok w (apply_update u w')"

lemma updates_trans: "updates ok w w' \<Longrightarrow> updates ok w' w'' \<Longrightarrow> updates ok w w''"
  by (rotate_tac 1, induction rule: updates.induct) (auto intro: updates.intros)

lemma updates_one: "ok w u \<Longrightarrow> updates ok w (apply_update u w)"
  by (auto intro: updates.intros)

lemma updates_mono: "updates ok w w' \<Longrightarrow> (\<And>v u. ok v u \<Longrightarrow> ok' v u) \<Longrightarrow> updates ok' w w'"
  by (induction rule: updates.induct) (auto intro: updates.intros)

definition via :: "(world \<Rightarrow> run_update \<Rightarrow> bool) \<Rightarrow> 'a op \<Rightarrow> bool" where
  "via ok m \<longleftrightarrow> (\<forall>w. updates ok w (snd (m w)))"

lemma viaD: "via ok m \<Longrightarrow> m w = (r, w') \<Longrightarrow> updates ok w w'"
  by (metis via_def snd_conv)

named_theorems via_intros \<open>operations that make only permitted updates\<close>

text \<open>What every set of permitted updates allows here: time passes and events are logged.\<close>

definition ticks_and_logs :: "(world \<Rightarrow> run_update \<Rightarrow> bool) \<Rightarrow> bool" where
  "ticks_and_logs ok \<longleftrightarrow> (\<forall>w t. ok w (Tick t)) \<and> (\<forall>w e. ok w (Logged e))"

lemma via_return [via_intros]: "via ok (op_return x)"
  by (simp add: via_def op_return_def updates.none)

lemma via_throw [via_intros]: "via ok (op_throw e)"
  by (simp add: via_def op_throw_def updates.none)

lemma via_fail [via_intros]: "via ok (fail_step reason s)"
  by (simp add: fail_step_def via_throw)

lemma via_run [via_intros]: "via ok op_run"
  by (simp add: via_def op_run_def updates.none)

lemma via_now [via_intros]: "via ok (op_now deps)"
  by (simp add: via_def op_now_def updates.none)

lemma via_sum [via_intros]: "via ok (op_sum err r)"
  by (cases r) (simp_all add: op_sum_def via_return via_throw)

lemma op_sum_Inr [simp]: "op_sum err r w = (Inr x, w') \<longleftrightarrow> r = Inr x \<and> w' = w"
  by (cases r) (auto simp: op_sum_def op_throw_def op_return_def)

lemma via_bind:
  assumes "via ok m" and f: "\<And>x w w'. m w = (Inr x, w') \<Longrightarrow> via ok (f x)"
  shows "via ok (op_bind m f)"
proof (unfold via_def, intro allI)
  fix w
  obtain r w1 where run: "m w = (r, w1)" by fastforce
  with assms(1) have "updates ok w w1" by (metis via_def snd_conv)
  with f run show "updates ok w (snd (op_bind m f w))" by (cases r) (auto simp: op_bind_def via_def intro: updates_trans)
qed

lemma via_if: "(b \<Longrightarrow> via ok m) \<Longrightarrow> (\<not> b \<Longrightarrow> via ok n) \<Longrightarrow> via ok (if b then m else n)"
  by simp

lemma via_option: "(x = None \<Longrightarrow> via ok m) \<Longrightarrow> (\<And>y. x = Some y \<Longrightarrow> via ok (f y)) \<Longrightarrow> via ok (case x of None \<Rightarrow> m | Some y \<Rightarrow> f y)"
  by (cases x) simp_all

lemma via_list: "(x = [] \<Longrightarrow> via ok m) \<Longrightarrow> (\<And>y ys. x = y # ys \<Longrightarrow> via ok (f y ys)) \<Longrightarrow> via ok (case x of [] \<Rightarrow> m | y # ys \<Rightarrow> f y ys)"
  by (cases x) simp_all

lemma via_sum_case: "(\<And>y. x = Inl y \<Longrightarrow> via ok (g y)) \<Longrightarrow> (\<And>y. x = Inr y \<Longrightarrow> via ok (f y)) \<Longrightarrow> via ok (case x of Inl y \<Rightarrow> g y | Inr y \<Rightarrow> f y)"
  by (cases x) simp_all

lemmas via_control = via_bind via_if via_option via_list via_sum_case

lemma via_do: "(\<And>w. ok w u) \<Longrightarrow> via ok (op_do u)"
  by (simp add: via_def op_do_def updates_one)

lemma via_try: "ticks_and_logs ok \<Longrightarrow> via ok (op_try f)"
  unfolding via_def op_try_def ticks_and_logs_def snd_conv by (blast intro: updates_one)

lemma via_await: "ticks_and_logs ok \<Longrightarrow> via ok (op_await f)"
  unfolding op_await_def by (intro via_bind via_try via_sum)

lemma via_log: "ticks_and_logs ok \<Longrightarrow> via ok (op_log deps i m)"
  unfolding via_def op_log_def op_do_def ticks_and_logs_def snd_conv by (blast intro: updates_one)

lemma via_each: "(\<And>x. via ok (f x)) \<Longrightarrow> via ok (op_each f xs)"
  by (induction xs) (auto intro: via_return via_bind)

lemma via_reconcile: "ticks_and_logs ok \<Longrightarrow> via ok (op_reconcile deps r reader)"
  unfolding via_def op_reconcile_def ticks_and_logs_def by (auto simp del: apply_update.simps split: prod.splits sum.splits intro!: updates_one)

lemma via_finality: "ticks_and_logs ok \<Longrightarrow> via ok (op_finality fuel deps r reader)"
  unfolding via_def op_finality_def ticks_and_logs_def
  by (auto simp del: apply_update.simps split: option.splits prod.splits sum.splits intro!: updates_one updates.none)

lemma via_move:
  assumes "ticks_and_logs ok" "\<And>w. can_move (dr_state (w_run w)) to \<Longrightarrow> ok w (Move to)"
  shows "via ok (moveTo deps to)"
  unfolding via_def
proof
  fix w
  let ?w1 = "snd (op_log deps None (MovedState (dr_state (w_run w)) to) w)"
  have log: "updates ok w ?w1" using via_log [OF assms(1)] by (simp add: via_def)
  have same: "dr_state (w_run ?w1) = dr_state (w_run w)" by (simp add: op_log_def op_do_def on_run_def)
  show "updates ok w (snd (moveTo deps to w))"
  proof (cases "dr_state (w_run w) = to \<or> \<not> can_move (dr_state (w_run w)) to")
    case True
    then show ?thesis
      by (auto simp: moveTo_def op_bind_def op_run_def op_return_def op_sum_def op_throw_def assertTransition_def updates.none)
  next
    case False
    then have "snd (moveTo deps to w) = apply_update (Move to) ?w1"
      by (simp add: moveTo_def op_bind_def op_run_def op_return_def op_sum_def assertTransition_def op_do_def op_log_def)
    with log assms(2) [of ?w1] False same show ?thesis by (metis updates.more)
  qed
qed

section \<open>What is permitted\<close>

text \<open>
  A call on the outside world is covered when it does what the manifest and the step say: a send
  is for a step of the given set, on the step's chain where the environment allows writes, from the
  step's signer, with the calldata whose hash the step pins; a workflow is deployed from an artifact
  with the manifest's hashes; a workflow is read or paused, never activated.
\<close>

fun covered :: "(string \<Rightarrow> string) \<Rightarrow> deployment_manifest \<Rightarrow> deployment_step set \<Rightarrow> outside_call \<Rightarrow> bool" where
  "covered sha m S (Sent step req) \<longleftrightarrow>
     step \<in> S \<and> ds_type step \<in> set WRITING_STEP_TYPES \<and> ds_chainId step = Some (sn_chainId req) \<and>
     assertWriteAllowed (dm_environment m) (sn_chainId req) = Inr () \<and> step_signer m step = Some (sn_from req) \<and>
     calldata_approved sha step (sn_data req) \<and> (sn_to req = None \<longleftrightarrow> ds_type step = DEPLOY_CONTRACT)"
| "covered sha m S (CreDeployed args a) \<longleftrightarrow>
     (\<exists>wf rest. dm_creWorkflows m = wf # rest \<and> cd_workflow args = mw_workflowName wf \<and> cd_registry args = mw_registry wf \<and>
        cd_wasmPath args = ca_wasmPath a \<and> cd_approvedWasmSha256 args = ca_wasmSha256 a \<and> ca_binaryHash a = mw_binaryHash wf \<and>
        ca_configHash a = mw_configHash wf \<and> ca_workflowHash a = mw_workflowHash wf \<and> ca_sourceTreeHash a = mw_sourceTreeHash wf)"
| "covered sha m S (Lifecycle name action) \<longleftrightarrow> action \<noteq> ActivateWorkflow"
| "covered sha m S c \<longleftrightarrow> True"

fun permitted ::
  "(string \<Rightarrow> string) \<Rightarrow> deployment_manifest \<Rightarrow> deployment_step set \<Rightarrow> (string \<Rightarrow> step_status \<Rightarrow> bool) \<Rightarrow> world \<Rightarrow> run_update \<Rightarrow> bool" where
  "permitted sha m S ST w (Move t) \<longleftrightarrow> can_move (dr_state (w_run w)) t \<and> t \<noteq> READY_TO_ACTIVATE \<and> t \<noteq> DEPLOYMENT_FAILED_TERMINAL"
| "permitted sha m S ST w (Called c) \<longleftrightarrow> covered sha m S c"
| "permitted sha m S ST w (SetStatus i st) \<longleftrightarrow> ST i st"
| "permitted sha m S ST w u \<longleftrightarrow> True"

lemma permitted_ticks [simp]: "ticks_and_logs (permitted sha m S ST)"
  by (simp add: ticks_and_logs_def)

lemma via_permitted [via_intros]:
  "via (permitted sha m S ST) (op_try f)" "via (permitted sha m S ST) (op_await g)" "via (permitted sha m S ST) (op_log deps i msg)"
  "via (permitted sha m S ST) (op_reconcile deps r reader)" "via (permitted sha m S ST) (op_finality fuel deps r reader)"
  by (simp_all add: via_try via_await via_log via_reconcile via_finality)

lemma via_permitted_do [via_intros]:
  "via (permitted sha m S ST) (op_do (SetTransaction i tx))" "via (permitted sha m S ST) (op_do (SetAddress i a))"
  "via (permitted sha m S ST) (op_do (SetCreWorkflowId i))" "via (permitted sha m S ST) (op_do (SetCreStatus i))"
  "via (permitted sha m S ST) (op_do (SetImageDigest i))"
  "ST i st \<Longrightarrow> via (permitted sha m S ST) (op_do (SetStatus i st))"
  "covered sha m S c \<Longrightarrow> via (permitted sha m S ST) (op_do (Called c))"
  by (simp_all add: via_do)

lemma via_permitted_move [via_intros]:
  "to \<noteq> READY_TO_ACTIVATE \<Longrightarrow> to \<noteq> DEPLOYMENT_FAILED_TERMINAL \<Longrightarrow> via (permitted sha m S ST) (moveTo deps to)"
  by (simp add: via_move)

lemma via_set_address [via_intros]: "via (permitted sha m S ST) (set_address i a)"
  unfolding set_address_def by (intro via_control via_intros)

lemma via_resume_transaction [via_intros]: "via (permitted sha m S ST) (resume_transaction deps e)"
  unfolding resume_transaction_def split_beta Let_def by (intro via_control via_intros)

lemma via_resume_step:
  "(\<And>i. ST i VERIFIED \<and> ST i SKIPPED_ALREADY_SATISFIED) \<Longrightarrow> via (permitted sha m S ST) (resume_step deps m step)"
  unfolding resume_step_def Let_def by (intro via_control via_intros) auto

lemma via_resume:
  assumes "\<And>i. ST i VERIFIED \<and> ST i SKIPPED_ALREADY_SATISFIED"
  shows "via (permitted sha m S ST) (orch_resume sha' num deps m)"
  unfolding orch_resume_def by (intro via_control via_each via_intros via_resume_step assms)

section \<open>Handlers\<close>

lemma via_built_digest [via_intros]: "via ok (built_digest step)"
  unfolding built_digest_def by (intro via_control via_intros)

lemma via_observation: "\<forall>st. ST (ds_id step) st \<Longrightarrow> via (permitted sha m S ST) (executeObservation deps step m)"
  unfolding executeObservation_def by (intro via_control via_intros) auto

lemma via_step_partial: "\<forall>st. ST (ds_id step) st \<Longrightarrow> via (permitted sha m S ST) (step_partial deps step)"
  unfolding step_partial_def by (intro via_control via_intros) auto

lemma via_write_sent:
  "\<forall>st. ST (ds_id step) st \<Longrightarrow> via (permitted sha m S ST) (write_sent fuel deps step m' reader record hash)"
  unfolding write_sent_def Let_def by (intro via_control via_intros via_step_partial) auto

lemma via_write_send_failed:
  "\<forall>st. ST (ds_id step) st \<Longrightarrow> via (permitted sha m S ST) (write_send_failed deps step record e)"
  unfolding write_send_failed_def by (intro via_control via_intros) auto

lemma via_send_step:
  assumes "step \<in> S" "ds_type step \<in> set WRITING_STEP_TYPES" "ds_chainId step = Some chainId"
    "assertWriteAllowed (dm_environment m) chainId = Inr ()" "step_signer m step = Some from"
    "calldata_approved sha step (pr_data prepared)" "\<not> (ds_type step \<noteq> DEPLOY_CONTRACT \<and> pr_to prepared = None)"
  shows "via (permitted sha m S ST) (send_step deps step chainId from nonce prepared)"
  unfolding send_step_def Let_def by (intro via_control via_intros) (use assms in auto)

lemma via_write:
  assumes "step \<in> S" "ds_type step \<in> set WRITING_STEP_TYPES" "\<forall>st. ST (ds_id step) st"
  shows "via (permitted sha m S ST) (executeWrite fuel sha deps step m)"
  unfolding executeWrite_def Let_def
  by (intro via_control via_intros via_send_step via_write_sent via_write_send_failed) (use assms in auto)

lemma via_cre_deploy:
  assumes "\<forall>st. ST (ds_id step) st"
  shows "via (permitted sha m S ST) (executeCreDeploy deps step m)"
  unfolding executeCreDeploy_def Let_def
  by (intro via_control via_intros) (use assms in \<open>auto simp: assertNoArtifactDrift_def drift_empty_iff\<close>)

lemma via_lifecycle: "a \<noteq> ActivateWorkflow \<Longrightarrow> via (permitted sha m S ST) (op_lifecycle deps w a)"
  unfolding op_lifecycle_def by (intro via_control via_intros) auto

lemma via_cre_pause:
  assumes "\<forall>st. ST (ds_id step) st"
  shows "via (permitted sha m S ST) (executeCrePause deps step m)"
  unfolding executeCrePause_def by (intro via_control via_lifecycle via_intros) (use assms in auto)

lemma via_image_action:
  assumes "\<forall>st. ST (ds_id step) st"
  shows "via (permitted sha m S ST) (image_action deps step agent)"
  unfolding image_action_def
  by (cases "ds_type step") (simp_all, (intro via_control via_intros; use assms in simp)+)

lemma via_image:
  assumes "\<forall>st. ST (ds_id step) st"
  shows "via (permitted sha m S ST) (executeImageStep deps step m)"
  unfolding executeImageStep_def by (intro via_control via_image_action via_intros) (use assms in auto)

lemma via_handler:
  assumes "step \<in> S" "\<forall>st. ST (ds_id step) st"
  shows "via (permitted sha m S ST) (step_handler fuel sha deps step m)"
proof (cases "ds_type step \<in> {DEPLOY_CONTRACT, CONFIGURE_CONTRACT, REGISTER_POLICY_DISABLED, REGISTER_ENS_IDENTITY}")
  case True
  then have "ds_type step \<in> set WRITING_STEP_TYPES" by (auto simp: WRITING_STEP_TYPES_def)
  from via_write [of step S ST, OF assms(1) this assms(2)] True show ?thesis by (auto simp: step_handler_def)
next
  case False
  then show ?thesis
    using via_observation via_cre_deploy via_cre_pause via_image assms(2) by (simp add: step_handler_def via_fail)
qed

lemma phase_not_ready: "phaseFor k = Inr t \<Longrightarrow> t \<noteq> READY_TO_ACTIVATE \<and> t \<noteq> DEPLOYMENT_FAILED_TERMINAL"
  by (cases k) auto

lemma via_executeStep:
  assumes "step \<in> S" "\<forall>st. ST (ds_id step) st"
  shows "via (permitted sha m S ST) (executeStep fuel sha deps step m)"
  unfolding executeStep_def
  by (intro via_control via_intros via_handler) (use assms phase_not_ready in auto)

section \<open>What permitted updates keep\<close>

abbreviation plan_of :: "world \<Rightarrow> deployment_plan" where "plan_of w \<equiv> dr_plan (w_run w)"

abbreviation state_of :: "world \<Rightarrow> deployment_state" where "state_of w \<equiv> dr_state (w_run w)"

lemma unrun_status [simp]: "unrun (s\<lparr>ds_status := st\<rparr>) = unrun s"
  by (simp add: unrun_def)

lemma unrun_selectors:
  "ds_id (unrun s) = ds_id s" "ds_type (unrun s) = ds_type s" "ds_chainId (unrun s) = ds_chainId s"
  "ds_dependencyIds (unrun s) = ds_dependencyIds s" "ds_requiredSigner (unrun s) = ds_requiredSigner s"
  "ds_calldataHash (unrun s) = ds_calldataHash s"
  by (simp_all add: unrun_def)

lemma unrun_fields:
  assumes "unrun s = unrun t"
  shows "ds_id s = ds_id t \<and> ds_type s = ds_type t \<and> ds_chainId s = ds_chainId t \<and> ds_dependencyIds s = ds_dependencyIds t \<and>
    ds_requiredSigner s = ds_requiredSigner t \<and> ds_calldataHash s = ds_calldataHash t"
  using assms unrun_selectors [of s] unrun_selectors [of t] by simp

lemma setStatus_plan_unrun: "map unrun (dp_steps (setStatus_plan i st p)) = map unrun (dp_steps p)"
  by (simp add: setStatus_plan_def comp_def if_distrib cong: if_cong)

definition same_plan_as :: "deployment_plan \<Rightarrow> deployment_plan \<Rightarrow> bool" where
  "same_plan_as p q \<longleftrightarrow> map unrun (dp_steps p) = map unrun (dp_steps q) \<and> q\<lparr>dp_steps := []\<rparr> = p\<lparr>dp_steps := []\<rparr>"

lemma same_plan_trans: "same_plan_as p q \<Longrightarrow> same_plan_as q r \<Longrightarrow> same_plan_as p r"
  by (simp add: same_plan_as_def)

lemma same_plan_setStatus: "same_plan_as p (setStatus_plan i st p)"
proof -
  have "(setStatus_plan i st p)\<lparr>dp_steps := []\<rparr> = p\<lparr>dp_steps := []\<rparr>" by (simp add: setStatus_plan_def)
  then show ?thesis unfolding same_plan_as_def using setStatus_plan_unrun by metis
qed

lemma apply_update_plan: "same_plan_as (plan_of w) (plan_of (apply_update u w))"
  by (cases u) (simp_all add: on_run_def same_plan_setStatus, simp_all add: same_plan_as_def)

lemma updates_plan: "updates ok w w' \<Longrightarrow> same_plan_as (plan_of w) (plan_of w')"
proof (induction rule: updates.induct)
  case (none w)
  show ?case by (simp add: same_plan_as_def)
next
  case (more w w' u)
  then show ?case using apply_update_plan same_plan_trans by blast
qed

lemma updates_state:
  assumes "updates (permitted sha m S ST) w w'"
  shows "can_move\<^sup>*\<^sup>* (state_of w) (state_of w') \<and> (state_of w \<in> set RESUMABLE_STATES \<longrightarrow> state_of w' \<in> set RESUMABLE_STATES)"
  using assms
proof (induction rule: updates.induct)
  case (more w w' u)
  then show ?case
    by (cases u) (simp_all add: on_run_def in_resumable, meson rtranclp.rtrancl_into_rtrancl)
qed simp

lemma updates_calls:
  assumes "updates (permitted sha m S ST) w w'"
  shows "\<exists>cs. w_calls w' = w_calls w @ cs \<and> (\<forall>c \<in> set cs. covered sha m S c)"
  using assms
proof (induction rule: updates.induct)
  case (more w w' u)
  then obtain cs where "w_calls w' = w_calls w @ cs" "\<forall>c \<in> set cs. covered sha m S c" by blast
  with more.hyps(2) show ?case
    by (cases u) (auto simp: on_run_def intro: exI [of _ "cs @ [c]" for c])
qed simp

lemma updates_events:
  assumes "updates ok w w'"
  shows "\<exists>es. dr_events (w_run w') = dr_events (w_run w) @ es"
  using assms
proof (induction rule: updates.induct)
  case (more w w' u)
  then show ?case by (cases u) (auto simp: on_run_def)
qed simp

lemma same_plan_hash:
  assumes "same_plan_as p q"
  shows "deploymentPlanHash sha num q = deploymentPlanHash sha num p"
    and "assertApprovedFor sha num q m = assertApprovedFor sha num p m"
proof -
  have parts: "dp_schemaVersion q = dp_schemaVersion p" "dp_planId q = dp_planId p" "dp_manifestHash q = dp_manifestHash p"
    "dp_readiness q = dp_readiness p" "dp_approval q = dp_approval p"
    using assms by (cases p; cases q; simp add: same_plan_as_def)+
  with assms have "walk (deploy_planIdentity q) = walk (deploy_planIdentity p)"
    by (simp add: deploy_planIdentity_inject same_plan_as_def)
  then show "deploymentPlanHash sha num q = deploymentPlanHash sha num p"
    by (simp add: deploymentPlanHash_def digestOf_def canonicalize_def)
  show "assertApprovedFor sha num q m = assertApprovedFor sha num p m"
    using parts by (simp add: assertApprovedFor_def approvalDrift_def)
qed

section \<open>Whole runs\<close>

abbreviation plan_steps_upto :: "world \<Rightarrow> deployment_step set" where
  "plan_steps_upto w \<equiv> {s. unrun s \<in> unrun ` set (dp_steps (plan_of w))}"

lemma plan_steps_kept:
  assumes "updates ok w w'"
  shows "plan_steps_upto w' = plan_steps_upto w"
proof -
  have "map unrun (dp_steps (plan_of w)) = map unrun (dp_steps (plan_of w'))"
    using updates_plan [OF assms] by (simp add: same_plan_as_def)
  then have "set (map unrun (dp_steps (plan_of w))) = set (map unrun (dp_steps (plan_of w')))" by simp
  then show ?thesis by simp
qed

lemma nextStep_in: "nextStep run = Some s \<Longrightarrow> s \<in> set (dp_steps (dr_plan run))"
  by (auto simp: nextStep_def find_Some_iff)

definition any_status :: "string \<Rightarrow> step_status \<Rightarrow> bool" where
  "any_status i st = True"

lemma any_status_all [intro!]: "any_status i st"
  by (simp add: any_status_def)

lemma execute_steps_updates:
  "updates (permitted sha m (plan_steps_upto w) any_status) w (snd (execute_steps n fuel sha deps m w))"
proof (induction n arbitrary: w)
  case 0
  show ?case by (simp add: op_return_def updates.none)
next
  case (Suc n)
  show ?case
  proof (cases "nextStep (w_run w)")
    case None
    then show ?thesis by (simp add: op_bind_def op_run_def op_return_def updates.none)
  next
    case (Some step)
    obtain r w1 where run: "executeStep fuel sha deps step m w = (r, w1)" by fastforce
    have "via (permitted sha m (plan_steps_upto w) any_status) (executeStep fuel sha deps step m)"
      using nextStep_in [OF Some] by (intro via_executeStep) auto
    then have first: "updates (permitted sha m (plan_steps_upto w) any_status) w w1" using run by (rule viaD)
    have rest: "updates (permitted sha m (plan_steps_upto w) any_status) w (snd (execute_steps n fuel sha deps m w1))"
      by (rule updates_trans [OF first Suc [of w1, unfolded plan_steps_kept [OF first]]])
    with first run Some show ?thesis by (cases r) (simp_all add: op_bind_def op_run_def)
  qed
qed

text \<open>A run that gets past its approval check has done nothing outside before it.\<close>

lemma resume_refused:
  assumes "orch_resume sha num deps m w = (r, w')"
    and "state_of w \<notin> set RESUMABLE_STATES \<or> assertApprovedFor sha num (plan_of w) m \<noteq> Inr ()"
  shows "w' = w \<and> \<not> succeeds r"
  using assms
  by (cases "assertApprovedFor sha num (plan_of w) m")
    (auto simp: orch_resume_def op_bind_def op_run_def op_throw_def op_sum_def split: if_splits)

lemma runToCompletion_parts:
  assumes "runToCompletion n fuel sha num deps m w = (r, w')"
  obtains (refused) "w' = w" "\<not> succeeds r" "state_of w \<notin> set RESUMABLE_STATES \<or> assertApprovedFor sha num (plan_of w) m \<noteq> Inr ()"
  | (stopped) "updates (permitted sha m (plan_steps_upto w) any_status) w w'" "\<not> succeeds r"
      "state_of w \<in> set RESUMABLE_STATES" "assertApprovedFor sha num (plan_of w) m = Inr ()"
  | (finished) w1 where "updates (permitted sha m (plan_steps_upto w) any_status) w w1" "finish_run deps w1 = (r, w')"
      "state_of w \<in> set RESUMABLE_STATES" "assertApprovedFor sha num (plan_of w) m = Inr ()"
proof -
  let ?U = "updates (permitted sha m (plan_steps_upto w) any_status)"
  obtain r1 w1 where one: "orch_resume sha num deps m w = (r1, w1)" by fastforce
  show thesis
  proof (cases "state_of w \<notin> set RESUMABLE_STATES \<or> assertApprovedFor sha num (plan_of w) m \<noteq> Inr ()")
    case True
    with resume_refused [OF one] assms one have "w' = w" "\<not> succeeds r"
      by (cases r1; auto simp: runToCompletion_def op_bind_def)+
    with True refused show thesis by blast
  next
    case False
    have "via (permitted sha m (plan_steps_upto w) any_status) (orch_resume sha num deps m)" by (rule via_resume) blast
    then have u1: "?U w w1" using one by (rule viaD)
    obtain r2 w2 where two: "execute_steps n fuel sha deps m w1 = (r2, w2)" by fastforce
    have u2: "?U w w2"
      by (rule updates_trans [OF u1 execute_steps_updates [of sha m w1 n fuel deps, unfolded plan_steps_kept [OF u1] two snd_conv]])
    show thesis
    proof (cases r1)
      case (Inl e)
      with one assms u1 stopped False show thesis by (auto simp: runToCompletion_def op_bind_def)
    next
      case (Inr x)
      then show thesis
        using one two assms u2 stopped finished [of w2] False
        by (cases r2) (auto simp: runToCompletion_def op_bind_def)
    qed
  qed
qed

text \<open>The final moves: the run ends ready exactly if all steps are satisfied and the moves are legal.\<close>

lemma finish_run_cases:
  assumes "finish_run deps w = (r, w')"
  shows "w_calls w' = w_calls w \<and> plan_of w' = plan_of w \<and> can_move\<^sup>*\<^sup>* (state_of w) (state_of w') \<and>
     (state_of w' = state_of w \<or> state_of w' = READY_TO_ACTIVATE) \<and>
     (state_of w \<noteq> READY_TO_ACTIVATE \<longrightarrow> state_of w' = READY_TO_ACTIVATE \<longrightarrow>
        r = Inr () \<and> (\<forall>s \<in> set (dp_steps (plan_of w')). satisfied s)) \<and>
     (state_of w \<in> set RESUMABLE_STATES \<and> (\<forall>s \<in> set (dp_steps (plan_of w)). satisfied s) \<longrightarrow>
        r = Inr ()) \<and>
     (r = Inr () \<and> (\<forall>s \<in> set (dp_steps (plan_of w)). satisfied s) \<longrightarrow> state_of w' = READY_TO_ACTIVATE)"
proof (cases "\<forall>s \<in> set (dp_steps (plan_of w)). satisfied s")
  case False
  then have "filter (\<lambda>s. \<not> satisfied s) (dp_steps (plan_of w)) \<noteq> []" by (auto simp: filter_empty_conv)
  with assms False show ?thesis
    by (auto simp: finish_run_def op_bind_def op_run_def op_return_def)
next
  case True
  then have all: "filter (\<lambda>s. \<not> satisfied s) (dp_steps (plan_of w)) = []" by (simp add: filter_empty_conv)
  have ready: "can_move VERIFYING_DEPLOYMENT READY_TO_ACTIVATE" by (simp add: can_move_iff RESUMABLE_STATES_def)
  have verify: "can_move (state_of w) VERIFYING_DEPLOYMENT \<or> state_of w = VERIFYING_DEPLOYMENT"
    if "state_of w \<in> set RESUMABLE_STATES"
    using that by (induction "state_of w") (simp_all add: can_move_iff in_resumable)
  show ?thesis
  proof (cases "state_of w = VERIFYING_DEPLOYMENT")
    case True
    with assms all ready \<open>\<forall>s \<in> set (dp_steps (plan_of w)). satisfied s\<close> show ?thesis
      by (auto simp: finish_run_def moveTo_def op_bind_def op_run_def op_return_def op_sum_def op_log_def op_do_def on_run_def
          assertTransition_def)
  next
    case neq: False
    show ?thesis
    proof (cases "can_move (state_of w) VERIFYING_DEPLOYMENT")
      case True
      then have "can_move\<^sup>*\<^sup>* (state_of w) READY_TO_ACTIVATE" using ready by (meson converse_rtranclp_into_rtranclp r_into_rtranclp)
      with assms all ready True neq \<open>\<forall>s \<in> set (dp_steps (plan_of w)). satisfied s\<close> show ?thesis
        by (auto simp: finish_run_def moveTo_def op_bind_def op_run_def op_return_def op_sum_def op_log_def op_do_def on_run_def
            assertTransition_def)
    next
      case False
      with assms all neq verify show ?thesis
        by (auto simp: finish_run_def moveTo_def op_bind_def op_run_def op_return_def op_sum_def op_throw_def
            assertTransition_def)
    qed
  qed
qed

end
