(* ===== verification/Orchestrator_Runs.thy ===== *)
theory Orchestrator_Runs
  imports Orchestrator_Props
begin

text \<open>
  Properties of whole deployment runs (\<open>packages/studio-orchestrator/src/orchestrator.ts\<close>): what a
  run may have done when it stops, when it is ready, and what it does with submissions whose outcome
  it does not know.
\<close>

section \<open>Steps that end verified\<close>

text \<open>\<open>ends P m\<close>: whenever \<open>m\<close> returns, \<open>P\<close> holds of the world it leaves.\<close>

definition ends :: "(world \<Rightarrow> bool) \<Rightarrow> 'a op \<Rightarrow> bool" where
  "ends P m \<longleftrightarrow> (\<forall>w x w'. m w = (Inr x, w') \<longrightarrow> P w')"

named_theorems ends_intros \<open>operations that establish their postcondition when they return\<close>

lemma ends_throw [ends_intros]: "ends P (op_throw e)"
  by (simp add: ends_def op_throw_def)

lemma ends_fail [ends_intros]: "ends P (fail_step reason s)"
  by (simp add: fail_step_def ends_throw)

lemma ends_bind: "(\<And>x. ends P (f x)) \<Longrightarrow> ends P (op_bind m f)"
  by (auto simp: ends_def op_bind_def split: prod.splits sum.splits)

lemma ends_if: "ends P m \<Longrightarrow> ends P n \<Longrightarrow> ends P (if b then m else n)"
  by simp

lemma ends_option: "ends P m \<Longrightarrow> (\<And>y. ends P (f y)) \<Longrightarrow> ends P (case x of None \<Rightarrow> m | Some y \<Rightarrow> f y)"
  by (cases x) simp_all

lemma ends_list: "ends P m \<Longrightarrow> (\<And>y ys. ends P (f y ys)) \<Longrightarrow> ends P (case x of [] \<Rightarrow> m | y # ys \<Rightarrow> f y ys)"
  by (cases x) simp_all

lemma ends_sum_case: "(\<And>y. ends P (g y)) \<Longrightarrow> (\<And>y. ends P (f y)) \<Longrightarrow> ends P (case x of Inl y \<Rightarrow> g y | Inr y \<Rightarrow> f y)"
  by (cases x) simp_all

lemmas ends_control = ends_if ends_option ends_list ends_sum_case

definition verified_in :: "string \<Rightarrow> world \<Rightarrow> bool" where
  "verified_in i w \<longleftrightarrow> (\<forall>s \<in> set (dp_steps (plan_of w)). ds_id s = i \<longrightarrow> ds_status s = VERIFIED)"

lemma verified_in_set: "verified_in i (apply_update (SetStatus i VERIFIED) w)"
  by (simp add: verified_in_def on_run_def setStatus_plan_def del: if_image_distrib)

lemma verified_in_logged: "verified_in i (apply_update (Logged e) w) = verified_in i w"
  by (simp add: verified_in_def on_run_def)

lemma ends_verified [ends_intros]: "ends (verified_in i) (op_do (SetStatus i VERIFIED))"
  unfolding ends_def op_do_def using verified_in_set by (metis prod.inject)

lemma ends_verified_log [ends_intros]: "ends (verified_in i) (op_bind (op_do (SetStatus i VERIFIED)) (\<lambda>_. op_log deps j msg))"
  unfolding ends_def op_bind_def op_do_def op_log_def by (simp del: apply_update.simps add: verified_in_set verified_in_logged)

lemmas ends_step = ends_intros ends_control ends_bind

lemma ends_observation: "ends (verified_in (ds_id step)) (executeObservation deps step m)"
  unfolding executeObservation_def by (intro ends_step)

lemma ends_partial: "ends P (step_partial deps step)"
  unfolding step_partial_def by (intro ends_step)

lemma ends_write: "ends (verified_in (ds_id step)) (executeWrite fuel sha deps step m)"
  unfolding executeWrite_def write_sent_def write_send_failed_def Let_def by (intro ends_partial ends_step)

lemma ends_cre_deploy: "ends (verified_in (ds_id step)) (executeCreDeploy deps step m)"
  unfolding executeCreDeploy_def Let_def by (intro ends_step)

lemma ends_cre_pause: "ends (verified_in (ds_id step)) (executeCrePause deps step m)"
  unfolding executeCrePause_def by (intro ends_step)

lemma ends_image: "ends (verified_in (ds_id step)) (executeImageStep deps step m)"
  unfolding executeImageStep_def by (intro ends_step)

lemma ends_executeStep: "ends (verified_in (ds_id step)) (executeStep fuel sha deps step m)"
  unfolding executeStep_def step_handler_def
  by (intro ends_observation ends_write ends_cre_deploy ends_cre_pause ends_image ends_step)

section \<open>Only the step's own status changes\<close>

definition others :: "string \<Rightarrow> deployment_plan \<Rightarrow> deployment_step option list" where
  "others i p = map (\<lambda>s. if ds_id s = i then None else Some s) (dp_steps p)"

lemma others_setStatus: "others i (setStatus_plan i st p) = others i p"
  by (simp add: others_def setStatus_plan_def)

lemma updates_others:
  assumes "updates (permitted sha m S (\<lambda>j st. j = i)) w w'"
  shows "others i (plan_of w') = others i (plan_of w)"
  using assms
proof (induction rule: updates.induct)
  case (more w w' u)
  then show ?case by (cases u) (simp_all add: on_run_def others_setStatus)
qed simp

lemma executeStep_verified:
  assumes "executeStep fuel sha deps step m w = (Inr x, w')"
  shows "verified_in (ds_id step) w' \<and> others (ds_id step) (plan_of w') = others (ds_id step) (plan_of w) \<and>
    same_plan_as (plan_of w) (plan_of w')"
proof -
  have "via (permitted sha m UNIV (\<lambda>j st. j = ds_id step)) (executeStep fuel sha deps step m)"
    by (rule via_executeStep) simp_all
  then have "updates (permitted sha m UNIV (\<lambda>j st. j = ds_id step)) w w'" using assms by (rule viaD)
  then show ?thesis
    using updates_others updates_plan ends_executeStep [unfolded ends_def] assms by metis
qed

text \<open>What is left to do after a step has succeeded.\<close>

definition left :: "deployment_plan \<Rightarrow> nat" where
  "left p = length (filter (\<lambda>s. \<not> satisfied s) (dp_steps p))"

definition no_failure :: "deployment_plan \<Rightarrow> bool" where
  "no_failure p \<longleftrightarrow> (\<forall>s \<in> set (dp_steps p). ds_status s \<noteq> FAILED)"

lemma step_rest:
  assumes "list_all2 (\<lambda>s t. ds_id t = ds_id s \<and> (if ds_id s = i then ds_status t = VERIFIED else t = s)) ss ts"
  shows "length (filter (\<lambda>s. \<not> satisfied s) ts) \<le> length (filter (\<lambda>s. \<not> satisfied s) ss)"
    and "(\<exists>s \<in> set ss. ds_id s = i \<and> \<not> satisfied s) \<Longrightarrow>
      length (filter (\<lambda>s. \<not> satisfied s) ts) < length (filter (\<lambda>s. \<not> satisfied s) ss)"
    and "(\<forall>s \<in> set ss. ds_status s \<noteq> FAILED) \<Longrightarrow> (\<forall>t \<in> set ts. ds_status t \<noteq> FAILED)"
  using assms by (induction rule: list_all2_induct) (auto simp: satisfied_def split: if_splits)

lemma executeStep_rest:
  assumes "executeStep fuel sha deps step m w = (Inr x, w')" "step \<in> set (dp_steps (plan_of w))" "\<not> satisfied step"
  shows "left (plan_of w') < left (plan_of w)" "no_failure (plan_of w) \<Longrightarrow> no_failure (plan_of w')"
proof -
  let ?ss = "dp_steps (plan_of w)" and ?ts = "dp_steps (plan_of w')" and ?i = "ds_id step"
  note facts = executeStep_verified [OF assms(1)]
  then have plan: "map unrun ?ss = map unrun ?ts" by (simp add: same_plan_as_def)
  then have len: "length ?ts = length ?ss" by (metis length_map)
  have "ds_id (?ts ! k) = ds_id (?ss ! k) \<and> (if ds_id (?ss ! k) = ?i then ds_status (?ts ! k) = VERIFIED else ?ts ! k = ?ss ! k)"
    if k: "k < length ?ss" for k
  proof -
    have "unrun (?ss ! k) = unrun (?ts ! k)" using arg_cong [OF plan, of "\<lambda>l. l ! k"] k len by simp
    then have id: "ds_id (?ts ! k) = ds_id (?ss ! k)" using unrun_fields by metis
    have "others ?i (plan_of w') ! k = others ?i (plan_of w) ! k" using facts by simp
    moreover have "ds_id (?ts ! k) = ?i \<longrightarrow> ds_status (?ts ! k) = VERIFIED"
      using facts k len unfolding verified_in_def by (metis nth_mem)
    ultimately show ?thesis using id k len by (auto simp: others_def split: if_splits)
  qed
  then have rel: "list_all2 (\<lambda>s t. ds_id t = ds_id s \<and> (if ds_id s = ?i then ds_status t = VERIFIED else t = s)) ?ss ?ts"
    using len by (simp add: list_all2_conv_all_nth)
  show "left (plan_of w') < left (plan_of w)" using step_rest(2) [OF rel] assms(2,3) by (auto simp: left_def)
  show "no_failure (plan_of w) \<Longrightarrow> no_failure (plan_of w')" using step_rest(3) [OF rel] by (simp add: no_failure_def)
qed

section \<open>Runs of a valid plan\<close>

lemma nextStep_None:
  assumes "nextStep run = None" "distinct (map ds_id (dp_steps (dr_plan run)))" "in_order (dp_steps (dr_plan run))" "no_failure (dr_plan run)"
  shows "\<forall>s \<in> set (dp_steps (dr_plan run)). satisfied s"
proof (rule ccontr)
  let ?p = "dr_plan run"
  assume "\<not> ?thesis"
  then have "\<exists>s \<in> set (dp_steps ?p). \<not> satisfied s" by blast
  with assms(3) obtain i where i: "i < length (dp_steps ?p)" "\<not> satisfied (dp_steps ?p ! i)"
    "set (ds_dependencyIds (dp_steps ?p ! i)) \<subseteq> set (done_ids ?p)" by (rule first_unsatisfied)
  let ?s = "dp_steps ?p ! i"
  have "ds_id ?s \<notin> set (done_ids ?p)"
  proof
    assume "ds_id ?s \<in> set (done_ids ?p)"
    then obtain t where "t \<in> set (dp_steps ?p)" "satisfied t" "ds_id t = ds_id ?s" by (auto simp: done_ids_def)
    with assms(2) i show False by (metis distinct_map inj_onD nth_mem)
  qed
  with i have "\<exists>s \<in> set (dp_steps ?p). ds_id s \<notin> set (done_ids ?p) \<and> set (ds_dependencyIds s) \<subseteq> set (done_ids ?p)"
    by (metis nth_mem)
  with assms(1,4) show False unfolding nextStep_def find_None_iff no_failure_def by blast
qed

lemma nextStep_unsatisfied: "nextStep run = Some s \<Longrightarrow> s \<in> set (dp_steps (dr_plan run)) \<and> \<not> satisfied s"
  by (auto simp: nextStep_def find_Some_iff done_ids_def)

lemma same_plan_shape:
  assumes "same_plan_as p q"
  shows "map ds_id (dp_steps q) = map ds_id (dp_steps p)" and "in_order (dp_steps q) = in_order (dp_steps p)"
proof -
  from assms have eq: "map unrun (dp_steps p) = map unrun (dp_steps q)" by (simp add: same_plan_as_def)
  then have len: "length (dp_steps p) = length (dp_steps q)" by (metis length_map)
  have fields: "ds_id (dp_steps q ! k) = ds_id (dp_steps p ! k) \<and> ds_dependencyIds (dp_steps q ! k) = ds_dependencyIds (dp_steps p ! k)"
    if "k < length (dp_steps p)" for k
    using arg_cong [OF eq, of "\<lambda>l. l ! k"] that len unrun_fields [of "dp_steps p ! k" "dp_steps q ! k"] by simp
  with len show "map ds_id (dp_steps q) = map ds_id (dp_steps p)" by (auto intro: nth_equalityI)
  have "(\<exists>j < i. ds_id (dp_steps q ! j) = d) \<longleftrightarrow> (\<exists>j < i. ds_id (dp_steps p ! j) = d)" if "i < length (dp_steps p)" for i d
    using fields that by (metis order_less_trans)
  with fields len show "in_order (dp_steps q) = in_order (dp_steps p)" by (simp add: in_order_def)
qed

lemma execute_steps_done:
  assumes "execute_steps n fuel sha deps m w = (Inr x, w')" "left (plan_of w) \<le> n" "no_failure (plan_of w)"
    "distinct (map ds_id (dp_steps (plan_of w)))" "in_order (dp_steps (plan_of w))"
  shows "\<forall>s \<in> set (dp_steps (plan_of w')). satisfied s"
  using assms
proof (induction n arbitrary: w)
  case 0
  then show ?case by (auto simp: op_return_def left_def filter_empty_conv)
next
  case (Suc n)
  show ?case
  proof (cases "nextStep (w_run w)")
    case None
    with Suc.prems show ?thesis using nextStep_None by (auto simp: op_bind_def op_run_def op_return_def)
  next
    case (Some step)
    with Suc.prems(1) obtain y w1 where run: "executeStep fuel sha deps step m w = (Inr y, w1)"
      and rest: "execute_steps n fuel sha deps m w1 = (Inr x, w')"
      by (auto simp: op_bind_def op_run_def split: prod.splits sum.splits)
    note step = nextStep_unsatisfied [OF Some]
    have "same_plan_as (plan_of w) (plan_of w1)" using executeStep_verified [OF run] by blast
    with Suc.prems executeStep_rest [OF run] step show ?thesis
      using Suc.IH [OF rest] same_plan_shape by simp
  qed
qed

text \<open>Resuming marks steps as satisfied, never as failed.\<close>

lemma updates_no_failure:
  assumes "updates (permitted sha m S (\<lambda>i st. st \<noteq> FAILED)) w w'" "no_failure (plan_of w)"
  shows "no_failure (plan_of w')"
  using assms
proof (induction rule: updates.induct)
  case (more w w' u)
  then show ?case
    by (cases u) (simp_all add: on_run_def no_failure_def setStatus_plan_def del: if_image_distrib)
qed

lemma resume_no_failure:
  assumes "orch_resume sha num deps m w = (r, w')" "no_failure (plan_of w)"
  shows "no_failure (plan_of w') \<and> same_plan_as (plan_of w) (plan_of w')"
proof -
  have "via (permitted sha m UNIV (\<lambda>i st. st \<noteq> FAILED)) (orch_resume sha num deps m)" by (rule via_resume) simp
  then have "updates (permitted sha m UNIV (\<lambda>i st. st \<noteq> FAILED)) w w'" using assms(1) by (rule viaD)
  with assms(2) show ?thesis using updates_no_failure updates_plan by blast
qed

lemma left_bound: "left p \<le> length (dp_steps p)"
  by (simp add: left_def)

lemma runToCompletion_Inr:
  assumes "runToCompletion n fuel sha num deps m w = (Inr x, w')"
  obtains u1 w1 u2 w2 where "orch_resume sha num deps m w = (Inr u1, w1)" "execute_steps n fuel sha deps m w1 = (Inr u2, w2)"
    "finish_run deps w2 = (Inr x, w')"
  using assms by (auto simp: runToCompletion_def op_bind_def split: prod.splits sum.splits)

section \<open>What a run leaves\<close>

lemma run_calls:
  assumes "runToCompletion n fuel sha num deps m w = (r, w')"
  shows "\<exists>cs. w_calls w' = w_calls w @ cs \<and> (\<forall>c \<in> set cs. covered sha m (plan_steps_upto w) c) \<and>
      (cs \<noteq> [] \<longrightarrow> state_of w \<in> set RESUMABLE_STATES \<and> assertApprovedFor sha num (plan_of w) m = Inr ())"
  using assms
proof (cases rule: runToCompletion_parts)
  case refused
  then show ?thesis by simp
next
  case stopped
  then show ?thesis using updates_calls [OF stopped(1)] by blast
next
  case (finished w1)
  moreover have "w_calls w' = w_calls w1" using finish_run_cases [OF finished(2)] by blast
  ultimately show ?thesis using updates_calls [OF finished(1)] by simp
qed

lemma run_plan:
  assumes "runToCompletion n fuel sha num deps m w = (r, w')"
  shows "same_plan_as (plan_of w) (plan_of w')"
  using assms
proof (cases rule: runToCompletion_parts)
  case refused
  then show ?thesis by (simp add: same_plan_as_def)
next
  case stopped
  then show ?thesis using updates_plan by blast
next
  case (finished w1)
  moreover have "plan_of w' = plan_of w1" using finish_run_cases [OF finished(2)] by blast
  ultimately show ?thesis using updates_plan by metis
qed

lemma run_state:
  assumes "runToCompletion n fuel sha num deps m w = (r, w')"
  shows "can_move\<^sup>*\<^sup>* (state_of w) (state_of w') \<and>
      (state_of w \<in> set RESUMABLE_STATES \<longrightarrow> state_of w' \<in> set RESUMABLE_STATES \<or> state_of w' = READY_TO_ACTIVATE)"
  using assms
proof (cases rule: runToCompletion_parts)
  case refused
  then show ?thesis by simp
next
  case stopped
  then show ?thesis using updates_state [OF stopped(1)] by blast
next
  case (finished w1)
  have "can_move\<^sup>*\<^sup>* (state_of w1) (state_of w')" "state_of w' = state_of w1 \<or> state_of w' = READY_TO_ACTIVATE"
    using finish_run_cases [OF finished(2)] by blast+
  with updates_state [OF finished(1)] show ?thesis by (metis rtranclp_trans)
qed

section \<open>Properties\<close>

lemma nothing_unapproved_runs_parts:
  assumes run: "runToCompletion n fuel sha num deps m w = (r, w')"
  shows "\<exists>cs. w_calls w' = w_calls w @ cs \<and>
      (\<forall>c \<in> set cs. covered sha m {s. unrun s \<in> unrun ` set (dp_steps (dr_plan (w_run w)))} c) \<and>
      (cs \<noteq> [] \<longrightarrow> dr_state (w_run w) \<in> set RESUMABLE_STATES \<and> assertApprovedFor sha num (dr_plan (w_run w)) m = Inr ())"
    and "map unrun (dp_steps (dr_plan (w_run w'))) = map unrun (dp_steps (dr_plan (w_run w))) \<and>
      dp_approval (dr_plan (w_run w')) = dp_approval (dr_plan (w_run w)) \<and>
      deploymentPlanHash sha num (dr_plan (w_run w')) = deploymentPlanHash sha num (dr_plan (w_run w))"
    and "can_move\<^sup>*\<^sup>* (dr_state (w_run w)) (dr_state (w_run w')) \<and>
      (dr_state (w_run w) \<in> set RESUMABLE_STATES \<longrightarrow>
        dr_state (w_run w') \<in> set RESUMABLE_STATES \<or> dr_state (w_run w') = READY_TO_ACTIVATE)"
proof -
  show "\<exists>cs. w_calls w' = w_calls w @ cs \<and>
      (\<forall>c \<in> set cs. covered sha m {s. unrun s \<in> unrun ` set (dp_steps (dr_plan (w_run w)))} c) \<and>
      (cs \<noteq> [] \<longrightarrow> dr_state (w_run w) \<in> set RESUMABLE_STATES \<and> assertApprovedFor sha num (dr_plan (w_run w)) m = Inr ())"
    by (rule run_calls [OF run])
  note plan = run_plan [OF run]
  then have "dp_approval (plan_of w') = dp_approval (plan_of w)"
    by (cases "plan_of w"; cases "plan_of w'"; simp add: same_plan_as_def)
  with plan same_plan_hash(1) [OF plan] show "map unrun (dp_steps (plan_of w')) = map unrun (dp_steps (plan_of w)) \<and>
      dp_approval (plan_of w') = dp_approval (plan_of w) \<and> deploymentPlanHash sha num (plan_of w') = deploymentPlanHash sha num (plan_of w)"
    by (simp add: same_plan_as_def)
qed (rule run_state [OF run])


text \<open>
  C5: A deployment is ready only when everything in it is done. If a run that was not ready before
  is in \<open>READY_TO_ACTIVATE\<close> afterwards, then the run returned normally, every step of the plan is
  verified or was found already satisfied, and the plan carries an approval for the manifest it ran
  with. No run of any length, and no answer of a dependency, makes it ready otherwise.
\<close>

theorem ready_only_when_done:
  assumes run: "runToCompletion n fuel sha num deps m w = (r, w')"
    and "dr_state (w_run w) \<noteq> READY_TO_ACTIVATE" "dr_state (w_run w') = READY_TO_ACTIVATE"
  shows "r = Inr () \<and> (\<forall>s \<in> set (dp_steps (dr_plan (w_run w'))). satisfied s) \<and>
    assertApprovedFor sha num (dr_plan (w_run w')) m = Inr ()"
  using run
proof (cases rule: runToCompletion_parts)
  case refused
  with assms(2,3) show ?thesis by simp
next
  case stopped
  with assms(3) updates_state [OF stopped(1)] show ?thesis by (simp add: in_resumable)
next
  case (finished w1)
  with updates_state [OF finished(1)] have "state_of w1 \<noteq> READY_TO_ACTIVATE" by (auto simp: in_resumable)
  with finish_run_cases [OF finished(2)] assms(3)
  have "r = Inr () \<and> (\<forall>s \<in> set (dp_steps (plan_of w')). satisfied s)" by blast
  with finished(4) same_plan_hash(2) [OF run_plan [OF run]] show ?thesis by metis
qed

text \<open>
  C6: A valid plan is run to its end. If the plan passes \<open>validatePlan\<close>, no step has failed and the
  step budget is at least the number of steps, then a run that returns without throwing has reached
  \<open>READY_TO_ACTIVATE\<close>: it never stops silently with steps left over. Each step executed is one that
  was unsatisfied, ends verified, and leaves every other step as it was.
\<close>

theorem validated_run_completes:
  assumes "validatePlan (dr_plan (w_run w)) signers = Inr ()" "\<forall>s \<in> set (dp_steps (dr_plan (w_run w))). ds_status s \<noteq> FAILED"
    and "length (dp_steps (dr_plan (w_run w))) \<le> maxSteps"
    and run: "runToCompletion maxSteps fuel sha num deps m w = (Inr x, w')"
  shows "dr_state (w_run w') = READY_TO_ACTIVATE \<and> (\<forall>s \<in> set (dp_steps (dr_plan (w_run w'))). satisfied s)"
proof -
  from run obtain u1 w1 u2 w2 where res: "orch_resume sha num deps m w = (Inr u1, w1)"
    and steps: "execute_steps maxSteps fuel sha deps m w1 = (Inr u2, w2)" and fin: "finish_run deps w2 = (Inr x, w')"
    by (rule runToCompletion_Inr)
  have "no_failure (plan_of w)" using assms(2) by (simp add: no_failure_def)
  with resume_no_failure [OF res] have one: "no_failure (plan_of w1)" "same_plan_as (plan_of w) (plan_of w1)" by blast+
  note shape = same_plan_shape [OF one(2)]
  have "length (dp_steps (plan_of w1)) = length (dp_steps (plan_of w))" using shape(1) by (metis length_map)
  with assms(3) left_bound [of "plan_of w1"] have "left (plan_of w1) \<le> maxSteps" by simp
  with execute_steps_done [OF steps _ one(1)] assms(1) shape
  have all: "\<forall>s \<in> set (dp_steps (plan_of w2)). satisfied s" by (simp add: validatePlan_iff)
  moreover have "plan_of w' = plan_of w2" using finish_run_cases [OF fin] by blast
  ultimately show ?thesis using finish_run_cases [OF fin] by simp
qed

section \<open>Witnesses\<close>

text \<open>
  Dependencies under which the sample deployment runs: the chain of \<open>sample_reader\<close>, one
  confirmation, and an observer that sees the chain itself and sees a contract once its address is
  known. With \<open>flaky_deps\<close> the block number cannot be read before tick 8, and the account's nonce advances
  to 8 at that tick.
\<close>

definition sample_observe :: "tick \<Rightarrow> deployment_step \<Rightarrow> deployment_manifest \<Rightarrow> (string \<times> string) list \<Rightarrow> thrown + observation" where
  "sample_observe t step m addresses =
     Inr \<lparr>ob_satisfied = (ds_type step = VERIFY_CHAIN \<or> map_of addresses (ds_id step) \<noteq> None), ob_evidence = ''seen'', ob_createdAddress = None\<rparr>"

definition sample_deps :: orchestrator_deps where
  "sample_deps = \<lparr>od_readers = [84532 \<mapsto> sample_reader], od_timing = sample_timing, od_confirmations = 1,
     od_sendTransaction = (\<lambda>t req. Inr (''0x'' @ show_int (sn_nonce req))),
     od_resolveCalldata = (\<lambda>t step m. Inr \<lparr>pr_to = None, pr_data = ''0x6080'', pr_value = 0\<rparr>),
     od_observe = sample_observe, od_currentArtifact = (\<lambda>t. Inr None),
     od_deploy = (\<lambda>t a. Inl (ThrownOther ''unused'')), od_lifecycle = (\<lambda>t w a. Inr ''PAUSED''), od_authValid = (\<lambda>t. Inr True),
     od_build = (\<lambda>t a. Inr ''sha256:i''), od_scan = (\<lambda>t d. Inr \<lparr>sv_promotable = True, sv_detail = ''clean''\<rparr>),
     od_publish = (\<lambda>t d. Inr ()), od_createDisabled = (\<lambda>t a d. Inr ''r'')\<rparr>"

definition flaky_reader :: chain_reader where
  "flaky_reader = sample_reader\<lparr>
     cr_getBlockNumber := (\<lambda>t. if t < 8 then Inl (RpcError TIMEOUT ''timeout'') else Inr 20),
     cr_getTransactionCount := (\<lambda>t a. Inr (if t < 8 then 7 else 8))\<rparr>"

definition flaky_deps :: orchestrator_deps where
  "flaky_deps = sample_deps\<lparr>od_readers := [84532 \<mapsto> flaky_reader]\<rparr>"

definition sample_world :: world where
  "sample_world = \<lparr>w_run = newRun ''d'' approved_plan, w_tick = 0, w_calls = []\<rparr>"

text \<open>Facts that evaluate an operation on a concrete world. Continuations are not simplified before they are applied.\<close>

lemma op_bind_frozen: "op_bind m f = op_bind m f"
  by (rule refl)

lemmas op_defs = op_bind_def op_run_def op_return_def op_throw_def op_sum_def op_do_def op_log_def op_try_def op_await_def op_now_def
  op_finality_def on_run_def moveTo_def assertTransition_def can_move_iff RESUMABLE_STATES_def thrown_by_def Let_def

lemmas receipt_defs = newTransactionRecord_def recordSendOutcome_def waitForFinality_def waitForReceipt_def reconcile_def
  settle_by_receipt_def settled_def assertMinedSuccessfully_def assertSafeToRetry_def sample_receipt_def

lemmas step_defs = executeStep_def step_handler_def executeWrite_def send_step_def step_signer_def calldata_approved_def
  ENABLING_STEP_TYPES_def nextStep_def done_ids_def satisfied_def setStatus_plan_def set_address_def truthy_def

lemmas resume_defs = orch_resume_def resume_transaction_def resume_step_def approval_ignores_steps

lemma sample_selectors:
  "od_readers sample_deps = [84532 \<mapsto> sample_reader]" "od_readers flaky_deps = [84532 \<mapsto> flaky_reader]"
  "od_timing sample_deps = sample_timing" "od_timing flaky_deps = sample_timing"
  "od_confirmations sample_deps = 1" "od_confirmations flaky_deps = 1"
  "od_sendTransaction sample_deps t req = Inr (''0x'' @ show_int (sn_nonce req))"
  "od_sendTransaction flaky_deps t req = Inr (''0x'' @ show_int (sn_nonce req))"
  "od_resolveCalldata sample_deps t step m = Inr \<lparr>pr_to = None, pr_data = ''0x6080'', pr_value = 0\<rparr>"
  "od_resolveCalldata flaky_deps t step m = Inr \<lparr>pr_to = None, pr_data = ''0x6080'', pr_value = 0\<rparr>"
  "od_observe sample_deps = sample_observe" "od_observe flaky_deps = sample_observe"
  "tm_now sample_timing t = 1000 * int t" "tm_sleep sample_timing t ms = t + nat ms"
  "cr_getTransactionCount sample_reader t a = Inr 7" "cr_getTransactionCount flaky_reader t a = Inr (if t < 8 then 7 else 8)"
  "cr_getTransactionReceipt sample_reader t h = Inr (Some sample_receipt)"
  "cr_getTransactionReceipt flaky_reader t h = Inr (Some sample_receipt)"
  "cr_getBlockNumber sample_reader t = Inr (int t + 10)"
  "cr_getBlockNumber flaky_reader t = (if t < 8 then Inl (RpcError TIMEOUT ''timeout'') else Inr 20)"
  by (simp_all add: sample_deps_def flaky_deps_def sample_timing_def sample_reader_def flaky_reader_def)

lemma sample_texts:
  "BigInt ''0'' = Some 0" "toLowerCase ''0x7'' = ''0x7''" "toLowerCase ''0x8'' = ''0x8''" "show_int 7 = ''7''" "show_int 8 = ''8''"
  by code_simp+

lemma sample_approved: "assertApprovedFor id sample_num approved_plan sample_manifest = Inr ()"
  using approval_binding(1) [OF sample_approve refl refl] by simp

lemma approved_steps: "dp_steps approved_plan = [sample_dstep, sample_write]"
  by (simp add: approved_plan_def ready_plan_def sample_dplan_def)

lemma sample_write_allowed: "assertWriteAllowed (dm_environment sample_manifest) 84532 = Inr ()"
  by (simp add: write_allowed_iff sample_manifest_def testnetEnvironment_def BASE_SEPOLIA_def KNOWN_MAINNET_CHAIN_IDS_def)

lemma sample_signers:
  "dm_requiredSigners sample_manifest = [\<lparr>sr_signerId = ''deployer'', sr_role = DEPLOYER, sr_address = Some ''0xa'',
     sr_mode = BROWSER_WALLET, sr_chainIds = [84532], sr_authorizes = ''deploy''\<rparr>]"
  by (simp add: sample_manifest_def)

lemmas sample_facts = sample_selectors sample_texts sample_approved approved_steps sample_write_allowed sample_signers
  sample_observe_def sample_write_def sample_dstep_def newRun_def

lemmas sample_eval = op_defs receipt_defs step_defs resume_defs sample_facts

definition looked_at :: world where
  "looked_at = \<lparr>w_run = (newRun ''d'' (approved_plan\<lparr>dp_steps := [sample_dstep\<lparr>ds_status := SKIPPED_ALREADY_SATISFIED\<rparr>, sample_write]\<rparr>))
     \<lparr>dr_events := [\<lparr>ev_atMs = 1000, ev_stepId = Some ''verify-chain'', ev_message = AlreadySatisfied ''seen''\<rparr>]\<rparr>,
     w_tick = 2, w_calls = []\<rparr>"

lemma sample_resume:
  "orch_resume id sample_num sample_deps sample_manifest sample_world = (Inr (), looked_at)"
  "orch_resume id sample_num flaky_deps sample_manifest sample_world = (Inr (), looked_at)"
  by (simp_all add: sample_eval sample_world_def looked_at_def cong: op_bind_frozen)

lemma sample_next: "nextStep (w_run looked_at) = Some sample_write"
  by (simp add: sample_eval looked_at_def)

lemma sample_step:
  "\<exists>w. executeStep 1 id sample_deps sample_write sample_manifest looked_at = (Inr (), w) \<and> dr_state (w_run w) = DEPLOYING_CHAIN_COMPONENTS \<and>
     map ds_status (dp_steps (dr_plan (w_run w))) = [SKIPPED_ALREADY_SATISFIED, VERIFIED]"
  unfolding looked_at_def by (simp add: sample_eval cong: op_bind_frozen, simp add: write_sent_def sample_eval cong: op_bind_frozen)


lemma nextStep_done: "\<forall>s \<in> set (dp_steps (dr_plan run)). satisfied s \<Longrightarrow> nextStep run = None"
  by (auto simp: nextStep_def find_None_iff done_ids_def)

lemma all_satisfied: "set (map ds_status ss) \<subseteq> {VERIFIED, SKIPPED_ALREADY_SATISFIED} \<Longrightarrow> \<forall>s \<in> set ss. satisfied s"
  by (auto simp: satisfied_def)

text \<open>A run whose first step is its last one.\<close>

lemma one_step_run:
  assumes "orch_resume sha num deps m w = (Inr (), w1)" "nextStep (w_run w1) = Some s"
    "executeStep fuel sha deps s m w1 = (Inr (), w2)" "\<forall>s \<in> set (dp_steps (plan_of w2)). satisfied s"
    "state_of w2 \<in> set RESUMABLE_STATES"
  shows "\<exists>w'. runToCompletion 2 fuel sha num deps m w = (Inr (), w') \<and> state_of w' = READY_TO_ACTIVATE \<and> w_calls w' = w_calls w2"
proof -
  obtain r w' where fin: "finish_run deps w2 = (r, w')" by fastforce
  then have "r = Inr ()" "state_of w' = READY_TO_ACTIVATE" "w_calls w' = w_calls w2"
    using finish_run_cases [OF fin] assms(4,5) by auto
  with assms nextStep_done [OF assms(4)] fin show ?thesis
    by (simp add: runToCompletion_def op_bind_def op_run_def op_return_def numeral_2_eq_2)
qed

lemma sample_deployment_run: "\<exists>w'. runToCompletion 2 1 id sample_num sample_deps sample_manifest sample_world = (Inr (), w') \<and> state_of w' = READY_TO_ACTIVATE"
proof -
  obtain w where step: "executeStep 1 id sample_deps sample_write sample_manifest looked_at = (Inr (), w)"
    and st: "state_of w = DEPLOYING_CHAIN_COMPONENTS" "map ds_status (dp_steps (plan_of w)) = [SKIPPED_ALREADY_SATISFIED, VERIFIED]"
    by (rule exE [OF sample_step]) (elim conjE, rule that)
  have "\<forall>s \<in> set (dp_steps (plan_of w)). satisfied s" by (rule all_satisfied) (simp add: st del: set_map)
  moreover have "state_of w \<in> set RESUMABLE_STATES" using st by (simp add: in_resumable)
  ultimately show ?thesis using one_step_run [OF sample_resume(1) sample_next step] by blast
qed

definition stopped_world :: world where
  "stopped_world = looked_at\<lparr>w_run := (w_run looked_at)\<lparr>
       dr_state := DEPLOYING_CHAIN_COMPONENTS,
       dr_plan := approved_plan\<lparr>dp_steps := [sample_dstep\<lparr>ds_status := SKIPPED_ALREADY_SATISFIED\<rparr>, sample_write\<lparr>ds_status := SUBMITTED_STEP\<rparr>]\<rparr>,
       dr_transactions := [(''deploy-token'', (newTransactionRecord ''deploy-token'' 84532 ''0xa'' 7 None)
          \<lparr>tx_txHash := Some ''0x7'', tx_submittedAtMs := Some 5000, tx_state := SUBMITTED\<rparr>)],
       dr_events := dr_events (w_run looked_at) @
          [\<lparr>ev_atMs = 2000, ev_stepId = None, ev_message = MovedState DEPLOYMENT_APPROVED DEPLOYING_CHAIN_COMPONENTS\<rparr>]\<rparr>,
     w_tick := 7,
     w_calls := [Sent sample_write \<lparr>sn_chainId = 84532, sn_from = ''0xa'', sn_to = None, sn_data = ''0x6080'', sn_value = 0, sn_nonce = 7, sn_gas = 0\<rparr>]\<rparr>"

lemma flaky_step:
  "executeStep 1 id flaky_deps sample_write sample_manifest looked_at = (Inl (Escaped (ThrownRpc (RpcError TIMEOUT ''timeout''))), stopped_world)"
  unfolding looked_at_def stopped_world_def
  by (simp add: sample_eval cong: op_bind_frozen, simp add: write_sent_def sample_eval cong: op_bind_frozen)

lemma flaky_run:
  "runToCompletion 2 1 id sample_num flaky_deps sample_manifest sample_world =
     (Inl (Escaped (ThrownRpc (RpcError TIMEOUT ''timeout''))), stopped_world)"
  using sample_resume(2) sample_next flaky_step by (simp add: runToCompletion_def op_bind_def op_run_def numeral_2_eq_2)

lemma flaky_resume:
  "orch_resume id sample_num flaky_deps sample_manifest stopped_world = (Inr (), stopped_world\<lparr>w_tick := 8\<rparr>)"
  by (simp add: sample_eval stopped_world_def looked_at_def cong: op_bind_frozen)

lemma flaky_next: "nextStep (w_run (stopped_world\<lparr>w_tick := 8\<rparr>)) = Some (sample_write\<lparr>ds_status := SUBMITTED_STEP\<rparr>)"
  by (simp add: sample_eval stopped_world_def looked_at_def)

lemma flaky_step_again:
  "\<exists>w. executeStep 1 id flaky_deps (sample_write\<lparr>ds_status := SUBMITTED_STEP\<rparr>) sample_manifest (stopped_world\<lparr>w_tick := 8\<rparr>) = (Inr (), w) \<and>
     dr_state (w_run w) = DEPLOYING_CHAIN_COMPONENTS \<and>
     map ds_status (dp_steps (dr_plan (w_run w))) = [SKIPPED_ALREADY_SATISFIED, VERIFIED] \<and>
     w_calls w = w_calls stopped_world @ [Sent (sample_write\<lparr>ds_status := SUBMITTED_STEP\<rparr>)
       \<lparr>sn_chainId = 84532, sn_from = ''0xa'', sn_to = None, sn_data = ''0x6080'', sn_value = 0, sn_nonce = 8, sn_gas = 0\<rparr>]"
  unfolding stopped_world_def looked_at_def
  by (simp add: sample_eval cong: op_bind_frozen, simp add: write_sent_def sample_eval cong: op_bind_frozen)


text \<open>
  What may have happened is not done again blindly. A step whose recorded transaction is of
  unknown outcome or has already succeeded is refused: executing it makes no call on the outside
  world, changes no record and no status, and throws. A step that would enable the deployment is
  refused in every state.
\<close>

theorem unknown_submission_blocks:
  assumes "executeStep fuel sha deps step m w = (r, w')"
    and "ds_type step = ACTIVATE \<or>
      (\<exists>tx. map_of (dr_transactions (w_run w)) (ds_id step) = Some tx \<and> tx_state tx \<in> {UNKNOWN_SUBMISSION_STATE, MINED_SUCCESS})"
  shows "(\<exists>e. r = Inl e) \<and> w_calls w' = w_calls w \<and> dr_transactions (w_run w') = dr_transactions (w_run w) \<and>
    dr_plan (w_run w') = dr_plan (w_run w)"
proof (cases "ds_type step = ACTIVATE")
  case True
  with assms(1) show ?thesis by (auto simp: executeStep_def ENABLING_STEP_TYPES_def fail_step_def op_throw_def)
next
  case False
  with assms(2) obtain tx where tx: "map_of (dr_transactions (w_run w)) (ds_id step) = Some tx"
    "assertSafeToRetry tx \<noteq> Inr ()" by (auto simp: safe_to_retry_iff)
  then obtain e where e: "assertSafeToRetry tx = Inl e" by (cases "assertSafeToRetry tx") auto
  have kept: "w_calls w1 = w_calls w \<and> dr_transactions (w_run w1) = dr_transactions (w_run w) \<and> plan_of w1 = plan_of w"
    if "moveTo deps p w = (q, w1)" for p q w1
    using that by (auto simp: moveTo_def op_bind_def op_run_def op_return_def op_sum_def op_throw_def op_log_def op_do_def on_run_def
        split: if_splits sum.splits)
  show ?thesis
  proof (cases "phaseFor (ds_type step)")
    case (Inl err)
    with assms(1) False show ?thesis
      by (auto simp: executeStep_def ENABLING_STEP_TYPES_def op_bind_def op_sum_def op_throw_def)
  next
    case (Inr p)
    obtain q w1 where m: "moveTo deps p w = (q, w1)" by fastforce
    with assms(1) False Inr e tx kept [OF m] show ?thesis
      by (cases q) (auto simp: executeStep_def ENABLING_STEP_TYPES_def op_bind_def op_sum_def op_throw_def op_return_def op_run_def)
  qed
qed


theorem ready_only_when_done_witness:
  "\<exists>w'. runToCompletion 2 1 id sample_num sample_deps sample_manifest sample_world = (Inr (), w') \<and>
     (\<forall>s \<in> set (dp_steps (dr_plan (w_run w'))). satisfied s) \<and> assertApprovedFor id sample_num (dr_plan (w_run w')) sample_manifest = Inr ()"
proof (rule exE [OF sample_deployment_run], elim conjE)
  fix w'
  assume run: "runToCompletion 2 1 id sample_num sample_deps sample_manifest sample_world = (Inr (), w')" "state_of w' = READY_TO_ACTIVATE"
  have "state_of sample_world \<noteq> READY_TO_ACTIVATE" by (simp add: sample_world_def newRun_def)
  from ready_only_when_done [OF run(1) this run(2)] run(1) show ?thesis by (intro exI [of _ w'] conjI) simp_all
qed

theorem validated_run_completes_witness:
  "\<exists>w'. runToCompletion 2 1 id sample_num sample_deps sample_manifest sample_world = (Inr (), w') \<and> dr_state (w_run w') = READY_TO_ACTIVATE"
proof (rule exE [OF sample_deployment_run], elim conjE)
  fix w'
  assume run: "runToCompletion 2 1 id sample_num sample_deps sample_manifest sample_world = (Inr (), w')"
  have plan: "dp_steps (plan_of sample_world) = [sample_dstep, sample_write]" by (simp add: sample_world_def newRun_def approved_steps)
  then have "validatePlan (plan_of sample_world) [''deployer''] = Inr ()"
    using sample_dplan_valid by (simp add: validatePlan_def sample_dplan_def)
  moreover have "\<forall>s \<in> set (dp_steps (plan_of sample_world)). ds_status s \<noteq> FAILED" by (simp add: plan sample_dplan_defs)
  ultimately have "state_of w' = READY_TO_ACTIVATE" using validated_run_completes [OF _ _ _ run] plan by simp
  with run show ?thesis by (intro exI [of _ w'] conjI)
qed

definition mined_world :: world where
  "mined_world = sample_world\<lparr>w_run := (w_run sample_world)\<lparr>dr_transactions :=
     [(''deploy-token'', (newTransactionRecord ''deploy-token'' 84532 ''0xa'' 7 None)\<lparr>tx_state := MINED_SUCCESS\<rparr>)]\<rparr>\<rparr>"

theorem unknown_submission_blocks_witness:
  "\<exists>e w'. executeStep 1 id sample_deps sample_write sample_manifest mined_world = (Inl e, w') \<and> w_calls w' = []"
proof -
  obtain r w' where run: "executeStep 1 id sample_deps sample_write sample_manifest mined_world = (r, w')" by (rule prod.exhaust)
  have "\<exists>tx. map_of (dr_transactions (w_run mined_world)) (ds_id sample_write) = Some tx \<and> tx_state tx \<in> {UNKNOWN_SUBMISSION_STATE, MINED_SUCCESS}"
    by (simp add: mined_world_def sample_write_def)
  from unknown_submission_blocks [OF run disjI2, OF this] run show ?thesis by (auto simp: mined_world_def sample_world_def)
qed
end
