(* ===== verification/Spec2Isabelle.thy ===== *)
theory Spec2Isabelle
  imports Gateways Revisions Emergency Alerts Runtime_Health Commands Bridge
    Network Policy Protocol Adapters Request_State Providers Broker_Api Plan
    Org_Budget Org_Graph Strategy Orchestrator_Runs
begin

text \<open>
  ContextLock lets an autonomous agent move value only under a capability that a confidential policy
  has authorized for one exact transaction, and deploys the contracts, workflows and runtimes of such
  an agent under a human approval of exact hashes. This development models the code that decides:
  who may write on which chain, when a capability is minted, what a plan or a manifest hash binds,
  and what a deployment run may do. It covers the TypeScript packages named below; paths are relative
  to \<open>src/\<close>.

  \<^bold>\<open>Parts, and the theories that model them.\<close>

  \<^item> \<open>Prelude\<close>: JavaScript numbers (with NaN and infinities), strings, hexadecimal and decimal texts,
    checks in a sum type, maps in insertion order, and the two interfaces shared by several state
    machines: \<open>transition_table\<close>, and \<open>single_use\<close> for everything that may happen once for each key
    (commands with an idempotency key, signed requests with a nonce, pairing codes).
  \<^item> \<open>Network\<close>: \<open>packages/studio-network/src\<close>, the network registry, execution guards, write fences,
    broadcast flags and execution modes. Its locale \<open>fenced_operation\<close> is the contract of every
    operation that passes a fence; the relayer, the write gate of a deployment and the preparation of
    a signature are interpretations.
  \<^item> \<open>Policy\<close>: \<open>packages/policy/src/index.ts\<close>, the confidential policy.
  \<^item> \<open>Protocol\<close>, \<open>Adapters\<close>: \<open>packages/protocol/src\<close>, \<open>packages/adapters/src\<close>, capabilities with their
    hashes, and the transaction builder.
  \<^item> \<open>Request_State\<close>, \<open>Providers\<close>, \<open>Broker_Db\<close>, \<open>Broker\<close>, \<open>Broker_Steps\<close>, \<open>Broker_Props\<close>, \<open>Broker_Api\<close>:
    \<open>apps/broker/src\<close>. \<open>createRequest\<close> is cut at its awaits into segments; one call composes the
    segments, and \<open>Broker_Steps\<close> runs the segments of any number of calls in every interleaving.
  \<^item> \<open>Canonical\<close>, \<open>Plan\<close>: \<open>packages/studio-plan/src\<close>, canonical serialization, plan and step hashes, the
    step gate, the derived plan state and the arrival registry.
  \<^item> \<open>Deploy_Machine\<close>: \<open>packages/studio-orchestrator/src/machine.ts\<close> and \<open>activation.ts\<close>.
  \<^item> \<open>Deploy_Receipts\<close>: \<open>receipts.ts\<close> of the orchestrator and the reader interface
    \<open>packages/studio-deploy/src/chain.ts\<close>.
  \<^item> \<open>Deploy_Env\<close>, \<open>Deploy_Plan\<close>, \<open>Deploy_Manifest\<close>, \<open>Deploy_Cost\<close>, \<open>Deploy_Approval\<close>:
    \<open>packages/studio-deploy/src\<close>, with \<open>environment.ts\<close> and \<open>signing.ts\<close>; \<open>plan.ts\<close> and \<open>hash.ts\<close>;
    \<open>manifest.ts\<close>, \<open>reuse.ts\<close> and the gates of \<open>cre.ts\<close>; \<open>cost.ts\<close>; \<open>approval.ts\<close>.
  \<^item> \<open>Orchestrator\<close>, \<open>Orchestrator_Props\<close>, \<open>Orchestrator_Runs\<close>: \<open>orchestrator.ts\<close>.
  \<^item> \<open>Org\<close>, \<open>Org_Budget\<close>, \<open>Org_Graph\<close>: \<open>packages/studio-org/src\<close>, organizations of agents: the blueprint
    with its validator, the blast radius and the message gate; the shared-treasury ledger, whose steps
    may interleave; the nested graph. The locale \<open>spending_window\<close> is the contract of a capped sum.
  \<^item> \<open>Units\<close>, \<open>Strategy\<close>: \<open>packages/studio-strategy/src\<close> with the trust classes of \<open>packages/studio-adapters\<close>,
    typed units with their conversions and the strategy compiler.
  \<^item> \<open>Observations\<close>, \<open>Drift\<close>, \<open>Alerts\<close>, \<open>Runtime_Health\<close>, \<open>Commands\<close>, \<open>Emergency\<close>:
    \<open>packages/studio-control-plane/src\<close>, with \<open>freshness.ts\<close>, the observer of \<open>chain.ts\<close> and \<open>cre.ts\<close>; the
    reconciliation and finality of \<open>chain.ts\<close>; \<open>alerts.ts\<close>; \<open>adapters.ts\<close> and \<open>runtime.ts\<close>; \<open>commands.ts\<close>;
    \<open>emergency.ts\<close>; and what the server adds to them: the command route and the tables of
    \<open>apps/studio/src/control\<close>, the expectation and the LIVE badge of \<open>apps/studio/src/fork/service.ts\<close>.
  \<^item> \<open>Egress\<close>, \<open>Bridge\<close>: \<open>packages/studio-openapi/src/egress.ts\<close>, the control of outgoing requests, and
    \<open>packages/bridge/src\<close>, the bridge on the user's machine, which calls it.
  \<^item> \<open>Runtime_Token\<close>, \<open>Gateways\<close>, \<open>Revisions\<close>: \<open>packages/studio-runtime/src\<close>, with \<open>identity.ts\<close>, the credential of
    an agent's container; \<open>gateways.ts\<close>, the four services it may talk to, whose common contract is the
    locale \<open>gateway\<close>; \<open>revision.ts\<close> and \<open>hardening.ts\<close>.

  \<^bold>\<open>How the code corresponds to the model.\<close> A function of the source has a definition of the same
  name (with a suffix where HOL has the name); a class or interface is a record, a zod enum a
  datatype. A throw is \<open>Inl\<close> of an error datatype that keeps the reason code and the data, not the
  prose. Packages that are not in the repository are parameters: \<open>viem\<close> is a record of functions,
  \<open>sha256\<close> and the printing of numbers are arguments, a chain reader and every other injected
  dependency is an arbitrary function of a tick and its arguments, so that two calls may differ and
  each may reject. The orchestrator mutates a run and throws, so its operations are functions from a
  world to a result and a world; what was written before a throw stays written. Every change it makes
  is one of the updates of \<open>run_update\<close>, and what may be updated is stated once (\<open>permitted\<close>) and
  proved of every operation by the rules \<open>via_intros\<close>.

  \<^bold>\<open>What the lemmas show.\<close> Fences: no write on a production chain passes any gate. Policy: the verdict
  is exactly its specification, and an ALLOW bounds the amount. Hashes: two requests, plans or
  manifests with the same hash agree on everything that matters, given that the hash function does
  not collide on the texts at hand. Broker: a capability exists exactly for an ALLOWED request with an
  ALLOW verdict on the hash the executor recomputes, in every interleaving; nonces are unique; replays
  return the first record. Approval: a plan is approved exactly under the listed conditions, and the
  re-check passes only on the approved manifest. Runs: nothing outside the plan and the manifest is
  called, readiness implies that every step is satisfied, a valid plan is never left unfinished by a
  run that returns. Organizations: the validator accepts exactly the separated ones, which contain every
  compromise of one agent; the ledger keeps every window under its caps. Strategies: the compiler accepts
  exactly the sound ones, its order is topological and it does not launder trust. Control plane: an observation is the chain's
  answer, drift is reported exactly, a critical drift stays open until it is reconciled, the badge LIVE is
  earned, an executed command was allowed, and an emergency lock disables the policy first and reports what
  happened. Bridge: no call on the user's machine is outside the session's permissions, and neither a request
  nor a pairing code is used twice. Runtime: a gateway acts only for the agent of an issued, valid token and
  within that agent's grants, the use of the model is bounded, and a rollback goes to a revision that was
  healthy. Some theorems state what the code does where its comments say otherwise. The theorem below composes approval, re-check, run and write gate.

  \<^bold>\<open>Bounds and fuel.\<close> The only loops without a structural bound are the two waits of \<open>receipts.ts\<close>;
  their fuel counts polls, and \<open>waits_are_bounded\<close> shows that a number of polls fixed by the timeout
  and the interval suffices under a clock that advances by the time slept. In a run, fuel that is too
  small shows as the error \<open>StillWaiting\<close>, so the safety theorems hold for every fuel. \<open>maxSteps\<close> is a
  parameter, as in the code. Integers are unbounded where the code has bigint; finite JavaScript
  numbers are exact rationals, and the model does not round.

  \<^bold>\<open>Not modelled.\<close> Message texts of errors and events; timestamps rendered as dates; keys inherited
  from \<open>Object.prototype\<close> and the ordering of integer-like object keys; UTF-16 (characters are 8 bits);
  I/O, HTTP and process plumbing; the viem chain reader; schema refinements of single fields that the
  modelled functions do not read. Of \<open>packages/studio-deploy\<close> the preflight, the secret scan and the
  model-usage forecast, of \<open>packages/studio-orchestrator\<close> image promotion, post-deployment verification
  and the recovery report are left out. Of the control plane, telemetry export (\<open>otel.ts\<close>) and the parsing of
  command line output (\<open>cre-cli.ts\<close>) are I/O, and latency percentiles and the display order of alerts
  are left out. Of the runtime, the docker and ECS providers and the generation of keys are I/O. Of the studio server only the command route, its table and the alert rows are modelled; the other studio
  packages and the workflow entry point are not, and the frontend, the scripts and the Solidity contracts
  are out of scope.
\<close>

section \<open>Properties that span components\<close>

text \<open>
  C4: From approval to transaction. A plan is approved for a manifest, a run is started from it and
  carried to its end with a manifest that may have been edited since. Every transaction of that run
  belongs to a writing step of the approved plan and goes to that step's chain, which is one of the
  approved environment's own chains and one of the three execution networks, never a production
  chain; it is signed by the account the approved manifest gives the step's signer, and where the
  approved step pins a calldata hash the calldata has it. The hash is assumed not to collide on the
  two manifests.
\<close>

theorem approved_transactions_only:
  assumes approved: "approve sha num m0 plan screen who now = Inr approved"
    and run: "runToCompletion n fuel sha num deps m \<lparr>w_run = newRun d approved, w_tick = t, w_calls = []\<rparr> = (r, w')"
    and hash: "number_text num" "inj_on sha {canonicalize num (manifestIdentity m0), canonicalize num (manifestIdentity m)}"
    and sent: "Sent step req \<in> set (w_calls w')"
  shows "\<exists>s \<in> set (dp_steps plan). ds_id s = ds_id step \<and> ds_type s \<in> set WRITING_STEP_TYPES \<and>
    ds_chainId s = Some (sn_chainId req) \<and> sn_chainId req \<in> ct_chainId ` set (de_chains (dm_environment m0)) \<and>
    sn_chainId req \<in> {11155111, 84532, 31337} \<and> \<not> isProductionChain (sn_chainId req) \<and>
    step_signer m0 s = Some (sn_from req) \<and> calldata_approved sha s (sn_data req)"
proof -
  let ?w = "\<lparr>w_run = newRun d approved, w_tick = t, w_calls = []\<rparr>"
  from run_calls [OF run] obtain cs where cs: "w_calls w' = w_calls ?w @ cs" "\<forall>c \<in> set cs. covered sha m (plan_steps_upto ?w) c"
    "cs \<noteq> [] \<longrightarrow> state_of ?w \<in> set RESUMABLE_STATES \<and> assertApprovedFor sha num (plan_of ?w) m = Inr ()" by blast
  then have "Sent step req \<in> set cs" using sent by simp
  then have cov: "covered sha m (plan_steps_upto ?w) (Sent step req)" and "cs \<noteq> []" using cs(2) by (blast, force)
  then have ok: "assertApprovedFor sha num approved m = Inr ()" using cs(3) by (simp add: newRun_def)
  have steps: "dp_steps approved = dp_steps plan" using approved by (auto simp: approve_iff)
  have gate: "step \<in> plan_steps_upto ?w" "ds_type step \<in> set WRITING_STEP_TYPES" "ds_chainId step = Some (sn_chainId req)"
    "assertWriteAllowed (dm_environment m) (sn_chainId req) = Inr ()" "step_signer m step = Some (sn_from req)"
    "calldata_approved sha step (sn_data req)"
    using cov unfolding covered.simps by blast+
  then have "unrun step \<in> unrun ` set (dp_steps plan)" by (simp add: newRun_def steps)
  then obtain s where s: "s \<in> set (dp_steps plan)" "unrun s = unrun step" by (metis imageE)
  note same = unrun_fields [OF s(2)]
  have "m\<lparr>dm_manifestId := [], dm_generatedAt := []\<rparr> = m0\<lparr>dm_manifestId := [], dm_generatedAt := []\<rparr>"
    by (rule approval_binding(3) [OF approved refl refl ok hash])
  then have man: "dm_environment m = dm_environment m0" "dm_requiredSigners m = dm_requiredSigners m0"
    by (cases m; cases m0; simp)+
  have "\<not> isProductionChain (sn_chainId req)"
    using gate(4) deployment_write.never_production [of "sn_chainId req" "dm_environment m"] by auto
  with gate(2-6) s(1) same man show ?thesis
    by (intro bexI [of _ s]) (simp_all add: write_allowed_iff step_signer_def calldata_approved_def)
qed

theorem approved_transactions_only_witness:
  "\<exists>s \<in> set (dp_steps ready_plan). ds_id s = ''deploy-token'' \<and> ds_chainId s = Some 84532 \<and> step_signer sample_manifest s = Some ''0xa''"
proof -
  have i: "inj_on id A" for A :: "string set" by simp
  have start: "sample_world = \<lparr>w_run = newRun ''d'' approved_plan, w_tick = 0, w_calls = []\<rparr>" by (simp add: sample_world_def)
  let ?req = "\<lparr>sn_chainId = 84532, sn_from = ''0xa'', sn_to = None, sn_data = ''0x6080'', sn_value = 0, sn_nonce = 7, sn_gas = 0\<rparr>"
  have "Sent sample_write ?req \<in> set (w_calls stopped_world)" by (simp add: stopped_world_def)
  from approved_transactions_only [OF sample_approve flaky_run [unfolded start] sample_number_text i this] show ?thesis
    by (auto simp: sample_write_def)
qed

end
